(* ===== verification/Prelude.thy ===== *)
theory Prelude
  imports Main "HOL-Library.Word" "HOL-Library.List_Lexorder" "HOL-Library.Char_ord"
    "HOL-Library.Sublist"
begin

text \<open>
  What the component theories share: the model's base types, Go errors as chains of wrapped
  sentinels, the ordered key-value list that stands for the state a Pebble database keeps,
  and two interfaces stated once as locales: an ordered store and a machine whose every
  operation keeps an invariant.

  Go strings and byte slices are both sequences of bytes, and the source converts freely
  between the two, so both are \<^typ>\<open>char list\<close> here (an Isabelle character is one byte).
  A \<open>time.Time\<close> is the number of nanoseconds since the zero \<open>time.Time\<close>, so
  \<open>IsZero\<close> is comparison with 0; \<open>time.Duration\<close> is a number of nanoseconds.
\<close>

section \<open>Base types\<close>

type_synonym bytes = "char list"
type_synonym u64 = "64 word"
type_synonym time = int
type_synonym duration = int

definition second :: duration where
  "second = 1000000000"

definition minute :: duration where
  "minute = 60 * second"

text \<open>Nanoseconds of a time since the Unix epoch (1970), and back.\<close>

definition UnixNano :: "time \<Rightarrow> int" where
  "UnixNano t = t - 62135596800 * second"

definition fromUnixNano :: "int \<Rightarrow> time" where
  "fromUnixNano n = n + 62135596800 * second"

named_theorems store_simps \<open>what a read returns after a write\<close>
named_theorems frame_simps \<open>what an operation leaves alone\<close>

section \<open>Errors\<close>

text \<open>
  A Go error is the list of the sentinel errors it wraps, outermost first: \<open>fmt.Errorf\<close>
  with \<open>%w\<close> puts its sentinel in front of the chain, and \<open>errors.Is\<close> searches the chain.
  \<open>Detail\<close> is an error created without a sentinel; only its text tells it apart.
\<close>

datatype sentinel =
    ErrNotFound | ErrKeyAlreadyExists | ErrNoMoreElements
  | ErrElectionNotFound | ErrNotAcceptingVotes | ErrVoteAlreadySubmitted
  | ErrInvalidBallotProof | ErrInvalidSignature | ErrInvalidCensusProof | ErrMalformedVote
  | ErrInvalidTransition | ErrInvalidDecryptionKey | ErrWorkerNotFound
  | ErrWorkerRemoved | ErrNoWorker | ErrFoldWorker | ErrJobFailed | ErrStopped
  | ErrProverUnavailable | ErrFinalizeInterrupted | ErrNothingToFinalize | ErrFinalFoldFailed
  | ErrDecryptionFailed | ErrFinalProofFailed | ErrVerificationFailed | ErrFinalizeInternal
  | ContextCanceled
  | Detail string

type_synonym gerror = "sentinel list"

definition errors_Is :: "gerror \<Rightarrow> sentinel \<Rightarrow> bool" where
  "errors_Is e s \<longleftrightarrow> s \<in> set e"

lemma errors_Is_simps [simp]:
  "errors_Is [] s \<longleftrightarrow> False"
  "errors_Is (x # e) s \<longleftrightarrow> x = s \<or> errors_Is e s"
  "errors_Is (e @ e') s \<longleftrightarrow> errors_Is e s \<or> errors_Is e' s"
  by (auto simp: errors_Is_def)

abbreviation isOk :: "'e + 'a \<Rightarrow> bool" where
  "isOk r \<equiv> \<not> isl r"

lemma isOk_iff: "isOk r \<longleftrightarrow> (\<exists>x. r = Inr x)"
  by (cases r) auto

text \<open>
  \<open>wrap d r\<close> is \<open>fmt.Errorf("...: %w", err)\<close> on the error of \<open>r\<close>: the sentinel
  \<open>d\<close> (or a text) goes in front. \<open>and_then\<close> is \<open>if err != nil { return err }\<close>.
\<close>

definition wrap :: "sentinel \<Rightarrow> gerror + 'a \<Rightarrow> gerror + 'a" where
  "wrap d r = (case r of Inl e \<Rightarrow> Inl (d # e) | Inr x \<Rightarrow> Inr x)"

definition and_then :: "'e + 'a \<Rightarrow> ('a \<Rightarrow> 'e + 'b) \<Rightarrow> 'e + 'b" where
  "and_then r f = (case r of Inl e \<Rightarrow> Inl e | Inr x \<Rightarrow> f x)"

definition require :: "bool \<Rightarrow> gerror \<Rightarrow> gerror + unit" where
  "require c e = (if c then Inr () else Inl e)"

lemma wrap_Inr [simp]: "wrap d r = Inr x \<longleftrightarrow> r = Inr x" "wrap d (Inr x) = Inr x" "wrap d (Inl e) = Inl (d # e)"
  by (auto simp: wrap_def split: sum.splits)

lemma and_then_Inr [simp]:
  "and_then r f = Inr y \<longleftrightarrow> (\<exists>x. r = Inr x \<and> f x = Inr y)" "and_then (Inr x) f = f x" "and_then (Inl e) f = Inl e"
  by (auto simp: and_then_def split: sum.splits)

lemma result_Inl:
  "wrap d r = Inl e \<longleftrightarrow> (\<exists>e'. r = Inl e' \<and> e = d # e')"
  "and_then r f = Inl e \<longleftrightarrow> r = Inl e \<or> (\<exists>x. r = Inr x \<and> f x = Inl e)"
  "require c e' = Inl e \<longleftrightarrow> \<not> c \<and> e = e'"
  by (auto simp: wrap_def and_then_def require_def split: sum.splits)

lemma require_Inr [simp]: "require c e = Inr u \<longleftrightarrow> c" "c \<Longrightarrow> require c e = Inr ()"
  by (auto simp: require_def)

section \<open>An ordered key-value list\<close>

text \<open>
  The database keeps its keys in byte order (Pebble's default comparer), so a scan of a
  prefix meets them in that order.
\<close>

definition kv_get :: "('k \<times> 'v) list \<Rightarrow> 'k \<Rightarrow> 'v option" where
  "kv_get m = map_of m"

fun kv_set :: "'k::linorder \<Rightarrow> 'v \<Rightarrow> ('k \<times> 'v) list \<Rightarrow> ('k \<times> 'v) list" where
  "kv_set k v [] = [(k, v)]"
| "kv_set k v ((k', v') # m) =
     (if k < k' then (k, v) # (k', v') # m
      else if k = k' then (k, v) # m
      else (k', v') # kv_set k v m)"

definition kv_del :: "'k \<Rightarrow> ('k \<times> 'v) list \<Rightarrow> ('k \<times> 'v) list" where
  "kv_del k m = filter (\<lambda>kv. fst kv \<noteq> k) m"

definition kv_scan :: "'a list \<Rightarrow> ('a list \<times> 'v) list \<Rightarrow> ('a list \<times> 'v) list" where
  "kv_scan p m = map (\<lambda>kv. (drop (length p) (fst kv), snd kv)) (filter (\<lambda>kv. prefix p (fst kv)) m)"

definition kv_wf :: "('k::linorder \<times> 'v) list \<Rightarrow> bool" where
  "kv_wf m \<longleftrightarrow> sorted_wrt (<) (map fst m)"

lemma kv_get_empty: "kv_get [] k = None"
  by (simp add: kv_get_def)

lemma kv_get_set: "kv_get (kv_set k v m) k' = (if k' = k then Some v else kv_get m k')"
  unfolding kv_get_def by (induction k v m rule: kv_set.induct) auto

lemma kv_get_del: "kv_get (kv_del k m) k' = (if k' = k then None else kv_get m k')"
  unfolding kv_get_def kv_del_def by (induction m) auto

lemma kv_keys_set: "set (map fst (kv_set k v m)) = insert k (set (map fst m))"
  by (induction k v m rule: kv_set.induct) auto

lemma kv_wf_empty: "kv_wf []"
  by (simp add: kv_wf_def)

lemma kv_wf_set: "kv_wf m \<Longrightarrow> kv_wf (kv_set k v m)"
proof (induction k v m rule: kv_set.induct)
  case (1 k v)
  show ?case by (simp add: kv_wf_def)
next
  case (2 k v k' v' m)
  have tl: "kv_wf m" and lt: "\<forall>x \<in> set (map fst m). k' < x"
    using "2.prems" by (auto simp: kv_wf_def)
  consider "k < k'" | "k = k'" | "k' < k" by fastforce
  then show ?case
  proof cases
    case 1
    with "2.prems" lt show ?thesis by (auto simp: kv_wf_def dest: less_trans)
  next
    case 2
    with "2.prems" show ?thesis by (simp add: kv_wf_def)
  next
    case 3
    with "2.IH" tl have "kv_wf (kv_set k v m)" by auto
    moreover have "\<forall>x \<in> set (map fst (kv_set k v m)). k' < x"
      using lt 3 by (simp only: kv_keys_set) simp
    ultimately show ?thesis using 3 by (auto simp: kv_wf_def)
  qed
qed

lemma kv_wf_filter: "kv_wf m \<Longrightarrow> kv_wf (filter P m)"
  unfolding kv_wf_def by (induction m) auto

lemma kv_wf_del: "kv_wf m \<Longrightarrow> kv_wf (kv_del k m)"
  unfolding kv_del_def by (rule kv_wf_filter)

lemma kv_wf_distinct: "kv_wf m \<Longrightarrow> distinct (map fst m)"
  unfolding kv_wf_def by (induction m) auto

lemma kv_mem_iff: "kv_wf m \<Longrightarrow> (k, v) \<in> set m \<longleftrightarrow> kv_get m k = Some v"
  by (auto simp: kv_get_def dest: kv_wf_distinct map_of_SomeD)

lemma append_less_same_prefix [simp]: "p @ a < p @ (b :: 'a::linorder list) \<longleftrightarrow> a < b"
  by (induction p) auto

lemma append_sep_inject:
  "c \<notin> set xs \<Longrightarrow> c \<notin> set ys \<Longrightarrow> xs @ c # a = ys @ c # b \<longleftrightarrow> xs = ys \<and> a = b"
proof (induction xs arbitrary: ys)
  case Nil
  then show ?case by (cases ys) auto
next
  case (Cons x xs)
  then show ?case by (cases ys) auto
qed

lemma kv_scan_Cons:
  "kv_scan p (kv # m) =
     (if prefix p (fst kv) then [(drop (length p) (fst kv), snd kv)] else []) @ kv_scan p m"
  by (simp add: kv_scan_def)

lemma kv_scan_mem: "(k, v) \<in> set (kv_scan p m) \<longleftrightarrow> (p @ k, v) \<in> set m"
  by (induction m) (auto simp: kv_scan_Cons kv_scan_def[of p "[]"] prefix_def)

lemma kv_scan_wf: "kv_wf m \<Longrightarrow> kv_wf (kv_scan p m)"
proof (induction m)
  case Nil
  show ?case by (simp add: kv_scan_def kv_wf_def)
next
  case (Cons kv m)
  then have wf: "kv_wf (kv_scan p m)" by (simp add: kv_wf_def)
  show ?case
  proof (cases "prefix p (fst kv)")
    case True
    then obtain r where r: "fst kv = p @ r" by (auto simp: prefix_def)
    have "r < k" if "(k, v) \<in> set (kv_scan p m)" for k v
      using Cons.prems that r by (fastforce simp: kv_scan_mem kv_wf_def)
    with wf r show ?thesis by (fastforce simp: kv_scan_Cons kv_wf_def)
  next
    case False
    with wf show ?thesis by (simp add: kv_scan_Cons)
  qed
qed

text \<open>
  The interface the storage layer relies on: reads after writes, and a scan that lists the
  keys under a prefix exactly once each.
\<close>

locale ordered_store =
  fixes emp :: "'m"
    and get :: "'m \<Rightarrow> 'k \<Rightarrow> 'v option"
    and put :: "'k \<Rightarrow> 'v \<Rightarrow> 'm \<Rightarrow> 'm"
    and del :: "'k \<Rightarrow> 'm \<Rightarrow> 'm"
    and wf :: "'m \<Rightarrow> bool"
  assumes get_emp: "get emp k = None"
    and get_put: "get (put k v m) k' = (if k' = k then Some v else get m k')"
    and get_del: "get (del k m) k' = (if k' = k then None else get m k')"
    and wf_emp: "wf emp"
    and wf_put: "wf m \<Longrightarrow> wf (put k v m)"
    and wf_del: "wf m \<Longrightarrow> wf (del k m)"
begin

lemma get_foldr_put:
  "get (foldr (\<lambda>k. put k v) ks m) k' = (if k' \<in> set ks then Some v else get m k')"
  by (induction ks) (auto simp: get_put)

lemma get_foldr_del:
  "get (foldr del ks m) k' = (if k' \<in> set ks then None else get m k')"
  by (induction ks) (auto simp: get_del)

lemma wf_foldr_put: "wf m \<Longrightarrow> wf (foldr (\<lambda>k. put k v) ks m)"
  by (induction ks) (auto simp: wf_put)

lemma wf_foldr_del: "wf m \<Longrightarrow> wf (foldr del ks m)"
  by (induction ks) (auto simp: wf_del)

end

interpretation kv: ordered_store "[]" kv_get kv_set kv_del kv_wf
  by unfold_locales (auto simp: kv_get_empty kv_get_set kv_get_del kv_wf_empty kv_wf_set kv_wf_del)

section \<open>Machines that keep an invariant\<close>

text \<open>
  A component is a state, a type of operations and what each operation does. If every
  operation keeps the invariant, so does every sequence of operations.
\<close>

locale invariant_machine =
  fixes step :: "'op \<Rightarrow> 's \<Rightarrow> 's"
    and inv :: "'s \<Rightarrow> bool"
  assumes step_inv: "inv s \<Longrightarrow> inv (step op s)"
begin

lemma run_inv: "inv s \<Longrightarrow> inv (fold step ops s)"
  by (induction ops arbitrary: s) (auto simp: step_inv)

end

text \<open>
  The same for a relation between the state before and after that composes: what holds
  of every single operation holds of every sequence of them.
\<close>

locale progress_machine = invariant_machine step inv
  for step :: "'op \<Rightarrow> 's \<Rightarrow> 's" and inv :: "'s \<Rightarrow> bool" +
  fixes rel :: "'s \<Rightarrow> 's \<Rightarrow> bool"
  assumes rel_refl: "rel s s"
    and rel_trans: "rel s t \<Longrightarrow> rel t u \<Longrightarrow> rel s u"
    and rel_step: "inv s \<Longrightarrow> rel s (step op s)"
begin

lemma run_rel: "inv s \<Longrightarrow> rel s (fold step ops s)"
proof (induction ops arbitrary: s)
  case Nil
  show ?case by (simp add: rel_refl)
next
  case (Cons op ops)
  then have "rel (step op s) (fold step ops (step op s))" by (simp add: step_inv)
  with Cons.prems show ?case by (auto intro: rel_trans rel_step)
qed

end

end
