(* ===== verification/Types.thy ===== *)
theory Types
  imports Prelude
begin

text \<open>
  The persisted records of package \<open>types\<close> (src/types), field for field, and the two
  status types with the functions the source defines on them. The Go zero value of a string
  or slice is the empty list. A field \<open>X\<close> of record \<open>Election\<close> is \<open>el_X\<close>, of
  \<open>ElectionConfig\<close> \<open>cfg_X\<close>, of \<open>Vote\<close> \<open>v_X\<close>, of \<open>BatchInput\<close> \<open>bi_X\<close>,
  of \<open>FoldCheckpoint\<close> \<open>fcp_X\<close>, of \<open>Results\<close> \<open>res_X\<close>, of \<open>AuditRecord\<close>
  \<open>au_X\<close> and of \<open>WorkerRegistration\<close> \<open>wr_X\<close>.
\<close>

section \<open>Election\<close>

type_synonym ElectionID = bytes

datatype Status =
    StatusCreated | StatusActive | StatusEnded | StatusDecrypting
  | StatusFinalizing | StatusResults | StatusPaused | StatusCanceled

fun Status_String :: "Status \<Rightarrow> string" where
  "Status_String StatusCreated = ''created''"
| "Status_String StatusActive = ''active''"
| "Status_String StatusEnded = ''ended''"
| "Status_String StatusDecrypting = ''decrypting''"
| "Status_String StatusFinalizing = ''finalizing''"
| "Status_String StatusResults = ''results''"
| "Status_String StatusPaused = ''paused''"
| "Status_String StatusCanceled = ''canceled''"

record ElectionConfig =
  cfg_ProcessID :: string
  cfg_BallotMode :: string
  cfg_EncX :: string
  cfg_EncY :: string
  cfg_CensusOrigin :: u64
  cfg_CensusRoot :: string
  cfg_VK :: bytes

record Election =
  el_ID :: ElectionID
  el_Status :: Status
  el_Config :: ElectionConfig
  el_BatchSize :: int
  el_FoldEvery :: int
  el_EndTime :: time
  el_CreatedAt :: time
  el_UpdatedAt :: time
  el_FoldWorker :: string
  el_FinalizeError :: string

section \<open>Vote\<close>

type_synonym VoteID = bytes

datatype VoteStatus =
    VoteStatusPending | VoteStatusBatched | VoteStatusFolded | VoteStatusSettled | VoteStatusError

text \<open>The persisted value, which is also the order the source compares statuses by.\<close>

primrec VoteStatus_code :: "VoteStatus \<Rightarrow> nat" where
  "VoteStatus_code VoteStatusPending = 0"
| "VoteStatus_code VoteStatusBatched = 1"
| "VoteStatus_code VoteStatusFolded = 2"
| "VoteStatus_code VoteStatusSettled = 3"
| "VoteStatus_code VoteStatusError = 4"

lemma VoteStatus_code_inject: "VoteStatus_code s = VoteStatus_code t \<longleftrightarrow> s = t"
  by (cases s; cases t) simp_all

instantiation VoteStatus :: linorder
begin

definition less_eq_VoteStatus :: "VoteStatus \<Rightarrow> VoteStatus \<Rightarrow> bool" where
  "less_eq_VoteStatus s t \<longleftrightarrow> VoteStatus_code s \<le> VoteStatus_code t"

definition less_VoteStatus :: "VoteStatus \<Rightarrow> VoteStatus \<Rightarrow> bool" where
  "less_VoteStatus s t \<longleftrightarrow> VoteStatus_code s < VoteStatus_code t"

instance
  by standard (auto simp: less_eq_VoteStatus_def less_VoteStatus_def VoteStatus_code_inject)

end

lemmas VoteStatus_order = less_eq_VoteStatus_def less_VoteStatus_def

definition Final :: "VoteStatus \<Rightarrow> bool" where
  "Final s \<longleftrightarrow> s = VoteStatusSettled \<or> s = VoteStatusError"

definition CanMoveTo :: "VoteStatus \<Rightarrow> VoteStatus \<Rightarrow> bool" where
  "CanMoveTo s nxt \<longleftrightarrow> \<not> Final s \<and> nxt > s"

fun VoteStatus_String :: "VoteStatus \<Rightarrow> string" where
  "VoteStatus_String VoteStatusPending = ''pending''"
| "VoteStatus_String VoteStatusBatched = ''batched''"
| "VoteStatus_String VoteStatusFolded = ''folded''"
| "VoteStatus_String VoteStatusSettled = ''settled''"
| "VoteStatus_String VoteStatusError = ''error''"

record Vote =
  v_ID :: VoteID
  v_Address :: bytes
  v_Slot :: u64
  v_VoteIDKey :: u64
  v_Ballot :: bytes
  v_Payload :: bytes
  v_Seq :: u64
  v_SubmittedAt :: time

section \<open>Batches, fold chain, results, audit trail, provers\<close>

record BatchInput =
  bi_ElectionID :: ElectionID
  bi_Seq :: u64
  bi_ProveRequest :: bytes
  bi_NewStateRoot :: string
  bi_VoteIDs :: "VoteID list"
  bi_Worker :: string
  bi_JobID :: string
  bi_ImportedID :: string
  bi_FoldWorker :: string
  bi_SealedAt :: time

definition FoldCheckpointVersion :: "8 word" where
  "FoldCheckpointVersion = 1"

record FoldCheckpoint =
  fcp_ElectionID :: ElectionID
  fcp_FoldCount :: u64
  fcp_LastFoldJob :: string
  fcp_FoldWorker :: string
  fcp_StateRoot :: string
  fcp_BatchesFolded :: u64
  fcp_AggVK :: string
  fcp_BatchVK :: string
  fcp_UpdatedAt :: time
  fcp_Version :: "8 word"

record Results =
  res_ElectionID :: ElectionID
  res_Tally :: "u64 list"
  res_ProgramVK :: string
  res_RootCVadcopFinal :: string
  res_PublicValues :: string
  res_ProofBytes :: string
  res_FinalizedAt :: time

record AuditRecord =
  au_Subject :: string
  au_Role :: string
  au_Action :: string
  au_ElectionID :: ElectionID
  au_Timestamp :: time

record WorkerRegistration =
  wr_Address :: string
  wr_Name :: string
  wr_RegisteredAt :: time

section \<open>What the status functions give\<close>

lemma CanMoveTo_simps [simp]:
  "CanMoveTo VoteStatusPending t \<longleftrightarrow> t \<noteq> VoteStatusPending"
  "CanMoveTo VoteStatusBatched t \<longleftrightarrow> t \<noteq> VoteStatusPending \<and> t \<noteq> VoteStatusBatched"
  "CanMoveTo VoteStatusFolded t \<longleftrightarrow> t = VoteStatusSettled \<or> t = VoteStatusError"
  "CanMoveTo VoteStatusSettled t \<longleftrightarrow> False"
  "CanMoveTo VoteStatusError t \<longleftrightarrow> False"
  by (cases t; simp add: CanMoveTo_def Final_def VoteStatus_order)+

lemma CanMoveTo_less: "CanMoveTo s t \<Longrightarrow> s < t"
  by (simp add: CanMoveTo_def)

lemma CanMoveTo_trans: "CanMoveTo s t \<Longrightarrow> CanMoveTo t u \<Longrightarrow> CanMoveTo s u"
  by (auto simp: CanMoveTo_def)

lemma Status_String_inject: "Status_String s = Status_String t \<longleftrightarrow> s = t"
  by (cases s; cases t) simp_all

lemma VoteStatus_String_inject: "VoteStatus_String s = VoteStatus_String t \<longleftrightarrow> s = t"
  by (cases s; cases t) simp_all

end
