(* ===== verification/Bytes.thy ===== *)
theory Bytes
  imports Types
begin

text \<open>
  The byte and text encodings the source takes from Go's standard library
  (\<open>encoding/hex\<close>, \<open>encoding/binary\<close>, \<open>math/big\<close>, \<open>strings\<close>), and
  \<open>crypto.PadToSign\<close> (src/crypto/helpers.go). The lemmas are the round trips and the
  order facts that keys, field elements and signatures rely on.
\<close>

section \<open>Hexadecimal\<close>

definition hexDigit :: "nat \<Rightarrow> char" where
  "hexDigit n = ''0123456789abcdef'' ! n"

definition fromHexChar :: "char \<Rightarrow> nat option" where
  "fromHexChar c =
     (let n = of_char c in
      if 48 \<le> n \<and> n \<le> 57 then Some (n - 48)
      else if 97 \<le> n \<and> n \<le> 102 then Some (n - 87)
      else if 65 \<le> n \<and> n \<le> 70 then Some (n - 55)
      else None)"

definition hexEncode :: "bytes \<Rightarrow> string" where
  "hexEncode bs = concat (map (\<lambda>c. [hexDigit (of_char c div 16), hexDigit (of_char c mod 16)]) bs)"

fun hexDecode :: "string \<Rightarrow> bytes option" where
  "hexDecode [] = Some []"
| "hexDecode [c] = None"
| "hexDecode (c # d # s) =
     (case (fromHexChar c, fromHexChar d, hexDecode s) of
        (Some a, Some b, Some bs) \<Rightarrow> Some (char_of (a * 16 + b) # bs)
      | _ \<Rightarrow> None)"

definition ElectionID_String :: "ElectionID \<Rightarrow> string" where
  "ElectionID_String e = hexEncode e"

definition VoteID_String :: "VoteID \<Rightarrow> string" where
  "VoteID_String v = hexEncode v"

lemma hexDigit_cases:
  assumes "n < 16"
  shows "hexDigit n \<in> set ''0123456789abcdef''" and "fromHexChar (hexDigit n) = Some n"
proof -
  from assms have "n \<in> {0, 1, 2, 3, 4, 5, 6, 7, 8, 9, 10, 11, 12, 13, 14, 15}"
    by (simp only: insert_iff empty_iff) presburger
  then show "hexDigit n \<in> set ''0123456789abcdef''" and "fromHexChar (hexDigit n) = Some n"
    by (auto simp: hexDigit_def fromHexChar_def Let_def)
qed

lemma hexEncode_simps [simp]:
  "hexEncode [] = []"
  "hexEncode (c # bs) = hexDigit (of_char c div 16) # hexDigit (of_char c mod 16) # hexEncode bs"
  "hexEncode (bs @ bs') = hexEncode bs @ hexEncode bs'"
  by (simp_all add: hexEncode_def)

lemma length_hexEncode [simp]: "length (hexEncode bs) = 2 * length bs"
  by (induction bs) auto

lemma of_char_less_256 [simp]: "of_char c < (256 :: nat)"
  by simp

lemma nibble_bounds: "of_char c div 16 < (16 :: nat)" "of_char c mod 16 < (16 :: nat)"
  using of_char_less_256[of c] by (presburger, simp)

lemma hexDecode_hexEncode [simp]: "hexDecode (hexEncode bs) = Some bs"
proof (induction bs)
  case Nil
  show ?case by simp
next
  case (Cons c bs)
  then show ?case by (simp add: hexDigit_cases nibble_bounds)
qed

lemma hexEncode_inject [simp]: "hexEncode a = hexEncode b \<longleftrightarrow> a = b"
  by (metis hexDecode_hexEncode option.inject)

lemma set_hexEncode: "set (hexEncode bs) \<subseteq> set ''0123456789abcdef''"
proof (induction bs)
  case Nil
  show ?case by simp
next
  case (Cons c bs)
  have "set (hexEncode (c # bs)) =
      {hexDigit (of_char c div 16), hexDigit (of_char c mod 16)} \<union> set (hexEncode bs)" by simp
  with Cons hexDigit_cases(1)[OF nibble_bounds(1)[of c]] hexDigit_cases(1)[OF nibble_bounds(2)[of c]]
  show ?case by (simp only: Un_subset_iff insert_subset empty_subsetI simp_thms)
qed

lemma not_in_hexEncode [simp]:
  "CHR ''/'' \<notin> set (hexEncode bs)" "CHR '':'' \<notin> set (hexEncode bs)"
  using set_hexEncode[of bs] by auto

section \<open>Big-endian integers\<close>

definition be_val :: "bytes \<Rightarrow> nat" where
  "be_val bs = foldl (\<lambda>a c. a * 256 + of_char c) 0 bs"

fun be_bytes :: "nat \<Rightarrow> nat \<Rightarrow> bytes" where
  "be_bytes 0 n = []"
| "be_bytes (Suc w) n = be_bytes w (n div 256) @ [char_of (n mod 256)]"

lemma length_be_bytes [simp]: "length (be_bytes w n) = w"
  by (induction w arbitrary: n) auto

lemma be_val_snoc [simp]: "be_val (bs @ [c]) = be_val bs * 256 + of_char c"
  by (simp add: be_val_def)

lemma be_val_Nil [simp]: "be_val [] = 0"
  by (simp add: be_val_def)

lemma be_val_be_bytes: "n < 256 ^ w \<Longrightarrow> be_val (be_bytes w n) = n"
proof (induction w arbitrary: n)
  case 0
  then show ?case by simp
next
  case (Suc w)
  then have "n div 256 < 256 ^ w" by (simp add: less_mult_imp_div_less)
  with Suc.IH show ?case by simp
qed

lemma be_val_bound: "be_val bs < 256 ^ length bs"
proof (induction bs rule: rev_induct)
  case Nil
  show ?case by simp
next
  case (snoc c bs)
  have "be_val bs * 256 + of_char c < (be_val bs + 1) * 256" by simp
  also have "\<dots> \<le> 256 ^ length bs * 256" using snoc by (intro mult_le_mono1) simp
  finally show ?case by simp
qed

lemma be_bytes_be_val: "length bs = w \<Longrightarrow> be_bytes w (be_val bs) = bs"
proof (induction bs arbitrary: w rule: rev_induct)
  case Nil
  then show ?case by simp
next
  case (snoc c bs)
  then show ?case by (cases w) auto
qed

lemma be_bytes_inject:
  "n < 256 ^ w \<Longrightarrow> m < 256 ^ w \<Longrightarrow> be_bytes w n = be_bytes w m \<longleftrightarrow> n = m"
  by (metis be_val_be_bytes)

lemma less_snoc_same_length:
  fixes xs ys :: "'a::linorder list"
  shows "length xs = length ys \<Longrightarrow> xs @ [a] < ys @ [b] \<longleftrightarrow> xs < ys \<or> xs = ys \<and> a < b"
  by (induction xs ys rule: list_induct2) auto

lemma char_of_less: "(char_of n :: char) < char_of m \<longleftrightarrow> n mod 256 < m mod (256 :: nat)"
  by (simp add: less_char_def)

lemma div_mod_less:
  "n div 256 < m div 256 \<or> n div 256 = m div 256 \<and> n mod 256 < m mod 256 \<longleftrightarrow> n < (m :: nat)"
proof -
  have "n = 256 * (n div 256) + n mod 256" "n mod 256 < 256"
    and "m = 256 * (m div 256) + m mod 256" "m mod 256 < 256" by simp_all
  then show ?thesis by linarith
qed

lemma be_bytes_less:
  "n < 256 ^ w \<Longrightarrow> m < 256 ^ w \<Longrightarrow> be_bytes w n < be_bytes w m \<longleftrightarrow> n < m"
proof (induction w arbitrary: n m)
  case 0
  then show ?case by simp
next
  case (Suc w)
  then have d: "n div 256 < 256 ^ w" "m div 256 < 256 ^ w"
    by (simp_all add: less_mult_imp_div_less)
  have "be_bytes (Suc w) n < be_bytes (Suc w) m \<longleftrightarrow>
      n div 256 < m div 256 \<or> n div 256 = m div 256 \<and> n mod 256 < m mod 256"
    using Suc.IH[OF d] d by (simp add: less_snoc_same_length be_bytes_inject char_of_less)
  also have "\<dots> \<longleftrightarrow> n < m" by (rule div_mod_less)
  finally show ?case .
qed

section \<open>Decimal\<close>

definition decDigit :: "nat \<Rightarrow> char" where
  "decDigit n = char_of (48 + n)"

fun decString :: "nat \<Rightarrow> string" where
  "decString n = (if n < 10 then [decDigit n] else decString (n div 10) @ [decDigit (n mod 10)])"

declare decString.simps [simp del]

definition decVal :: "string \<Rightarrow> nat" where
  "decVal s = foldl (\<lambda>a c. a * 10 + (of_char c - 48)) 0 s"

lemma of_char_decDigit: "n < 10 \<Longrightarrow> of_char (decDigit n) = 48 + n"
  by (simp add: decDigit_def)

lemma decVal_decString [simp]: "decVal (decString n) = n"
proof (induction n rule: decString.induct)
  case (1 n)
  show ?case
  proof (cases "n < 10")
    case True
    then show ?thesis by (subst decString.simps) (simp add: decVal_def of_char_decDigit)
  next
    case False
    with "1" have "decVal (decString (n div 10)) = n div 10" by simp
    with False show ?thesis
      by (subst decString.simps) (simp add: decVal_def of_char_decDigit)
  qed
qed

lemma decString_inject [simp]: "decString n = decString m \<longleftrightarrow> n = m"
  by (metis decVal_decString)

lemma decString_digits: "c \<in> set (decString n) \<Longrightarrow> 48 \<le> (of_char c :: nat) \<and> of_char c \<le> (57 :: nat)"
proof (induction n rule: decString.induct)
  case (1 n)
  show ?case
  proof (cases "n < 10")
    case True
    with "1.prems" have "c = decDigit n" by (simp add: decString.simps[of n])
    with True show ?thesis by (simp add: of_char_decDigit)
  next
    case False
    with "1.prems" consider "c \<in> set (decString (n div 10))" | "c = decDigit (n mod 10)"
      by (auto simp: decString.simps[of n])
    then show ?thesis
    proof cases
      case 1
      with False "1.IH" show ?thesis by simp
    next
      case 2
      have "n mod 10 < 10" by simp
      with 2 show ?thesis by (simp only: of_char_decDigit) simp
    qed
  qed
qed

lemma decString_not_Nil [simp]: "decString n \<noteq> []"
  by (subst decString.simps) simp

section \<open>Trimming and parsing\<close>

definition TrimPrefix :: "string \<Rightarrow> string \<Rightarrow> string" where
  "TrimPrefix s p = (if prefix p s then drop (length p) s else s)"

text \<open>The UTF-8 encodings of the characters \<open>unicode.IsSpace\<close> accepts.\<close>

definition spaces :: "bytes list" where
  "spaces =
     map (\<lambda>n. [char_of (n :: nat)]) [9, 10, 11, 12, 13, 32]
     @ [[CHR 0xC2, CHR 0x85], [CHR 0xC2, CHR 0xA0], [CHR 0xE1, CHR 0x9A, CHR 0x80]]
     @ map (\<lambda>n. [CHR 0xE2, CHR 0x80, char_of (n :: nat)])
         [0x80, 0x81, 0x82, 0x83, 0x84, 0x85, 0x86, 0x87, 0x88, 0x89, 0x8A, 0xA8, 0xA9, 0xAF]
     @ [[CHR 0xE2, CHR 0x81, CHR 0x9F], [CHR 0xE3, CHR 0x80, CHR 0x80]]"

fun trimLeft :: "bytes list \<Rightarrow> bytes \<Rightarrow> bytes" where
  "trimLeft ps [] = []"
| "trimLeft ps (c # s) =
     (case find (\<lambda>p. p \<noteq> [] \<and> prefix p (c # s)) ps of
        None \<Rightarrow> c # s
      | Some p \<Rightarrow> trimLeft ps (drop (length p - 1) s))"

definition TrimSpace :: "string \<Rightarrow> string" where
  "TrimSpace s = rev (trimLeft (map rev spaces) (rev (trimLeft spaces s)))"

text \<open>\<open>new(big.Int).SetString(s, 16)\<close>: an optional sign, then hexadecimal digits only.\<close>

fun hexVal :: "nat \<Rightarrow> string \<Rightarrow> nat option" where
  "hexVal a [] = Some a"
| "hexVal a (c # s) = (case fromHexChar c of None \<Rightarrow> None | Some d \<Rightarrow> hexVal (a * 16 + d) s)"

definition SetString16 :: "string \<Rightarrow> int option" where
  "SetString16 s =
     (case s of
        [] \<Rightarrow> None
      | c # t \<Rightarrow>
          if c = CHR ''-'' \<or> c = CHR ''+'' then
            (if t = [] then None
             else map_option (\<lambda>n. if c = CHR ''-'' then - int n else int n) (hexVal 0 t))
          else map_option int (hexVal 0 s))"

section \<open>Padding of signed messages\<close>

definition SignatureCircuitVariableLen :: nat where
  "SignatureCircuitVariableLen = 32"

text \<open>The inner loop of \<open>PadToSign\<close>, which puts one zero byte in front per round.\<close>

function pad_loop :: "bytes \<Rightarrow> bytes" where
  "pad_loop input =
     (if length input < SignatureCircuitVariableLen then pad_loop (CHR 0x00 # input) else input)"
  by pat_completeness auto
termination
  by (relation "measure (\<lambda>s. SignatureCircuitVariableLen - length s)")
    (auto simp: SignatureCircuitVariableLen_def)

declare pad_loop.simps [simp del]

definition PadToSign :: "bytes \<Rightarrow> bytes" where
  "PadToSign input =
     (if length input < SignatureCircuitVariableLen then pad_loop input
      else if length input > SignatureCircuitVariableLen
      then drop (length input - SignatureCircuitVariableLen) input
      else input)"

lemma pad_loop_eq:
  "pad_loop input = replicate (SignatureCircuitVariableLen - length input) (CHR 0x00) @ input"
proof (induction input rule: pad_loop.induct)
  case (1 input)
  show ?case
  proof (cases "length input < SignatureCircuitVariableLen")
    case True
    then obtain k where "SignatureCircuitVariableLen - length input = Suc k"
      by (metis Suc_diff_Suc)
    then have "SignatureCircuitVariableLen - length (CHR 0x00 # input) = k" by simp
    with True "1" \<open>SignatureCircuitVariableLen - length input = Suc k\<close> show ?thesis
      by (simp add: pad_loop.simps[of input] replicate_app_Cons_same)
  next
    case False
    then show ?thesis by (simp add: pad_loop.simps[of input])
  qed
qed

lemma PadToSign_length: "length (PadToSign input) = SignatureCircuitVariableLen"
  by (simp add: PadToSign_def pad_loop_eq)

lemma be_val_zero_Cons: "be_val (CHR 0x00 # bs) = be_val bs"
  by (simp add: be_val_def)

lemma be_val_replicate_zero: "be_val (replicate n (CHR 0x00) @ bs) = be_val bs"
  by (induction n) (auto simp: be_val_zero_Cons)

end
