(* ===== verification/Artifacts.thy ===== *)
theory Artifacts
  imports Bytes
begin

text \<open>
  The bottom of package \<open>storage\<close>: the key layout (src/storage/keys.go and the
  namespace prefixes of storage.go), the artifact accessors (artifact.go, encode.go) and the
  \<open>Storage\<close> struct (storage.go).

  The database (davinci-node's \<open>db.Database\<close>, Pebble) is the ordered key-value list of
  theory Prelude. A write transaction is the list of its operations, applied in one step
  by \<open>Commit\<close>; \<open>faults\<close> says, for each transaction to come, whether it fails, and a
  transaction that fails (on a \<open>Set\<close>, a \<open>Delete\<close> or the \<open>Commit\<close>: the source
  discards it in every case) writes nothing. Reads do not fail.

  CBOR (fxamacker/cbor) is a parameter: the field \<open>cbor\<close> of the storage holds the two
  functions the source calls, over an arbitrary type \<open>'b\<close> of documents, and
  \<open>codec_ok\<close> states the one thing the source relies on, that a document decodes to the
  value it was encoded from.
\<close>

section \<open>Keys (storage/keys.go)\<close>

definition electionKey :: "ElectionID \<Rightarrow> bytes" where
  "electionKey eid = ElectionID_String eid"

definition subKey :: "ElectionID \<Rightarrow> bytes \<Rightarrow> bytes" where
  "subKey eid sub = (ElectionID_String eid @ ''/'') @ sub"

definition electionScanPrefix :: "ElectionID \<Rightarrow> bytes" where
  "electionScanPrefix eid = ElectionID_String eid @ ''/''"

definition seqBytes :: "u64 \<Rightarrow> bytes" where
  "seqBytes sq = be_bytes 8 (unat sq)"

definition batchProofKey :: "ElectionID \<Rightarrow> u64 \<Rightarrow> bytes" where
  "batchProofKey eid sq = subKey eid (''b'' @ seqBytes sq)"

definition foldProofKey :: "ElectionID \<Rightarrow> bytes" where
  "foldProofKey eid = subKey eid ''f''"

definition reservationPrefixRoot :: bytes where "reservationPrefixRoot = ''r/''"
definition electionPrefix :: bytes where "electionPrefix = ''el/''"
definition votePrefix :: bytes where "votePrefix = ''v/''"
definition voteStatusPrefix :: bytes where "voteStatusPrefix = ''vs/''"
definition voteSeqPrefix :: bytes where "voteSeqPrefix = ''vseq/''"
definition batchPrefix :: bytes where "batchPrefix = ''ba/''"
definition foldPrefix :: bytes where "foldPrefix = ''fc/''"
definition snapshotPrefix :: bytes where "snapshotPrefix = ''ss/''"
definition resultsPrefix :: bytes where "resultsPrefix = ''rs/''"
definition auditPrefix :: bytes where "auditPrefix = ''au/''"
definition proofPrefix :: bytes where "proofPrefix = ''pf/''"
definition workerPrefix :: bytes where "workerPrefix = ''wk/''"

lemmas prefix_defs = reservationPrefixRoot_def electionPrefix_def votePrefix_def
  voteStatusPrefix_def voteSeqPrefix_def batchPrefix_def foldPrefix_def snapshotPrefix_def
  resultsPrefix_def auditPrefix_def proofPrefix_def workerPrefix_def

definition reservationBasePrefixes :: "bytes list" where
  "reservationBasePrefixes = [batchPrefix]"

lemma seqBytes_inject [simp]: "seqBytes a = seqBytes b \<longleftrightarrow> a = b"
  using unsigned_less[of a, where 'a = nat] unsigned_less[of b, where 'a = nat]
  by (simp add: seqBytes_def be_bytes_inject word_unat_eq_iff)

lemma seqBytes_less: "seqBytes a < seqBytes b \<longleftrightarrow> a < b"
  using unsigned_less[of a, where 'a = nat] unsigned_less[of b, where 'a = nat]
  by (simp add: seqBytes_def be_bytes_less word_less_nat_alt)

lemma length_seqBytes [simp]: "length (seqBytes a) = 8"
  by (simp add: seqBytes_def)

lemma subKey_inject [simp]: "subKey eid a = subKey eid' b \<longleftrightarrow> eid = eid' \<and> a = b"
  by (simp add: subKey_def ElectionID_String_def append_sep_inject)

lemma electionKey_inject [simp]: "electionKey eid = electionKey eid' \<longleftrightarrow> eid = eid'"
  by (simp add: electionKey_def ElectionID_String_def)

lemma prefix_subKey: "prefix (electionScanPrefix eid) (subKey eid' a) \<longleftrightarrow> eid = eid'"
proof
  assume "prefix (electionScanPrefix eid) (subKey eid' a)"
  then obtain r where "subKey eid' a = subKey eid r"
    by (auto simp: prefix_def subKey_def electionScanPrefix_def)
  then show "eid = eid'" by simp
qed (simp add: prefix_def subKey_def electionScanPrefix_def)

lemma electionScanPrefix_subKey: "electionScanPrefix eid @ a = subKey eid a"
  by (simp add: subKey_def electionScanPrefix_def)

section \<open>Artifacts and their encoding (storage/encode.go)\<close>

text \<open>
  The values the source passes to \<open>EncodeArtifact\<close> (a Go \<open>any\<close>) and the types it
  decodes into. \<open>ABlob\<close> is \<open>blobRecord\<close>, \<open>AVoteSeq\<close> \<open>voteSeqRecord\<close>,
  \<open>AVoteStatus\<close> \<open>voteStatusRecord\<close> and \<open>AReservation\<close> \<open>reservationRecord\<close>.
\<close>

datatype artifact =
    AElection Election | AVote Vote | AVoteStatus VoteStatus | AVoteSeq u64 | ABatch BatchInput
  | AFold FoldCheckpoint | ABlob bytes | AResults Results | AAudit AuditRecord
  | AWorker WorkerRegistration | AReservation int

datatype kind =
    KElection | KVote | KVoteStatus | KVoteSeq | KBatch | KFold | KBlob | KResults | KAudit
  | KWorker | KReservation

fun kind_of :: "artifact \<Rightarrow> kind" where
  "kind_of (AElection _) = KElection"
| "kind_of (AVote _) = KVote"
| "kind_of (AVoteStatus _) = KVoteStatus"
| "kind_of (AVoteSeq _) = KVoteSeq"
| "kind_of (ABatch _) = KBatch"
| "kind_of (AFold _) = KFold"
| "kind_of (ABlob _) = KBlob"
| "kind_of (AResults _) = KResults"
| "kind_of (AAudit _) = KAudit"
| "kind_of (AWorker _) = KWorker"
| "kind_of (AReservation _) = KReservation"

record 'b codec =
  Marshal :: "artifact \<Rightarrow> 'b option"
  Unmarshal :: "kind \<Rightarrow> 'b \<Rightarrow> artifact option"

definition codec_ok :: "'b codec \<Rightarrow> bool" where
  "codec_ok cd \<longleftrightarrow> (\<forall>a. \<exists>b. Marshal cd a = Some b \<and> Unmarshal cd (kind_of a) b = Some a)"

definition EncodeArtifact :: "'b codec \<Rightarrow> artifact \<Rightarrow> gerror + 'b" where
  "EncodeArtifact cd a =
     (case Marshal cd a of None \<Rightarrow> Inl [Detail ''encode artifact''] | Some b \<Rightarrow> Inr b)"

definition DecodeArtifact :: "'b codec \<Rightarrow> kind \<Rightarrow> 'b \<Rightarrow> gerror + artifact" where
  "DecodeArtifact cd k b =
     (case Unmarshal cd k b of None \<Rightarrow> Inl [Detail ''decode''] | Some a \<Rightarrow> Inr a)"

lemma DecodeArtifact_roundtrip:
  "codec_ok cd \<Longrightarrow> EncodeArtifact cd a = Inr b \<Longrightarrow> DecodeArtifact cd (kind_of a) b = Inr a"
  by (auto simp: codec_ok_def EncodeArtifact_def DecodeArtifact_def split: option.splits)
    (metis option.inject)+

lemma EncodeArtifact_ok: "codec_ok cd \<Longrightarrow> \<exists>b. EncodeArtifact cd a = Inr b"
  by (metis EncodeArtifact_def codec_ok_def option.simps(5))

section \<open>The storage and its transactions (storage/storage.go, artifact.go)\<close>

record 'b storage =
  db :: "(bytes \<times> 'b) list"
  cbor :: "'b codec"
  faults :: "bool list"
  auditSeq :: u64
  reservationTimeout :: duration
  processingAddresses :: "string set"
  processingVoteIDs :: "string set"

datatype 'b txop = TxSet bytes 'b | TxDel bytes

fun apply_tx :: "'b txop list \<Rightarrow> (bytes \<times> 'b) list \<Rightarrow> (bytes \<times> 'b) list" where
  "apply_tx [] d = d"
| "apply_tx (TxSet k b # ops) d = apply_tx ops (kv_set k b d)"
| "apply_tx (TxDel k # ops) d = apply_tx ops (kv_del k d)"

definition next_fault :: "'b storage \<Rightarrow> bool" where
  "next_fault s = (case faults s of [] \<Rightarrow> False | f # _ \<Rightarrow> f)"

definition Commit :: "'b storage \<Rightarrow> 'b txop list \<Rightarrow> (gerror + unit) \<times> 'b storage" where
  "Commit s ops =
     (if next_fault s then (Inl [Detail ''database write failed''], s\<lparr>faults := tl (faults s)\<rparr>)
      else (Inr (), s\<lparr>db := apply_tx ops (db s), faults := tl (faults s)\<rparr>))"

definition setArtifact :: "'b storage \<Rightarrow> bytes \<Rightarrow> bytes \<Rightarrow> artifact \<Rightarrow> (gerror + unit) \<times> 'b storage" where
  "setArtifact s pre key a =
     (case EncodeArtifact (cbor s) a of
        Inl e \<Rightarrow> (Inl e, s)
      | Inr b \<Rightarrow> Commit s [TxSet (pre @ key) b])"

definition deleteArtifact :: "'b storage \<Rightarrow> bytes \<Rightarrow> bytes \<Rightarrow> (gerror + unit) \<times> 'b storage" where
  "deleteArtifact s pre key = Commit s [TxDel (pre @ key)]"

definition getArtifact :: "'b storage \<Rightarrow> kind \<Rightarrow> bytes \<Rightarrow> bytes \<Rightarrow> gerror + artifact" where
  "getArtifact s k pre key =
     (case kv_get (db s) (pre @ key) of
        None \<Rightarrow> Inl [ErrNotFound]
      | Some b \<Rightarrow>
          (case DecodeArtifact (cbor s) k b of
             Inl e \<Rightarrow> Inl (Detail ''decode artifact'' # e)
           | Inr a \<Rightarrow> Inr a))"

text \<open>The keys (relative to the prefix) and values \<open>iterateArtifacts\<close> hands to its callback.\<close>

definition iterateArtifacts :: "'b storage \<Rightarrow> bytes \<Rightarrow> (bytes \<times> 'b) list" where
  "iterateArtifacts s pre = kv_scan pre (db s)"

section \<open>The key space\<close>

text \<open>
  Every key the source writes, as data: \<open>key_bytes\<close> is the byte string it becomes. The
  injectivity lemma is what keeps the namespaces, the elections and the artifacts within
  one election apart.
\<close>

datatype dbkey =
    ElectionK ElectionID | VoteK ElectionID VoteID | VoteStatusK ElectionID VoteID
  | VoteSeqK ElectionID | BatchK ElectionID u64 | FoldK ElectionID | SnapshotK ElectionID
  | ResultsK ElectionID | AuditK bytes | BatchProofK ElectionID u64 | FoldProofK ElectionID
  | WorkerK string | ReservedK ElectionID u64

fun key_bytes :: "dbkey \<Rightarrow> bytes" where
  "key_bytes (ElectionK eid) = electionPrefix @ electionKey eid"
| "key_bytes (VoteK eid v) = votePrefix @ subKey eid v"
| "key_bytes (VoteStatusK eid v) = voteStatusPrefix @ subKey eid v"
| "key_bytes (VoteSeqK eid) = voteSeqPrefix @ electionKey eid"
| "key_bytes (BatchK eid sq) = batchPrefix @ subKey eid (seqBytes sq)"
| "key_bytes (FoldK eid) = foldPrefix @ electionKey eid"
| "key_bytes (SnapshotK eid) = snapshotPrefix @ electionKey eid"
| "key_bytes (ResultsK eid) = resultsPrefix @ electionKey eid"
| "key_bytes (AuditK k) = auditPrefix @ k"
| "key_bytes (BatchProofK eid sq) = proofPrefix @ batchProofKey eid sq"
| "key_bytes (FoldProofK eid) = proofPrefix @ foldProofKey eid"
| "key_bytes (WorkerK a) = workerPrefix @ a"
| "key_bytes (ReservedK eid sq) = (reservationPrefixRoot @ batchPrefix) @ subKey eid (seqBytes sq)"

fun key_kind :: "dbkey \<Rightarrow> kind" where
  "key_kind (ElectionK _) = KElection"
| "key_kind (VoteK _ _) = KVote"
| "key_kind (VoteStatusK _ _) = KVoteStatus"
| "key_kind (VoteSeqK _) = KVoteSeq"
| "key_kind (BatchK _ _) = KBatch"
| "key_kind (FoldK _) = KFold"
| "key_kind (SnapshotK _) = KBlob"
| "key_kind (ResultsK _) = KResults"
| "key_kind (AuditK _) = KAudit"
| "key_kind (BatchProofK _ _) = KBlob"
| "key_kind (FoldProofK _) = KBlob"
| "key_kind (WorkerK _) = KWorker"
| "key_kind (ReservedK _ _) = KReservation"

lemma batchProofKey_simps [simp]:
  "batchProofKey eid a = batchProofKey eid' b \<longleftrightarrow> eid = eid' \<and> a = b"
  "batchProofKey eid a \<noteq> foldProofKey eid'"
  "foldProofKey eid = foldProofKey eid' \<longleftrightarrow> eid = eid'"
  by (simp_all add: batchProofKey_def foldProofKey_def)

lemma key_bytes_inject [simp]: "key_bytes k = key_bytes k' \<longleftrightarrow> k = k'"
proof
  assume "key_bytes k = key_bytes k'"
  then show "k = k'"
    by (cases k; cases k') (simp_all add: prefix_defs eq_commute[of "foldProofKey _" "batchProofKey _ _"])
qed simp

lemmas key_bytes_fold = key_bytes.simps [symmetric]

declare key_bytes.simps [simp del]

section \<open>Reads after writes\<close>

text \<open>
  What is stored under a key, and the well-formed storages: the database is ordered, the
  codec decodes what it encodes, and every entry is one the source wrote, under a key of the
  key space and decodable to the type that key stands for.
\<close>

definition at_key :: "'b codec \<Rightarrow> (bytes \<times> 'b) list \<Rightarrow> dbkey \<Rightarrow> artifact option" where
  "at_key cd d k = Option.bind (kv_get d (key_bytes k)) (Unmarshal cd (key_kind k))"

definition artifact_at :: "'b storage \<Rightarrow> dbkey \<Rightarrow> artifact option" where
  "artifact_at s k = at_key (cbor s) (db s) k"

text \<open>The artifacts that belong under a key: of its type, and naming the key they are stored under.\<close>

definition fits :: "dbkey \<Rightarrow> artifact \<Rightarrow> bool" where
  "fits k a \<longleftrightarrow> kind_of a = key_kind k \<and>
     (case (k, a) of
        (ElectionK eid, AElection e) \<Rightarrow> el_ID e = eid
      | (VoteK eid vid, AVote v) \<Rightarrow> v_ID v = vid
      | (BatchK eid sq, ABatch b) \<Rightarrow> bi_ElectionID b = eid \<and> bi_Seq b = sq
      | (FoldK eid, AFold c) \<Rightarrow> fcp_ElectionID c = eid
      | (ResultsK eid, AResults r) \<Rightarrow> res_ElectionID r = eid
      | (WorkerK addr, AWorker w) \<Rightarrow> wr_Address w = addr
      | _ \<Rightarrow> True)"

lemma fits_simps [simp]:
  "fits (ElectionK eid) (AElection e) \<longleftrightarrow> el_ID e = eid"
  "fits (VoteK eid vid) (AVote v) \<longleftrightarrow> v_ID v = vid"
  "fits (VoteStatusK eid vid) (AVoteStatus st)"
  "fits (VoteSeqK eid) (AVoteSeq n)"
  "fits (BatchK eid sq) (ABatch b) \<longleftrightarrow> bi_ElectionID b = eid \<and> bi_Seq b = sq"
  "fits (FoldK eid) (AFold c) \<longleftrightarrow> fcp_ElectionID c = eid"
  "fits (SnapshotK eid) (ABlob x)"
  "fits (ResultsK eid) (AResults r) \<longleftrightarrow> res_ElectionID r = eid"
  "fits (AuditK k) (AAudit au)"
  "fits (BatchProofK eid sq) (ABlob x)"
  "fits (FoldProofK eid) (ABlob x)"
  "fits (WorkerK addr) (AWorker w) \<longleftrightarrow> wr_Address w = addr"
  "fits (ReservedK eid sq) (AReservation t)"
  by (simp_all add: fits_def)

lemma fits_kind: "fits k a \<Longrightarrow> kind_of a = key_kind k"
  by (simp add: fits_def)

definition db_typed :: "'b codec \<Rightarrow> (bytes \<times> 'b) list \<Rightarrow> bool" where
  "db_typed cd d \<longleftrightarrow>
     (\<forall>kb b. kv_get d kb = Some b \<longrightarrow>
        (\<exists>k a. kb = key_bytes k \<and> Unmarshal cd (key_kind k) b = Some a \<and> fits k a))"

definition storage_wf :: "'b storage \<Rightarrow> bool" where
  "storage_wf s \<longleftrightarrow> kv_wf (db s) \<and> codec_ok (cbor s) \<and> db_typed (cbor s) (db s)"

lemma getArtifact_key:
  assumes "pre @ key = key_bytes k"
  shows "getArtifact s (key_kind k) pre key =
    (case kv_get (db s) (key_bytes k) of
       None \<Rightarrow> Inl [ErrNotFound]
     | Some b \<Rightarrow> (case artifact_at s k of
         None \<Rightarrow> Inl [Detail ''decode artifact'', Detail ''decode''] | Some a \<Rightarrow> Inr a))"
  using assms
  by (auto simp: getArtifact_def artifact_at_def at_key_def DecodeArtifact_def split: option.splits)

lemma storage_wf_fits: "storage_wf s \<Longrightarrow> artifact_at s k = Some a \<Longrightarrow> fits k a"
  by (fastforce simp: storage_wf_def db_typed_def artifact_at_def at_key_def split: bind_splits)

lemma storage_wf_present:
  "storage_wf s \<Longrightarrow> kv_get (db s) (key_bytes k) = Some b \<Longrightarrow> artifact_at s k \<noteq> None"
  by (fastforce simp: storage_wf_def db_typed_def artifact_at_def at_key_def)

lemma getArtifact_wf:
  assumes "storage_wf s" and "pre @ key = key_bytes k"
  shows "getArtifact s (key_kind k) pre key =
    (case artifact_at s k of None \<Rightarrow> Inl [ErrNotFound] | Some a \<Rightarrow> Inr a)"
  using storage_wf_present[OF assms(1), of k]
  by (auto simp: getArtifact_key[OF assms(2)] artifact_at_def at_key_def split: option.splits)

lemma at_key_set:
  "Unmarshal cd (key_kind k) b = Some a \<Longrightarrow>
     at_key cd (kv_set (key_bytes k) b d) k' = (if k' = k then Some a else at_key cd d k')"
  by (simp add: at_key_def kv_get_set)

lemma at_key_del: "at_key cd (kv_del (key_bytes k) d) k' = (if k' = k then None else at_key cd d k')"
  by (simp add: at_key_def kv_get_del)

lemma db_typed_set:
  "db_typed cd d \<Longrightarrow> Unmarshal cd (key_kind k) b = Some a \<Longrightarrow> fits k a \<Longrightarrow>
     db_typed cd (kv_set (key_bytes k) b d)"
  by (auto simp: db_typed_def kv_get_set split: if_splits)

lemma db_typed_del: "db_typed cd d \<Longrightarrow> db_typed cd (kv_del kb d)"
  by (auto simp: db_typed_def kv_get_del split: if_splits)

text \<open>
  Transactions of the shape the source writes: each \<open>Set\<close> puts the encoding of an artifact
  under a key of its own type.
\<close>

datatype dbwrite = Put dbkey artifact | Drop dbkey

fun write_key :: "dbwrite \<Rightarrow> dbkey" where
  "write_key (Put k _) = k"
| "write_key (Drop k) = k"

fun write_op :: "'b codec \<Rightarrow> dbwrite \<Rightarrow> 'b txop" where
  "write_op cd (Put k a) = TxSet (key_bytes k) (the (Marshal cd a))"
| "write_op cd (Drop k) = TxDel (key_bytes k)"

fun write_ok :: "dbwrite \<Rightarrow> bool" where
  "write_ok (Put k a) \<longleftrightarrow> fits k a"
| "write_ok (Drop k) \<longleftrightarrow> True"

fun apply_writes :: "dbwrite list \<Rightarrow> (dbkey \<Rightarrow> artifact option) \<Rightarrow> dbkey \<Rightarrow> artifact option" where
  "apply_writes [] m = m"
| "apply_writes (Put k a # ws) m = apply_writes ws (m(k := Some a))"
| "apply_writes (Drop k # ws) m = apply_writes ws (m(k := None))"

lemma codec_okD:
  "codec_ok cd \<Longrightarrow> fits k a \<Longrightarrow> Unmarshal cd (key_kind k) (the (Marshal cd a)) = Some a"
  by (metis codec_ok_def fits_kind option.sel)

lemma apply_tx_writes:
  assumes "codec_ok cd" and "list_all write_ok ws"
  shows "at_key cd (apply_tx (map (write_op cd) ws) d) = apply_writes ws (at_key cd d)"
  using assms(2)
proof (induction ws arbitrary: d)
  case Nil
  show ?case by simp
next
  case (Cons w ws)
  show ?case
  proof (cases w)
    case (Put k a)
    with Cons.prems have "at_key cd (kv_set (key_bytes k) (the (Marshal cd a)) d) = (at_key cd d)(k := Some a)"
      using codec_okD[OF assms(1), of k a] by (simp add: fun_eq_iff at_key_set)
    with Put Cons show ?thesis by simp
  next
    case (Drop k)
    have "at_key cd (kv_del (key_bytes k) d) = (at_key cd d)(k := None)"
      by (simp add: fun_eq_iff at_key_del)
    with Drop Cons show ?thesis by simp
  qed
qed

lemma apply_tx_wf:
  assumes "codec_ok cd" and "list_all write_ok ws" and "kv_wf d" and "db_typed cd d"
  shows "kv_wf (apply_tx (map (write_op cd) ws) d) \<and> db_typed cd (apply_tx (map (write_op cd) ws) d)"
  using assms(2-4)
proof (induction ws arbitrary: d)
  case Nil
  then show ?case by simp
next
  case (Cons w ws)
  show ?case
  proof (cases w)
    case (Put k a)
    with Cons show ?thesis using codec_okD[OF assms(1), of k a]
      by (auto simp: kv_wf_set db_typed_set)
  next
    case (Drop k)
    with Cons show ?thesis by (auto simp: kv_wf_del db_typed_del)
  qed
qed

text \<open>One transaction on a well-formed storage: it fails and writes nothing, or writes all of it.\<close>

definition commit_writes :: "'b storage \<Rightarrow> dbwrite list \<Rightarrow> (gerror + unit) \<times> 'b storage" where
  "commit_writes s ws = Commit s (map (write_op (cbor s)) ws)"

lemma commit_writes_result:
  "fst (commit_writes s ws) = (if next_fault s then Inl [Detail ''database write failed''] else Inr ())"
  by (simp add: commit_writes_def Commit_def)

lemma commit_writes_at:
  assumes "storage_wf s" and "list_all write_ok ws"
  shows "artifact_at (snd (commit_writes s ws)) =
    (if next_fault s then artifact_at s else apply_writes ws (artifact_at s))"
proof -
  have "codec_ok (cbor s)" using assms(1) by (simp add: storage_wf_def)
  note tx = apply_tx_writes[OF this assms(2), of "db s"]
  show ?thesis
    unfolding fun_eq_iff artifact_at_def commit_writes_def Commit_def using tx
    by (simp add: artifact_at_def[abs_def])
qed

lemma commit_writes_wf:
  "storage_wf s \<Longrightarrow> list_all write_ok ws \<Longrightarrow> storage_wf (snd (commit_writes s ws))"
  by (auto simp: storage_wf_def commit_writes_def Commit_def dest: apply_tx_wf)

lemma commit_writes_frame [frame_simps]:
  "cbor (snd (commit_writes s ws)) = cbor s"
  "faults (snd (commit_writes s ws)) = tl (faults s)"
  "auditSeq (snd (commit_writes s ws)) = auditSeq s"
  "reservationTimeout (snd (commit_writes s ws)) = reservationTimeout s"
  "processingAddresses (snd (commit_writes s ws)) = processingAddresses s"
  "processingVoteIDs (snd (commit_writes s ws)) = processingVoteIDs s"
  by (simp_all add: commit_writes_def Commit_def)

lemma EncodeArtifact_eq: "storage_wf s \<Longrightarrow> EncodeArtifact (cbor s) a = Inr (the (Marshal (cbor s) a))"
  by (metis EncodeArtifact_def codec_ok_def option.sel option.simps(5) storage_wf_def)

lemma setArtifact_commit:
  "storage_wf s \<Longrightarrow> pre @ key = key_bytes k \<Longrightarrow> setArtifact s pre key a = commit_writes s [Put k a]"
  by (simp add: setArtifact_def EncodeArtifact_eq commit_writes_def)

lemma deleteArtifact_commit:
  "pre @ key = key_bytes k \<Longrightarrow> deleteArtifact s pre key = commit_writes s [Drop k]"
  by (simp add: deleteArtifact_def commit_writes_def)

text \<open>A scan of a namespace lists what is stored under its keys.\<close>

lemma iterateArtifacts_mem:
  "storage_wf s \<Longrightarrow> (k, b) \<in> set (iterateArtifacts s pre) \<longleftrightarrow> kv_get (db s) (pre @ k) = Some b"
  by (simp add: iterateArtifacts_def kv_scan_mem kv_mem_iff storage_wf_def)

lemma iterateArtifacts_sorted:
  "storage_wf s \<Longrightarrow> sorted_wrt (<) (map fst (iterateArtifacts s pre))"
  using kv_scan_wf[of "db s" pre] by (simp add: iterateArtifacts_def kv_wf_def storage_wf_def)

end
