(* ===== verification/Storage.thy ===== *)
theory Storage
  imports Artifacts
begin

text \<open>
  The operations of package \<open>storage\<close>, file by file (elections.go, votes.go,
  batches.go, proofs.go, results.go, workers.go, audit.go, reservation.go, storage.go). Each
  takes the storage (and the current time where the source reads the clock) and returns the
  result with the new storage; a method whose pointer argument the source mutates returns
  the mutated value. Every method runs under the source's lock or as one transaction, so it
  is one step here.

  The lemmas show what each operation leaves under every key, that all of them keep the
  storage well formed, and that a vote's status only moves forward whatever sequence of
  operations runs.
\<close>

section \<open>Typed reads\<close>

fun unElection :: "artifact \<Rightarrow> Election option" where
  "unElection (AElection e) = Some e" | "unElection _ = None"
fun unVote :: "artifact \<Rightarrow> Vote option" where
  "unVote (AVote v) = Some v" | "unVote _ = None"
fun unVoteStatus :: "artifact \<Rightarrow> VoteStatus option" where
  "unVoteStatus (AVoteStatus st) = Some st" | "unVoteStatus _ = None"
fun unVoteSeq :: "artifact \<Rightarrow> u64 option" where
  "unVoteSeq (AVoteSeq n) = Some n" | "unVoteSeq _ = None"
fun unBatch :: "artifact \<Rightarrow> BatchInput option" where
  "unBatch (ABatch b) = Some b" | "unBatch _ = None"
fun unFold :: "artifact \<Rightarrow> FoldCheckpoint option" where
  "unFold (AFold c) = Some c" | "unFold _ = None"
fun unBlob :: "artifact \<Rightarrow> bytes option" where
  "unBlob (ABlob x) = Some x" | "unBlob _ = None"
fun unResults :: "artifact \<Rightarrow> Results option" where
  "unResults (AResults r) = Some r" | "unResults _ = None"
fun unAudit :: "artifact \<Rightarrow> AuditRecord option" where
  "unAudit (AAudit r) = Some r" | "unAudit _ = None"
fun unWorker :: "artifact \<Rightarrow> WorkerRegistration option" where
  "unWorker (AWorker w) = Some w" | "unWorker _ = None"
fun unReservation :: "artifact \<Rightarrow> int option" where
  "unReservation (AReservation t) = Some t" | "unReservation _ = None"

definition typed :: "(artifact \<Rightarrow> 'a option) \<Rightarrow> gerror + artifact \<Rightarrow> gerror + 'a" where
  "typed f r =
     (case r of Inl e \<Rightarrow> Inl e
      | Inr a \<Rightarrow> (case f a of None \<Rightarrow> Inl [Detail ''decode artifact''] | Some x \<Rightarrow> Inr x))"

text \<open>The values a scan decodes; an entry that does not decode is left out.\<close>

definition decoded :: "'b storage \<Rightarrow> kind \<Rightarrow> (artifact \<Rightarrow> 'a option) \<Rightarrow> bytes \<Rightarrow> 'a list" where
  "decoded s k f pre =
     List.map_filter
       (\<lambda>kb. case typed f (DecodeArtifact (cbor s) k (snd kb)) of Inl _ \<Rightarrow> None | Inr x \<Rightarrow> Some x)
       (iterateArtifacts s pre)"

definition with_value :: "'a \<Rightarrow> (gerror + unit) \<times> 's \<Rightarrow> (gerror + 'a) \<times> 's" where
  "with_value x r = (case fst r of Inl e \<Rightarrow> Inl e | Inr _ \<Rightarrow> Inr x, snd r)"

section \<open>Elections (storage/elections.go)\<close>

definition CreateElection :: "time \<Rightarrow> 'b storage \<Rightarrow> Election \<Rightarrow> bytes \<Rightarrow> (gerror + Election) \<times> 'b storage" where
  "CreateElection now s e snapshot =
     (let key = electionKey (el_ID e) in
      case typed unElection (getArtifact s KElection electionPrefix key) of
        Inr _ \<Rightarrow> (Inl [ErrKeyAlreadyExists], s)
      | Inl _ \<Rightarrow>
          let e' = e\<lparr>el_CreatedAt := now, el_UpdatedAt := now\<rparr> in
          (case EncodeArtifact (cbor s) (AElection e') of
             Inl er \<Rightarrow> (Inl er, s)
           | Inr election \<Rightarrow>
               (case EncodeArtifact (cbor s) (ABlob snapshot) of
                  Inl er \<Rightarrow> (Inl er, s)
                | Inr snap \<Rightarrow>
                    with_value e' (Commit s
                      [TxSet (electionPrefix @ key) election, TxSet (snapshotPrefix @ key) snap]))))"

definition store_Election :: "'b storage \<Rightarrow> ElectionID \<Rightarrow> gerror + Election" where
  "store_Election s eid = typed unElection (getArtifact s KElection electionPrefix (electionKey eid))"

definition UpdateElection ::
  "time \<Rightarrow> 'b storage \<Rightarrow> ElectionID \<Rightarrow> (Election \<Rightarrow> gerror + Election) \<Rightarrow> (gerror + unit) \<times> 'b storage" where
  "UpdateElection now s eid updateFunc =
     (case typed unElection (getArtifact s KElection electionPrefix (electionKey eid)) of
        Inl er \<Rightarrow> (Inl er, s)
      | Inr e \<Rightarrow>
          (case updateFunc e of
             Inl er \<Rightarrow> (Inl er, s)
           | Inr e' \<Rightarrow>
               setArtifact s electionPrefix (electionKey eid) (AElection (e'\<lparr>el_UpdatedAt := now\<rparr>))))"

definition SetElectionStatus :: "time \<Rightarrow> 'b storage \<Rightarrow> ElectionID \<Rightarrow> Status \<Rightarrow> (gerror + unit) \<times> 'b storage" where
  "SetElectionStatus now s eid status = UpdateElection now s eid (\<lambda>e. Inr (e\<lparr>el_Status := status\<rparr>))"

definition ListElections :: "'b storage \<Rightarrow> Election list" where
  "ListElections s = decoded s KElection unElection electionPrefix"

section \<open>Votes (storage/votes.go)\<close>

definition AddVote :: "time \<Rightarrow> 'b storage \<Rightarrow> ElectionID \<Rightarrow> Vote \<Rightarrow> (gerror + Vote) \<times> 'b storage" where
  "AddVote now s eid v =
     (case (case typed unVoteSeq (getArtifact s KVoteSeq voteSeqPrefix (electionKey eid)) of
              Inl er \<Rightarrow> (if errors_Is er ErrNotFound then Inr 0 else Inl er)
            | Inr n \<Rightarrow> Inr n) of
        Inl er \<Rightarrow> (Inl er, s)
      | Inr n \<Rightarrow>
          let counter = n + 1;
              v' = v\<lparr>v_Seq := counter, v_SubmittedAt := now\<rparr> in
          (case EncodeArtifact (cbor s) (AVoteSeq counter) of
             Inl er \<Rightarrow> (Inl er, s)
           | Inr sq \<Rightarrow>
               (case EncodeArtifact (cbor s) (AVote v') of
                  Inl er \<Rightarrow> (Inl er, s)
                | Inr vote \<Rightarrow>
                    (case EncodeArtifact (cbor s) (AVoteStatus VoteStatusPending) of
                       Inl er \<Rightarrow> (Inl er, s)
                     | Inr status \<Rightarrow>
                         with_value v' (Commit s
                           [TxSet (voteSeqPrefix @ electionKey eid) sq,
                            TxSet (votePrefix @ subKey eid (v_ID v)) vote,
                            TxSet (voteStatusPrefix @ subKey eid (v_ID v)) status])))))"

definition store_Vote :: "'b storage \<Rightarrow> ElectionID \<Rightarrow> VoteID \<Rightarrow> gerror + Vote" where
  "store_Vote s eid vid = typed unVote (getArtifact s KVote votePrefix (subKey eid vid))"

definition VoteExists :: "'b storage \<Rightarrow> ElectionID \<Rightarrow> VoteID \<Rightarrow> bool" where
  "VoteExists s eid vid \<longleftrightarrow> isOk (store_Vote s eid vid)"

definition ListVotes :: "'b storage \<Rightarrow> ElectionID \<Rightarrow> Vote list" where
  "ListVotes s eid = decoded s KVote unVote (votePrefix @ electionScanPrefix eid)"

definition store_VoteStatus :: "'b storage \<Rightarrow> ElectionID \<Rightarrow> VoteID \<Rightarrow> gerror + VoteStatus" where
  "store_VoteStatus s eid vid =
     typed unVoteStatus (getArtifact s KVoteStatus voteStatusPrefix (subKey eid vid))"

definition setVoteStatusLocked ::
  "'b storage \<Rightarrow> ElectionID \<Rightarrow> VoteID \<Rightarrow> VoteStatus \<Rightarrow> (gerror + unit) \<times> 'b storage" where
  "setVoteStatusLocked s eid vid st = setArtifact s voteStatusPrefix (subKey eid vid) (AVoteStatus st)"

fun load_votes :: "'b storage \<Rightarrow> ElectionID \<Rightarrow> VoteID list \<Rightarrow> gerror + Vote list" where
  "load_votes s eid [] = Inr []"
| "load_votes s eid (vid # vids) =
     (case store_Vote s eid vid of
        Inl er \<Rightarrow> Inl (Detail ''vote'' # er)
      | Inr v \<Rightarrow> (case load_votes s eid vids of Inl er \<Rightarrow> Inl er | Inr vs \<Rightarrow> Inr (v # vs)))"

definition VotesWithStatus :: "'b storage \<Rightarrow> ElectionID \<Rightarrow> VoteStatus \<Rightarrow> gerror + Vote list" where
  "VotesWithStatus s eid st =
     load_votes s eid
       (map fst (filter
          (\<lambda>kb. typed unVoteStatus (DecodeArtifact (cbor s) KVoteStatus (snd kb)) = Inr st)
          (iterateArtifacts s (voteStatusPrefix @ electionScanPrefix eid))))"

definition SetVoteStatus ::
  "'b storage \<Rightarrow> ElectionID \<Rightarrow> VoteID \<Rightarrow> VoteStatus \<Rightarrow> (gerror + unit) \<times> 'b storage" where
  "SetVoteStatus s eid vid st =
     (if (case store_VoteStatus s eid vid of Inl _ \<Rightarrow> False | Inr cur \<Rightarrow> \<not> CanMoveTo cur st)
      then (Inr (), s)
      else setVoteStatusLocked s eid vid st)"

definition addressKey :: "ElectionID \<Rightarrow> nat \<Rightarrow> string" where
  "addressKey eid address = ElectionID_String eid @ '':'' @ decString address"

definition LockAddress :: "'b storage \<Rightarrow> ElectionID \<Rightarrow> nat \<Rightarrow> bool \<times> 'b storage" where
  "LockAddress s eid address =
     (addressKey eid address \<notin> processingAddresses s,
      s\<lparr>processingAddresses := insert (addressKey eid address) (processingAddresses s)\<rparr>)"

definition ReleaseAddress :: "'b storage \<Rightarrow> ElectionID \<Rightarrow> nat \<Rightarrow> 'b storage" where
  "ReleaseAddress s eid address =
     s\<lparr>processingAddresses := processingAddresses s - {addressKey eid address}\<rparr>"

definition LockVoteID :: "'b storage \<Rightarrow> VoteID \<Rightarrow> bool \<times> 'b storage" where
  "LockVoteID s vid =
     (vid \<notin> processingVoteIDs s, s\<lparr>processingVoteIDs := insert vid (processingVoteIDs s)\<rparr>)"

definition IsVoteIDProcessing :: "'b storage \<Rightarrow> VoteID \<Rightarrow> bool" where
  "IsVoteIDProcessing s vid \<longleftrightarrow> vid \<in> processingVoteIDs s"

definition ReleaseVoteID :: "'b storage \<Rightarrow> VoteID \<Rightarrow> 'b storage" where
  "ReleaseVoteID s vid = s\<lparr>processingVoteIDs := processingVoteIDs s - {vid}\<rparr>"

section \<open>Reservations (storage/reservation.go)\<close>

text \<open>Seconds since the Unix epoch of a time counted from the zero \<open>time.Time\<close>.\<close>

definition Unix :: "time \<Rightarrow> int" where
  "Unix t = t div second - 62135596800"

definition setReservation :: "time \<Rightarrow> 'b storage \<Rightarrow> bytes \<Rightarrow> bytes \<Rightarrow> (gerror + unit) \<times> 'b storage" where
  "setReservation now s pre key =
     (case EncodeArtifact (cbor s) (AReservation (Unix now)) of
        Inl er \<Rightarrow> (Inl er, s)
      | Inr val \<Rightarrow>
          if kv_get (db s) ((reservationPrefixRoot @ pre) @ key) \<noteq> None
          then (Inl [ErrKeyAlreadyExists], s)
          else Commit s [TxSet ((reservationPrefixRoot @ pre) @ key) val])"

definition isReserved :: "'b storage \<Rightarrow> bytes \<Rightarrow> bytes \<Rightarrow> bool" where
  "isReserved s pre key \<longleftrightarrow> kv_get (db s) ((reservationPrefixRoot @ pre) @ key) \<noteq> None"

definition deleteReservation :: "'b storage \<Rightarrow> bytes \<Rightarrow> bytes \<Rightarrow> (gerror + unit) \<times> 'b storage" where
  "deleteReservation s pre key = Commit s [TxDel ((reservationPrefixRoot @ pre) @ key)]"

definition cleanAllReservations :: "'b storage \<Rightarrow> bytes \<Rightarrow> (gerror + unit) \<times> 'b storage" where
  "cleanAllReservations s pre =
     Commit s (map (\<lambda>kb. TxDel ((reservationPrefixRoot @ pre) @ fst kb))
       (iterateArtifacts s (reservationPrefixRoot @ pre)))"

definition releaseStaleInPrefix :: "'b storage \<Rightarrow> bytes \<Rightarrow> int \<Rightarrow> duration \<Rightarrow> (gerror + unit) \<times> 'b storage" where
  "releaseStaleInPrefix s pre now maxAge =
     (let staleKeys = map fst (filter
            (\<lambda>kb. case typed unReservation (DecodeArtifact (cbor s) KReservation (snd kb)) of
                     Inl _ \<Rightarrow> True
                   | Inr timestamp \<Rightarrow> now - timestamp > maxAge div second)
            (iterateArtifacts s (reservationPrefixRoot @ pre))) in
      if staleKeys = [] then (Inr (), s)
      else (case Commit s (map (\<lambda>sk. TxDel ((reservationPrefixRoot @ pre) @ sk)) staleKeys) of
              (Inl er, s') \<Rightarrow> (Inl (Detail ''commit stale deletion'' # er), s')
            | (Inr _, s') \<Rightarrow> (Inr (), s')))"

fun for_prefixes ::
  "('b storage \<Rightarrow> bytes \<Rightarrow> (gerror + unit) \<times> 'b storage) \<Rightarrow> bytes list \<Rightarrow> 'b storage \<Rightarrow> (gerror + unit) \<times> 'b storage" where
  "for_prefixes f [] s = (Inr (), s)"
| "for_prefixes f (p # ps) s =
     (case f s p of (Inl er, s') \<Rightarrow> (Inl er, s') | (Inr _, s') \<Rightarrow> for_prefixes f ps s')"

definition releaseStaleReservations :: "time \<Rightarrow> 'b storage \<Rightarrow> duration \<Rightarrow> (gerror + unit) \<times> 'b storage" where
  "releaseStaleReservations now s maxAge =
     for_prefixes (\<lambda>s p. releaseStaleInPrefix s p (Unix now) maxAge) reservationBasePrefixes s"

section \<open>Batches and the fold chain's head (storage/batches.go)\<close>

definition SetBatchInput :: "time \<Rightarrow> 'b storage \<Rightarrow> BatchInput \<Rightarrow> (gerror + unit) \<times> 'b storage" where
  "SetBatchInput now s b =
     (let b' = (if bi_SealedAt b = 0 then b\<lparr>bi_SealedAt := now\<rparr> else b) in
      setArtifact s batchPrefix (subKey (bi_ElectionID b) (seqBytes (bi_Seq b))) (ABatch b'))"

text \<open>The votes of a batch whose status \<open>SealBatch\<close> moves to batched.\<close>

definition batchable :: "'b storage \<Rightarrow> ElectionID \<Rightarrow> VoteID \<Rightarrow> bool" where
  "batchable s eid vid \<longleftrightarrow>
     (case store_VoteStatus s eid vid of Inl _ \<Rightarrow> True | Inr cur \<Rightarrow> CanMoveTo cur VoteStatusBatched)"

definition SealBatch :: "time \<Rightarrow> 'b storage \<Rightarrow> BatchInput \<Rightarrow> bytes \<Rightarrow> (gerror + unit) \<times> 'b storage" where
  "SealBatch now s b snapshot =
     (let b' = (if bi_SealedAt b = 0 then b\<lparr>bi_SealedAt := now\<rparr> else b);
          eid = bi_ElectionID b in
      case EncodeArtifact (cbor s) (ABatch b') of
        Inl er \<Rightarrow> (Inl er, s)
      | Inr batch \<Rightarrow>
          (case EncodeArtifact (cbor s) (ABlob snapshot) of
             Inl er \<Rightarrow> (Inl er, s)
           | Inr snap \<Rightarrow>
               (case EncodeArtifact (cbor s) (AVoteStatus VoteStatusBatched) of
                  Inl er \<Rightarrow> (Inl er, s)
                | Inr batched \<Rightarrow>
                    Commit s
                      (TxSet (batchPrefix @ subKey eid (seqBytes (bi_Seq b))) batch
                       # TxSet (snapshotPrefix @ electionKey eid) snap
                       # map (\<lambda>vid. TxSet (voteStatusPrefix @ subKey eid vid) batched)
                           (filter (batchable s eid) (bi_VoteIDs b))))))"

definition store_BatchInput :: "'b storage \<Rightarrow> ElectionID \<Rightarrow> u64 \<Rightarrow> gerror + BatchInput" where
  "store_BatchInput s eid sq = typed unBatch (getArtifact s KBatch batchPrefix (subKey eid (seqBytes sq)))"

definition ListBatchInputs :: "'b storage \<Rightarrow> ElectionID \<Rightarrow> BatchInput list" where
  "ListBatchInputs s eid = decoded s KBatch unBatch (batchPrefix @ electionScanPrefix eid)"

definition ReserveBatch :: "time \<Rightarrow> 'b storage \<Rightarrow> ElectionID \<Rightarrow> u64 \<Rightarrow> (gerror + unit) \<times> 'b storage" where
  "ReserveBatch now s eid sq = setReservation now s batchPrefix (subKey eid (seqBytes sq))"

definition ReleaseBatch :: "'b storage \<Rightarrow> ElectionID \<Rightarrow> u64 \<Rightarrow> (gerror + unit) \<times> 'b storage" where
  "ReleaseBatch s eid sq = deleteReservation s batchPrefix (subKey eid (seqBytes sq))"

definition IsBatchReserved :: "'b storage \<Rightarrow> ElectionID \<Rightarrow> u64 \<Rightarrow> bool" where
  "IsBatchReserved s eid sq \<longleftrightarrow> isReserved s batchPrefix (subKey eid (seqBytes sq))"

definition SetFoldCheckpoint :: "time \<Rightarrow> 'b storage \<Rightarrow> FoldCheckpoint \<Rightarrow> (gerror + unit) \<times> 'b storage" where
  "SetFoldCheckpoint now s c =
     setArtifact s foldPrefix (electionKey (fcp_ElectionID c)) (AFold (c\<lparr>fcp_UpdatedAt := now\<rparr>))"

definition store_FoldCheckpoint :: "'b storage \<Rightarrow> ElectionID \<Rightarrow> gerror + FoldCheckpoint" where
  "store_FoldCheckpoint s eid = typed unFold (getArtifact s KFold foldPrefix (electionKey eid))"

definition store_Snapshot :: "'b storage \<Rightarrow> ElectionID \<Rightarrow> gerror + bytes" where
  "store_Snapshot s eid = typed unBlob (getArtifact s KBlob snapshotPrefix (electionKey eid))"

section \<open>Proofs (storage/proofs.go)\<close>

definition SetBatchProof :: "'b storage \<Rightarrow> ElectionID \<Rightarrow> u64 \<Rightarrow> bytes \<Rightarrow> (gerror + unit) \<times> 'b storage" where
  "SetBatchProof s eid sq proof = setArtifact s proofPrefix (batchProofKey eid sq) (ABlob proof)"

definition DeleteBatchProof :: "'b storage \<Rightarrow> ElectionID \<Rightarrow> u64 \<Rightarrow> (gerror + unit) \<times> 'b storage" where
  "DeleteBatchProof s eid sq = deleteArtifact s proofPrefix (batchProofKey eid sq)"

definition store_BatchProof :: "'b storage \<Rightarrow> ElectionID \<Rightarrow> u64 \<Rightarrow> gerror + bytes" where
  "store_BatchProof s eid sq = typed unBlob (getArtifact s KBlob proofPrefix (batchProofKey eid sq))"

definition ResetBatch :: "'b storage \<Rightarrow> BatchInput \<Rightarrow> (gerror + unit) \<times> 'b storage" where
  "ResetBatch s b =
     (case EncodeArtifact (cbor s) (ABatch b) of
        Inl er \<Rightarrow> (Inl er, s)
      | Inr batch \<Rightarrow>
          Commit s
            [TxSet (batchPrefix @ subKey (bi_ElectionID b) (seqBytes (bi_Seq b))) batch,
             TxDel (proofPrefix @ batchProofKey (bi_ElectionID b) (bi_Seq b))])"

definition store_FoldProof :: "'b storage \<Rightarrow> ElectionID \<Rightarrow> gerror + bytes" where
  "store_FoldProof s eid = typed unBlob (getArtifact s KBlob proofPrefix (foldProofKey eid))"

definition CommitFold :: "time \<Rightarrow> 'b storage \<Rightarrow> FoldCheckpoint \<Rightarrow> bytes \<Rightarrow> u64 list \<Rightarrow> (gerror + unit) \<times> 'b storage" where
  "CommitFold now s c proof folded =
     (if proof = [] then (Inl [Detail ''empty fold proof''], s)
      else
        case EncodeArtifact (cbor s) (AFold (c\<lparr>fcp_UpdatedAt := now\<rparr>)) of
          Inl er \<Rightarrow> (Inl er, s)
        | Inr cp \<Rightarrow>
            (case EncodeArtifact (cbor s) (ABlob proof) of
               Inl er \<Rightarrow> (Inl er, s)
             | Inr blob \<Rightarrow>
                 Commit s
                   (TxSet (foldPrefix @ electionKey (fcp_ElectionID c)) cp
                    # TxSet (proofPrefix @ foldProofKey (fcp_ElectionID c)) blob
                    # map (\<lambda>sq. TxDel (proofPrefix @ batchProofKey (fcp_ElectionID c) sq)) folded)))"

definition DeleteProofs :: "'b storage \<Rightarrow> ElectionID \<Rightarrow> (gerror + unit) \<times> 'b storage" where
  "DeleteProofs s eid =
     (let pre = proofPrefix @ electionScanPrefix eid in
      Commit s (map (\<lambda>kb. TxDel (pre @ fst kb)) (iterateArtifacts s pre)))"

section \<open>Results, provers, audit trail (storage/results.go, workers.go, audit.go)\<close>

definition SetResults :: "time \<Rightarrow> 'b storage \<Rightarrow> Results \<Rightarrow> (gerror + unit) \<times> 'b storage" where
  "SetResults now s r =
     (let r' = (if res_FinalizedAt r = 0 then r\<lparr>res_FinalizedAt := now\<rparr> else r) in
      setArtifact s resultsPrefix (electionKey (res_ElectionID r)) (AResults r'))"

definition store_Results :: "'b storage \<Rightarrow> ElectionID \<Rightarrow> gerror + Results" where
  "store_Results s eid = typed unResults (getArtifact s KResults resultsPrefix (electionKey eid))"

definition SetWorker :: "time \<Rightarrow> 'b storage \<Rightarrow> WorkerRegistration \<Rightarrow> (gerror + unit) \<times> 'b storage" where
  "SetWorker now s w =
     (let w' = (if wr_RegisteredAt w = 0 then w\<lparr>wr_RegisteredAt := now\<rparr> else w) in
      setArtifact s workerPrefix (wr_Address w) (AWorker w'))"

definition DeleteWorker :: "'b storage \<Rightarrow> string \<Rightarrow> (gerror + unit) \<times> 'b storage" where
  "DeleteWorker s address = deleteArtifact s workerPrefix address"

definition ListWorkers :: "'b storage \<Rightarrow> WorkerRegistration list" where
  "ListWorkers s = decoded s KWorker unWorker workerPrefix"

text \<open>\<open>fmt\<close>'s \<open>%0wd\<close>: the sign, then zeros up to the width.\<close>

definition zeroPad :: "nat \<Rightarrow> int \<Rightarrow> string" where
  "zeroPad w n =
     (let ds = decString (nat \<bar>n\<bar>) in
      if n < 0 then CHR ''-'' # replicate (w - 1 - length ds) (CHR ''0'') @ ds
      else replicate (w - length ds) (CHR ''0'') @ ds)"

definition auditKey :: "time \<Rightarrow> u64 \<Rightarrow> bytes" where
  "auditKey t sq = zeroPad 20 (UnixNano t) @ ''-'' @ zeroPad 10 (uint sq)"

definition AppendAudit :: "time \<Rightarrow> 'b storage \<Rightarrow> AuditRecord \<Rightarrow> (gerror + unit) \<times> 'b storage" where
  "AppendAudit now s r =
     (let r' = (if au_Timestamp r = 0 then r\<lparr>au_Timestamp := now\<rparr> else r);
          sq = auditSeq s + 1 in
      setArtifact (s\<lparr>auditSeq := sq\<rparr>) auditPrefix (auditKey (au_Timestamp r') sq) (AAudit r'))"

definition ListAudit :: "'b storage \<Rightarrow> AuditRecord list" where
  "ListAudit s = decoded s KAudit unAudit auditPrefix"

section \<open>Start-up (storage/storage.go)\<close>

definition defaultReservationTimeout :: duration where
  "defaultReservationTimeout = 5 * minute"

definition recover :: "'b storage \<Rightarrow> (gerror + unit) \<times> 'b storage" where
  "recover s =
     for_prefixes
       (\<lambda>s p. case cleanAllReservations s p of
                 (Inl er, s') \<Rightarrow> (Inl (Detail ''clear reservations'' # er), s')
               | (Inr _, s') \<Rightarrow> (Inr (), s'))
       reservationBasePrefixes s"

definition New :: "(bytes \<times> 'b) list \<Rightarrow> 'b codec \<Rightarrow> bool list \<Rightarrow> 'b storage" where
  "New database cd fl =
     snd (recover \<lparr>db = database, cbor = cd, faults = fl, auditSeq = 0,
       reservationTimeout = defaultReservationTimeout, processingAddresses = {}, processingVoteIDs = {}\<rparr>)"

definition SetReservationTimeout :: "'b storage \<Rightarrow> duration \<Rightarrow> 'b storage" where
  "SetReservationTimeout s d = s\<lparr>reservationTimeout := d\<rparr>"

text \<open>One round of \<open>monitorStaleReservations\<close>; a failure is only logged.\<close>

definition monitorStaleReservations :: "time \<Rightarrow> 'b storage \<Rightarrow> 'b storage" where
  "monitorStaleReservations now s = snd (releaseStaleReservations now s (reservationTimeout s))"

end
