(* ===== verification/Storage_Laws.thy ===== *)
theory Storage_Laws
  imports Storage
begin

text \<open>
  The laws of the storage operations on a well-formed storage: what a read returns, which
  keys a write changes (as a list of \<open>Put\<close> and \<open>Drop\<close> committed at once), what a
  scan lists. Components above the storage use these and never the byte level below.
\<close>

section \<open>Views\<close>

abbreviation election_at :: "'b storage \<Rightarrow> ElectionID \<Rightarrow> Election option" where
  "election_at s eid \<equiv> Option.bind (artifact_at s (ElectionK eid)) unElection"
abbreviation vote_at :: "'b storage \<Rightarrow> ElectionID \<Rightarrow> VoteID \<Rightarrow> Vote option" where
  "vote_at s eid vid \<equiv> Option.bind (artifact_at s (VoteK eid vid)) unVote"
abbreviation status_at :: "'b storage \<Rightarrow> ElectionID \<Rightarrow> VoteID \<Rightarrow> VoteStatus option" where
  "status_at s eid vid \<equiv> Option.bind (artifact_at s (VoteStatusK eid vid)) unVoteStatus"
abbreviation voteSeq_at :: "'b storage \<Rightarrow> ElectionID \<Rightarrow> u64 option" where
  "voteSeq_at s eid \<equiv> Option.bind (artifact_at s (VoteSeqK eid)) unVoteSeq"
abbreviation batch_at :: "'b storage \<Rightarrow> ElectionID \<Rightarrow> u64 \<Rightarrow> BatchInput option" where
  "batch_at s eid sq \<equiv> Option.bind (artifact_at s (BatchK eid sq)) unBatch"
abbreviation checkpoint_at :: "'b storage \<Rightarrow> ElectionID \<Rightarrow> FoldCheckpoint option" where
  "checkpoint_at s eid \<equiv> Option.bind (artifact_at s (FoldK eid)) unFold"
abbreviation snapshot_at :: "'b storage \<Rightarrow> ElectionID \<Rightarrow> bytes option" where
  "snapshot_at s eid \<equiv> Option.bind (artifact_at s (SnapshotK eid)) unBlob"
abbreviation results_at :: "'b storage \<Rightarrow> ElectionID \<Rightarrow> Results option" where
  "results_at s eid \<equiv> Option.bind (artifact_at s (ResultsK eid)) unResults"
abbreviation batchProof_at :: "'b storage \<Rightarrow> ElectionID \<Rightarrow> u64 \<Rightarrow> bytes option" where
  "batchProof_at s eid sq \<equiv> Option.bind (artifact_at s (BatchProofK eid sq)) unBlob"
abbreviation foldProof_at :: "'b storage \<Rightarrow> ElectionID \<Rightarrow> bytes option" where
  "foldProof_at s eid \<equiv> Option.bind (artifact_at s (FoldProofK eid)) unBlob"
abbreviation reservation_at :: "'b storage \<Rightarrow> ElectionID \<Rightarrow> u64 \<Rightarrow> int option" where
  "reservation_at s eid sq \<equiv> Option.bind (artifact_at s (ReservedK eid sq)) unReservation"

definition found :: "'a option \<Rightarrow> gerror + 'a" where
  "found r = (case r of None \<Rightarrow> Inl [ErrNotFound] | Some x \<Rightarrow> Inr x)"

lemma found_simps [simp]:
  "found None = Inl [ErrNotFound]"
  "found (Some x) = Inr x"
  "found r = Inr x \<longleftrightarrow> r = Some x"
  "found r = Inl e \<longleftrightarrow> r = None \<and> e = [ErrNotFound]"
  "isl (found r) \<longleftrightarrow> r = None"
  "(case found r of Inl e \<Rightarrow> f e | Inr x \<Rightarrow> g x) = (case r of None \<Rightarrow> f [ErrNotFound] | Some x \<Rightarrow> g x)"
  by (auto simp: found_def split: option.splits)

lemma with_value_simps [simp]:
  "fst (with_value x r) = Inr y \<longleftrightarrow> isOk (fst r) \<and> y = x"
  "fst (with_value x r) = Inl e \<longleftrightarrow> fst r = Inl e"
  "snd (with_value x r) = snd r"
  by (auto simp: with_value_def split: sum.splits)

section \<open>Keys\<close>

lemma key_folds [simp]:
  "electionPrefix @ electionKey eid = key_bytes (ElectionK eid)"
  "votePrefix @ subKey eid vid = key_bytes (VoteK eid vid)"
  "voteStatusPrefix @ subKey eid vid = key_bytes (VoteStatusK eid vid)"
  "voteSeqPrefix @ electionKey eid = key_bytes (VoteSeqK eid)"
  "batchPrefix @ subKey eid (seqBytes sq) = key_bytes (BatchK eid sq)"
  "foldPrefix @ electionKey eid = key_bytes (FoldK eid)"
  "snapshotPrefix @ electionKey eid = key_bytes (SnapshotK eid)"
  "resultsPrefix @ electionKey eid = key_bytes (ResultsK eid)"
  "auditPrefix @ k = key_bytes (AuditK k)"
  "proofPrefix @ batchProofKey eid sq = key_bytes (BatchProofK eid sq)"
  "proofPrefix @ foldProofKey eid = key_bytes (FoldProofK eid)"
  "workerPrefix @ addr = key_bytes (WorkerK addr)"
  "reservationPrefixRoot @ key_bytes (BatchK eid sq) = key_bytes (ReservedK eid sq)"
  by (simp_all add: key_bytes.simps)

section \<open>Reads\<close>

lemma unElection_total: "kind_of a = KElection \<Longrightarrow> unElection a \<noteq> None" by (cases a) auto
lemma unVote_total: "kind_of a = KVote \<Longrightarrow> unVote a \<noteq> None" by (cases a) auto
lemma unVoteStatus_total: "kind_of a = KVoteStatus \<Longrightarrow> unVoteStatus a \<noteq> None" by (cases a) auto
lemma unVoteSeq_total: "kind_of a = KVoteSeq \<Longrightarrow> unVoteSeq a \<noteq> None" by (cases a) auto
lemma unBatch_total: "kind_of a = KBatch \<Longrightarrow> unBatch a \<noteq> None" by (cases a) auto
lemma unFold_total: "kind_of a = KFold \<Longrightarrow> unFold a \<noteq> None" by (cases a) auto
lemma unBlob_total: "kind_of a = KBlob \<Longrightarrow> unBlob a \<noteq> None" by (cases a) auto
lemma unResults_total: "kind_of a = KResults \<Longrightarrow> unResults a \<noteq> None" by (cases a) auto
lemma unAudit_total: "kind_of a = KAudit \<Longrightarrow> unAudit a \<noteq> None" by (cases a) auto
lemma unWorker_total: "kind_of a = KWorker \<Longrightarrow> unWorker a \<noteq> None" by (cases a) auto
lemma unReservation_total: "kind_of a = KReservation \<Longrightarrow> unReservation a \<noteq> None" by (cases a) auto

lemmas un_total = unElection_total unVote_total unVoteStatus_total unVoteSeq_total unBatch_total
  unFold_total unBlob_total unResults_total unAudit_total unWorker_total unReservation_total

lemma typed_getArtifact:
  assumes wf: "storage_wf s" and key: "pre @ key = key_bytes k" and kd: "kd = key_kind k"
    and total: "\<And>a. kind_of a = kd \<Longrightarrow> f a \<noteq> None"
  shows "typed f (getArtifact s kd pre key) = found (Option.bind (artifact_at s k) f)"
proof (cases "artifact_at s k")
  case None
  with getArtifact_wf[OF wf key] kd show ?thesis by (simp add: typed_def)
next
  case (Some a)
  with wf have "kind_of a = kd" by (simp add: kd storage_wf_fits fits_kind)
  then obtain x where "f a = Some x" using total by blast
  with getArtifact_wf[OF wf key] kd Some show ?thesis by (simp add: typed_def)
qed

lemma reads [store_simps]:
  assumes "storage_wf s"
  shows "store_Election s eid = found (election_at s eid)"
    and "store_Vote s eid vid = found (vote_at s eid vid)"
    and "store_VoteStatus s eid vid = found (status_at s eid vid)"
    and "store_BatchInput s eid sq = found (batch_at s eid sq)"
    and "store_FoldCheckpoint s eid = found (checkpoint_at s eid)"
    and "store_Snapshot s eid = found (snapshot_at s eid)"
    and "store_BatchProof s eid sq = found (batchProof_at s eid sq)"
    and "store_FoldProof s eid = found (foldProof_at s eid)"
    and "store_Results s eid = found (results_at s eid)"
  unfolding store_Election_def store_Vote_def store_VoteStatus_def store_BatchInput_def
    store_FoldCheckpoint_def store_Snapshot_def store_BatchProof_def store_FoldProof_def store_Results_def
  by (rule typed_getArtifact[OF assms]; simp add: un_total)+

lemma voteSeq_read:
  "storage_wf s \<Longrightarrow>
     typed unVoteSeq (getArtifact s KVoteSeq voteSeqPrefix (electionKey eid)) = found (voteSeq_at s eid)"
  by (rule typed_getArtifact) (simp_all add: un_total)

lemma VoteExists_iff [store_simps]: "storage_wf s \<Longrightarrow> VoteExists s eid vid \<longleftrightarrow> vote_at s eid vid \<noteq> None"
  by (simp add: VoteExists_def reads)

lemma isReserved_iff [store_simps]:
  assumes "storage_wf s"
  shows "IsBatchReserved s eid sq \<longleftrightarrow> artifact_at s (ReservedK eid sq) \<noteq> None"
  using storage_wf_present[OF assms, of "ReservedK eid sq"]
  by (auto simp: IsBatchReserved_def isReserved_def artifact_at_def at_key_def split: bind_splits)

section \<open>Writes\<close>

lemma Commit_writes:
  "map (write_op (cbor s)) ws = ops \<Longrightarrow> Commit s ops = commit_writes s ws"
  by (simp add: commit_writes_def)

lemma CreateElection_writes [store_simps]:
  assumes "storage_wf s"
  shows "CreateElection now s e snapshot =
    (let e' = e\<lparr>el_CreatedAt := now, el_UpdatedAt := now\<rparr> in
     if election_at s (el_ID e) \<noteq> None then (Inl [ErrKeyAlreadyExists], s)
     else with_value e' (commit_writes s
       [Put (ElectionK (el_ID e)) (AElection e'), Put (SnapshotK (el_ID e)) (ABlob snapshot)]))"
proof -
  have "typed unElection (getArtifact s KElection electionPrefix (electionKey (el_ID e)))
      = found (election_at s (el_ID e))"
    using reads(1)[OF assms] by (simp add: store_Election_def)
  then show ?thesis
    by (auto simp: CreateElection_def EncodeArtifact_eq[OF assms] commit_writes_def Let_def
        split: option.splits)
qed

lemma UpdateElection_writes [store_simps]:
  assumes "storage_wf s"
  shows "UpdateElection now s eid f =
    (case election_at s eid of None \<Rightarrow> (Inl [ErrNotFound], s)
     | Some e \<Rightarrow> (case f e of Inl er \<Rightarrow> (Inl er, s)
       | Inr e' \<Rightarrow> commit_writes s [Put (ElectionK eid) (AElection (e'\<lparr>el_UpdatedAt := now\<rparr>))]))"
proof -
  have "typed unElection (getArtifact s KElection electionPrefix (electionKey eid)) = found (election_at s eid)"
    using reads(1)[OF assms] by (simp add: store_Election_def)
  then show ?thesis
    by (auto simp: UpdateElection_def setArtifact_commit[OF assms] split: option.splits sum.splits)
qed

lemma AddVote_writes [store_simps]:
  assumes "storage_wf s"
  shows "AddVote now s eid v =
    (let n = (case voteSeq_at s eid of None \<Rightarrow> 0 | Some n \<Rightarrow> n) + 1;
         v' = v\<lparr>v_Seq := n, v_SubmittedAt := now\<rparr> in
     with_value v' (commit_writes s
       [Put (VoteSeqK eid) (AVoteSeq n), Put (VoteK eid (v_ID v)) (AVote v'),
        Put (VoteStatusK eid (v_ID v)) (AVoteStatus VoteStatusPending)]))"
  by (auto simp: AddVote_def voteSeq_read[OF assms] EncodeArtifact_eq[OF assms] commit_writes_def Let_def
      split: option.splits)

lemma SetVoteStatus_writes [store_simps]:
  assumes "storage_wf s"
  shows "SetVoteStatus s eid vid st =
    (if (\<exists>cur. status_at s eid vid = Some cur \<and> \<not> CanMoveTo cur st) then (Inr (), s)
     else commit_writes s [Put (VoteStatusK eid vid) (AVoteStatus st)])"
  by (auto simp: SetVoteStatus_def setVoteStatusLocked_def reads[OF assms] setArtifact_commit[OF assms]
      split: option.splits)

lemma batchable_iff [store_simps]:
  "storage_wf s \<Longrightarrow> batchable s eid vid \<longleftrightarrow>
     (\<forall>cur. status_at s eid vid = Some cur \<longrightarrow> CanMoveTo cur VoteStatusBatched)"
  by (auto simp: batchable_def reads split: option.splits)

lemma SealBatch_writes [store_simps]:
  assumes "storage_wf s"
  shows "SealBatch now s b snapshot =
    commit_writes s
      (Put (BatchK (bi_ElectionID b) (bi_Seq b))
         (ABatch (if bi_SealedAt b = 0 then b\<lparr>bi_SealedAt := now\<rparr> else b))
       # Put (SnapshotK (bi_ElectionID b)) (ABlob snapshot)
       # map (\<lambda>vid. Put (VoteStatusK (bi_ElectionID b) vid) (AVoteStatus VoteStatusBatched))
           (filter (batchable s (bi_ElectionID b)) (bi_VoteIDs b)))"
  by (simp add: SealBatch_def EncodeArtifact_eq[OF assms] commit_writes_def Let_def comp_def)

lemma other_writes [store_simps]:
  assumes "storage_wf s"
  shows "SetBatchInput now s b = commit_writes s
      [Put (BatchK (bi_ElectionID b) (bi_Seq b))
         (ABatch (if bi_SealedAt b = 0 then b\<lparr>bi_SealedAt := now\<rparr> else b))]"
    and "SetFoldCheckpoint now s c =
      commit_writes s [Put (FoldK (fcp_ElectionID c)) (AFold (c\<lparr>fcp_UpdatedAt := now\<rparr>))]"
    and "SetBatchProof s eid sq proof = commit_writes s [Put (BatchProofK eid sq) (ABlob proof)]"
    and "DeleteBatchProof s eid sq = commit_writes s [Drop (BatchProofK eid sq)]"
    and "ResetBatch s b = commit_writes s
      [Put (BatchK (bi_ElectionID b) (bi_Seq b)) (ABatch b), Drop (BatchProofK (bi_ElectionID b) (bi_Seq b))]"
    and "SetResults now s r = commit_writes s [Put (ResultsK (res_ElectionID r))
      (AResults (if res_FinalizedAt r = 0 then r\<lparr>res_FinalizedAt := now\<rparr> else r))]"
    and "SetWorker now s w = commit_writes s [Put (WorkerK (wr_Address w))
      (AWorker (if wr_RegisteredAt w = 0 then w\<lparr>wr_RegisteredAt := now\<rparr> else w))]"
    and "DeleteWorker s addr = commit_writes s [Drop (WorkerK addr)]"
    and "ReleaseBatch s eid sq = commit_writes s [Drop (ReservedK eid sq)]"
  by (simp_all add: SetBatchInput_def SetFoldCheckpoint_def SetBatchProof_def DeleteBatchProof_def
      ResetBatch_def SetResults_def SetWorker_def DeleteWorker_def ReleaseBatch_def deleteReservation_def
      setArtifact_commit[OF assms] deleteArtifact_commit EncodeArtifact_eq[OF assms] commit_writes_def Let_def)

lemma CommitFold_writes [store_simps]:
  assumes "storage_wf s"
  shows "CommitFold now s c proof folded =
    (if proof = [] then (Inl [Detail ''empty fold proof''], s)
     else commit_writes s
       (Put (FoldK (fcp_ElectionID c)) (AFold (c\<lparr>fcp_UpdatedAt := now\<rparr>))
        # Put (FoldProofK (fcp_ElectionID c)) (ABlob proof)
        # map (\<lambda>sq. Drop (BatchProofK (fcp_ElectionID c) sq)) folded))"
  by (simp add: CommitFold_def EncodeArtifact_eq[OF assms] commit_writes_def comp_def)

lemma ReserveBatch_writes [store_simps]:
  assumes "storage_wf s"
  shows "ReserveBatch now s eid sq =
    (if artifact_at s (ReservedK eid sq) \<noteq> None then (Inl [ErrKeyAlreadyExists], s)
     else commit_writes s [Put (ReservedK eid sq) (AReservation (Unix now))])"
  using isReserved_iff[OF assms, of eid sq]
  by (simp add: ReserveBatch_def setReservation_def EncodeArtifact_eq[OF assms] commit_writes_def
      IsBatchReserved_def isReserved_def)

lemma AppendAudit_writes [store_simps]:
  assumes "storage_wf s"
  shows "AppendAudit now s r =
    (let r' = (if au_Timestamp r = 0 then r\<lparr>au_Timestamp := now\<rparr> else r) in
     commit_writes (s\<lparr>auditSeq := auditSeq s + 1\<rparr>)
       [Put (AuditK (auditKey (au_Timestamp r') (auditSeq s + 1))) (AAudit r')])"
proof -
  have "storage_wf (s\<lparr>auditSeq := auditSeq s + 1\<rparr>)" using assms by (simp add: storage_wf_def)
  then show ?thesis by (simp add: AppendAudit_def setArtifact_commit Let_def)
qed

section \<open>Scans\<close>

lemma decoded_mem:
  assumes wf: "storage_wf s" and ns: "\<And>k. prefix pre (key_bytes k) \<Longrightarrow> key_kind k = kd"
  shows "x \<in> set (decoded s kd f pre) \<longleftrightarrow>
    (\<exists>k a. prefix pre (key_bytes k) \<and> artifact_at s k = Some a \<and> f a = Some x)"
proof
  assume "x \<in> set (decoded s kd f pre)"
  then obtain r b where mem: "(r, b) \<in> set (iterateArtifacts s pre)"
    and dec: "typed f (DecodeArtifact (cbor s) kd b) = Inr x"
    by (auto simp: decoded_def map_filter_def split: sum.splits)
  from mem wf have get: "kv_get (db s) (pre @ r) = Some b" by (simp add: iterateArtifacts_mem)
  with wf obtain k where k: "pre @ r = key_bytes k" by (auto simp: storage_wf_def db_typed_def)
  then have pre: "prefix pre (key_bytes k)" by (metis prefixI)
  from dec obtain a where "Unmarshal (cbor s) kd b = Some a" and "f a = Some x"
    by (auto simp: typed_def DecodeArtifact_def split: option.splits)
  with get k ns[OF pre] pre show "\<exists>k a. prefix pre (key_bytes k) \<and> artifact_at s k = Some a \<and> f a = Some x"
    by (auto simp: artifact_at_def at_key_def)
next
  assume "\<exists>k a. prefix pre (key_bytes k) \<and> artifact_at s k = Some a \<and> f a = Some x"
  then obtain k a where pre: "prefix pre (key_bytes k)" and at: "artifact_at s k = Some a" and fa: "f a = Some x"
    by blast
  from pre obtain r where r: "key_bytes k = pre @ r" by (auto simp: prefix_def)
  from at obtain b where b: "kv_get (db s) (key_bytes k) = Some b" "Unmarshal (cbor s) (key_kind k) b = Some a"
    by (auto simp: artifact_at_def at_key_def split: bind_splits)
  with r wf have "(r, b) \<in> set (iterateArtifacts s pre)" by (simp add: iterateArtifacts_mem)
  moreover have "typed f (DecodeArtifact (cbor s) kd b) = Inr x"
    using b(2) fa ns[OF pre] by (simp add: typed_def DecodeArtifact_def)
  ultimately show "x \<in> set (decoded s kd f pre)"
    by (force simp: decoded_def map_filter_def)
qed

lemma decoded_sorted:
  assumes wf: "storage_wf s" and ns: "\<And>k. prefix pre (key_bytes k) \<Longrightarrow> key_kind k = kd"
    and key: "\<And>k a x. prefix pre (key_bytes k) \<Longrightarrow> fits k a \<Longrightarrow> f a = Some x \<Longrightarrow> key_bytes k = pre @ g x"
  shows "sorted_wrt (\<lambda>x y. g x < g y) (decoded s kd f pre)"
proof -
  define d where "d = (\<lambda>b. case typed f (DecodeArtifact (cbor s) kd b) of Inl _ \<Rightarrow> None | Inr x \<Rightarrow> Some x)"
  have g: "g x = r" if "(r, b) \<in> set (iterateArtifacts s pre)" "d b = Some x" for r b x
  proof -
    from that wf have "kv_get (db s) (pre @ r) = Some b" by (simp add: iterateArtifacts_mem)
    with wf obtain k a where k: "pre @ r = key_bytes k" "Unmarshal (cbor s) (key_kind k) b = Some a" "fits k a"
      unfolding storage_wf_def db_typed_def by blast
    then have pre: "prefix pre (key_bytes k)" by (metis prefixI)
    with ns k that(2) have "f a = Some x"
      by (auto simp: d_def typed_def DecodeArtifact_def split: option.splits)
    from key[OF pre k(3) this] k(1) show ?thesis by simp
  qed
  have dec: "decoded s kd f pre = List.map_filter (\<lambda>kb. d (snd kb)) (iterateArtifacts s pre)"
    by (simp add: decoded_def d_def)
  have "sorted_wrt (\<lambda>x y. g x < g y) (List.map_filter (\<lambda>kb. d (snd kb)) l)"
    if "set l \<subseteq> set (iterateArtifacts s pre)" "sorted_wrt (<) (map fst l)" for l
    using that
  proof (induction l)
    case Nil
    show ?case by (simp add: map_filter_def)
  next
    case (Cons kb l)
    then show ?case
      by (cases kb) (auto simp: map_filter_def g dest!: subsetD split: option.splits)
  qed
  from this[OF order_refl iterateArtifacts_sorted[OF wf]] show ?thesis by (simp only: dec)
qed

lemma namespaces:
  "prefix electionPrefix (key_bytes k) \<longleftrightarrow> (\<exists>eid. k = ElectionK eid)"
  "prefix workerPrefix (key_bytes k) \<longleftrightarrow> (\<exists>addr. k = WorkerK addr)"
  "prefix auditPrefix (key_bytes k) \<longleftrightarrow> (\<exists>r. k = AuditK r)"
  "prefix (votePrefix @ electionScanPrefix eid) (key_bytes k) \<longleftrightarrow> (\<exists>vid. k = VoteK eid vid)"
  "prefix (voteStatusPrefix @ electionScanPrefix eid) (key_bytes k) \<longleftrightarrow> (\<exists>vid. k = VoteStatusK eid vid)"
  "prefix (batchPrefix @ electionScanPrefix eid) (key_bytes k) \<longleftrightarrow> (\<exists>sq. k = BatchK eid sq)"
  "prefix (proofPrefix @ electionScanPrefix eid) (key_bytes k) \<longleftrightarrow>
     k = FoldProofK eid \<or> (\<exists>sq. k = BatchProofK eid sq)"
  "prefix (reservationPrefixRoot @ batchPrefix) (key_bytes k) \<longleftrightarrow> (\<exists>e sq. k = ReservedK e sq)"
  by (cases k; auto simp: key_bytes.simps prefix_defs prefix_subKey batchProofKey_def foldProofKey_def
      simp del: key_folds)+

lemma ListElections_mem [store_simps]:
  assumes "storage_wf s"
  shows "e \<in> set (ListElections s) \<longleftrightarrow> election_at s (el_ID e) = Some e"
proof -
  have "e \<in> set (ListElections s) \<longleftrightarrow> (\<exists>eid. election_at s eid = Some e)"
    unfolding ListElections_def
    by (subst decoded_mem[OF assms]) (auto simp: namespaces split: bind_splits)
  moreover have "election_at s eid = Some e \<Longrightarrow> eid = el_ID e" for eid
    using storage_wf_fits[OF assms, of "ElectionK eid"]
    by (auto split: bind_splits elim!: unElection.elims)
  ultimately show ?thesis by metis
qed

lemma vote_at_ID: "storage_wf s \<Longrightarrow> vote_at s eid vid = Some v \<Longrightarrow> v_ID v = vid"
  using storage_wf_fits[of s "VoteK eid vid"] by (auto split: bind_splits elim!: unVote.elims)

lemma batch_at_ID: "storage_wf s \<Longrightarrow> batch_at s eid sq = Some b \<Longrightarrow> bi_ElectionID b = eid \<and> bi_Seq b = sq"
  using storage_wf_fits[of s "BatchK eid sq"] by (auto split: bind_splits elim!: unBatch.elims)

lemma election_at_ID: "storage_wf s \<Longrightarrow> election_at s eid = Some e \<Longrightarrow> el_ID e = eid"
  using storage_wf_fits[of s "ElectionK eid"] by (auto split: bind_splits elim!: unElection.elims)

lemma ListVotes_mem [store_simps]:
  assumes "storage_wf s"
  shows "v \<in> set (ListVotes s eid) \<longleftrightarrow> vote_at s eid (v_ID v) = Some v"
proof -
  have "v \<in> set (ListVotes s eid) \<longleftrightarrow> (\<exists>vid. vote_at s eid vid = Some v)"
    unfolding ListVotes_def
    by (subst decoded_mem[OF assms]) (auto simp: namespaces split: bind_splits)
  with vote_at_ID[OF assms] show ?thesis by metis
qed

lemma ListVotes_sorted:
  "storage_wf s \<Longrightarrow> sorted_wrt (\<lambda>v w. v_ID v < v_ID w) (ListVotes s eid)"
  unfolding ListVotes_def
  by (rule decoded_sorted) (auto simp: namespaces electionScanPrefix_subKey elim!: unVote.elims)

lemma ListBatchInputs_mem [store_simps]:
  assumes "storage_wf s"
  shows "b \<in> set (ListBatchInputs s eid) \<longleftrightarrow> batch_at s eid (bi_Seq b) = Some b"
proof -
  have "b \<in> set (ListBatchInputs s eid) \<longleftrightarrow> (\<exists>sq. batch_at s eid sq = Some b)"
    unfolding ListBatchInputs_def
    by (subst decoded_mem[OF assms]) (auto simp: namespaces split: bind_splits)
  with batch_at_ID[OF assms] show ?thesis by metis
qed

lemma ListBatchInputs_sorted_bytes:
  "storage_wf s \<Longrightarrow> sorted_wrt (\<lambda>a b. seqBytes (bi_Seq a) < seqBytes (bi_Seq b)) (ListBatchInputs s eid)"
  unfolding ListBatchInputs_def
  by (rule decoded_sorted) (auto simp: namespaces electionScanPrefix_subKey elim!: unBatch.elims)

end
