(* ===== verification/Vote_Log.thy ===== *)
theory Vote_Log
  imports Storage_Laws
begin

text \<open>
  Sequences of storage operations. \<open>store_step\<close> is one call of a writing method of
  package \<open>storage\<close>, whatever its result; \<open>fold store_step\<close> is any sequence of them,
  with any pattern of failing writes. Every sequence keeps the storage well formed, and along
  every sequence a vote's record stays and its status moves forward only. The two facts are
  interpretations of the machines of theory Prelude.
\<close>

section \<open>Deletions found by a scan\<close>

lemma kv_get_apply_dels:
  "kv_get (apply_tx (map TxDel ks) d) kb = (if kb \<in> set ks then None else kv_get d kb)"
  by (induction ks arbitrary: d) (auto simp: kv_get_del)

lemma apply_dels_wf:
  "kv_wf d \<Longrightarrow> db_typed cd d \<Longrightarrow> kv_wf (apply_tx (map TxDel ks) d) \<and> db_typed cd (apply_tx (map TxDel ks) d)"
  by (induction ks arbitrary: d) (auto simp: kv_wf_del db_typed_del)

lemma Commit_dels_wf: "storage_wf s \<Longrightarrow> storage_wf (snd (Commit s (map TxDel ks)))"
  by (auto simp: storage_wf_def Commit_def dest: apply_dels_wf)

lemma Commit_dels_at:
  "artifact_at (snd (Commit s (map TxDel ks))) k =
     (if \<not> next_fault s \<and> key_bytes k \<in> set ks then None else artifact_at s k)"
  by (simp add: artifact_at_def at_key_def Commit_def kv_get_apply_dels)

lemma scan_keys:
  assumes "storage_wf s"
  shows "key_bytes k \<in> set (map (\<lambda>kb. pre @ fst kb) (filter P (iterateArtifacts s pre))) \<longleftrightarrow>
    (\<exists>r b. key_bytes k = pre @ r \<and> kv_get (db s) (key_bytes k) = Some b \<and> P (r, b))"
  using assms by (force simp: iterateArtifacts_mem)

lemma artifact_at_None:
  "storage_wf s \<Longrightarrow> kv_get (db s) (key_bytes k) = None \<longleftrightarrow> artifact_at s k = None"
  using storage_wf_present[of s k]
  by (cases "kv_get (db s) (key_bytes k)") (auto simp: artifact_at_def at_key_def)

lemma map_TxDel: "map (\<lambda>kb. TxDel (pre @ fst kb)) l = map TxDel (map (\<lambda>kb. pre @ fst kb) l)"
  by (simp add: comp_def)

lemma DeleteProofs_at:
  assumes "storage_wf s"
  shows "artifact_at (snd (DeleteProofs s eid)) k =
    (if \<not> next_fault s \<and> (k = FoldProofK eid \<or> (\<exists>sq. k = BatchProofK eid sq)) then None
     else artifact_at s k)"
proof -
  define pre where "pre = proofPrefix @ electionScanPrefix eid"
  have keys: "key_bytes k \<in> set (map (\<lambda>kb. pre @ fst kb) (iterateArtifacts s pre)) \<longleftrightarrow>
      prefix pre (key_bytes k) \<and> artifact_at s k \<noteq> None"
    using scan_keys[OF assms, of k pre "\<lambda>_. True"] artifact_at_None[OF assms, of k]
    by (auto simp: prefix_def)
  have "artifact_at (snd (DeleteProofs s eid)) k =
      (if \<not> next_fault s \<and> prefix pre (key_bytes k) \<and> artifact_at s k \<noteq> None then None else artifact_at s k)"
    unfolding DeleteProofs_def Let_def pre_def[symmetric] map_TxDel Commit_dels_at keys ..
  then show ?thesis using namespaces(7)[of eid k] by (auto simp: pre_def)
qed

lemma DeleteProofs_wf: "storage_wf s \<Longrightarrow> storage_wf (snd (DeleteProofs s eid))"
  by (simp only: DeleteProofs_def Let_def map_TxDel Commit_dels_wf)

lemma cleanAllReservations_at:
  assumes "storage_wf s"
  shows "artifact_at (snd (cleanAllReservations s batchPrefix)) k =
    (if \<not> next_fault s \<and> (\<exists>e sq. k = ReservedK e sq) then None else artifact_at s k)"
proof -
  define pre where "pre = reservationPrefixRoot @ batchPrefix"
  have keys: "key_bytes k \<in> set (map (\<lambda>kb. pre @ fst kb) (iterateArtifacts s pre)) \<longleftrightarrow>
      prefix pre (key_bytes k) \<and> artifact_at s k \<noteq> None"
    using scan_keys[OF assms, of k pre "\<lambda>_. True"] artifact_at_None[OF assms, of k]
    by (auto simp: prefix_def)
  have "artifact_at (snd (cleanAllReservations s batchPrefix)) k =
      (if \<not> next_fault s \<and> prefix pre (key_bytes k) \<and> artifact_at s k \<noteq> None then None else artifact_at s k)"
    unfolding cleanAllReservations_def pre_def[symmetric] map_TxDel Commit_dels_at keys ..
  then show ?thesis using namespaces(8)[of k] by (auto simp: pre_def)
qed

lemma cleanAllReservations_wf: "storage_wf s \<Longrightarrow> storage_wf (snd (cleanAllReservations s pre))"
  by (simp only: cleanAllReservations_def map_TxDel Commit_dels_wf)

text \<open>A reservation goes exactly when it is older than the limit.\<close>

lemma releaseStaleInPrefix_at:
  fixes s :: "'b storage"
  assumes wf: "storage_wf s"
  shows "artifact_at (snd (releaseStaleInPrefix s batchPrefix now maxAge)) k =
    (if \<not> next_fault s \<and> (\<exists>e sq t. k = ReservedK e sq \<and> reservation_at s e sq = Some t \<and> now - t > maxAge div second)
     then None else artifact_at s k)"
proof -
  define pre where "pre = reservationPrefixRoot @ batchPrefix"
  define P :: "bytes \<times> 'b \<Rightarrow> bool" where "P = (\<lambda>kb. case typed unReservation (DecodeArtifact (cbor s) KReservation (snd kb)) of
      Inl _ \<Rightarrow> True | Inr timestamp \<Rightarrow> now - timestamp > maxAge div second)"
  define ks where "ks = map fst (filter P (iterateArtifacts s pre))"
  have stale: "key_bytes k \<in> set (map (\<lambda>sk. pre @ sk) ks) \<longleftrightarrow>
      (\<exists>e sq t. k = ReservedK e sq \<and> reservation_at s e sq = Some t \<and> now - t > maxAge div second)"
    (is "?L \<longleftrightarrow> ?R")
  proof -
    have "?L \<longleftrightarrow> (\<exists>r b. key_bytes k = pre @ r \<and> kv_get (db s) (key_bytes k) = Some b \<and> P (r, b))"
      using scan_keys[OF wf, of k pre P] by (simp add: ks_def comp_def)
    also have "\<dots> \<longleftrightarrow> (\<exists>e sq b. k = ReservedK e sq \<and> kv_get (db s) (key_bytes k) = Some b \<and> P ([], b))"
      using namespaces(8)[of k] by (auto simp: pre_def P_def prefix_def)
    also have "\<dots> \<longleftrightarrow> ?R"
    proof -
      have p: "P ([], b) \<longleftrightarrow> (\<exists>t. reservation_at s e sq = Some t \<and> now - t > maxAge div second)"
        if "kv_get (db s) (key_bytes (ReservedK e sq)) = Some b" for e sq b
      proof -
        from that wf obtain a where a: "Unmarshal (cbor s) KReservation b = Some a" "fits (ReservedK e sq) a"
          unfolding storage_wf_def db_typed_def by (metis key_bytes_inject key_kind.simps(13))
        then obtain t where "a = AReservation t" by (cases a) (auto simp: fits_def)
        with a that show ?thesis
          by (simp add: P_def artifact_at_def at_key_def typed_def DecodeArtifact_def)
      qed
      have g: "reservation_at s e sq = Some t \<Longrightarrow> \<exists>b. kv_get (db s) (key_bytes (ReservedK e sq)) = Some b" for e sq t
        by (auto simp: artifact_at_def at_key_def split: bind_splits)
      show ?thesis
      proof (cases k)
        case (ReservedK e sq)
        then show ?thesis using p[of e sq] g[of e sq] by auto
      qed simp_all
    qed
    finally show ?thesis .
  qed
  have "snd (releaseStaleInPrefix s batchPrefix now maxAge) =
      (if ks = [] then s else snd (Commit s (map TxDel (map (\<lambda>sk. pre @ sk) ks))))"
    by (simp add: releaseStaleInPrefix_def Let_def pre_def P_def[symmetric] ks_def comp_def
        split: sum.splits prod.splits)
  note eq = this
  show ?thesis
  proof (cases "ks = []")
    case True
    with stale eq show ?thesis by auto
  next
    case False
    show ?thesis unfolding eq if_not_P[OF False] Commit_dels_at stale ..
  qed
qed

lemma releaseStaleInPrefix_commit:
  fixes s :: "'b storage"
  shows "\<exists>ks. snd (releaseStaleInPrefix s pre now maxAge) = (if ks = [] then s else snd (Commit s (map TxDel ks)))"
proof -
  define stale :: "bytes \<times> 'b \<Rightarrow> bool" where "stale = (\<lambda>kb. case typed unReservation (DecodeArtifact (cbor s) KReservation (snd kb)) of
      Inl _ \<Rightarrow> True | Inr timestamp \<Rightarrow> now - timestamp > maxAge div second)"
  define ks where "ks = map (\<lambda>sk. (reservationPrefixRoot @ pre) @ sk)
      (map fst (filter stale (iterateArtifacts s (reservationPrefixRoot @ pre))))"
  have "snd (releaseStaleInPrefix s pre now maxAge) = (if ks = [] then s else snd (Commit s (map TxDel ks)))"
    by (simp add: releaseStaleInPrefix_def Let_def stale_def[symmetric] ks_def comp_def
        split: sum.splits prod.splits)
  then show ?thesis ..
qed

lemma releaseStaleInPrefix_wf:
  assumes "storage_wf s"
  shows "storage_wf (snd (releaseStaleInPrefix s pre now maxAge))"
  using releaseStaleInPrefix_commit[of s pre now maxAge] Commit_dels_wf[OF assms] assms
  by (auto split: if_splits)

section \<open>Operations\<close>

datatype store_op =
    OpCreateElection time Election bytes
  | OpUpdateElection time ElectionID Status string string
  | OpAddVote time ElectionID Vote
  | OpSetVoteStatus ElectionID VoteID VoteStatus
  | OpSealBatch time BatchInput bytes
  | OpSetBatchInput time BatchInput
  | OpResetBatch BatchInput
  | OpReserveBatch time ElectionID u64
  | OpReleaseBatch ElectionID u64
  | OpReleaseStale time
  | OpSetFoldCheckpoint time FoldCheckpoint
  | OpSetBatchProof ElectionID u64 bytes
  | OpDeleteBatchProof ElectionID u64
  | OpCommitFold time FoldCheckpoint bytes "u64 list"
  | OpDeleteProofs ElectionID
  | OpSetResults time Results
  | OpSetWorker time WorkerRegistration
  | OpDeleteWorker string
  | OpAppendAudit time AuditRecord
  | OpRestart

text \<open>
  \<open>OpUpdateElection\<close> sets the fields the source's update functions set. The one client of
  \<open>AddVote\<close> (\<open>SubmitVote\<close>) checks \<open>VoteExists\<close> first, under the vote-ID lock, so the
  step includes that check. \<open>OpRestart\<close> is the \<open>New\<close> of the next process.
\<close>

fun store_step :: "store_op \<Rightarrow> 'b storage \<Rightarrow> 'b storage" where
  "store_step (OpCreateElection now e snap) s = snd (CreateElection now s e snap)"
| "store_step (OpUpdateElection now eid st w m) s =
     snd (UpdateElection now s eid (\<lambda>e. Inr (e\<lparr>el_Status := st, el_FoldWorker := w, el_FinalizeError := m\<rparr>)))"
| "store_step (OpAddVote now eid v) s = (if VoteExists s eid (v_ID v) then s else snd (AddVote now s eid v))"
| "store_step (OpSetVoteStatus eid vid st) s = snd (SetVoteStatus s eid vid st)"
| "store_step (OpSealBatch now b snap) s = snd (SealBatch now s b snap)"
| "store_step (OpSetBatchInput now b) s = snd (SetBatchInput now s b)"
| "store_step (OpResetBatch b) s = snd (ResetBatch s b)"
| "store_step (OpReserveBatch now eid sq) s = snd (ReserveBatch now s eid sq)"
| "store_step (OpReleaseBatch eid sq) s = snd (ReleaseBatch s eid sq)"
| "store_step (OpReleaseStale now) s = monitorStaleReservations now s"
| "store_step (OpSetFoldCheckpoint now c) s = snd (SetFoldCheckpoint now s c)"
| "store_step (OpSetBatchProof eid sq p) s = snd (SetBatchProof s eid sq p)"
| "store_step (OpDeleteBatchProof eid sq) s = snd (DeleteBatchProof s eid sq)"
| "store_step (OpCommitFold now c p sqs) s = snd (CommitFold now s c p sqs)"
| "store_step (OpDeleteProofs eid) s = snd (DeleteProofs s eid)"
| "store_step (OpSetResults now r) s = snd (SetResults now s r)"
| "store_step (OpSetWorker now w) s = snd (SetWorker now s w)"
| "store_step (OpDeleteWorker addr) s = snd (DeleteWorker s addr)"
| "store_step (OpAppendAudit now r) s = snd (AppendAudit now s r)"
| "store_step OpRestart s = New (db s) (cbor s) (faults s)"

text \<open>A write-only operation is a list of writes; the four others are scans or start-up.\<close>

definition op_writes :: "store_op \<Rightarrow> 'b storage \<Rightarrow> dbwrite list" where
  "op_writes op s =
     (case op of
        OpCreateElection now e snap \<Rightarrow>
          (if election_at s (el_ID e) \<noteq> None then []
           else [Put (ElectionK (el_ID e)) (AElection (e\<lparr>el_CreatedAt := now, el_UpdatedAt := now\<rparr>)),
                 Put (SnapshotK (el_ID e)) (ABlob snap)])
      | OpUpdateElection now eid st w m \<Rightarrow>
          (case election_at s eid of None \<Rightarrow> []
           | Some e \<Rightarrow> [Put (ElectionK eid) (AElection
               (e\<lparr>el_Status := st, el_FoldWorker := w, el_FinalizeError := m, el_UpdatedAt := now\<rparr>))])
      | OpAddVote now eid v \<Rightarrow>
          (if vote_at s eid (v_ID v) \<noteq> None then []
           else (let n = (case voteSeq_at s eid of None \<Rightarrow> 0 | Some n \<Rightarrow> n) + 1 in
             [Put (VoteSeqK eid) (AVoteSeq n),
              Put (VoteK eid (v_ID v)) (AVote (v\<lparr>v_Seq := n, v_SubmittedAt := now\<rparr>)),
              Put (VoteStatusK eid (v_ID v)) (AVoteStatus VoteStatusPending)]))
      | OpSetVoteStatus eid vid st \<Rightarrow>
          (if \<exists>cur. status_at s eid vid = Some cur \<and> \<not> CanMoveTo cur st then []
           else [Put (VoteStatusK eid vid) (AVoteStatus st)])
      | OpSealBatch now b snap \<Rightarrow>
          Put (BatchK (bi_ElectionID b) (bi_Seq b)) (ABatch (if bi_SealedAt b = 0 then b\<lparr>bi_SealedAt := now\<rparr> else b))
          # Put (SnapshotK (bi_ElectionID b)) (ABlob snap)
          # map (\<lambda>vid. Put (VoteStatusK (bi_ElectionID b) vid) (AVoteStatus VoteStatusBatched))
              (filter (batchable s (bi_ElectionID b)) (bi_VoteIDs b))
      | OpSetBatchInput now b \<Rightarrow>
          [Put (BatchK (bi_ElectionID b) (bi_Seq b)) (ABatch (if bi_SealedAt b = 0 then b\<lparr>bi_SealedAt := now\<rparr> else b))]
      | OpResetBatch b \<Rightarrow>
          [Put (BatchK (bi_ElectionID b) (bi_Seq b)) (ABatch b), Drop (BatchProofK (bi_ElectionID b) (bi_Seq b))]
      | OpReserveBatch now eid sq \<Rightarrow>
          (if artifact_at s (ReservedK eid sq) \<noteq> None then [] else [Put (ReservedK eid sq) (AReservation (Unix now))])
      | OpReleaseBatch eid sq \<Rightarrow> [Drop (ReservedK eid sq)]
      | OpSetFoldCheckpoint now c \<Rightarrow> [Put (FoldK (fcp_ElectionID c)) (AFold (c\<lparr>fcp_UpdatedAt := now\<rparr>))]
      | OpSetBatchProof eid sq p \<Rightarrow> [Put (BatchProofK eid sq) (ABlob p)]
      | OpDeleteBatchProof eid sq \<Rightarrow> [Drop (BatchProofK eid sq)]
      | OpCommitFold now c p sqs \<Rightarrow>
          (if p = [] then []
           else Put (FoldK (fcp_ElectionID c)) (AFold (c\<lparr>fcp_UpdatedAt := now\<rparr>))
             # Put (FoldProofK (fcp_ElectionID c)) (ABlob p)
             # map (\<lambda>sq. Drop (BatchProofK (fcp_ElectionID c) sq)) sqs)
      | OpSetResults now r \<Rightarrow>
          [Put (ResultsK (res_ElectionID r)) (AResults (if res_FinalizedAt r = 0 then r\<lparr>res_FinalizedAt := now\<rparr> else r))]
      | OpSetWorker now w \<Rightarrow>
          [Put (WorkerK (wr_Address w)) (AWorker (if wr_RegisteredAt w = 0 then w\<lparr>wr_RegisteredAt := now\<rparr> else w))]
      | OpDeleteWorker addr \<Rightarrow> [Drop (WorkerK addr)]
      | OpAppendAudit now r \<Rightarrow>
          (let r' = (if au_Timestamp r = 0 then r\<lparr>au_Timestamp := now\<rparr> else r) in
           [Put (AuditK (auditKey (au_Timestamp r') (auditSeq s + 1))) (AAudit r')])
      | _ \<Rightarrow> [])"

lemma op_writes_ok:
  assumes "storage_wf s"
  shows "list_all write_ok (op_writes op s)"
  using election_at_ID[OF assms]
  by (cases op) (auto simp: op_writes_def Let_def list_all_iff split: option.splits)

fun scan_op :: "store_op \<Rightarrow> bool" where
  "scan_op (OpReleaseStale _) = True"
| "scan_op (OpDeleteProofs _) = True"
| "scan_op OpRestart = True"
| "scan_op _ = False"

lemma artifact_at_auditSeq [simp]: "artifact_at (s\<lparr>auditSeq := n\<rparr>) = artifact_at s"
  by (simp add: fun_eq_iff artifact_at_def)

lemma storage_wf_auditSeq [simp]: "storage_wf (s\<lparr>auditSeq := n\<rparr>) = storage_wf s"
  by (simp add: storage_wf_def)

lemma next_fault_auditSeq [simp]: "next_fault (s\<lparr>auditSeq := n\<rparr>) = next_fault s"
  by (simp add: next_fault_def)

lemma store_step_at:
  assumes wf: "storage_wf s" and "\<not> scan_op op"
  shows "artifact_at (store_step op s) =
      (if next_fault s then artifact_at s else apply_writes (op_writes op s) (artifact_at s))"
  using assms(2) op_writes_ok[OF wf, of op] wf
  by (cases op) (auto simp add: store_simps op_writes_def Let_def commit_writes_at split: option.splits if_splits)

lemma store_step_wf_writes:
  assumes wf: "storage_wf s" and "\<not> scan_op op"
  shows "storage_wf (store_step op s)"
  using assms(2) op_writes_ok[OF wf, of op] wf
  by (cases op) (simp_all add: store_simps op_writes_def Let_def commit_writes_wf split: option.splits if_splits)

lemma monitorStale_wf: "storage_wf s \<Longrightarrow> storage_wf (monitorStaleReservations now s)"
  using releaseStaleInPrefix_wf[of s batchPrefix "Unix now" "reservationTimeout s"]
  by (auto simp: monitorStaleReservations_def releaseStaleReservations_def reservationBasePrefixes_def
      split: prod.splits sum.splits)

lemma New_wf: "storage_wf s \<Longrightarrow> storage_wf (New (db s) (cbor s) fl)"
  unfolding New_def recover_def reservationBasePrefixes_def
  by (auto split: prod.splits sum.splits simp: storage_wf_def)
    (metis cleanAllReservations_wf snd_conv storage_wf_def storage.select_convs)+

lemma store_step_wf: "storage_wf s \<Longrightarrow> storage_wf (store_step op s)"
  by (cases "scan_op op")
    (auto simp: store_step_wf_writes DeleteProofs_wf monitorStale_wf New_wf elim!: scan_op.elims)

interpretation store_machine: invariant_machine store_step storage_wf
  by unfold_locales (rule store_step_wf)

section \<open>A vote moves forward only\<close>

lemma apply_writes_map_Put:
  "apply_writes (map (\<lambda>x. Put (f x) a) xs) m k = (if k \<in> f ` set xs then Some a else m k)"
  by (induction xs arbitrary: m) auto

lemma apply_writes_map_Drop:
  "apply_writes (map (\<lambda>x. Drop (f x)) xs) m k = (if k \<in> f ` set xs then None else m k)"
  by (induction xs arbitrary: m) auto

lemmas apply_writes_maps = apply_writes_map_Put apply_writes_map_Drop

definition votes_forward :: "'b storage \<Rightarrow> 'b storage \<Rightarrow> bool" where
  "votes_forward s t \<longleftrightarrow>
     (\<forall>eid vid v st. vote_at s eid vid = Some v \<and> status_at s eid vid = Some st \<longrightarrow>
        vote_at t eid vid = Some v \<and>
        (\<exists>st'. status_at t eid vid = Some st' \<and> (st' = st \<or> CanMoveTo st st')))"

lemma votes_forward_refl: "votes_forward s s"
  by (simp add: votes_forward_def)

lemma votes_forward_trans: "votes_forward s t \<Longrightarrow> votes_forward t u \<Longrightarrow> votes_forward s u"
  unfolding votes_forward_def by (fast intro: CanMoveTo_trans)

lemma votes_forward_same:
  "(\<And>eid vid. artifact_at t (VoteK eid vid) = artifact_at s (VoteK eid vid)) \<Longrightarrow>
   (\<And>eid vid. artifact_at t (VoteStatusK eid vid) = artifact_at s (VoteStatusK eid vid)) \<Longrightarrow>
   votes_forward s t"
  by (simp add: votes_forward_def)

lemma votes_forward_writes:
  assumes wf: "storage_wf s" and "\<not> scan_op op"
  shows "votes_forward s (store_step op s)"
proof (cases "next_fault s")
  case True
  then show ?thesis using store_step_at[OF assms] by (intro votes_forward_same) simp_all
next
  case False
  define t where "t = store_step op s"
  have at: "artifact_at t = apply_writes (op_writes op s) (artifact_at s)"
    using store_step_at[OF assms] False by (simp add: t_def)
  have "votes_forward s t"
  proof (cases op)
    case (OpAddVote now eid v)
    then show ?thesis by (auto simp: votes_forward_def at op_writes_def Let_def)
  next
    case (OpSetVoteStatus eid vid st)
    then show ?thesis by (auto simp: votes_forward_def at op_writes_def)
  next
    case (OpSealBatch now b snap)
    then show ?thesis
      by (auto simp: votes_forward_def at op_writes_def apply_writes_maps batchable_iff[OF wf])
  qed (use assms(2) in \<open>auto intro!: votes_forward_same simp: at op_writes_def Let_def apply_writes_maps
      split: option.splits\<close>)
  then show ?thesis by (simp add: t_def)
qed

lemma artifact_at_cong: "db t = db s \<Longrightarrow> cbor t = cbor s \<Longrightarrow> artifact_at t = artifact_at s"
  by (simp add: fun_eq_iff artifact_at_def)

lemma monitorStale_votes:
  assumes "storage_wf s"
  shows "votes_forward s (monitorStaleReservations now s)"
proof -
  have "artifact_at (monitorStaleReservations now s) =
      artifact_at (snd (releaseStaleInPrefix s batchPrefix (Unix now) (reservationTimeout s)))"
    by (auto simp: monitorStaleReservations_def releaseStaleReservations_def reservationBasePrefixes_def
        split: prod.splits sum.splits)
  then show ?thesis by (intro votes_forward_same) (simp_all add: releaseStaleInPrefix_at[OF assms])
qed

lemma New_at:
  assumes "storage_wf s"
  shows "artifact_at (New (db s) (cbor s) fl) k =
    (if \<not> next_fault (s\<lparr>faults := fl\<rparr>) \<and> (\<exists>e sq. k = ReservedK e sq) then None else artifact_at s k)"
proof -
  define s0 where "s0 = \<lparr>db = db s, cbor = cbor s, faults = fl, auditSeq = 0,
    reservationTimeout = defaultReservationTimeout, processingAddresses = {}, processingVoteIDs = {}\<rparr>"
  have wf0: "storage_wf s0" using assms by (simp add: s0_def storage_wf_def)
  have "New (db s) (cbor s) fl = snd (cleanAllReservations s0 batchPrefix)"
    by (auto simp: New_def recover_def reservationBasePrefixes_def s0_def split: prod.splits sum.splits)
  moreover have "artifact_at s0 = artifact_at s" by (rule artifact_at_cong) (simp_all add: s0_def)
  moreover have "next_fault s0 = next_fault (s\<lparr>faults := fl\<rparr>)" by (simp add: s0_def next_fault_def)
  ultimately show ?thesis using cleanAllReservations_at[OF wf0] by simp
qed

lemma store_step_votes: "storage_wf s \<Longrightarrow> votes_forward s (store_step op s)"
proof (cases "scan_op op")
  case True
  assume "storage_wf s"
  with True show ?thesis
    by (cases op) (auto intro!: votes_forward_same simp: DeleteProofs_at New_at monitorStale_votes)
qed (rule votes_forward_writes)

interpretation vote_log: progress_machine store_step storage_wf votes_forward
  by unfold_locales (auto intro: votes_forward_refl votes_forward_trans store_step_votes)

end
