(* ===== verification/Storage_Properties.thy ===== *)
theory Storage_Properties
  imports Vote_Log
begin

text \<open>
  What package \<open>storage\<close> promises its callers, stated over its operations: the key space,
  atomic multi-key writes, the forward-only vote log, ordered scans, stale reservations. The
  witnesses run the operations on a storage whose documents are the artifacts themselves.
\<close>

section \<open>A concrete storage\<close>

definition plain_codec :: "artifact codec" where
  "plain_codec = \<lparr>Marshal = Some, Unmarshal = \<lambda>k a. if kind_of a = k then Some a else None\<rparr>"

definition fresh :: "artifact storage" where
  "fresh = New [] plain_codec []"

lemma plain_codec_ok [simp]: "codec_ok plain_codec"
  by (simp add: codec_ok_def plain_codec_def)

lemma fresh_simps [simp]:
  "db fresh = []" "cbor fresh = plain_codec" "faults fresh = []" "auditSeq fresh = 0"
  "reservationTimeout fresh = 5 * minute"
  by (simp_all add: fresh_def New_def recover_def reservationBasePrefixes_def cleanAllReservations_def
      iterateArtifacts_def kv_scan_def Commit_def next_fault_def defaultReservationTimeout_def)

lemma fresh_wf [simp]: "storage_wf fresh"
  by (simp add: storage_wf_def kv_wf_def db_typed_def kv_get_def)

lemma fresh_at [simp]: "artifact_at fresh k = None" "next_fault fresh = False"
  by (simp_all add: artifact_at_def at_key_def kv_get_def next_fault_def)

definition sample_vote :: Vote where
  "sample_vote = \<lparr>v_ID = ''v1'', v_Address = ''a'', v_Slot = 3, v_VoteIDKey = 7, v_Ballot = ''b'',
     v_Payload = ''p'', v_Seq = 0, v_SubmittedAt = 0\<rparr>"

definition sample_batch :: BatchInput where
  "sample_batch = \<lparr>bi_ElectionID = ''E'', bi_Seq = 0, bi_ProveRequest = ''req'', bi_NewStateRoot = ''root'',
     bi_VoteIDs = [''v1''], bi_Worker = [], bi_JobID = [], bi_ImportedID = [], bi_FoldWorker = [], bi_SealedAt = 0\<rparr>"

lemma sample_batch_simps [simp]:
  "bi_ElectionID sample_batch = ''E''" "bi_Seq sample_batch = 0" "bi_VoteIDs sample_batch = [''v1'']"
  "bi_SealedAt sample_batch = 0"
  by (simp_all add: sample_batch_def)

lemma writes_succeed:
  assumes "storage_wf s" and "\<not> next_fault s"
  shows "fst (SealBatch now s b snap) = Inr ()"
    and "fst (ReserveBatch now s eid sq) = (if artifact_at s (ReservedK eid sq) = None then Inr () else Inl [ErrKeyAlreadyExists])"
    and "proof \<noteq> [] \<Longrightarrow> fst (CommitFold now s c proof folded) = Inr ()"
    and "fst (AddVote now s eid v) =
      Inr (v\<lparr>v_Seq := (case voteSeq_at s eid of None \<Rightarrow> 0 | Some n \<Rightarrow> n) + 1, v_SubmittedAt := now\<rparr>)"
  using assms
  by (simp_all add: SealBatch_writes ReserveBatch_writes CommitFold_writes AddVote_writes commit_writes_result Let_def)

definition sample_checkpoint :: FoldCheckpoint where
  "sample_checkpoint = \<lparr>fcp_ElectionID = ''E'', fcp_FoldCount = 1, fcp_LastFoldJob = ''j'', fcp_FoldWorker = ''w'',
     fcp_StateRoot = ''root'', fcp_BatchesFolded = 2, fcp_AggVK = ''a'', fcp_BatchVK = ''b'', fcp_UpdatedAt = 0, fcp_Version = 1\<rparr>"

definition one_vote :: "artifact storage" where
  "one_vote = store_step (OpAddVote 5 ''E'' sample_vote) fresh"

lemma one_vote_wf [simp]: "storage_wf one_vote"
  unfolding one_vote_def by (rule store_step_wf) simp

lemma one_vote_fault [simp]: "next_fault one_vote = False"
  by (simp add: one_vote_def store_simps Let_def next_fault_def frame_simps)

lemma one_vote_at:
  "artifact_at one_vote k =
     (if k = VoteSeqK ''E'' then Some (AVoteSeq 1)
      else if k = VoteK ''E'' ''v1'' then Some (AVote (sample_vote\<lparr>v_Seq := 1, v_SubmittedAt := 5\<rparr>))
      else if k = VoteStatusK ''E'' ''v1'' then Some (AVoteStatus VoteStatusPending)
      else None)"
  unfolding one_vote_def
  by (subst store_step_at) (auto simp: op_writes_def Let_def sample_vote_def)

section \<open>The key space\<close>

text \<open>
  C23. No two things the source stores share a database key: the byte strings of two keys
  (their namespace, election, and vote ID, sequence number, address or audit key) are equal
  only when the keys are.
\<close>

theorem key_space_injective: "key_bytes k = key_bytes k' \<longleftrightarrow> k = k'"
  by (rule key_bytes_inject)

section \<open>Any sequence of operations\<close>

text \<open>
  C24. Whatever sequence of storage operations runs, with whatever pattern of failing
  writes, the database stays ordered and every entry stays one that decodes to the type its
  key stands for and names the key it is stored under.
\<close>

theorem store_run_wf: "storage_wf s \<Longrightarrow> storage_wf (fold store_step ops s)"
  by (rule store_machine.run_inv)

theorem store_run_wf_witness: "storage_wf (fold store_step [OpAddVote 5 ''E'' sample_vote, OpRestart] fresh)"
  using store_run_wf[of fresh "[OpAddVote 5 ''E'' sample_vote, OpRestart]"] by simp

text \<open>
  C22. The byte-level database implements a map from keys to artifacts: every operation that
  is not a scan of a whole namespace changes the map by the writes of its specification, all of
  them, or leaves it when the database refuses the write.
\<close>

theorem storage_refines:
  assumes "storage_wf s" and "\<not> scan_op op"
  shows "artifact_at (store_step op s) =
    (if next_fault s then artifact_at s else apply_writes (op_writes op s) (artifact_at s))"
  using assms by (rule store_step_at)

theorem storage_refines_witness:
  "artifact_at (store_step (OpSetVoteStatus ''E'' ''v1'' VoteStatusError) one_vote) =
     (artifact_at one_vote)(VoteStatusK ''E'' ''v1'' \<mapsto> AVoteStatus VoteStatusError)"
proof -
  have "\<not> scan_op (OpSetVoteStatus ''E'' ''v1'' VoteStatusError)" by simp
  from storage_refines[OF one_vote_wf this] show ?thesis by (simp add: op_writes_def one_vote_at)
qed



section \<open>Atomic writes\<close>

lemma commit_outcome:
  assumes "storage_wf s" and "list_all write_ok ws" and "commit_writes s ws = (r, s')"
  shows "artifact_at s' = (if isOk r then apply_writes ws (artifact_at s) else artifact_at s)"
proof -
  have "s' = snd (commit_writes s ws)" "r = fst (commit_writes s ws)" using assms(3) by simp_all
  then show ?thesis by (simp add: commit_writes_at[OF assms(1,2)] commit_writes_result)
qed

lemma SealBatch_at:
  assumes "storage_wf s" and "SealBatch now s b snap = (r, s')"
  shows "artifact_at s' k =
    (if isl r then artifact_at s k
     else case k of
       BatchK eid sq \<Rightarrow> (if eid = bi_ElectionID b \<and> sq = bi_Seq b
         then Some (ABatch (if bi_SealedAt b = 0 then b\<lparr>bi_SealedAt := now\<rparr> else b)) else artifact_at s k)
     | SnapshotK eid \<Rightarrow> (if eid = bi_ElectionID b then Some (ABlob snap) else artifact_at s k)
     | VoteStatusK eid vid \<Rightarrow>
         (if eid = bi_ElectionID b \<and> vid \<in> set (bi_VoteIDs b) \<and>
             (\<forall>st. status_at s eid vid = Some st \<longrightarrow> CanMoveTo st VoteStatusBatched)
          then Some (AVoteStatus VoteStatusBatched) else artifact_at s k)
     | _ \<Rightarrow> artifact_at s k)"
proof -
  define ws where "ws = Put (BatchK (bi_ElectionID b) (bi_Seq b))
        (ABatch (if bi_SealedAt b = 0 then b\<lparr>bi_SealedAt := now\<rparr> else b))
      # Put (SnapshotK (bi_ElectionID b)) (ABlob snap)
      # map (\<lambda>vid. Put (VoteStatusK (bi_ElectionID b) vid) (AVoteStatus VoteStatusBatched))
          (filter (batchable s (bi_ElectionID b)) (bi_VoteIDs b))"
  have "commit_writes s ws = (r, s')" using assms by (simp only: SealBatch_writes ws_def)
  moreover have "list_all write_ok ws" by (auto simp: ws_def list_all_iff)
  ultimately have "artifact_at s' = (if isOk r then apply_writes ws (artifact_at s) else artifact_at s)"
    using commit_outcome assms(1) by blast
  then show ?thesis
    by (cases k) (auto simp: ws_def apply_writes_map_Put batchable_iff[OF assms(1)])
qed

text \<open>
  C26. \<open>SealBatch\<close> is all or nothing: when it fails nothing changed; when it succeeds the
  batch, the snapshot taken after it and the batched status of every vote of the batch that
  was not further along are all there, and nothing else changed.
\<close>

theorem SealBatch_atomic:
  assumes "storage_wf s" and "SealBatch now s b snap = (r, s')"
  shows "artifact_at s' k =
    (if isl r then artifact_at s k
     else case k of
       BatchK eid sq \<Rightarrow> (if eid = bi_ElectionID b \<and> sq = bi_Seq b
         then Some (ABatch (if bi_SealedAt b = 0 then b\<lparr>bi_SealedAt := now\<rparr> else b)) else artifact_at s k)
     | SnapshotK eid \<Rightarrow> (if eid = bi_ElectionID b then Some (ABlob snap) else artifact_at s k)
     | VoteStatusK eid vid \<Rightarrow>
         (if eid = bi_ElectionID b \<and> vid \<in> set (bi_VoteIDs b) \<and>
             (\<forall>st. status_at s eid vid = Some st \<longrightarrow> CanMoveTo st VoteStatusBatched)
          then Some (AVoteStatus VoteStatusBatched) else artifact_at s k)
     | _ \<Rightarrow> artifact_at s k)"
  by (rule SealBatch_at[OF assms])

theorem SealBatch_atomic_witness:
  "artifact_at (snd (SealBatch 9 one_vote sample_batch ''snap'')) (VoteStatusK ''E'' ''v1'') =
     Some (AVoteStatus VoteStatusBatched)"
  using SealBatch_atomic[OF one_vote_wf surjective_pairing, of 9 sample_batch "''snap''" "VoteStatusK ''E'' ''v1''"]
  by (simp add: writes_succeed one_vote_at CanMoveTo_simps)

lemma CommitFold_at:
  assumes "storage_wf s" and "CommitFold now s c pf folded = (r, s')"
  shows "(pf = [] \<longrightarrow> isl r) \<and> artifact_at s' k =
    (if isl r then artifact_at s k
     else case k of
       FoldK eid \<Rightarrow> (if eid = fcp_ElectionID c then Some (AFold (c\<lparr>fcp_UpdatedAt := now\<rparr>)) else artifact_at s k)
     | FoldProofK eid \<Rightarrow> (if eid = fcp_ElectionID c then Some (ABlob pf) else artifact_at s k)
     | BatchProofK eid sq \<Rightarrow> (if eid = fcp_ElectionID c \<and> sq \<in> set folded then None else artifact_at s k)
     | _ \<Rightarrow> artifact_at s k)"
proof (cases "pf = []")
  case True
  with assms show ?thesis by (auto simp: CommitFold_writes)
next
  case False
  define ws where "ws = Put (FoldK (fcp_ElectionID c)) (AFold (c\<lparr>fcp_UpdatedAt := now\<rparr>))
      # Put (FoldProofK (fcp_ElectionID c)) (ABlob pf)
      # map (\<lambda>sq. Drop (BatchProofK (fcp_ElectionID c) sq)) folded"
  have "commit_writes s ws = (r, s')" using assms False by (simp add: CommitFold_writes ws_def)
  moreover have "list_all write_ok ws" by (auto simp: ws_def list_all_iff)
  ultimately have "artifact_at s' = (if isOk r then apply_writes ws (artifact_at s) else artifact_at s)"
    using commit_outcome assms(1) by blast
  then show ?thesis using False
    by (cases k) (auto simp: ws_def apply_writes_map_Drop)
qed

section \<open>Scans\<close>

text \<open>
  C27. \<open>ListBatchInputs\<close> returns exactly the stored batches of the election, each once,
  in increasing order of their sequence numbers.
\<close>

theorem ListBatchInputs_complete_sorted:
  assumes "storage_wf s"
  shows "sorted_wrt (<) (map bi_Seq (ListBatchInputs s eid)) \<and>
    (b \<in> set (ListBatchInputs s eid) \<longleftrightarrow> store_BatchInput s eid (bi_Seq b) = Inr b)"
  using ListBatchInputs_sorted_bytes[OF assms, of eid] ListBatchInputs_mem[OF assms, of b eid]
  by (simp add: seqBytes_less sorted_wrt_map reads[OF assms])

theorem ListBatchInputs_complete_sorted_witness:
  "sample_batch\<lparr>bi_SealedAt := 9\<rparr> \<in> set (ListBatchInputs (snd (SealBatch 9 one_vote sample_batch ''s'')) ''E'')"
proof -
  have wf: "storage_wf (snd (SealBatch 9 one_vote sample_batch ''s''))"
    using store_step_wf[of one_vote "OpSealBatch 9 sample_batch ''s''"] by simp
  have "artifact_at (snd (SealBatch 9 one_vote sample_batch ''s'')) (BatchK ''E'' 0) =
      Some (ABatch (sample_batch\<lparr>bi_SealedAt := 9\<rparr>))"
    using store_step_at[of one_vote "OpSealBatch 9 sample_batch ''s''"]
    by (simp add: op_writes_def apply_writes_maps image_iff)
  then show ?thesis
    using ListBatchInputs_complete_sorted[OF wf, of "''E''" "sample_batch\<lparr>bi_SealedAt := 9\<rparr>"]
    by (simp add: reads[OF wf])
qed

section \<open>Numbering votes\<close>

lemma AddVote_at:
  assumes "storage_wf s" and "AddVote now s eid v = (r, s')"
  shows "case r of
      Inl _ \<Rightarrow> artifact_at s' = artifact_at s
    | Inr v' \<Rightarrow>
        v' = v\<lparr>v_Seq := (case voteSeq_at s eid of None \<Rightarrow> 0 | Some n \<Rightarrow> n) + 1, v_SubmittedAt := now\<rparr> \<and>
        store_Vote s' eid (v_ID v) = Inr v' \<and>
        store_VoteStatus s' eid (v_ID v) = Inr VoteStatusPending \<and>
        voteSeq_at s' eid = Some (v_Seq v') \<and>
        (\<forall>k. k \<notin> {VoteSeqK eid, VoteK eid (v_ID v), VoteStatusK eid (v_ID v)} \<longrightarrow>
           artifact_at s' k = artifact_at s k)"
proof -
  define n where "n = (case voteSeq_at s eid of None \<Rightarrow> 0 | Some n \<Rightarrow> n) + 1"
  define v' where "v' = v\<lparr>v_Seq := n, v_SubmittedAt := now\<rparr>"
  define ws where "ws = [Put (VoteSeqK eid) (AVoteSeq n), Put (VoteK eid (v_ID v)) (AVote v'),
    Put (VoteStatusK eid (v_ID v)) (AVoteStatus VoteStatusPending)]"
  have add: "AddVote now s eid v = with_value v' (commit_writes s ws)"
    by (simp add: AddVote_writes[OF assms(1)] ws_def v'_def n_def Let_def)
  have ok: "list_all write_ok ws" by (simp add: ws_def v'_def)
  have s': "s' = snd (commit_writes s ws)" using assms(2) add by (metis snd_conv with_value_simps(3))
  have wf: "storage_wf s'" unfolding s' by (rule commit_writes_wf[OF assms(1) ok])
  have r: "r = (if next_fault s then Inl [Detail ''database write failed''] else Inr v')"
    using assms(2) add by (auto simp: with_value_def commit_writes_result prod_eq_iff)
  have at: "artifact_at s' = (if next_fault s then artifact_at s else apply_writes ws (artifact_at s))"
    unfolding s' by (rule commit_writes_at[OF assms(1) ok])
  show ?thesis
    by (simp add: r at reads[OF wf] ws_def) (simp add: v'_def n_def)
qed

text \<open>
  A vote \<open>AddVote\<close> accepts is read back with the next sequence number of its
  election (one more than the last, starting at one, wrapping at $2^{64}$) and the pending
  status, together with the counter; when it fails nothing was written.
\<close>

lemma AddVote_appends:
  assumes "storage_wf s" and "AddVote now s eid v = (r, s')"
  shows "case r of
      Inl _ \<Rightarrow> artifact_at s' = artifact_at s
    | Inr v' \<Rightarrow>
        v' = v\<lparr>v_Seq := (case voteSeq_at s eid of None \<Rightarrow> 0 | Some n \<Rightarrow> n) + 1, v_SubmittedAt := now\<rparr> \<and>
        store_Vote s' eid (v_ID v) = Inr v' \<and>
        store_VoteStatus s' eid (v_ID v) = Inr VoteStatusPending \<and>
        voteSeq_at s' eid = Some (v_Seq v') \<and>
        (\<forall>k. k \<notin> {VoteSeqK eid, VoteK eid (v_ID v), VoteStatusK eid (v_ID v)} \<longrightarrow>
           artifact_at s' k = artifact_at s k)"
  by (rule AddVote_at[OF assms])

section \<open>Reservations and proofs\<close>

lemma monitorStale_at:
  assumes "storage_wf s"
  shows "artifact_at (monitorStaleReservations now s) =
    artifact_at (snd (releaseStaleInPrefix s batchPrefix (Unix now) (reservationTimeout s)))"
  by (auto simp: monitorStaleReservations_def releaseStaleReservations_def reservationBasePrefixes_def
      split: prod.splits sum.splits)

text \<open>
  C28. A round of the stale-reservation monitor removes exactly the reservations older (in
  whole seconds) than the configured timeout, unless the write fails; no other key of the
  database changes.
\<close>

theorem stale_reservations_released:
  assumes "storage_wf s"
  shows "artifact_at (monitorStaleReservations now s) k =
    (if \<not> next_fault s \<and> (\<exists>e sq t. k = ReservedK e sq \<and> reservation_at s e sq = Some t \<and>
          Unix now - t > reservationTimeout s div second)
     then None else artifact_at s k)"
  unfolding monitorStale_at[OF assms] by (rule releaseStaleInPrefix_at[OF assms])

theorem stale_reservations_released_witness:
  "artifact_at (monitorStaleReservations (400 * second) (snd (ReserveBatch 0 fresh ''E'' 0))) (ReservedK ''E'' 0) = None"
proof -
  define s where "s = snd (ReserveBatch 0 fresh ''E'' 0)"
  have wf: "storage_wf s" using store_step_wf[of fresh "OpReserveBatch 0 ''E'' 0"] by (simp add: s_def)
  have at: "artifact_at s (ReservedK ''E'' 0) = Some (AReservation (Unix 0))"
    using store_step_at[of fresh "OpReserveBatch 0 ''E'' 0"] by (simp add: s_def op_writes_def)
  have "\<not> next_fault s" and "reservationTimeout s = 5 * minute"
    by (simp_all add: s_def ReserveBatch_writes next_fault_def frame_simps)
  then show ?thesis
    using stale_reservations_released[OF wf, of "400 * second" "ReservedK ''E'' 0"] at
    by (simp add: s_def[symmetric] Unix_def minute_def second_def)
qed

text \<open>
  \<open>DeleteProofs\<close> removes every proof of its election (its batch proofs and its fold
  proof) and nothing else, of no other election, unless its one write fails.
\<close>

lemma DeleteProofs_exact:
  assumes "storage_wf s"
  shows "artifact_at (snd (DeleteProofs s eid)) k =
    (if \<not> next_fault s \<and> (k = FoldProofK eid \<or> (\<exists>sq. k = BatchProofK eid sq)) then None
     else artifact_at s k)"
  by (rule DeleteProofs_at[OF assms])

end
