(* ===== verification/Retry.thy ===== *)
theory Retry
  imports Bytes
begin

text \<open>
  Back-off of the background tasks of an election (src/orchestrator/retry.go). Each method
  runs under the mutex of \<open>retries\<close>, so it is one step; the current time is an argument.
  The level \<open>failed\<close> logs at is part of its result.

  \<open>retryDelay\<close> shifts by \<open>min(failures-1, 16)\<close>, which Go panics on when negative; its
  callers pass at least one (\<open>retries_wf\<close>), and the shifted delay stays far below the
  64 bits of \<open>time.Duration\<close>, so it is exact here. The locale \<open>backoff\<close> is what
  the engine relies on; its interpretation discharges the laws for the code's model.
\<close>

section \<open>State and operations\<close>

definition taskEnd :: string where "taskEnd = ''end''"
definition taskDispatch :: string where "taskDispatch = ''dispatch''"
definition taskDrain :: string where "taskDrain = ''drain''"

definition retryMinDelay :: duration where "retryMinDelay = second"
definition retryMaxDelay :: duration where "retryMaxDelay = 5 * minute"
definition retryErrorAfter :: int where "retryErrorAfter = 5"

record retryState =
  failures :: int
  nextRun :: time

type_synonym retries = "string \<rightharpoonup> retryState"

definition newRetries :: retries where
  "newRetries = Map.empty"

definition retryKey :: "ElectionID \<Rightarrow> string \<Rightarrow> string" where
  "retryKey eid task = ElectionID_String eid @ ''/'' @ task"

definition retryDelay :: "int \<Rightarrow> duration" where
  "retryDelay n = min (push_bit (nat (min (n - 1) 16)) retryMinDelay) retryMaxDelay"

definition due :: "time \<Rightarrow> retries \<Rightarrow> ElectionID \<Rightarrow> string \<Rightarrow> bool" where
  "due now r eid task \<longleftrightarrow>
     (case r (retryKey eid task) of None \<Rightarrow> True | Some st \<Rightarrow> \<not> now < nextRun st)"

definition take_task :: "time \<Rightarrow> retries \<Rightarrow> ElectionID \<Rightarrow> string \<Rightarrow> bool \<times> retries" where
  "take_task now r eid task =
     (case r (retryKey eid task) of
        None \<Rightarrow> (False, r)
      | Some st \<Rightarrow>
          if now < nextRun st then (False, r)
          else (True, r(retryKey eid task \<mapsto> st\<lparr>nextRun := now + retryDelay (max (failures st) 1)\<rparr>)))"

definition schedule :: "retries \<Rightarrow> ElectionID \<Rightarrow> string \<Rightarrow> retries" where
  "schedule r eid task =
     (case r (retryKey eid task) of
        None \<Rightarrow> r(retryKey eid task \<mapsto> \<lparr>failures = 0, nextRun = 0\<rparr>)
      | Some _ \<Rightarrow> r)"

datatype loglevel = LogWarn | LogError | LogDebug

definition failed :: "time \<Rightarrow> retries \<Rightarrow> ElectionID \<Rightarrow> string \<Rightarrow> loglevel \<times> retries" where
  "failed now r eid task =
     (let st = (case r (retryKey eid task) of None \<Rightarrow> \<lparr>failures = 0, nextRun = 0\<rparr> | Some st \<Rightarrow> st);
          n = failures st + 1 in
      (if n < retryErrorAfter then LogWarn else if n = retryErrorAfter then LogError else LogDebug,
       r(retryKey eid task \<mapsto> \<lparr>failures = n, nextRun = now + retryDelay n\<rparr>)))"

definition succeeded :: "retries \<Rightarrow> ElectionID \<Rightarrow> string \<Rightarrow> retries" where
  "succeeded r eid task = r(retryKey eid task := None)"

definition forget :: "retries \<Rightarrow> ElectionID \<Rightarrow> retries" where
  "forget r eid = foldl (\<lambda>r task. r(retryKey eid task := None)) r [taskEnd, taskDispatch, taskDrain]"

section \<open>Keys and delays\<close>

lemma retryKey_inject [simp]: "retryKey e t = retryKey e' t' \<longleftrightarrow> e = e' \<and> t = t'"
  by (simp add: retryKey_def ElectionID_String_def append_sep_inject)

lemma retryDelay_doubles:
  assumes "1 \<le> n"
  shows "retryDelay n = min (retryMinDelay * 2 ^ nat (n - 1)) retryMaxDelay"
proof (cases "n - 1 \<le> 16")
  case True
  then show ?thesis by (simp add: retryDelay_def push_bit_eq_mult min_def mult.commute)
next
  case False
  then have "(2 :: int) ^ 16 \<le> 2 ^ nat (n - 1)" by (intro power_increasing) auto
  with False show ?thesis
    by (simp add: retryDelay_def push_bit_eq_mult retryMinDelay_def retryMaxDelay_def minute_def second_def)
qed

lemma retryDelay_bounds: "1 \<le> n \<Longrightarrow> retryMinDelay \<le> retryDelay n \<and> retryDelay n \<le> retryMaxDelay"
  by (simp add: retryDelay_doubles retryMinDelay_def retryMaxDelay_def minute_def second_def)

lemma retryDelay_mono: "1 \<le> m \<Longrightarrow> m \<le> n \<Longrightarrow> retryDelay m \<le> retryDelay n"
proof -
  assume "1 \<le> m" "m \<le> n"
  then have "(2 :: int) ^ nat (m - 1) \<le> 2 ^ nat (n - 1)" by (intro power_increasing) auto
  then have "retryMinDelay * 2 ^ nat (m - 1) \<le> retryMinDelay * 2 ^ nat (n - 1)"
    by (simp only: retryMinDelay_def second_def)
  then have "min (retryMinDelay * 2 ^ nat (m - 1)) retryMaxDelay \<le> min (retryMinDelay * 2 ^ nat (n - 1)) retryMaxDelay"
    by (rule min.mono) simp
  with \<open>1 \<le> m\<close> \<open>m \<le> n\<close> show ?thesis by (simp only: retryDelay_doubles order_trans[of 1 m n])
qed

section \<open>Invariant\<close>

definition retries_wf :: "retries \<Rightarrow> bool" where
  "retries_wf r \<longleftrightarrow> (\<forall>k st. r k = Some st \<longrightarrow> 0 \<le> failures st)"

datatype retry_op =
    OpTake time ElectionID string | OpSchedule ElectionID string | OpFailed time ElectionID string
  | OpSucceeded ElectionID string | OpForget ElectionID

fun retry_step :: "retry_op \<Rightarrow> retries \<Rightarrow> retries" where
  "retry_step (OpTake now e t) r = snd (take_task now r e t)"
| "retry_step (OpSchedule e t) r = schedule r e t"
| "retry_step (OpFailed now e t) r = snd (failed now r e t)"
| "retry_step (OpSucceeded e t) r = succeeded r e t"
| "retry_step (OpForget e) r = forget r e"

lemma retry_step_wf: "retries_wf r \<Longrightarrow> retries_wf (retry_step op r)"
  by (cases op)
    (auto simp: retries_wf_def take_task_def schedule_def failed_def succeeded_def forget_def Let_def
      split: option.splits if_splits)

interpretation retry_machine: invariant_machine retry_step retries_wf
  by unfold_locales (rule retry_step_wf)

section \<open>The contract of the back-off\<close>

locale backoff =
  fixes ready :: "time \<Rightarrow> 's \<Rightarrow> 'k \<Rightarrow> bool"
    and fail :: "time \<Rightarrow> 's \<Rightarrow> 'k \<Rightarrow> 's"
    and clear :: "'s \<Rightarrow> 'k \<Rightarrow> 's"
    and wf :: "'s \<Rightarrow> bool"
    and lo hi :: duration
  assumes wf_fail: "wf s \<Longrightarrow> wf (fail now s k)"
    and wf_clear: "wf s \<Longrightarrow> wf (clear s k)"
    and ready_clear: "ready now (clear s k) k"
    and fail_waits: "wf s \<Longrightarrow> t < now + lo \<Longrightarrow> \<not> ready t (fail now s k) k"
    and fail_ends: "wf s \<Longrightarrow> now + hi \<le> t \<Longrightarrow> ready t (fail now s k) k"
    and fail_other: "k' \<noteq> k \<Longrightarrow> ready t (fail now s k) k' = ready t s k'"
    and clear_other: "k' \<noteq> k \<Longrightarrow> ready t (clear s k) k' = ready t s k'"
begin

text \<open>The outcome of the runs of tasks, oldest first: a failure at a time, or a success.\<close>

definition outcome :: "'k \<times> time option \<Rightarrow> 's \<Rightarrow> 's" where
  "outcome ev s = (case ev of (k, None) \<Rightarrow> clear s k | (k, Some now) \<Rightarrow> fail now s k)"

lemma outcome_wf: "wf s \<Longrightarrow> wf (outcome ev s)"
  by (auto simp: outcome_def wf_fail wf_clear split: prod.splits option.splits)

lemma ready_outcome:
  assumes "wf s" and "ready t s k" and "\<And>now. ev = (k, Some now) \<Longrightarrow> now + hi \<le> t"
  shows "ready t (outcome ev s) k"
  using assms
  by (cases "fst ev = k")
    (auto simp: outcome_def ready_clear fail_ends fail_other clear_other split: prod.splits option.splits)

lemma ready_again:
  assumes "wf s" and "ready t s k" and "\<And>now. (k, Some now) \<in> set evs \<Longrightarrow> now + hi \<le> t"
  shows "ready t (fold outcome evs s) k"
  using assms
  by (induction evs arbitrary: s) (simp_all add: outcome_wf ready_outcome)

end

definition due_key :: "time \<Rightarrow> retries \<Rightarrow> ElectionID \<times> string \<Rightarrow> bool" where
  "due_key now r et = due now r (fst et) (snd et)"

definition fail_key :: "time \<Rightarrow> retries \<Rightarrow> ElectionID \<times> string \<Rightarrow> retries" where
  "fail_key now r et = snd (failed now r (fst et) (snd et))"

definition clear_key :: "retries \<Rightarrow> ElectionID \<times> string \<Rightarrow> retries" where
  "clear_key r et = succeeded r (fst et) (snd et)"

lemmas key_defs = due_key_def fail_key_def clear_key_def

lemma failed_next:
  assumes "retries_wf r"
  shows "\<exists>n \<ge> 1. snd (failed now r eid task) = r(retryKey eid task \<mapsto> \<lparr>failures = n, nextRun = now + retryDelay n\<rparr>)"
proof -
  define n where "n = (case r (retryKey eid task) of None \<Rightarrow> 0 | Some st \<Rightarrow> failures st) + 1"
  have "1 \<le> n" using assms by (auto simp: n_def retries_wf_def split: option.splits)
  moreover have "snd (failed now r eid task) = r(retryKey eid task \<mapsto> \<lparr>failures = n, nextRun = now + retryDelay n\<rparr>)"
    by (simp add: failed_def Let_def n_def split: option.splits)
  ultimately show ?thesis by blast
qed

interpretation task_backoff: backoff due_key fail_key clear_key retries_wf retryMinDelay retryMaxDelay
proof (unfold_locales, goal_cases)
  case (1 s now k)
  then show ?case using retry_step_wf[of s "OpFailed now (fst k) (snd k)"] by (simp add: key_defs)
next
  case (2 s k)
  then show ?case using retry_step_wf[of s "OpSucceeded (fst k) (snd k)"] by (simp add: key_defs)
next
  case (3 now s k)
  show ?case by (simp add: key_defs due_def succeeded_def)
next
  case (4 s t now k)
  then obtain n where "1 \<le> n" "fail_key now s k =
      s(retryKey (fst k) (snd k) \<mapsto> \<lparr>failures = n, nextRun = now + retryDelay n\<rparr>)"
    using failed_next by (metis fail_key_def)
  with 4 retryDelay_bounds[of n] show ?case by (simp add: due_key_def due_def)
next
  case (5 s now t k)
  then obtain n where "1 \<le> n" "fail_key now s k =
      s(retryKey (fst k) (snd k) \<mapsto> \<lparr>failures = n, nextRun = now + retryDelay n\<rparr>)"
    using failed_next by (metis fail_key_def)
  with 5 retryDelay_bounds[of n] show ?case by (simp add: due_key_def due_def)
next
  case (6 k' k t now s)
  then have "retryKey (fst k') (snd k') \<noteq> retryKey (fst k) (snd k)" by (simp add: prod_eq_iff)
  then show ?case by (simp add: key_defs due_def failed_def Let_def del: retryKey_inject)
next
  case (7 k' k t s)
  then have "retryKey (fst k') (snd k') \<noteq> retryKey (fst k) (snd k)" by (simp add: prod_eq_iff)
  then show ?case by (simp add: key_defs due_def succeeded_def del: retryKey_inject)
qed

section \<open>Properties\<close>

text \<open>
  C29. The delay after the n-th failure in a row is one second doubled n - 1 times, capped
  at five minutes: the cap on the shift never shows.
\<close>

theorem retry_delay_spec:
  "1 \<le> n \<Longrightarrow> retryDelay n = min (second * 2 ^ nat (n - 1)) (5 * minute)"
  using retryDelay_doubles[of n] by (simp add: retryMinDelay_def retryMaxDelay_def)

theorem retry_delay_spec_witness: "retryDelay 40 = 5 * minute \<and> retryDelay 3 = 4 * second"
  using retry_delay_spec[of 40] retry_delay_spec[of 3] by (simp add: minute_def second_def)

text \<open>
  A failing task is never abandoned: whatever failures and successes of this and other
  tasks came before, it is due again five minutes after the last of its own failures.
\<close>

lemma failing_task_due_again:
  assumes "\<And>now. ((eid, task), Some now) \<in> set evs \<Longrightarrow> now + retryMaxDelay \<le> t"
  shows "due t (fold (\<lambda>((e, k), ev) r. case ev of None \<Rightarrow> succeeded r e k | Some now \<Rightarrow> snd (failed now r e k))
    evs newRetries) eid task"
proof -
  have step: "(\<lambda>((e, k), ev) r. case ev of None \<Rightarrow> succeeded r e k | Some now \<Rightarrow> snd (failed now r e k))
      = task_backoff.outcome"
    by (auto simp: fun_eq_iff task_backoff.outcome_def key_defs split: option.splits)
  have "due_key t (fold task_backoff.outcome evs newRetries) (eid, task)"
    using assms by (intro task_backoff.ready_again) (auto simp: retries_wf_def newRetries_def due_key_def due_def)
  then show ?thesis by (simp add: step due_key_def)
qed



end
