(* ===== verification/Sha256.thy ===== *)
theory Sha256
  imports Bytes
begin

unbundle bit_operations_syntax

text \<open>
  \<open>crypto/sha256\<close> of the Go standard library (FIPS 180-4), which \<open>workers.WorkerID\<close>
  applies to a worker's address. The tables are the standard's, in decimal.
\<close>

definition sha256_H :: "32 word list" where
  "sha256_H =
     [1779033703, 3144134277, 1013904242, 2773480762, 1359893119, 2600822924, 528734635, 1541459225]"

definition sha256_K :: "32 word list" where
  "sha256_K =
     [1116352408, 1899447441, 3049323471, 3921009573, 961987163, 1508970993, 2453635748, 2870763221,
      3624381080, 310598401, 607225278, 1426881987, 1925078388, 2162078206, 2614888103, 3248222580,
      3835390401, 4022224774, 264347078, 604807628, 770255983, 1249150122, 1555081692, 1996064986,
      2554220882, 2821834349, 2952996808, 3210313671, 3336571891, 3584528711, 113926993, 338241895,
      666307205, 773529912, 1294757372, 1396182291, 1695183700, 1986661051, 2177026350, 2456956037,
      2730485921, 2820302411, 3259730800, 3345764771, 3516065817, 3600352804, 4094571909, 275423344,
      430227734, 506948616, 659060556, 883997877, 958139571, 1322822218, 1537002063, 1747873779,
      1955562222, 2024104815, 2227730452, 2361852424, 2428436474, 2756734187, 3204031479, 3329325298]"

definition sha256_pad :: "bytes \<Rightarrow> bytes" where
  "sha256_pad m =
     m @ CHR 0x80 # replicate ((119 - length m mod 64) mod 64) (CHR 0x00) @ be_bytes 8 (8 * length m)"

fun chunks :: "nat \<Rightarrow> 'a list \<Rightarrow> 'a list list" where
  "chunks n [] = []"
| "chunks n (x # xs) = (if n = 0 then [] else take n (x # xs) # chunks n (drop n (x # xs)))"

definition sha256_extend :: "32 word list \<Rightarrow> 32 word list" where
  "sha256_extend w =
     (let i = length w;
          x = w ! (i - 15);
          y = w ! (i - 2);
          s0 = word_rotr 7 x XOR word_rotr 18 x XOR drop_bit 3 x;
          s1 = word_rotr 17 y XOR word_rotr 19 y XOR drop_bit 10 y in
      w @ [w ! (i - 16) + s0 + w ! (i - 7) + s1])"

definition sha256_schedule :: "bytes \<Rightarrow> 32 word list" where
  "sha256_schedule block =
     (sha256_extend ^^ 48) (map (\<lambda>b. of_nat (be_val b)) (chunks 4 block))"

fun sha256_round :: "32 word \<times> 32 word \<Rightarrow> 32 word list \<Rightarrow> 32 word list" where
  "sha256_round (k, w) [a, b, c, d, e, f, g, h] =
     (let S1 = word_rotr 6 e XOR word_rotr 11 e XOR word_rotr 25 e;
          ch = (e AND f) XOR (NOT e AND g);
          t1 = h + S1 + ch + k + w;
          S0 = word_rotr 2 a XOR word_rotr 13 a XOR word_rotr 22 a;
          maj = (a AND b) XOR (a AND c) XOR (b AND c);
          t2 = S0 + maj in
      [t1 + t2, a, b, c, d + t1, e, f, g])"
| "sha256_round kw hs = hs"

definition sha256_block :: "bytes \<Rightarrow> 32 word list \<Rightarrow> 32 word list" where
  "sha256_block block hs =
     map2 (+) hs (fold sha256_round (zip sha256_K (sha256_schedule block)) hs)"

definition sha256 :: "bytes \<Rightarrow> bytes" where
  "sha256 m =
     concat (map (\<lambda>w. be_bytes 4 (unat w)) (fold sha256_block (chunks 64 (sha256_pad m)) sha256_H))"

section \<open>The digest has 32 bytes\<close>

lemma sha256_round_length: "length (sha256_round kw hs) = length hs"
  by (induction kw hs rule: sha256_round.induct) (simp_all add: Let_def)

lemma fold_sha256_round_length: "length (fold sha256_round kws hs) = length hs"
  by (induction kws arbitrary: hs) (simp_all add: sha256_round_length)

lemma fold_sha256_block_length: "length (fold sha256_block bs hs) = length hs"
  by (induction bs arbitrary: hs) (simp_all add: sha256_block_def fold_sha256_round_length)

lemma length_sha256: "length (sha256 m) = 32"
proof -
  have "length (concat (map (\<lambda>w :: 32 word. be_bytes 4 (unat w)) ws)) = 4 * length ws" for ws
    by (induction ws) auto
  then show ?thesis by (simp add: sha256_def fold_sha256_block_length sha256_H_def)
qed

end
