(* ===== verification/Workers.thy ===== *)
theory Workers
  imports Sha256
begin

text \<open>
  The prover pool (src/workers/worker_manager.go). A \<open>Worker\<close> is a Go object shared by
  pointer: the pool maps an address to it, and a job keeps its pointer after the address was
  removed or registered again. Objects are therefore entries of a heap, addressed by their
  index, and \<open>Has\<close> compares indices as the source compares pointers.

  Counters are accessed atomically one at a time, so each atomic access that others can come
  between is an operation of its own (\<open>cas_jobs\<close> is the \<open>CompareAndSwap\<close> both
  \<open>Acquire\<close> and \<open>Claim\<close> end with). The order \<open>sync.Map.Range\<close> visits addresses in
  is an argument. What a health poll answers comes from the prover and is an argument. The
  counters are \<open>int\<close>: none of them can reach $2^{63}$ by single increments.
  The go-sdk clients of a worker are not part of the model.
\<close>

section \<open>Workers\<close>

record WorkerBanRules =
  BanTimeout :: duration
  FailuresToGetBanned :: int

definition DefaultWorkerBanRules :: WorkerBanRules where
  "DefaultWorkerBanRules = \<lparr>BanTimeout = 30 * minute, FailuresToGetBanned = 3\<rparr>"

record Worker =
  w_ID :: string
  w_Address :: string
  w_Name :: string
  consecutiveFails :: int
  bannedUntilNanos :: int
  successCount :: int
  failedCount :: int
  queueLen :: int
  healthy :: bool
  missedPolls :: int
  jobs :: int
  claimers :: int

record WorkerInfo =
  wi_ID :: string
  wi_Address :: string
  wi_Name :: string
  wi_Healthy :: bool
  wi_QueueLen :: int
  wi_Banned :: bool
  wi_SuccessCount :: int
  wi_FailedCount :: int

definition WorkerID :: "string \<Rightarrow> string" where
  "WorkerID address = hexEncode (take 8 (sha256 address))"

definition IsBanned :: "time \<Rightarrow> WorkerBanRules option \<Rightarrow> Worker \<Rightarrow> bool" where
  "IsBanned now rules w =
     (case rules of
        None \<Rightarrow> False
      | Some ru \<Rightarrow>
          if consecutiveFails w > FailuresToGetBanned ru then True
          else if bannedUntilNanos w = 0 then False
          else UnixNano now < bannedUntilNanos w)"

definition GetBannedUntil :: "Worker \<Rightarrow> time" where
  "GetBannedUntil w = (if bannedUntilNanos w = 0 then 0 else fromUnixNano (bannedUntilNanos w))"

definition SetBannedUntil :: "time \<Rightarrow> Worker \<Rightarrow> Worker" where
  "SetBannedUntil t w = w\<lparr>bannedUntilNanos := (if t \<noteq> 0 then UnixNano t else 0)\<rparr>"

definition Info :: "time \<Rightarrow> WorkerBanRules \<Rightarrow> Worker \<Rightarrow> WorkerInfo" where
  "Info now ru w =
     \<lparr>wi_ID = w_ID w, wi_Address = w_Address w, wi_Name = w_Name w, wi_Healthy = healthy w,
      wi_QueueLen = queueLen w, wi_Banned = IsBanned now (Some ru) w,
      wi_SuccessCount = successCount w, wi_FailedCount = failedCount w\<rparr>"

section \<open>The pool\<close>

text \<open>
  \<open>freed\<close> is the channel waiters hold, by number, if one is open; a channel is closed
  once it is no longer the open one.
\<close>

type_synonym handle = nat

record WorkerManager =
  wheap :: "Worker list"
  workers :: "string \<rightharpoonup> handle"
  rules :: WorkerBanRules
  tickerInterval :: duration
  freed :: "nat option"
  chans :: nat

definition NewWorkerManager :: "WorkerBanRules option \<Rightarrow> duration list \<Rightarrow> WorkerManager" where
  "NewWorkerManager ru intervals =
     \<lparr>wheap = [], workers = Map.empty,
      rules = (case ru of None \<Rightarrow> DefaultWorkerBanRules | Some r \<Rightarrow> r),
      tickerInterval = (case intervals of [] \<Rightarrow> 10 * second | i # _ \<Rightarrow> if i > 0 then i else 10 * second),
      freed = None, chans = 0\<rparr>"

abbreviation worker :: "WorkerManager \<Rightarrow> handle \<Rightarrow> Worker" where
  "worker wm h \<equiv> wheap wm ! h"

definition upd :: "handle \<Rightarrow> (Worker \<Rightarrow> Worker) \<Rightarrow> WorkerManager \<Rightarrow> WorkerManager" where
  "upd h f wm = wm\<lparr>wheap := (wheap wm)[h := f (worker wm h)]\<rparr>"

definition GetWorker :: "WorkerManager \<Rightarrow> string \<Rightarrow> handle option" where
  "GetWorker wm address = workers wm address"

definition newWorker :: "string \<Rightarrow> string \<Rightarrow> Worker" where
  "newWorker address name =
     \<lparr>w_ID = WorkerID address, w_Address = address, w_Name = name, consecutiveFails = 0,
      bannedUntilNanos = 0, successCount = 0, failedCount = 0, queueLen = 0, healthy = False,
      missedPolls = 0, jobs = 0, claimers = 0\<rparr>"

definition AddWorker :: "WorkerManager \<Rightarrow> string \<Rightarrow> string \<Rightarrow> handle \<times> WorkerManager" where
  "AddWorker wm address name =
     (case GetWorker wm address of
        Some h \<Rightarrow>
          (h, if name \<noteq> [] \<and> w_Name (worker wm h) = []
              then (upd h (\<lambda>w. w\<lparr>w_Name := name\<rparr>) wm)\<lparr>workers := (workers wm)(address \<mapsto> h)\<rparr>
              else wm)
      | None \<Rightarrow>
          (length (wheap wm),
           wm\<lparr>wheap := wheap wm @ [newWorker address name],
              workers := (workers wm)(address \<mapsto> length (wheap wm))\<rparr>))"

definition Freed :: "WorkerManager \<Rightarrow> nat \<times> WorkerManager" where
  "Freed wm =
     (case freed wm of
        Some c \<Rightarrow> (c, wm)
      | None \<Rightarrow> (chans wm, wm\<lparr>freed := Some (chans wm), chans := chans wm + 1\<rparr>))"

definition wake :: "WorkerManager \<Rightarrow> WorkerManager" where
  "wake wm = wm\<lparr>freed := None\<rparr>"

definition chan_closed :: "WorkerManager \<Rightarrow> nat \<Rightarrow> bool" where
  "chan_closed wm c \<longleftrightarrow> freed wm \<noteq> Some c"

definition RemoveWorker :: "WorkerManager \<Rightarrow> string \<Rightarrow> WorkerManager" where
  "RemoveWorker wm address = wake (wm\<lparr>workers := (workers wm)(address := None)\<rparr>)"

definition WM_Stop :: "WorkerManager \<Rightarrow> WorkerManager" where
  "WM_Stop wm = wm\<lparr>workers := Map.empty\<rparr>"

definition Has :: "WorkerManager \<Rightarrow> handle \<Rightarrow> bool" where
  "Has wm h \<longleftrightarrow> GetWorker wm (w_Address (worker wm h)) = Some h"

text \<open>The workers a \<open>Range\<close> over the pool visits, addresses in the given order.\<close>

definition ranged :: "WorkerManager \<Rightarrow> string list \<Rightarrow> handle list" where
  "ranged wm order = List.map_filter (workers wm) order"

definition WorkerByID :: "WorkerManager \<Rightarrow> string list \<Rightarrow> string \<Rightarrow> handle option" where
  "WorkerByID wm order i = find (\<lambda>h. w_ID (worker wm h) = i) (ranged wm order)"

definition Available :: "time \<Rightarrow> WorkerManager \<Rightarrow> string list \<Rightarrow> nat" where
  "Available now wm order =
     length (filter (\<lambda>h. healthy (worker wm h) \<and> \<not> IsBanned now (Some (rules wm)) (worker wm h)) (ranged wm order))"

definition maxInt :: int where
  "maxInt = 2 ^ 63 - 1"

definition candidate :: "time \<Rightarrow> WorkerManager \<Rightarrow> bool \<Rightarrow> string list \<Rightarrow> handle \<Rightarrow> bool" where
  "candidate now wm idle exclude h \<longleftrightarrow>
     (let w = worker wm h in
      \<not> (\<not> healthy w \<or> IsBanned now (Some (rules wm)) w \<or> w_Address w \<in> set exclude)
      \<and> \<not> (idle \<and> (jobs w > 0 \<or> claimers w > 0)))"

fun least :: "time \<Rightarrow> WorkerManager \<Rightarrow> bool \<Rightarrow> string list \<Rightarrow> handle list \<Rightarrow> handle option \<Rightarrow> int \<Rightarrow> handle option" where
  "least now wm idle exclude [] best bestQ = best"
| "least now wm idle exclude (h # hs) best bestQ =
     (if \<not> candidate now wm idle exclude h then least now wm idle exclude hs best bestQ
      else if queueLen (worker wm h) < bestQ
      then least now wm idle exclude hs (Some h) (queueLen (worker wm h))
      else least now wm idle exclude hs best bestQ)"

definition leastLoaded :: "time \<Rightarrow> WorkerManager \<Rightarrow> string list \<Rightarrow> bool \<Rightarrow> string list \<Rightarrow> handle option" where
  "leastLoaded now wm order idle exclude = least now wm idle exclude (ranged wm order) None maxInt"

definition LeastLoaded :: "time \<Rightarrow> WorkerManager \<Rightarrow> string list \<Rightarrow> string list \<Rightarrow> handle option" where
  "LeastLoaded now wm order exclude = leastLoaded now wm order False exclude"

section \<open>Claims\<close>

definition cas_jobs :: "WorkerManager \<Rightarrow> handle \<Rightarrow> bool \<times> WorkerManager" where
  "cas_jobs wm h =
     (if jobs (worker wm h) = 0 then (True, upd h (\<lambda>w. w\<lparr>jobs := 1\<rparr>) wm) else (False, wm))"

text \<open>\<open>Acquire\<close> with nothing coming between its steps; \<open>None\<close> is the endless loop.\<close>

partial_function (option) Acquire ::
  "time \<Rightarrow> string list \<Rightarrow> string list \<Rightarrow> WorkerManager \<Rightarrow> (handle option \<times> WorkerManager) option" where
  "Acquire now order exclude wm =
     (case leastLoaded now wm order True exclude of
        None \<Rightarrow> Some (None, wm)
      | Some h \<Rightarrow>
          (if fst (cas_jobs wm h) then Some (Some h, snd (cas_jobs wm h))
           else Acquire now order exclude wm))"

definition Hold :: "WorkerManager \<Rightarrow> handle \<Rightarrow> WorkerManager" where
  "Hold wm h = upd h (\<lambda>w. w\<lparr>jobs := jobs w + 1\<rparr>) wm"

definition Release :: "WorkerManager \<Rightarrow> handle \<Rightarrow> WorkerManager" where
  "Release wm h =
     (let wm' = upd h (\<lambda>w. w\<lparr>jobs := jobs w - 1\<rparr>) wm in
      if jobs (worker wm h) - 1 = 0 then wake wm' else wm')"

text \<open>
  \<open>Claim\<close> waits for other goroutines between two attempts: an element of the list says
  what they did to the pool before the attempt and whether the context is done then. When
  the list is used up, \<open>Claim\<close> is still waiting (\<open>None\<close>).
\<close>

fun Claim_loop ::
  "((WorkerManager \<Rightarrow> WorkerManager) \<times> bool) list \<Rightarrow> WorkerManager \<Rightarrow> handle \<Rightarrow> (gerror + unit) option \<times> WorkerManager" where
  "Claim_loop [] wm h = (None, wm)"
| "Claim_loop ((others, done) # evs) wm h =
     (let wm1 = snd (Freed (others wm)) in
      if done then (Some (Inl [ContextCanceled]), wm1)
      else if \<not> Has wm1 h then (Some (Inl [ErrWorkerRemoved]), wm1)
      else if fst (cas_jobs wm1 h) then (Some (Inr ()), snd (cas_jobs wm1 h))
      else Claim_loop evs wm1 h)"

definition addClaimers :: "int \<Rightarrow> handle \<Rightarrow> WorkerManager \<Rightarrow> WorkerManager" where
  "addClaimers d h wm = upd h (\<lambda>w. w\<lparr>claimers := claimers w + d\<rparr>) wm"

definition Claim ::
  "((WorkerManager \<Rightarrow> WorkerManager) \<times> bool) list \<Rightarrow> WorkerManager \<Rightarrow> handle \<Rightarrow> (gerror + unit) option \<times> WorkerManager" where
  "Claim evs wm h =
     (case Claim_loop evs (addClaimers 1 h wm) h of
        (None, wm') \<Rightarrow> (None, wm')
      | (Some r, wm') \<Rightarrow> (Some r, addClaimers (- 1) h wm'))"

section \<open>Bans and health\<close>

definition Banned :: "time \<Rightarrow> WorkerManager \<Rightarrow> handle \<Rightarrow> bool" where
  "Banned now wm h = IsBanned now (Some (rules wm)) (worker wm h)"

definition Lost :: "time \<Rightarrow> WorkerManager \<Rightarrow> handle \<Rightarrow> bool" where
  "Lost now wm h \<longleftrightarrow>
     \<not> Has wm h \<or> IsBanned now (Some (rules wm)) (worker wm h) \<or>
     missedPolls (worker wm h) > FailuresToGetBanned (rules wm)"

definition BannedWorkers :: "time \<Rightarrow> WorkerManager \<Rightarrow> string list \<Rightarrow> handle list" where
  "BannedWorkers now wm order = filter (Banned now wm) (ranged wm order)"

definition SetBanDuration :: "time \<Rightarrow> WorkerManager \<Rightarrow> string \<Rightarrow> WorkerManager" where
  "SetBanDuration now wm address =
     (case GetWorker wm address of
        None \<Rightarrow> wm
      | Some h \<Rightarrow> upd h (SetBannedUntil (now + BanTimeout (rules wm))) wm)"

definition ResetWorker :: "WorkerManager \<Rightarrow> string \<Rightarrow> WorkerManager" where
  "ResetWorker wm address =
     (case GetWorker wm address of
        None \<Rightarrow> wm
      | Some h \<Rightarrow> upd h (\<lambda>w. w\<lparr>consecutiveFails := 0, bannedUntilNanos := 0\<rparr>) wm)"

definition WorkerResult :: "WorkerManager \<Rightarrow> string \<Rightarrow> bool \<Rightarrow> WorkerManager" where
  "WorkerResult wm address success =
     (case GetWorker wm address of
        None \<Rightarrow> wm
      | Some h \<Rightarrow>
          if success
          then upd h (\<lambda>w. w\<lparr>consecutiveFails := 0, successCount := successCount w + 1\<rparr>) wm
          else upd h (\<lambda>w. w\<lparr>consecutiveFails := consecutiveFails w + 1, failedCount := failedCount w + 1\<rparr>) wm)"

definition ListWorkerStats :: "time \<Rightarrow> WorkerManager \<Rightarrow> string list \<Rightarrow> WorkerInfo list" where
  "ListWorkerStats now wm order = map (\<lambda>h. Info now (rules wm) (worker wm h)) (ranged wm order)"

definition pollWorker :: "int option \<Rightarrow> Worker \<Rightarrow> Worker" where
  "pollWorker answer w =
     (case answer of
        None \<Rightarrow> w\<lparr>healthy := False, missedPolls := missedPolls w + 1\<rparr>
      | Some q \<Rightarrow> w\<lparr>healthy := True, missedPolls := 0, queueLen := q\<rparr>)"

definition pollHealth :: "(handle \<Rightarrow> int option) \<Rightarrow> WorkerManager \<Rightarrow> string list \<Rightarrow> WorkerManager" where
  "pollHealth health wm order = fold (\<lambda>h. upd h (pollWorker (health h))) (ranged wm order) wm"

definition expireBan :: "time \<Rightarrow> handle \<Rightarrow> WorkerManager \<Rightarrow> WorkerManager" where
  "expireBan now h wm =
     (let w = worker wm h in
      if GetBannedUntil w = 0 then SetBanDuration now wm (w_Address w)
      else if now > GetBannedUntil w then ResetWorker wm (w_Address w)
      else wm)"

definition expireBans :: "time \<Rightarrow> WorkerManager \<Rightarrow> string list \<Rightarrow> WorkerManager" where
  "expireBans now wm order = fold (expireBan now) (BannedWorkers now wm order) wm"

text \<open>One tick of the loop \<open>Start\<close> launches.\<close>

definition pool_tick :: "time \<Rightarrow> (handle \<Rightarrow> int option) \<Rightarrow> string list \<Rightarrow> WorkerManager \<Rightarrow> WorkerManager" where
  "pool_tick now health order wm = expireBans now (pollHealth health wm order) order"

end
