(* ===== verification/Worker_Laws.thy ===== *)
theory Worker_Laws
  imports Workers
begin

text \<open>
  What the prover pool promises the scheduler: the claims on a worker are counted exactly
  whatever interleaving of the atomic operations runs, the least-loaded worker is picked, a
  waiting claim is woken, a ban lasts its time, and a silent prover is given up.
\<close>

section \<open>Well-formed pools\<close>

definition pool_wf :: "WorkerManager \<Rightarrow> bool" where
  "pool_wf wm \<longleftrightarrow>
     (\<forall>a h. workers wm a = Some h \<longrightarrow> h < length (wheap wm) \<and> w_Address (worker wm h) = a) \<and>
     (\<forall>h < length (wheap wm). w_ID (worker wm h) = WorkerID (w_Address (worker wm h))) \<and>
     (\<forall>c. freed wm = Some c \<longrightarrow> c < chans wm)"

lemma upd_simps [simp]:
  "workers (upd h f wm) = workers wm"
  "rules (upd h f wm) = rules wm"
  "freed (upd h f wm) = freed wm"
  "chans (upd h f wm) = chans wm"
  "length (wheap (upd h f wm)) = length (wheap wm)"
  by (simp_all add: upd_def)

lemma worker_upd:
  "worker (upd h f wm) h' = (if h' = h \<and> h < length (wheap wm) then f (worker wm h) else worker wm h')"
  by (cases "h < length (wheap wm)") (auto simp: upd_def nth_list_update list_update_beyond not_less)

lemma upd_wf:
  assumes "pool_wf wm" and "\<And>w. w_Address (f w) = w_Address w" and "\<And>w. w_ID (f w) = w_ID w"
  shows "pool_wf (upd h f wm)"
  using assms unfolding pool_wf_def by (simp add: worker_upd)

lemma NewWorkerManager_wf: "pool_wf (NewWorkerManager ru is)"
  by (simp add: NewWorkerManager_def pool_wf_def)

lemma ranged_set: "set (ranged wm order) = {h. \<exists>a \<in> set order. workers wm a = Some h}"
  by (auto simp: ranged_def map_filter_def image_iff) force

lemma ranged_distinct:
  assumes "pool_wf wm" and "distinct order"
  shows "distinct (ranged wm order)"
  using assms(2)
proof (induction order)
  case Nil
  show ?case by (simp add: ranged_def map_filter_def)
next
  case (Cons a order)
  have "h \<notin> set (ranged wm order)" if "workers wm a = Some h" for h
  proof
    assume "h \<in> set (ranged wm order)"
    then obtain b where "b \<in> set order" "workers wm b = Some h" by (auto simp: ranged_set)
    with that assms(1) have "a = b" unfolding pool_wf_def by metis
    with \<open>b \<in> set order\<close> Cons.prems show False by simp
  qed
  then show ?case using Cons by (auto simp: ranged_def map_filter_def split: option.splits)
qed

section \<open>Interleavings of the atomic operations\<close>

text \<open>
  Jobs and the worker each holds. A job attempts the \<open>CompareAndSwap\<close> of \<open>Acquire\<close> or
  \<open>Claim\<close>, or counts itself with \<open>Hold\<close>; it releases once, what it holds.
\<close>

datatype pool_op =
    OpAddWorker string string
  | OpRemoveWorker string
  | OpStopPool
  | OpFreed
  | OpAttempt nat handle
  | OpHold nat handle
  | OpRelease nat
  | OpClaimers int handle
  | OpResult string bool
  | OpTick time "handle \<Rightarrow> int option" "string list"

type_synonym claims = "nat \<rightharpoonup> handle"

fun pool_step :: "pool_op \<Rightarrow> WorkerManager \<times> claims \<Rightarrow> WorkerManager \<times> claims" where
  "pool_step (OpAddWorker a n) (wm, cl) = (snd (AddWorker wm a n), cl)"
| "pool_step (OpRemoveWorker a) (wm, cl) = (RemoveWorker wm a, cl)"
| "pool_step OpStopPool (wm, cl) = (WM_Stop wm, cl)"
| "pool_step OpFreed (wm, cl) = (snd (Freed wm), cl)"
| "pool_step (OpAttempt j h) (wm, cl) =
     (if cl j = None \<and> h < length (wheap wm) \<and> fst (cas_jobs wm h)
      then (snd (cas_jobs wm h), cl(j \<mapsto> h)) else (wm, cl))"
| "pool_step (OpHold j h) (wm, cl) =
     (if cl j = None \<and> h < length (wheap wm) then (Hold wm h, cl(j \<mapsto> h)) else (wm, cl))"
| "pool_step (OpRelease j) (wm, cl) =
     (case cl j of None \<Rightarrow> (wm, cl) | Some h \<Rightarrow> (Release wm h, cl(j := None)))"
| "pool_step (OpClaimers d h) (wm, cl) = (addClaimers d h wm, cl)"
| "pool_step (OpResult a ok) (wm, cl) = (WorkerResult wm a ok, cl)"
| "pool_step (OpTick now health order) (wm, cl) = (pool_tick now health order wm, cl)"

definition holders :: "claims \<Rightarrow> handle \<Rightarrow> nat set" where
  "holders cl h = {j. cl j = Some h}"

definition claims_wf :: "WorkerManager \<times> claims \<Rightarrow> bool" where
  "claims_wf s \<longleftrightarrow>
     pool_wf (fst s) \<and> finite (dom (snd s)) \<and>
     (\<forall>j h. snd s j = Some h \<longrightarrow> h < length (wheap (fst s))) \<and>
     (\<forall>h < length (wheap (fst s)). jobs (worker (fst s) h) = int (card (holders (snd s) h)))"

lemma holders_finite: "finite (dom cl) \<Longrightarrow> finite (holders cl h)"
  by (rule finite_subset[of _ "dom cl"]) (auto simp: holders_def)

lemma holders_add: "cl j = None \<Longrightarrow> holders (cl(j \<mapsto> h)) h' = (if h' = h then insert j (holders cl h) else holders cl h')"
  by (auto simp: holders_def)

lemma holders_drop: "cl j = Some h \<Longrightarrow> holders (cl(j := None)) h' = (if h' = h then holders cl h - {j} else holders cl h')"
  by (auto simp: holders_def)

text \<open>The operations that leave the claims alone.\<close>

definition claims_kept :: "WorkerManager \<Rightarrow> WorkerManager \<Rightarrow> bool" where
  "claims_kept wm wm' \<longleftrightarrow>
     (pool_wf wm \<longrightarrow> pool_wf wm') \<and> length (wheap wm') = length (wheap wm) \<and>
     (\<forall>h < length (wheap wm). jobs (worker wm' h) = jobs (worker wm h))"

lemma claims_kept_refl: "claims_kept wm wm"
  by (simp add: claims_kept_def)

lemma claims_kept_trans: "claims_kept a b \<Longrightarrow> claims_kept b c \<Longrightarrow> claims_kept a c"
  by (simp add: claims_kept_def)

lemma claims_kept_upd:
  assumes "\<And>w. w_Address (f w) = w_Address w \<and> w_ID (f w) = w_ID w \<and> jobs (f w) = jobs w"
  shows "claims_kept wm (upd h f wm)"
  unfolding claims_kept_def using upd_wf[of wm f h] assms by (simp add: worker_upd)

lemma claims_kept_fold:
  assumes "\<And>x wm. claims_kept wm (f x wm)"
  shows "claims_kept wm (fold f xs wm)"
  by (induction xs arbitrary: wm) (auto intro: claims_kept_refl claims_kept_trans assms)

lemma claims_kept_ops:
  "claims_kept wm (addClaimers d h wm)"
  "claims_kept wm (WorkerResult wm a ok)"
  "claims_kept wm (SetBanDuration now wm a)"
  "claims_kept wm (ResetWorker wm a)"
  "claims_kept wm (expireBan now h wm)"
  "claims_kept wm (pollHealth health wm order)"
  "claims_kept wm (expireBans now wm order)"
proof -
  show "claims_kept wm (addClaimers d h wm)"
    by (simp add: addClaimers_def claims_kept_upd)
  show "claims_kept wm (WorkerResult wm a ok)"
    by (auto simp: WorkerResult_def claims_kept_upd claims_kept_refl split: option.splits)
  have sb: "claims_kept wm (SetBanDuration now wm a)" for wm a
    by (auto simp: SetBanDuration_def SetBannedUntil_def claims_kept_upd claims_kept_refl split: option.splits)
  then show "claims_kept wm (SetBanDuration now wm a)" .
  have rs: "claims_kept wm (ResetWorker wm a)" for wm a
    by (auto simp: ResetWorker_def claims_kept_upd claims_kept_refl split: option.splits)
  then show "claims_kept wm (ResetWorker wm a)" .
  have eb: "claims_kept wm (expireBan now h wm)" for h wm
    using sb rs claims_kept_refl by (simp add: expireBan_def Let_def)
  then show "claims_kept wm (expireBan now h wm)" .
  show "claims_kept wm (expireBans now wm order)"
    unfolding expireBans_def by (rule claims_kept_fold) (rule eb)
  show "claims_kept wm (pollHealth health wm order)"
    unfolding pollHealth_def
    by (rule claims_kept_fold) (auto intro!: claims_kept_upd simp: pollWorker_def split: option.splits)
qed

lemma claims_kept_tick: "claims_kept wm (pool_tick now health order wm)"
  unfolding pool_tick_def by (rule claims_kept_trans[OF claims_kept_ops(6) claims_kept_ops(7)])

lemma claims_kept_wf: "claims_kept wm wm' \<Longrightarrow> claims_wf (wm, cl) \<Longrightarrow> claims_wf (wm', cl)"
  by (auto simp: claims_kept_def claims_wf_def)

lemma AddWorker_claims:
  assumes "claims_wf (wm, cl)"
  shows "claims_wf (snd (AddWorker wm a n), cl)"
proof (cases "workers wm a")
  case None
  have "holders cl (length (wheap wm)) = {}"
    using assms by (auto simp: claims_wf_def holders_def)
  with None assms show ?thesis
    by (auto simp: AddWorker_def GetWorker_def claims_wf_def pool_wf_def nth_append newWorker_def less_Suc_eq)
next
  case (Some h)
  have same: "upd h g wm\<lparr>workers := (workers wm)(a \<mapsto> h)\<rparr> = upd h g wm" for g
    using Some by (cases wm) (auto simp: upd_def fun_upd_idem)
  have "claims_kept wm (upd h (\<lambda>w. w\<lparr>w_Name := n\<rparr>) wm)" by (rule claims_kept_upd) simp
  with Some assms same show ?thesis
    by (auto simp: AddWorker_def GetWorker_def intro: claims_kept_wf)
qed

lemma cas_claims:
  assumes "claims_wf (wm, cl)" and "cl j = None" and "h < length (wheap wm)" and "fst (cas_jobs wm h)"
  shows "claims_wf (snd (cas_jobs wm h), cl(j \<mapsto> h))"
proof -
  have wf: "pool_wf (upd h (\<lambda>w. w\<lparr>jobs := 1\<rparr>) wm)"
    using assms(1) by (intro upd_wf) (simp_all add: claims_wf_def)
  have z: "jobs (worker wm h) = 0" using assms(4) by (simp add: cas_jobs_def split: if_splits)
  then have "card (holders cl h) = 0" using assms(1,3) by (auto simp: claims_wf_def)
  then have "holders cl h = {}" using assms(1) by (simp add: claims_wf_def holders_finite)
  with z wf assms show ?thesis
    by (auto simp: cas_jobs_def claims_wf_def worker_upd holders_add)
qed

lemma Hold_claims:
  assumes "claims_wf (wm, cl)" and "cl j = None" and "h < length (wheap wm)"
  shows "claims_wf (Hold wm h, cl(j \<mapsto> h))"
proof -
  have wf: "pool_wf (upd h (\<lambda>w. w\<lparr>jobs := jobs w + 1\<rparr>) wm)"
    using assms(1) by (intro upd_wf) (simp_all add: claims_wf_def)
  have "j \<notin> holders cl h" and "finite (holders cl h)"
    using assms by (auto simp: holders_def claims_wf_def intro: holders_finite[unfolded holders_def])
  with wf assms show ?thesis
    by (auto simp: Hold_def claims_wf_def worker_upd holders_add)
qed

lemma wake_simps [simp]:
  "wheap (wake wm) = wheap wm" "workers (wake wm) = workers wm" "rules (wake wm) = rules wm"
  "freed (wake wm) = None" "chans (wake wm) = chans wm"
  by (simp_all add: wake_def)

lemma Release_claims:
  assumes "claims_wf (wm, cl)" and "cl j = Some h"
  shows "claims_wf (Release wm h, cl(j := None))"
proof -
  have wf: "pool_wf (upd h (\<lambda>w. w\<lparr>jobs := jobs w - 1\<rparr>) wm)"
    using assms(1) by (intro upd_wf) (simp_all add: claims_wf_def)
  have mem: "j \<in> holders cl h" and fin: "finite (holders cl h)" and lt: "h < length (wheap wm)"
    using assms by (auto simp: holders_def claims_wf_def intro: holders_finite[unfolded holders_def])
  have "int (card (holders cl h - {j})) = int (card (holders cl h)) - 1"
    using mem fin card_Diff_singleton[of j "holders cl h"] card_gt_0_iff[of "holders cl h"] by fastforce
  with wf lt assms show ?thesis
    by (auto simp: Release_def Let_def claims_wf_def worker_upd holders_drop pool_wf_def)
qed

lemma pool_step_wf: "claims_wf s \<Longrightarrow> claims_wf (pool_step op s)"
proof (cases s)
  case (Pair wm cl)
  assume "claims_wf s"
  with Pair have wf: "claims_wf (wm, cl)" by simp
  show ?thesis
  proof (cases op)
    case (OpRemoveWorker a)
    with wf Pair show ?thesis by (auto simp: RemoveWorker_def claims_wf_def pool_wf_def)
  next
    case OpStopPool
    with wf Pair show ?thesis by (auto simp: WM_Stop_def claims_wf_def pool_wf_def)
  next
    case OpFreed
    with wf Pair show ?thesis by (auto simp: Freed_def claims_wf_def pool_wf_def split: option.splits)
  next
    case (OpRelease j)
    with wf Pair show ?thesis by (auto simp: Release_claims split: option.splits)
  qed (use wf Pair in \<open>auto simp: AddWorker_claims cas_claims Hold_claims
      intro: claims_kept_wf[OF claims_kept_ops(1)] claims_kept_wf[OF claims_kept_ops(2)] claims_kept_wf[OF claims_kept_tick]\<close>)
qed

interpretation pool_machine: invariant_machine pool_step claims_wf
  by unfold_locales (rule pool_step_wf)

section \<open>Picking a worker\<close>

lemma least_cases:
  "(least now wm idle ex hs best bestQ = best \<and> (\<forall>h \<in> set hs. candidate now wm idle ex h \<longrightarrow> bestQ \<le> queueLen (worker wm h)))
   \<or> (\<exists>h \<in> set hs. candidate now wm idle ex h \<and> least now wm idle ex hs best bestQ = Some h \<and>
        queueLen (worker wm h) < bestQ \<and>
        (\<forall>h' \<in> set hs. candidate now wm idle ex h' \<longrightarrow> queueLen (worker wm h) \<le> queueLen (worker wm h')))"
proof (induction hs arbitrary: best bestQ)
  case Nil
  show ?case by simp
next
  case (Cons h hs)
  show ?case
  proof (cases "candidate now wm idle ex h \<and> queueLen (worker wm h) < bestQ")
    case True
    from Cons.IH[of "Some h" "queueLen (worker wm h)"] show ?thesis
    proof (elim disjE bexE conjE)
      fix h' assume "h' \<in> set hs" "candidate now wm idle ex h'"
        "least now wm idle ex hs (Some h) (queueLen (worker wm h)) = Some h'"
        "queueLen (worker wm h') < queueLen (worker wm h)"
        "\<forall>h'' \<in> set hs. candidate now wm idle ex h'' \<longrightarrow> queueLen (worker wm h') \<le> queueLen (worker wm h'')"
      with True show ?thesis by (intro disjI2 bexI[of _ h']) auto
    qed (use True in \<open>auto intro!: disjI2 bexI[of _ h]\<close>)
  next
    case False
    then have "least now wm idle ex (h # hs) best bestQ = least now wm idle ex hs best bestQ"
      and "candidate now wm idle ex h \<longrightarrow> bestQ \<le> queueLen (worker wm h)" by auto
    note skip = this
    from Cons.IH[of best bestQ] show ?thesis
    proof (elim disjE bexE conjE)
      fix h' assume "h' \<in> set hs" "candidate now wm idle ex h'"
        "least now wm idle ex hs best bestQ = Some h'" "queueLen (worker wm h') < bestQ"
        "\<forall>h'' \<in> set hs. candidate now wm idle ex h'' \<longrightarrow> queueLen (worker wm h') \<le> queueLen (worker wm h'')"
      with skip show ?thesis by (intro disjI2 bexI[of _ h']) auto
    qed (use skip in auto)
  qed
qed

definition in_pool :: "WorkerManager \<Rightarrow> handle \<Rightarrow> bool" where
  "in_pool wm h \<longleftrightarrow> (\<exists>a. workers wm a = Some h)"

lemma ranged_in_pool: "set order = dom (workers wm) \<Longrightarrow> set (ranged wm order) = {h. in_pool wm h}"
  by (auto simp: ranged_set in_pool_def)

lemma leastLoaded_spec:
  assumes "set order = dom (workers wm)" and "\<And>h. in_pool wm h \<Longrightarrow> queueLen (worker wm h) < maxInt"
  shows "case leastLoaded now wm order idle ex of
      None \<Rightarrow> \<forall>h. in_pool wm h \<longrightarrow> \<not> candidate now wm idle ex h
    | Some h \<Rightarrow> in_pool wm h \<and> candidate now wm idle ex h \<and>
        (\<forall>h'. in_pool wm h' \<and> candidate now wm idle ex h' \<longrightarrow> queueLen (worker wm h) \<le> queueLen (worker wm h'))"
  using least_cases[of now wm idle ex "ranged wm order" None maxInt]
  by (auto simp: leastLoaded_def ranged_in_pool[OF assms(1)] split: option.splits) (use assms(2) in fastforce)

lemma Acquire_returns:
  assumes "\<And>h. in_pool wm h \<Longrightarrow> 0 \<le> jobs (worker wm h)"
  shows "Acquire now order ex wm =
    Some (case leastLoaded now wm order True ex of
            None \<Rightarrow> (None, wm) | Some h \<Rightarrow> (Some h, upd h (\<lambda>w. w\<lparr>jobs := 1\<rparr>) wm))"
proof (cases "leastLoaded now wm order True ex")
  case None
  then show ?thesis by (simp add: Acquire.simps)
next
  case (Some h)
  with least_cases[of now wm True ex "ranged wm order" None maxInt]
  have "h \<in> set (ranged wm order)" and "candidate now wm True ex h" by (auto simp: leastLoaded_def)
  then have "jobs (worker wm h) = 0"
    using assms[of h] by (force simp: candidate_def Let_def ranged_set in_pool_def)
  with Some show ?thesis by (simp add: Acquire.simps[of now order ex wm] cas_jobs_def)
qed

section \<open>Waking a waiting claim\<close>

definition past_wake :: "nat \<Rightarrow> WorkerManager \<times> claims \<Rightarrow> bool" where
  "past_wake c s \<longleftrightarrow> claims_wf s \<and> c < chans (fst s) \<and> freed (fst s) \<noteq> Some c"

definition chan_kept :: "WorkerManager \<Rightarrow> WorkerManager \<Rightarrow> bool" where
  "chan_kept wm wm' \<longleftrightarrow> freed wm' = freed wm \<and> chans wm' = chans wm"

lemma chan_kept_fold: "(\<And>x wm. chan_kept wm (f x wm)) \<Longrightarrow> chan_kept wm (fold f xs wm)"
  by (induction xs arbitrary: wm) (auto simp: chan_kept_def)

lemma chan_kept_tick: "chan_kept wm (pool_tick now health order wm)"
proof -
  have "chan_kept wm (expireBan now h wm)" for h wm
    by (auto simp: chan_kept_def expireBan_def Let_def SetBanDuration_def ResetWorker_def split: option.splits)
  then have "chan_kept wm (expireBans now wm order)" for wm
    unfolding expireBans_def by (rule chan_kept_fold)
  moreover have "chan_kept wm (pollHealth health wm order)"
    unfolding pollHealth_def by (rule chan_kept_fold) (simp add: chan_kept_def)
  ultimately show ?thesis by (auto simp: pool_tick_def chan_kept_def)
qed

lemma past_wake_step: "past_wake c s \<Longrightarrow> past_wake c (pool_step op s)"
proof (cases s)
  case (Pair wm cl)
  assume pw: "past_wake c s"
  have wf: "claims_wf (pool_step op s)" using pw by (simp add: past_wake_def pool_step_wf)
  have "c < chans (fst (pool_step op s)) \<and> freed (fst (pool_step op s)) \<noteq> Some c"
    using pw Pair chan_kept_tick
    by (cases op) (auto simp: past_wake_def AddWorker_def RemoveWorker_def WM_Stop_def Freed_def cas_jobs_def
        Hold_def Release_def Let_def addClaimers_def WorkerResult_def chan_kept_def split: option.splits)
  with wf show ?thesis by (simp add: past_wake_def)
qed

interpretation wake_machine: invariant_machine pool_step "past_wake c" for c
  by unfold_locales (rule past_wake_step)

section \<open>What a tick does to one worker\<close>

lemma fold_upd_worker:
  assumes "distinct hs"
  shows "worker (fold (\<lambda>h. upd h (f h)) hs wm) h =
    (if h \<in> set hs \<and> h < length (wheap wm) then f h (worker wm h) else worker wm h)"
  using assms by (induction hs arbitrary: wm) (auto simp: worker_upd)

lemma fold_upd_frame:
  "workers (fold (\<lambda>h. upd h (f h)) hs wm) = workers wm \<and>
   rules (fold (\<lambda>h. upd h (f h)) hs wm) = rules wm \<and>
   length (wheap (fold (\<lambda>h. upd h (f h)) hs wm)) = length (wheap wm)"
  by (induction hs arbitrary: wm) auto

definition ban_worker :: "time \<Rightarrow> WorkerBanRules \<Rightarrow> Worker \<Rightarrow> Worker" where
  "ban_worker now ru w =
     (if GetBannedUntil w = 0 then SetBannedUntil (now + BanTimeout ru) w
      else if now > GetBannedUntil w then w\<lparr>consecutiveFails := 0, bannedUntilNanos := 0\<rparr>
      else w)"

lemma upd_same: "upd h (\<lambda>w. w) wm = wm"
  by (simp add: upd_def)

lemma expireBan_upd:
  assumes "pool_wf wm" and "in_pool wm h"
  shows "expireBan now h wm = upd h (ban_worker now (rules wm)) wm"
proof -
  have "workers wm (w_Address (worker wm h)) = Some h" using assms by (auto simp: in_pool_def pool_wf_def)
  then show ?thesis
    by (simp add: expireBan_def Let_def SetBanDuration_def ResetWorker_def GetWorker_def ban_worker_def upd_def)
qed

lemma ban_worker_frame: "w_Address (ban_worker now ru w) = w_Address w" "w_ID (ban_worker now ru w) = w_ID w"
  by (simp_all add: ban_worker_def SetBannedUntil_def)

lemma expireBans_upd:
  assumes "pool_wf wm" and "set hs \<subseteq> {h. in_pool wm h}"
  shows "fold (expireBan now) hs wm = fold (\<lambda>h. upd h (ban_worker now (rules wm))) hs wm"
  using assms
proof (induction hs arbitrary: wm)
  case (Cons h hs)
  have "pool_wf (upd h (ban_worker now (rules wm)) wm)"
    using Cons.prems(1) by (rule upd_wf) (simp_all add: ban_worker_frame)
  with Cons show ?case by (simp add: expireBan_upd in_pool_def)
qed simp

lemma pool_ranged_subset: "set (ranged wm order) \<subseteq> {h. in_pool wm h}"
  by (auto simp: ranged_set in_pool_def)

lemma expireBans_worker:
  assumes "pool_wf wm" and "distinct order" and "set order = dom (workers wm)" and "in_pool wm h"
  shows "worker (expireBans now wm order) h =
    (if Banned now wm h then ban_worker now (rules wm) (worker wm h) else worker wm h)"
proof -
  have "fold (expireBan now) (BannedWorkers now wm order) wm =
      fold (\<lambda>h. upd h (ban_worker now (rules wm))) (BannedWorkers now wm order) wm"
    using pool_ranged_subset by (intro expireBans_upd[OF assms(1)]) (auto simp: BannedWorkers_def)
  moreover have "h < length (wheap wm)" using assms(1,4) by (auto simp: in_pool_def pool_wf_def)
  moreover have "h \<in> set (ranged wm order)" using assms(4) ranged_in_pool[OF assms(3)] by simp
  ultimately show ?thesis
    by (simp add: expireBans_def fold_upd_worker BannedWorkers_def ranged_distinct[OF assms(1,2)])
qed

lemma expireBans_frame:
  assumes "pool_wf wm"
  shows "workers (expireBans now wm order) = workers wm" "rules (expireBans now wm order) = rules wm"
proof -
  have "fold (expireBan now) (BannedWorkers now wm order) wm =
      fold (\<lambda>h. upd h (ban_worker now (rules wm))) (BannedWorkers now wm order) wm"
    using pool_ranged_subset by (intro expireBans_upd[OF assms(1)]) (auto simp: BannedWorkers_def)
  then show "workers (expireBans now wm order) = workers wm" "rules (expireBans now wm order) = rules wm"
    by (simp_all add: expireBans_def fold_upd_frame)
qed

lemma pollHealth_worker:
  assumes "pool_wf wm" and "distinct order" and "set order = dom (workers wm)" and "in_pool wm h"
  shows "worker (pollHealth health wm order) h = pollWorker (health h) (worker wm h)"
proof -
  have "h < length (wheap wm)" using assms(1,4) by (auto simp: in_pool_def pool_wf_def)
  moreover have "h \<in> set (ranged wm order)" using assms(4) ranged_in_pool[OF assms(3)] by simp
  ultimately show ?thesis
    using fold_upd_worker[OF ranged_distinct[OF assms(1,2)], of "\<lambda>h. pollWorker (health h)" wm h]
    by (simp add: pollHealth_def)
qed

lemma pollHealth_frame:
  "workers (pollHealth health wm order) = workers wm" "rules (pollHealth health wm order) = rules wm"
  by (simp_all add: pollHealth_def fold_upd_frame[of "\<lambda>h. pollWorker (health h)"])

lemma pollHealth_wf: "pool_wf wm \<Longrightarrow> pool_wf (pollHealth health wm order)"
  using claims_kept_ops(6) by (simp add: claims_kept_def)

lemma expireBans_wf: "pool_wf wm \<Longrightarrow> pool_wf (expireBans now wm order)"
  using claims_kept_ops(7) by (simp add: claims_kept_def)

section \<open>Properties\<close>

definition empty_pool :: "WorkerManager \<times> claims" where
  "empty_pool = (NewWorkerManager None [], Map.empty)"

lemma empty_pool_wf: "claims_wf empty_pool"
  by (simp add: empty_pool_def claims_wf_def NewWorkerManager_wf) (simp add: NewWorkerManager_def)

text \<open>
  C31. Whatever interleaving of registrations, removals, polls, attempts, holds and
  releases runs, the job counter of every worker (removed or replaced ones too) is the
  number of jobs that hold it.
\<close>

theorem claims_counted:
  assumes "fold pool_step ops empty_pool = (wm, cl)" and "h < length (wheap wm)"
  shows "jobs (worker wm h) = int (card {j. cl j = Some h})"
  using pool_machine.run_inv[OF empty_pool_wf, of ops] assms by (simp add: claims_wf_def holders_def)

theorem claims_counted_witness:
  "jobs (worker (fst (fold pool_step [OpAddWorker ''p'' [], OpAttempt 1 0, OpHold 2 0] empty_pool)) 0) = 2"
proof -
  define s where "s = fold pool_step [OpAddWorker ''p'' [], OpAttempt 1 0, OpHold 2 0] empty_pool"
  have "snd s = [1 \<mapsto> 0, 2 \<mapsto> 0]" "length (wheap (fst s)) = 1"
    by (simp_all add: s_def empty_pool_def NewWorkerManager_def AddWorker_def GetWorker_def newWorker_def cas_jobs_def
        Hold_def upd_def)
  moreover have "{j. ([1 \<mapsto> 0, 2 \<mapsto> 0] :: claims) j = Some 0} = {1, 2}" by auto
  moreover have "fold pool_step [OpAddWorker ''p'' [], OpAttempt 1 0, OpHold 2 0] empty_pool = (fst s, snd s)"
    by (simp only: s_def prod.collapse)
  note claims_counted[OF this, of 0]
  ultimately have "jobs (worker (fst s) 0) = 2" by simp
  then show ?thesis by (simp only: s_def)
qed

lemma exclusive_step:
  assumes "claims_wf s" and "\<And>j h. op \<noteq> OpHold j h" and "\<And>j j' h. snd s j = Some h \<Longrightarrow> snd s j' = Some h \<Longrightarrow> j = j'"
    and "snd (pool_step op s) j = Some h" and "snd (pool_step op s) j' = Some h"
  shows "j = j'"
proof (cases op)
  case (OpAttempt i h')
  have "holders (snd s) h' = {}" if "h' < length (wheap (fst s))" "fst (cas_jobs (fst s) h')"
  proof -
    have "card (holders (snd s) h') = 0"
      using that assms(1) by (auto simp: claims_wf_def cas_jobs_def split: if_splits)
    then show ?thesis using assms(1) by (simp add: claims_wf_def holders_finite)
  qed
  then show ?thesis using OpAttempt assms(3-5)
    by (cases s) (auto simp: holders_def split: if_splits)
qed (use assms in \<open>cases s; auto split: option.splits if_splits\<close>)+

text \<open>
  C32. A worker runs one claimed job at a time: as long as no job of a previous run is
  counted with \<open>Hold\<close>, no interleaving lets two jobs hold the same worker.
\<close>

theorem one_job_per_worker:
  assumes "fold pool_step ops empty_pool = (wm, cl)" and "\<forall>op \<in> set ops. \<forall>j h. op \<noteq> OpHold j h"
    and "cl j = Some h" and "cl j' = Some h"
  shows "j = j'"
proof -
  have "j = j'" if "claims_wf s" "\<forall>op \<in> set ops. \<forall>j h. op \<noteq> OpHold j h"
    "\<And>j j' h. snd s j = Some h \<Longrightarrow> snd s j' = Some h \<Longrightarrow> j = j'"
    "snd (fold pool_step ops s) j = Some h" "snd (fold pool_step ops s) j' = Some h" for s j j' h
    using that
  proof (induction ops arbitrary: s)
    case (Cons op ops)
    show ?case
      by (rule Cons.IH[of "pool_step op s"])
        (use Cons.prems exclusive_step[of s op] pool_step_wf in auto)
  qed simp
  from this[of empty_pool j h j'] assms show ?thesis by (simp add: empty_pool_wf) (simp add: empty_pool_def)
qed

theorem one_job_per_worker_witness:
  "snd (fold pool_step [OpAddWorker ''p'' [], OpAttempt 1 0, OpAttempt 2 0] empty_pool) 2 \<noteq> Some 0"
proof
  define s where "s = fold pool_step [OpAddWorker ''p'' [], OpAttempt 1 0, OpAttempt 2 0] empty_pool"
  have eq: "fold pool_step [OpAddWorker ''p'' [], OpAttempt 1 0, OpAttempt 2 0] empty_pool = (fst s, snd s)"
    by (simp only: s_def prod.collapse)
  assume "snd (fold pool_step [OpAddWorker ''p'' [], OpAttempt 1 0, OpAttempt 2 0] empty_pool) 2 = Some 0"
  then have "snd s 2 = Some 0" by (simp only: s_def)
  moreover have "snd s 1 = Some 0"
    by (simp add: s_def empty_pool_def NewWorkerManager_def AddWorker_def GetWorker_def newWorker_def cas_jobs_def upd_def)
  ultimately show False using one_job_per_worker[OF eq, of 1 0 2] by simp
qed



lemma issued_step: "claims_wf s \<Longrightarrow> c < chans (fst s) \<Longrightarrow> c < chans (fst (pool_step op s))"
  using chan_kept_tick
  by (cases s; cases op) (auto simp: AddWorker_def RemoveWorker_def WM_Stop_def Freed_def cas_jobs_def
      Hold_def Release_def Let_def addClaimers_def WorkerResult_def chan_kept_def split: option.splits)

lemma issued_run: "claims_wf s \<Longrightarrow> c < chans (fst s) \<Longrightarrow> c < chans (fst (fold pool_step ops s))"
  by (induction ops arbitrary: s) (auto simp: issued_step pool_step_wf)

text \<open>
  C34. No wake-up is lost: once \<open>Freed\<close> handed out a channel, the release of a worker's
  last claim, or the removal of a worker, closes it, however long after, and it stays closed.
\<close>

theorem no_lost_wakeup:
  assumes "claims_wf (wm, cl)" and "Freed wm = (c, wm1)" and "s = fold pool_step ops (wm1, cl)"
    and "(\<exists>a. op = OpRemoveWorker a) \<or> (\<exists>j h. op = OpRelease j \<and> snd s j = Some h \<and> {i. snd s i = Some h} = {j})"
  shows "chan_closed (fst (fold pool_step ops' (pool_step op s))) c"
proof -
  have wf1: "claims_wf (wm1, cl)" using pool_step_wf[OF assms(1), of OpFreed] assms(2) by simp
  have "c < chans wm1" using assms(1,2) by (auto simp: Freed_def claims_wf_def pool_wf_def split: option.splits)
  then have issued: "c < chans (fst (pool_step op s))"
    unfolding assms(3) using wf1 by (intro issued_step issued_run pool_machine.run_inv) auto
  have wf: "claims_wf s" unfolding assms(3) by (rule pool_machine.run_inv[OF wf1])
  have "jobs (worker (fst s) h) = 1" if "snd s j = Some h" "{i. snd s i = Some h} = {j}" for j h
    using wf that by (auto simp: claims_wf_def holders_def)
  then have "freed (fst (pool_step op s)) = None"
    using assms(4) by (cases s) (auto simp: RemoveWorker_def Release_def Let_def)
  with issued wf have "past_wake c (pool_step op s)" by (simp add: past_wake_def pool_step_wf)
  then have "past_wake c (fold pool_step ops' (pool_step op s))" by (rule wake_machine.run_inv)
  then show ?thesis by (simp add: past_wake_def chan_closed_def)
qed

theorem no_lost_wakeup_witness:
  "chan_closed (fst (fold pool_step [OpFreed] (pool_step (OpRemoveWorker ''p'') (fold pool_step [] (snd (Freed (fst empty_pool)), Map.empty))))) 0"
  by (rule no_lost_wakeup[OF _ _ refl, of "fst empty_pool" Map.empty])
    (use empty_pool_wf in \<open>auto simp: empty_pool_def Freed_def NewWorkerManager_def\<close>)

text \<open>
  C35. A worker that crosses the failure threshold without an old ban on it is banned by
  the next tick for the whole ban timeout: until then it stays banned and ticks leave it
  alone; the first tick after it clears its failures and the ban.
\<close>

theorem ban_lasts_its_time:
  assumes "pool_wf wm" and "distinct order" and "set order = dom (workers wm)" and "in_pool wm h"
    and "consecutiveFails (worker wm h) > FailuresToGetBanned (rules wm)" and "bannedUntilNanos (worker wm h) = 0"
    and "fromUnixNano 0 < t0 + BanTimeout (rules wm)" and "0 \<le> FailuresToGetBanned (rules wm)"
    and "wm1 = expireBans t0 wm order"
  shows "(t \<le> t0 + BanTimeout (rules wm) \<longrightarrow> Banned t wm1 h \<and> worker (expireBans t wm1 order) h = worker wm1 h) \<and>
    (t0 + BanTimeout (rules wm) < t \<longrightarrow>
       \<not> Banned t (expireBans t wm1 order) h \<and> consecutiveFails (worker (expireBans t wm1 order) h) = 0)"
proof -
  have banned: "Banned t0 wm h" using assms(5) by (simp add: Banned_def IsBanned_def)
  have fr: "workers wm1 = workers wm" "rules wm1 = rules wm" by (simp_all add: assms(9) expireBans_frame[OF assms(1)])
  have w1: "worker wm1 h = (worker wm h)\<lparr>bannedUntilNanos := UnixNano (t0 + BanTimeout (rules wm))\<rparr>"
    using assms(6,7) banned
    by (auto simp: assms(9) expireBans_worker[OF assms(1-4)] ban_worker_def GetBannedUntil_def SetBannedUntil_def
        fromUnixNano_def second_def)
  have until: "GetBannedUntil (worker wm1 h) = t0 + BanTimeout (rules wm)"
    using assms(7) by (simp add: w1 GetBannedUntil_def UnixNano_def fromUnixNano_def second_def)
  have b1: "Banned t wm1 h" for t using assms(5) by (simp add: Banned_def IsBanned_def w1 fr)
  have "worker (expireBans t wm1 order) h = ban_worker t (rules wm1) (worker wm1 h)"
    using expireBans_worker[of wm1 order h t] assms(1-4) b1 fr expireBans_wf[OF assms(1)]
    by (simp add: assms(9) in_pool_def)
  moreover have "rules (expireBans t wm1 order) = rules wm"
    using expireBans_frame expireBans_wf[OF assms(1)] fr by (simp add: assms(9))
  ultimately show ?thesis
    using b1 until assms(7,8)
    by (auto simp: ban_worker_def Banned_def IsBanned_def fromUnixNano_def second_def)
qed

text \<open>
  A prover that answers no health poll is given up: after more missed polls in a row
  than the ban rules allow failures, the work pinned to it moves to another worker.
\<close>

lemma silent_worker_lost:
  assumes "pool_wf wm" and "distinct order" and "set order = dom (workers wm)" and "in_pool wm h"
    and "health h = None" and "0 \<le> missedPolls (worker wm h)" and "FailuresToGetBanned (rules wm) < int n"
  shows "Lost now (((\<lambda>wm. pollHealth health wm order) ^^ n) wm) h"
proof -
  have "let wm' = ((\<lambda>wm. pollHealth health wm order) ^^ n) wm in
      pool_wf wm' \<and> workers wm' = workers wm \<and> rules wm' = rules wm \<and>
      missedPolls (worker wm' h) = missedPolls (worker wm h) + int n"
  proof (induction n)
    case 0
    show ?case using assms(1) by simp
  next
    case (Suc n)
    define wm' where "wm' = ((\<lambda>wm. pollHealth health wm order) ^^ n) wm"
    have "worker (pollHealth health wm' order) h = pollWorker None (worker wm' h)"
      using Suc assms(2-5) by (subst pollHealth_worker) (simp_all add: wm'_def Let_def in_pool_def)
    then show ?case using Suc
      by (simp add: wm'_def[symmetric] Let_def pollHealth_frame pollHealth_wf pollWorker_def)
  qed
  then show ?thesis using assms(6,7) by (simp add: Lost_def Let_def)
qed

text \<open>A pool with one prover that failed four jobs in a row.\<close>

definition fails :: "nat \<Rightarrow> pool_op list" where
  "fails n = replicate n (OpResult ''p'' False)"

definition sick_pool :: WorkerManager where
  "sick_pool = fst (fold pool_step (OpAddWorker ''p'' [] # fails 4) empty_pool)"

lemma sick_pool_simps:
  "workers sick_pool = [''p'' \<mapsto> 0]"
  "wheap sick_pool = [(newWorker ''p'' [])\<lparr>consecutiveFails := 4, failedCount := 4\<rparr>]"
  "rules sick_pool = DefaultWorkerBanRules"
  by (simp_all add: sick_pool_def fails_def eval_nat_numeral empty_pool_def NewWorkerManager_def AddWorker_def GetWorker_def
      WorkerResult_def upd_def newWorker_def)

lemma sick_pool_wf: "pool_wf sick_pool"
  using pool_machine.run_inv[OF empty_pool_wf, of "OpAddWorker ''p'' [] # fails 4"]
  by (simp add: sick_pool_def claims_wf_def)

lemma sick_pool_member: "in_pool sick_pool 0"
  by (simp add: in_pool_def sick_pool_simps)

theorem ban_lasts_its_time_witness:
  "Banned (fromUnixNano (20 * minute)) (expireBans (fromUnixNano 0) sick_pool [''p'']) 0"
  using ban_lasts_its_time[OF sick_pool_wf, of "[''p'']" 0 "fromUnixNano 0" _ "fromUnixNano (20 * minute)"] sick_pool_member
  by (simp add: sick_pool_simps newWorker_def DefaultWorkerBanRules_def fromUnixNano_def minute_def second_def)

text \<open>
  A success reported while a worker is banned clears the failure counter but leaves the ban
  time. Once that time has passed nothing resets it, and the next time the worker crosses
  the threshold the tick finds an old ban that is over: it clears the failures instead of
  banning the worker for the ban timeout.
\<close>

lemma old_ban_cuts_next_ban:
  "Banned (fromUnixNano (40 * minute))
     (fst (fold pool_step (OpAddWorker ''p'' [] # fails 4 @ [OpTick (fromUnixNano 1) (\<lambda>_. Some 0) [''p''], OpResult ''p'' True]
        @ fails 4) empty_pool)) 0 \<and>
   \<not> Banned (fromUnixNano (40 * minute))
     (fst (fold pool_step (OpAddWorker ''p'' [] # fails 4 @ [OpTick (fromUnixNano 1) (\<lambda>_. Some 0) [''p''], OpResult ''p'' True]
        @ fails 4 @ [OpTick (fromUnixNano (40 * minute)) (\<lambda>_. Some 0) [''p'']]) empty_pool)) 0"
  by (simp add: fails_def eval_nat_numeral empty_pool_def NewWorkerManager_def AddWorker_def GetWorker_def
      WorkerResult_def upd_def newWorker_def pool_tick_def pollHealth_def expireBans_def BannedWorkers_def Banned_def
      IsBanned_def ranged_def map_filter_def pollWorker_def expireBan_def GetBannedUntil_def SetBanDuration_def SetBannedUntil_def
      ResetWorker_def DefaultWorkerBanRules_def UnixNano_def fromUnixNano_def minute_def second_def Let_def)

end
