(* ===== verification/Sdk.thy ===== *)
theory Sdk
  imports Bytes
begin

text \<open>
  The data the orchestrator shares with the packages it imports, and those packages as a
  parameter. The structs below are declared in src/orchestrator (\<open>VoteSubmission\<close>,
  \<open>voteProofBundle\<close>, \<open>voteRules\<close>, the snarkjs documents, the signatures) or are
  davinci-zkvm structs whose fields the source reads or writes.

  The record \<open>sdk\<close> holds every function of a third-party package the source calls: the
  davinci-zkvm SDK (state tree, BabyJubJub, ElGamal, ECDSA recovery, ballot hashes),
  gnark (Groth16, BN254), lean-IMT and iden3. Values whose structure the source never looks
  into (points, ballots, keys, signatures) are of an arbitrary type \<open>'v\<close>, the state tree
  of an arbitrary type \<open>'st\<close>. \<open>encoding/json\<close> and CBOR of the source's own documents
  are the \<open>parse_\<close> and \<open>print_\<close> fields. \<open>ApplyBatch\<close> re-encrypts with fresh
  randomness, so it takes the number of the draw; it changes the tree in place and may leave
  it half written when it fails, so it returns the tree in either case.
\<close>

section \<open>Documents\<close>

record BallotMode =
  NumFields :: nat
  GroupSize :: nat
  UniqueValues :: bool
  CostExponent :: nat
  MaxValue :: nat
  MinValue :: nat
  MaxValueSum :: nat
  MinValueSum :: nat

record 'v chainConfig =
  ProcessID :: int
  BallotModePacked :: int
  EncKey :: 'v
  CensusOrigin :: u64
  CensusRoot :: int
  BallotVKHash :: 'v

record CensusProof =
  cp_Root :: string
  cp_Leaf :: string
  cp_Index :: u64
  cp_Siblings :: "string list"

record VoteSubmission =
  sub_VoteID :: bytes
  sub_Address :: bytes
  sub_VoteIDKey :: u64
  sub_Ballot :: bytes
  sub_Proof :: bytes
  sub_PublicInputs :: "string list"
  sub_Sig :: bytes
  sub_Census :: CensusProof

record voteProofBundle =
  b_Proof :: bytes
  b_PublicInputs :: "string list"
  b_Sig :: bytes
  b_Census :: CensusProof

record snarkjsProof =
  pi_a :: "string list"
  pi_b :: "string list list"
  pi_c :: "string list"
  sp_Protocol :: string
  sp_Curve :: string

record snarkjsVK =
  vk_Protocol :: string
  vk_Curve :: string
  nPublic :: int
  vk_alpha_1 :: "string list"
  vk_beta_2 :: "string list list"
  vk_gamma_2 :: "string list list"
  vk_delta_2 :: "string list list"
  IC :: "string list list"

record voteSig =
  vs_R :: string
  vs_S :: string
  vs_V :: nat

record proverSig =
  ps_PublicKeyX :: string
  ps_PublicKeyY :: string
  ps_R :: string
  ps_S :: string
  ps_V :: nat
  ps_VoteID :: u64
  ps_Address :: string

text \<open>Points of BN254 by their affine coordinates, each below the base field modulus.\<close>

type_synonym g1 = "int \<times> int"
type_synonym g2 = "(int \<times> int) \<times> (int \<times> int)"

record groth16Proof =
  Ar :: g1
  Bs :: g2
  Krs :: g1

record groth16VK =
  Alpha :: g1
  Beta :: g2
  Gamma :: g2
  Delta :: g2
  K :: "g1 list"

record 'v voteRules =
  vr_cfg :: "'v chainConfig"
  vr_processID :: bytes
  vr_ballotMode :: BallotMode
  vr_ballotVK :: 'v

record 'v chainVote =
  cv_Slot :: u64
  cv_VoteID :: u64
  cv_Ballot :: 'v

record 'v ProveRequest =
  pr_VK :: bytes
  pr_Output :: string
  pr_State :: 'v
  pr_Reencryption :: 'v
  pr_Proofs :: "bytes list"
  pr_PublicInputs :: "string list list"
  pr_Sigs :: "bytes list"
  pr_CensusProofs :: "CensusProof list"

section \<open>Third-party functions\<close>

record ('v, 'st) sdk =
  fpModulus :: int
  frModulus :: int
  curveN :: int
  sdk_NumFields :: nat
  MaxBatchSize :: int
  ProcessIDLen :: nat
  CircomVerificationKey :: bytes
  CheckBigIntInField :: "int \<Rightarrow> bool"
  IsMerkle :: "u64 \<Rightarrow> bool"
  IsCSP :: "u64 \<Rightarrow> bool"
  Pack :: "BallotMode \<Rightarrow> gerror + int"
  BallotVKLeaf :: "bytes \<Rightarrow> gerror + 'v"
  SetPoint :: "int \<Rightarrow> int \<Rightarrow> 'v"
  Order :: "'v \<Rightarrow> int"
  ScalarBaseMult :: "int \<Rightarrow> 'v"
  PointEqual :: "'v \<Rightarrow> 'v \<Rightarrow> bool"
  DeserializeBallot :: "'v \<Rightarrow> bytes \<Rightarrow> gerror + 'v"
  Ciphertexts :: "'v \<Rightarrow> ((int \<times> int) \<times> (int \<times> int)) list"
  OnBabyJubJub :: "int \<times> int \<Rightarrow> bool"
  VoteIDValid :: "u64 \<Rightarrow> bool"
  LeafAddress :: "u64 list \<Rightarrow> bytes"
  VerifyLeanIMT :: "int \<Rightarrow> int \<Rightarrow> u64 \<Rightarrow> int list \<Rightarrow> bool"
  SlotKey :: "CensusProof \<Rightarrow> gerror + u64"
  BallotInputsHash :: "bytes \<Rightarrow> BallotMode \<Rightarrow> 'v \<Rightarrow> bytes \<Rightarrow> u64 \<Rightarrow> 'v \<Rightarrow> int \<Rightarrow> gerror + int"
  g1_IsInfinity :: "g1 \<Rightarrow> bool"
  g1_IsOnCurve :: "g1 \<Rightarrow> bool"
  g2_IsInfinity :: "g2 \<Rightarrow> bool"
  g2_IsOnCurve :: "g2 \<Rightarrow> bool"
  g2_IsInSubGroup :: "g2 \<Rightarrow> bool"
  Precompute :: "groth16VK \<Rightarrow> gerror + 'v"
  Groth16Verify :: "groth16Proof \<Rightarrow> 'v \<Rightarrow> int list \<Rightarrow> bool"
  SigSetBytes :: "bytes \<Rightarrow> 'v option"
  SigBytes :: "'v \<Rightarrow> bytes"
  SigVerify :: "'v \<Rightarrow> bytes \<Rightarrow> bytes \<Rightarrow> bool \<times> bytes"
  NewState :: "'v chainConfig \<Rightarrow> gerror + 'st"
  Snapshot :: "'st \<Rightarrow> gerror + bytes"
  RestoreState :: "'v chainConfig \<Rightarrow> bytes \<Rightarrow> gerror + 'st"
  ApplyBatch :: "nat \<Rightarrow> 'st \<Rightarrow> 'v chainVote list \<Rightarrow> (gerror + 'v \<times> 'v) \<times> 'st"
  Root :: "'st \<Rightarrow> string"
  EncryptedResultsOf :: "'st \<Rightarrow> string list"
  parse_proof :: "bytes \<Rightarrow> snarkjsProof option"
  print_proof :: "snarkjsProof \<Rightarrow> gerror + bytes"
  parse_vk :: "bytes \<Rightarrow> snarkjsVK option"
  print_vk :: "snarkjsVK \<Rightarrow> gerror + bytes"
  parse_voteSig :: "bytes \<Rightarrow> voteSig option"
  print_proverSig :: "proverSig \<Rightarrow> gerror + bytes"
  parse_bundle :: "bytes \<Rightarrow> voteProofBundle option"
  print_bundle :: "voteProofBundle \<Rightarrow> gerror + bytes"
  print_request :: "'v ProveRequest \<Rightarrow> gerror + bytes"

text \<open>
  What the source relies on of the encodings: a document it prints parses to what was printed.
\<close>

definition json_ok :: "('v, 'st) sdk \<Rightarrow> bool" where
  "json_ok k \<longleftrightarrow>
     (\<forall>p. \<exists>raw. print_proof k p = Inr raw \<and> parse_proof k raw = Some p) \<and>
     (\<forall>v. \<exists>raw. print_vk k v = Inr raw \<and> parse_vk k raw = Some v) \<and>
     (\<forall>b. \<exists>raw. print_bundle k b = Inr raw \<and> parse_bundle k raw = Some b)"

end
