(* ===== verification/Validation.thy ===== *)
theory Validation
  imports Sdk
begin

unbundle bit_operations_syntax

text \<open>
  What ingest checks a configuration and a vote against: src/orchestrator/config.go,
  census.go, snarkjs.go and validate.go, function by function. Third-party checks are the
  fields of the parameter \<open>k\<close> (theory Sdk); error texts are the constant part of the
  source's message.

  \<open>big.Int\<close> is \<open>int\<close>: \<open>Rsh\<close> and \<open>And\<close> on negative numbers are the two's
  complement operations in both, and \<open>FillBytes\<close> writes the absolute value.
  \<open>FillBytes\<close> panics when the number does not fit; \<open>fillBytes\<close> then is \<open>None\<close>
  and the panic the error \<open>Detail ''panic''\<close>, which the HTTP server's recoverer turns
  into a failed request.
\<close>

section \<open>Numbers (config.go, census.go, snarkjs.go)\<close>

definition fillBytes :: "nat \<Rightarrow> int \<Rightarrow> bytes option" where
  "fillBytes n v = (if \<bar>v\<bar> < 256 ^ n then Some (be_bytes n (nat \<bar>v\<bar>)) else None)"

definition parseHexBig :: "string \<Rightarrow> gerror + int" where
  "parseHexBig s =
     (let s = TrimPrefix (TrimSpace s) ''0x'' in
      if s = [] then Inl [Detail ''empty hex value'']
      else case SetString16 s of None \<Rightarrow> Inl [Detail ''invalid hex value''] | Some v \<Rightarrow> Inr v)"

definition parseFr :: "('v, 'st) sdk \<Rightarrow> string \<Rightarrow> gerror + int" where
  "parseFr k s =
     (case hexDecode (TrimPrefix s ''0x'') of
        None \<Rightarrow> Inl [Detail ''invalid hex'']
      | Some b \<Rightarrow>
          if length b \<noteq> 32 then Inl [Detail ''want 32 bytes'']
          else if \<not> CheckBigIntInField k (int (be_val b)) then Inl [Detail ''not a BN254 field element'']
          else Inr (int (be_val b)))"

text \<open>\<open>frHex\<close> and \<open>frLimbs\<close> are only applied to values \<open>parseFr\<close> returned, which fit.\<close>

definition frHex :: "int \<Rightarrow> string" where
  "frHex v = ''0x'' @ hexEncode (be_bytes 32 (nat \<bar>v\<bar>))"

definition frLimbs :: "int \<Rightarrow> u64 list" where
  "frLimbs v =
     (let b = be_bytes 32 (nat \<bar>v\<bar>) in
      map (\<lambda>i. of_nat (be_val (take 8 (drop (24 - 8 * i) b)))) [0, 1, 2, 3])"

definition isDigit :: "char \<Rightarrow> bool" where
  "isDigit c \<longleftrightarrow> 48 \<le> (of_char c :: nat) \<and> of_char c \<le> (57 :: nat)"

definition parseDecimal :: "string \<Rightarrow> int \<Rightarrow> gerror + int" where
  "parseDecimal s mx =
     (if s = [] then Inl [Detail ''empty integer'']
      else if \<not> list_all isDigit s then Inl [Detail ''not a decimal integer'']
      else if int (decVal s) \<ge> mx then Inl [Detail ''out of range'']
      else Inr (int (decVal s)))"

section \<open>Election configuration (config.go, census.go)\<close>

definition ballotPublicInputs :: nat where
  "ballotPublicInputs = 3"

definition checkCensusOrigin :: "('v, 'st) sdk \<Rightarrow> u64 \<Rightarrow> gerror + unit" where
  "checkCensusOrigin k origin =
     (if IsMerkle k origin then Inr ()
      else if IsCSP k origin then Inl [Detail ''census origin (CSP) is not supported'']
      else Inl [Detail ''unknown census origin''])"

definition encKeyFromRTE :: "('v, 'st) sdk \<Rightarrow> string \<Rightarrow> string \<Rightarrow> gerror + 'v" where
  "encKeyFromRTE k encX encY =
     and_then (wrap (Detail ''encX'') (parseHexBig encX)) (\<lambda>rx.
     and_then (wrap (Detail ''encY'') (parseHexBig encY)) (\<lambda>ry.
     Inr (SetPoint k rx ry)))"

definition chainConfigFromElection :: "('v, 'st) sdk \<Rightarrow> ElectionConfig \<Rightarrow> gerror + 'v chainConfig" where
  "chainConfigFromElection k cfg =
     and_then (wrap (Detail ''processID'') (parseHexBig (cfg_ProcessID cfg))) (\<lambda>pid.
     and_then (wrap (Detail ''ballotMode'') (parseHexBig (cfg_BallotMode cfg))) (\<lambda>bm.
     and_then (wrap (Detail ''censusRoot'') (parseHexBig (cfg_CensusRoot cfg))) (\<lambda>cr.
     and_then (encKeyFromRTE k (cfg_EncX cfg) (cfg_EncY cfg)) (\<lambda>key.
     and_then (wrap (Detail ''ballot VK hash'') (BallotVKLeaf k (cfg_VK cfg))) (\<lambda>vkHash.
     Inr \<lparr>ProcessID = pid, BallotModePacked = bm, EncKey = key, CensusOrigin = cfg_CensusOrigin cfg,
          CensusRoot = cr, BallotVKHash = vkHash\<rparr>)))))"

definition bmField :: "int \<Rightarrow> nat \<Rightarrow> nat \<Rightarrow> nat" where
  "bmField packed shift width = nat (drop_bit shift packed AND (push_bit width 1 - 1))"

definition unpackBallotMode :: "('v, 'st) sdk \<Rightarrow> int \<Rightarrow> gerror + BallotMode" where
  "unpackBallotMode k packed =
     (let bm = \<lparr>NumFields = bmField packed 0 8, GroupSize = bmField packed 8 8,
                UniqueValues = (bmField packed 16 1 = 1), CostExponent = bmField packed 17 8,
                MaxValue = bmField packed 25 48, MinValue = bmField packed 73 48,
                MaxValueSum = bmField packed 121 63, MinValueSum = bmField packed 184 63\<rparr> in
      and_then (Pack k bm) (\<lambda>repacked.
      and_then (require (repacked = packed) [Detail ''bits set outside the ballot mode layout'']) (\<lambda>_.
      and_then (require (1 \<le> NumFields bm \<and> NumFields bm \<le> sdk_NumFields k) [Detail ''numFields outside'']) (\<lambda>_.
      Inr bm))))"

section \<open>snarkjs documents (snarkjs.go)\<close>

definition snarkjsProtocol :: string where "snarkjsProtocol = ''groth16''"
definition snarkjsCurve :: string where "snarkjsCurve = ''bn128''"

definition parseFp :: "('v, 'st) sdk \<Rightarrow> string \<Rightarrow> gerror + int" where
  "parseFp k s = parseDecimal s (fpModulus k)"

definition parseG1 :: "('v, 'st) sdk \<Rightarrow> string list \<Rightarrow> gerror + g1" where
  "parseG1 k v =
     (case v of
        [x, y, o1] \<Rightarrow>
          if o1 \<noteq> ''1'' then Inl [Detail ''G1 point must be [x, y, 1]'']
          else
            and_then (parseFp k x) (\<lambda>x.
            and_then (parseFp k y) (\<lambda>y.
            and_then (require (\<not> (g1_IsInfinity k (x, y) \<or> \<not> g1_IsOnCurve k (x, y))) [Detail ''G1 point not on the curve'']) (\<lambda>_.
            Inr (x, y))))
      | _ \<Rightarrow> Inl [Detail ''G1 point must be [x, y, 1]''])"

definition parseG2 :: "('v, 'st) sdk \<Rightarrow> string list list \<Rightarrow> gerror + g2" where
  "parseG2 k v =
     (case v of
        [[x0, x1], [y0, y1], [o1, z]] \<Rightarrow>
          if o1 \<noteq> ''1'' \<or> z \<noteq> ''0'' then Inl [Detail ''G2 point must be [[x0, x1], [y0, y1], [1, 0]]'']
          else
            and_then (parseFp k x0) (\<lambda>x0.
            and_then (parseFp k x1) (\<lambda>x1.
            and_then (parseFp k y0) (\<lambda>y0.
            and_then (parseFp k y1) (\<lambda>y1.
            let p = ((x0, x1), (y0, y1)) in
            and_then (require (\<not> (g2_IsInfinity k p \<or> \<not> g2_IsOnCurve k p \<or> \<not> g2_IsInSubGroup k p)) [Detail ''G2 point not in the subgroup'']) (\<lambda>_.
            Inr p)))))
      | _ \<Rightarrow> Inl [Detail ''G2 point must be [[x0, x1], [y0, y1], [1, 0]]''])"

definition fpString :: "int \<Rightarrow> string" where
  "fpString e = decString (nat e)"

definition g1JSON :: "g1 \<Rightarrow> string list" where
  "g1JSON p = [fpString (fst p), fpString (snd p), ''1'']"

definition g2JSON :: "g2 \<Rightarrow> string list list" where
  "g2JSON p =
     [[fpString (fst (fst p)), fpString (snd (fst p))], [fpString (fst (snd p)), fpString (snd (snd p))], [''1'', ''0'']]"

definition parseBallotProof :: "('v, 'st) sdk \<Rightarrow> bytes \<Rightarrow> gerror + (groth16Proof \<times> bytes)" where
  "parseBallotProof k raw =
     (case parse_proof k raw of
        None \<Rightarrow> Inl [Detail ''decode'']
      | Some sp \<Rightarrow>
          and_then (wrap (Detail ''pi_a'') (parseG1 k (pi_a sp))) (\<lambda>a.
          and_then (wrap (Detail ''pi_b'') (parseG2 k (pi_b sp))) (\<lambda>b.
          and_then (wrap (Detail ''pi_c'') (parseG1 k (pi_c sp))) (\<lambda>c.
          and_then (print_proof k \<lparr>pi_a = g1JSON a, pi_b = g2JSON b, pi_c = g1JSON c,
                      sp_Protocol = snarkjsProtocol, sp_Curve = snarkjsCurve\<rparr>) (\<lambda>canonical.
          Inr (\<lparr>Ar = a, Bs = b, Krs = c\<rparr>, canonical))))))"

fun parseG1s :: "('v, 'st) sdk \<Rightarrow> string list list \<Rightarrow> gerror + g1 list" where
  "parseG1s k [] = Inr []"
| "parseG1s k (v # vs) =
     and_then (wrap (Detail ''IC'') (parseG1 k v)) (\<lambda>p. and_then (parseG1s k vs) (\<lambda>ps. Inr (p # ps)))"

definition parseBallotVK :: "('v, 'st) sdk \<Rightarrow> bytes \<Rightarrow> gerror + ('v \<times> bytes)" where
  "parseBallotVK k raw =
     (case parse_vk k raw of
        None \<Rightarrow> Inl [Detail ''decode'']
      | Some sv \<Rightarrow>
          and_then (require (length (IC sv) = ballotPublicInputs + 1) [Detail ''want 3 public inputs'']) (\<lambda>_.
          and_then (wrap (Detail ''vk_alpha_1'') (parseG1 k (vk_alpha_1 sv))) (\<lambda>alpha.
          and_then (wrap (Detail ''vk_beta_2'') (parseG2 k (vk_beta_2 sv))) (\<lambda>beta.
          and_then (wrap (Detail ''vk_gamma_2'') (parseG2 k (vk_gamma_2 sv))) (\<lambda>gamma.
          and_then (wrap (Detail ''vk_delta_2'') (parseG2 k (vk_delta_2 sv))) (\<lambda>delta.
          and_then (parseG1s k (IC sv)) (\<lambda>ks.
          and_then (Precompute k \<lparr>Alpha = alpha, Beta = beta, Gamma = gamma, Delta = delta, K = ks\<rparr>) (\<lambda>vk.
          and_then (print_vk k \<lparr>vk_Protocol = snarkjsProtocol, vk_Curve = snarkjsCurve, nPublic = int ballotPublicInputs,
                      vk_alpha_1 = g1JSON alpha, vk_beta_2 = g2JSON beta, vk_gamma_2 = g2JSON gamma,
                      vk_delta_2 = g2JSON delta, IC = map g1JSON ks\<rparr>) (\<lambda>canonical.
          Inr (vk, canonical))))))))))"

fun parseDecimals :: "string list \<Rightarrow> int \<Rightarrow> gerror + int list" where
  "parseDecimals [] mx = Inr []"
| "parseDecimals (s # ss) mx =
     and_then (wrap (Detail ''public input'') (parseDecimal s mx)) (\<lambda>v.
     and_then (parseDecimals ss mx) (\<lambda>vs. Inr (v # vs)))"

definition parsePublicInputs :: "('v, 'st) sdk \<Rightarrow> string list \<Rightarrow> gerror + int list" where
  "parsePublicInputs k pubs =
     and_then (require (length pubs = ballotPublicInputs) [Detail ''want 3 signals'']) (\<lambda>_.
     parseDecimals pubs (frModulus k))"

definition newVoteRules :: "('v, 'st) sdk \<Rightarrow> ElectionConfig \<Rightarrow> gerror + 'v voteRules" where
  "newVoteRules k ec =
     and_then (checkCensusOrigin k (cfg_CensusOrigin ec)) (\<lambda>_.
     and_then (chainConfigFromElection k ec) (\<lambda>cfg.
     and_then (require (CheckBigIntInField k (CensusRoot cfg)) [Detail ''censusRoot is not a BN254 field element'']) (\<lambda>_.
     case fillBytes (ProcessIDLen k) (ProcessID cfg) of
       None \<Rightarrow> Inl [Detail ''processID exceeds'']
     | Some pid \<Rightarrow>
         and_then (wrap (Detail ''ballotMode'') (unpackBallotMode k (BallotModePacked cfg))) (\<lambda>bm.
         and_then (wrap (Detail ''vk'') (parseBallotVK k (cfg_VK ec))) (\<lambda>vk.
         Inr \<lparr>vr_cfg = cfg, vr_processID = pid, vr_ballotMode = bm, vr_ballotVK = fst vk\<rparr>)))))"

section \<open>Census proofs (census.go)\<close>

definition maxCensusDepth :: nat where "maxCensusDepth = 61"
definition censusWeightBits :: nat where "censusWeightBits = 88"
definition AddressLength :: nat where "AddressLength = 20"

fun parseFrs :: "('v, 'st) sdk \<Rightarrow> string list \<Rightarrow> gerror + int list" where
  "parseFrs k [] = Inr []"
| "parseFrs k (s # ss) =
     and_then (wrap (Detail ''census sibling'') (parseFr k s)) (\<lambda>v. and_then (parseFrs k ss) (\<lambda>vs. Inr (v # vs)))"

definition verifyCensusProof :: "('v, 'st) sdk \<Rightarrow> int \<Rightarrow> bytes \<Rightarrow> CensusProof \<Rightarrow> gerror + (int \<times> CensusProof)" where
  "verifyCensusProof k censusRoot address cp =
     (let depth = length (cp_Siblings cp) in
      and_then (require (depth \<le> maxCensusDepth) [Detail ''census proof depth exceeds'']) (\<lambda>_.
      and_then (require (drop_bit depth (cp_Index cp) = 0) [Detail ''census proof has path bits above depth'']) (\<lambda>_.
      and_then (wrap (Detail ''census root'') (parseFr k (cp_Root cp))) (\<lambda>root.
      and_then (require (root = censusRoot) [Detail ''census root mismatch'']) (\<lambda>_.
      and_then (wrap (Detail ''census leaf'') (parseFr k (cp_Leaf cp))) (\<lambda>leaf.
      and_then (require (length address = AddressLength) [Detail ''address must be 20 bytes'']) (\<lambda>_.
      and_then (require (LeafAddress k (frLimbs leaf) = address) [Detail ''census leaf is for another address'']) (\<lambda>_.
      and_then (parseFrs k (cp_Siblings cp)) (\<lambda>siblings.
      and_then (require (VerifyLeanIMT k root leaf (cp_Index cp) siblings) [Detail ''census proof does not reach the census root'']) (\<lambda>_.
      Inr (leaf AND (push_bit censusWeightBits 1 - 1),
           \<lparr>cp_Root = frHex root, cp_Leaf = frHex leaf, cp_Index = cp_Index cp,
            cp_Siblings = map frHex siblings\<rparr>)))))))))))"

section \<open>Votes (validate.go)\<close>

definition checkPoint :: "('v, 'st) sdk \<Rightarrow> nat \<Rightarrow> nat \<Rightarrow> int \<times> int \<Rightarrow> gerror + unit" where
  "checkPoint k nf i p =
     (if i \<ge> nf
      then require (\<not> (fst p \<noteq> 0 \<or> snd p \<noteq> 1)) [Detail ''malformed ballot: field must be the identity'']
      else require (OnBabyJubJub k p) [Detail ''malformed ballot: field is not on BabyJubJub''])"

fun checkCiphertexts :: "('v, 'st) sdk \<Rightarrow> nat \<Rightarrow> nat \<Rightarrow> ((int \<times> int) \<times> (int \<times> int)) list \<Rightarrow> gerror + unit" where
  "checkCiphertexts k nf i [] = Inr ()"
| "checkCiphertexts k nf i (ct # cts) =
     and_then (checkPoint k nf i (fst ct)) (\<lambda>_.
     and_then (checkPoint k nf i (snd ct)) (\<lambda>_.
     checkCiphertexts k nf (i + 1) cts))"

definition checkBallot :: "('v, 'st) sdk \<Rightarrow> 'v voteRules \<Rightarrow> bytes \<Rightarrow> gerror + 'v" where
  "checkBallot k rules raw =
     and_then (require (raw \<noteq> []) [Detail ''missing ballot'']) (\<lambda>_.
     and_then (wrap (Detail ''malformed ballot'') (DeserializeBallot k (EncKey (vr_cfg rules)) raw)) (\<lambda>ballot.
     and_then (checkCiphertexts k (NumFields (vr_ballotMode rules)) 0 (Ciphertexts k ballot)) (\<lambda>_.
     Inr ballot)))"

definition checkVote :: "('v, 'st) sdk \<Rightarrow> 'v voteRules \<Rightarrow> VoteSubmission \<Rightarrow> gerror + ('v \<times> int \<times> CensusProof)" where
  "checkVote k rules sub =
     and_then (require (length (sub_Address sub) = AddressLength) [ErrMalformedVote, Detail ''address must be 20 bytes'']) (\<lambda>_.
     and_then (require (length (sub_VoteID sub) = 8) [ErrMalformedVote, Detail ''vote_id must be 8 bytes'']) (\<lambda>_.
     and_then (require (of_nat (be_val (sub_VoteID sub)) = sub_VoteIDKey sub) [ErrMalformedVote, Detail ''vote_id_key does not match vote_id'']) (\<lambda>_.
     and_then (require (VoteIDValid k (sub_VoteIDKey sub)) [ErrMalformedVote, Detail ''vote ID outside the vote-ID namespace'']) (\<lambda>_.
     and_then (wrap ErrMalformedVote (checkBallot k rules (sub_Ballot sub))) (\<lambda>ballot.
     and_then (wrap ErrInvalidCensusProof (verifyCensusProof k (CensusRoot (vr_cfg rules)) (sub_Address sub) (sub_Census sub))) (\<lambda>wc.
     Inr (ballot, fst wc, snd wc)))))))"

definition structuralValidator_Validate :: "('v, 'st) sdk \<Rightarrow> 'v voteRules \<Rightarrow> VoteSubmission \<Rightarrow> gerror + voteProofBundle" where
  "structuralValidator_Validate k rules sub =
     and_then (require (sub_Proof sub \<noteq> []) [ErrInvalidBallotProof, Detail ''missing proof'']) (\<lambda>_.
     and_then (require (sub_PublicInputs sub \<noteq> []) [ErrInvalidBallotProof, Detail ''missing public_inputs'']) (\<lambda>_.
     and_then (require (sub_Sig sub \<noteq> []) [ErrInvalidSignature, Detail ''missing signature'']) (\<lambda>_.
     and_then (checkVote k rules sub) (\<lambda>r.
     Inr \<lparr>b_Proof = sub_Proof sub, b_PublicInputs = sub_PublicInputs sub, b_Sig = sub_Sig sub, b_Census = snd (snd r)\<rparr>))))"

definition parseVoteSig :: "('v, 'st) sdk \<Rightarrow> bytes \<Rightarrow> gerror + 'v" where
  "parseVoteSig k raw =
     (case parse_voteSig k raw of
        None \<Rightarrow> Inl [Detail ''decode'']
      | Some js \<Rightarrow>
          and_then (wrap (Detail ''r'') (parseHexBig (vs_R js))) (\<lambda>r.
          and_then (wrap (Detail ''s'') (parseHexBig (vs_S js))) (\<lambda>s.
          and_then (require (\<not> (r = 0 \<or> r \<ge> curveN k \<or> s = 0 \<or> s \<ge> curveN k)) [Detail ''r and s must be in [1, n-1]'']) (\<lambda>_.
          (case (fillBytes 32 r, fillBytes 32 s) of
             (Some rb, Some sb) \<Rightarrow>
               (case SigSetBytes k (rb @ sb @ [char_of (vs_V js)]) of
                  None \<Rightarrow> Inl [Detail ''invalid signature encoding'']
                | Some sig \<Rightarrow>
                    if of_char (SigBytes k sig ! 64) > (1 :: nat) then Inl [Detail ''recovery id, want 0 or 1'']
                    else Inr sig)
           | _ \<Rightarrow> Inl [Detail ''panic''])))))"

definition Validate :: "('v, 'st) sdk \<Rightarrow> 'v voteRules \<Rightarrow> VoteSubmission \<Rightarrow> gerror + voteProofBundle" where
  "Validate k rules sub =
     and_then (require (sub_Proof sub \<noteq> []) [ErrInvalidBallotProof, Detail ''missing proof'']) (\<lambda>_.
     and_then (require (sub_Sig sub \<noteq> []) [ErrInvalidSignature, Detail ''missing signature'']) (\<lambda>_.
     and_then (checkVote k rules sub) (\<lambda>(ballot, weight, census).
     and_then (wrap ErrInvalidBallotProof (wrap (Detail ''public_inputs'') (parsePublicInputs k (sub_PublicInputs sub)))) (\<lambda>pubs.
     let address = int (be_val (sub_Address sub)) in
     and_then (require (pubs ! 0 = address) [ErrInvalidBallotProof, Detail ''public_inputs address does not match'']) (\<lambda>_.
     and_then (require (\<not> (\<not> (0 \<le> pubs ! 1 \<and> pubs ! 1 < 2 ^ 64) \<or> pubs ! 1 \<noteq> uint (sub_VoteIDKey sub)))
       [ErrInvalidBallotProof, Detail ''public_inputs vote ID does not match'']) (\<lambda>_.
     and_then (wrap ErrInvalidBallotProof (wrap (Detail ''inputs hash'')
       (BallotInputsHash k (vr_processID rules) (vr_ballotMode rules) (EncKey (vr_cfg rules)) (sub_Address sub)
          (sub_VoteIDKey sub) ballot weight))) (\<lambda>inputsHash.
     and_then (require (pubs ! 2 = inputsHash) [ErrInvalidBallotProof, Detail ''public_inputs inputs hash does not match'']) (\<lambda>_.
     and_then (wrap ErrInvalidSignature (parseVoteSig k (sub_Sig sub))) (\<lambda>sig.
     let (sigOk, pubKey) = SigVerify k sig (PadToSign (sub_VoteID sub)) (sub_Address sub) in
     and_then (require sigOk [ErrInvalidSignature, Detail ''it does not recover to the address of the voter'']) (\<lambda>_.
     and_then (wrap ErrInvalidBallotProof (parseBallotProof k (sub_Proof sub))) (\<lambda>(proof, proofJSON).
     and_then (require (Groth16Verify k proof (vr_ballotVK rules) pubs) [ErrInvalidBallotProof, Detail ''it does not verify'']) (\<lambda>_.
     let rsv = SigBytes k sig in
     and_then (wrap (Detail ''encode signature'') (print_proverSig k
       \<lparr>ps_PublicKeyX = ''0x'' @ hexEncode (take 32 (drop 1 pubKey)),
        ps_PublicKeyY = ''0x'' @ hexEncode (take 32 (drop 33 pubKey)),
        ps_R = ''0x'' @ hexEncode (take 32 rsv), ps_S = ''0x'' @ hexEncode (take 32 (drop 32 rsv)),
        ps_V = of_char (rsv ! 64), ps_VoteID = sub_VoteIDKey sub, ps_Address = decString (be_val (sub_Address sub))\<rparr>)) (\<lambda>sigJSON.
     Inr \<lparr>b_Proof = proofJSON,
          b_PublicInputs = [decString (be_val (sub_Address sub)), decString (unat (sub_VoteIDKey sub)), decString (nat (pubs ! 2))],
          b_Sig = sigJSON, b_Census = census\<rparr>)))))))))))))"

end
