(* ===== verification/Sample_Sdk.thy ===== *)
theory Sample_Sdk
  imports Validation "HOL-Library.Countable"
begin

text \<open>
  A concrete instance of the third-party parameter, for the witnesses: a state tree that
  counts the votes applied to it and refuses slot 13, checks that accept, and encodings that
  number the documents. It satisfies every hypothesis the properties state.
\<close>

definition num :: "'a::countable \<Rightarrow> bytes" where
  "num x = replicate (to_nat x + 1) (CHR 0x00)"

definition unnum :: "bytes \<Rightarrow> 'a::countable" where
  "unnum b = from_nat (length b - 1)"

lemma unnum_num [simp]: "unnum (num x) = x"
  by (simp add: num_def unnum_def)

lemma num_not_Nil [simp]: "num x \<noteq> []"
  by (simp add: num_def)

definition sample_parse_proof :: "bytes \<Rightarrow> snarkjsProof option" where
  "sample_parse_proof raw =
     (case unnum raw of (a, b, c, p, q) \<Rightarrow> Some \<lparr>pi_a = a, pi_b = b, pi_c = c, sp_Protocol = p, sp_Curve = q\<rparr>)"

definition sample_print_proof :: "snarkjsProof \<Rightarrow> gerror + bytes" where
  "sample_print_proof p = Inr (num (pi_a p, pi_b p, pi_c p, sp_Protocol p, sp_Curve p))"

definition sample_parse_vk :: "bytes \<Rightarrow> snarkjsVK option" where
  "sample_parse_vk raw =
     (case unnum raw of (p, c, n, a, b, g, d, ic) \<Rightarrow>
        Some \<lparr>vk_Protocol = p, vk_Curve = c, nPublic = n, vk_alpha_1 = a, vk_beta_2 = b, vk_gamma_2 = g,
              vk_delta_2 = d, IC = ic\<rparr>)"

definition sample_print_vk :: "snarkjsVK \<Rightarrow> gerror + bytes" where
  "sample_print_vk v =
     Inr (num (vk_Protocol v, vk_Curve v, nPublic v, vk_alpha_1 v, vk_beta_2 v, vk_gamma_2 v, vk_delta_2 v, IC v))"

definition sample_parse_bundle :: "bytes \<Rightarrow> voteProofBundle option" where
  "sample_parse_bundle raw =
     (case unnum raw of (p, i, s, (r, l, n, sb)) \<Rightarrow>
        Some \<lparr>b_Proof = p, b_PublicInputs = i, b_Sig = s,
              b_Census = \<lparr>cp_Root = r, cp_Leaf = l, cp_Index = of_nat n, cp_Siblings = sb\<rparr>\<rparr>)"

definition sample_print_bundle :: "voteProofBundle \<Rightarrow> gerror + bytes" where
  "sample_print_bundle b =
     Inr (num (b_Proof b, b_PublicInputs b, b_Sig b,
        (cp_Root (b_Census b), cp_Leaf (b_Census b), unat (cp_Index (b_Census b)), cp_Siblings (b_Census b))))"

definition sample_sdk :: "(nat, nat) sdk" where
  "sample_sdk =
     \<lparr>fpModulus = 100, frModulus = 2 ^ 200, curveN = 100, sdk_NumFields = 8, MaxBatchSize = 128, ProcessIDLen = 31,
      CircomVerificationKey = [], CheckBigIntInField = (\<lambda>v. 0 \<le> v), IsMerkle = (\<lambda>n. n = 1), IsCSP = (\<lambda>n. n = 4),
      Pack = (\<lambda>bm. Inr (int (NumFields bm))), BallotVKLeaf = (\<lambda>_. Inr 0), SetPoint = (\<lambda>x y. nat x),
      Order = (\<lambda>_. 50), ScalarBaseMult = nat, PointEqual = (=), DeserializeBallot = (\<lambda>_ b. Inr (length b)),
      Ciphertexts = (\<lambda>_. []), OnBabyJubJub = (\<lambda>_. True), VoteIDValid = (\<lambda>_. True),
      LeafAddress = (\<lambda>_. replicate 20 (CHR 0x00)), VerifyLeanIMT = (\<lambda>_ _ _ _. True), SlotKey = (\<lambda>_. Inr 5),
      BallotInputsHash = (\<lambda>_ _ _ _ _ _ _. Inr 0), g1_IsInfinity = (\<lambda>_. False), g1_IsOnCurve = (\<lambda>_. True),
      g2_IsInfinity = (\<lambda>_. False), g2_IsOnCurve = (\<lambda>_. True), g2_IsInSubGroup = (\<lambda>_. True),
      Precompute = (\<lambda>_. Inr 0), Groth16Verify = (\<lambda>_ _ _. True), SigSetBytes = (\<lambda>_. Some 0),
      SigBytes = (\<lambda>_. replicate 65 (CHR 0x00)), SigVerify = (\<lambda>_ _ _. (True, replicate 65 (CHR 0x00))),
      NewState = (\<lambda>_. Inr 0), Snapshot = (\<lambda>st. Inr (replicate st (CHR 0x00))),
      RestoreState = (\<lambda>_ blob. Inr (length blob)),
      ApplyBatch = (\<lambda>_ st vs. if \<exists>v \<in> set vs. cv_Slot v = 13 then (Inl [], st + 1) else (Inr (0, 0), st + length vs)),
      Root = (\<lambda>_. []), EncryptedResultsOf = (\<lambda>_. []), parse_proof = sample_parse_proof, print_proof = sample_print_proof,
      parse_vk = sample_parse_vk, print_vk = sample_print_vk,
      parse_voteSig = (\<lambda>_. Some \<lparr>vs_R = ''1'', vs_S = ''1'', vs_V = 0\<rparr>), print_proverSig = (\<lambda>_. Inr []),
      parse_bundle = sample_parse_bundle, print_bundle = sample_print_bundle, print_request = (\<lambda>_. Inr [])\<rparr>"

lemma sample_json_ok: "json_ok sample_sdk"
  by (simp add: json_ok_def sample_sdk_def sample_parse_proof_def sample_print_proof_def sample_parse_vk_def
      sample_print_vk_def sample_parse_bundle_def sample_print_bundle_def)

definition sample_rules :: "nat voteRules" where
  "sample_rules =
     \<lparr>vr_cfg = \<lparr>ProcessID = 0, BallotModePacked = 1, EncKey = 7, CensusOrigin = 1, CensusRoot = 0, BallotVKHash = 0\<rparr>,
      vr_processID = [],
      vr_ballotMode = \<lparr>NumFields = 1, GroupSize = 0, UniqueValues = False, CostExponent = 0, MaxValue = 0, MinValue = 0,
        MaxValueSum = 0, MinValueSum = 0\<rparr>,
      vr_ballotVK = 0\<rparr>"

definition zeros32 :: string where
  "zeros32 = hexEncode (be_bytes 32 0)"

definition sample_submission :: VoteSubmission where
  "sample_submission =
     \<lparr>sub_VoteID = be_bytes 8 0, sub_Address = replicate 20 (CHR 0x00), sub_VoteIDKey = 0, sub_Ballot = ''b'',
      sub_Proof = num ([''1'', ''2'', ''1''], [[''1'', ''2''], [''3'', ''4''], [''1'', ''0'']], [''5'', ''6'', ''1''], ''groth16'', ''bn128''),
      sub_PublicInputs = [''0'', ''0'', ''0''], sub_Sig = ''s'',
      sub_Census = \<lparr>cp_Root = zeros32, cp_Leaf = zeros32, cp_Index = 0, cp_Siblings = []\<rparr>\<rparr>"

end
