(* ===== verification/Validation_Laws.thy ===== *)
theory Validation_Laws
  imports Sample_Sdk
begin

text \<open>
  What ingest guarantees of a vote it accepts and of a configuration it stores: the values it
  re-encodes parse back to what it verified, and an accepted vote binds address, vote ID,
  ballot, census leaf, signature and proof together.
\<close>

section \<open>Round trips of the encodings\<close>

lemma TrimPrefix_0x [simp]: "TrimPrefix (CHR ''0'' # CHR ''x'' # s) ''0x'' = s"
  by (simp add: TrimPrefix_def)

lemma parseFr_range:
  assumes "parseFr k s = Inr v"
  shows "0 \<le> v" and "v < 256 ^ 32" and "CheckBigIntInField k v"
proof -
  from assms obtain b where b: "length b = 32" "v = int (be_val b)" and f: "CheckBigIntInField k v"
    by (auto simp: parseFr_def split: option.splits if_splits)
  show "0 \<le> v" using b by simp
  show "v < 256 ^ 32" using b be_val_bound[of b] by (simp add: nat_less_eq_zless)
  show "CheckBigIntInField k v" by (rule f)
qed

lemma parseFr_frHex:
  assumes "0 \<le> v" and "v < 256 ^ 32" and "CheckBigIntInField k v"
  shows "parseFr k (frHex v) = Inr v"
proof -
  have "nat \<bar>v\<bar> < 256 ^ 32" using assms(1,2) by (simp add: nat_less_iff)
  then show ?thesis using assms by (simp add: parseFr_def frHex_def be_val_be_bytes)
qed

lemma parseFr_canonical: "parseFr k s = Inr v \<Longrightarrow> parseFr k (frHex v) = Inr v"
  by (rule parseFr_frHex) (auto dest: parseFr_range)

lemma parseFrs_canonical: "parseFrs k ss = Inr vs \<Longrightarrow> parseFrs k (map frHex vs) = Inr vs"
  by (induction ss arbitrary: vs) (auto simp: parseFr_canonical)

lemma parseFrs_length: "parseFrs k ss = Inr vs \<Longrightarrow> length vs = length ss"
  by (induction ss arbitrary: vs) auto

lemma isDigit_decString: "list_all isDigit (decString n)"
  using decString_digits by (auto simp: list_all_iff isDigit_def)

lemma parseDecimal_decString: "0 \<le> v \<Longrightarrow> v < mx \<Longrightarrow> parseDecimal (decString (nat v)) mx = Inr v"
  by (simp add: parseDecimal_def isDigit_decString)

lemma parseDecimal_range: "parseDecimal s mx = Inr v \<Longrightarrow> 0 \<le> v \<and> v < mx"
  by (auto simp: parseDecimal_def split: if_splits)

lemma parseFp_canonical: "parseFp k s = Inr v \<Longrightarrow> parseFp k (fpString v) = Inr v"
  using parseDecimal_range[of s "fpModulus k" v] parseDecimal_decString[of v "fpModulus k"]
  by (simp add: parseFp_def fpString_def)

lemma parseG1_canonical: "parseG1 k v = Inr p \<Longrightarrow> parseG1 k (g1JSON p) = Inr p"
  by (auto simp: parseG1_def g1JSON_def parseFp_canonical split: list.splits if_splits)

lemma parseG2_canonical: "parseG2 k v = Inr p \<Longrightarrow> parseG2 k (g2JSON p) = Inr p"
  by (auto simp: parseG2_def g2JSON_def parseFp_canonical Let_def split: list.splits if_splits)

lemma parseG1s_canonical: "parseG1s k vs = Inr ps \<Longrightarrow> parseG1s k (map g1JSON ps) = Inr ps \<and> length ps = length vs"
  by (induction vs arbitrary: ps) (auto simp: parseG1_canonical)

lemma json_ok_print:
  assumes "json_ok k"
  shows "print_proof k p = Inr raw \<Longrightarrow> parse_proof k raw = Some p"
    and "print_vk k v = Inr raw \<Longrightarrow> parse_vk k raw = Some v"
    and "print_bundle k b = Inr raw \<Longrightarrow> parse_bundle k raw = Some b"
  using assms unfolding json_ok_def by (metis sum.inject(2))+

lemma parseBallotProof_canonical:
  assumes "json_ok k" and "parseBallotProof k raw = Inr (pf, canonical)"
  shows "parseBallotProof k canonical = Inr (pf, canonical)"
proof -
  obtain sp a b c where p: "parse_proof k raw = Some sp" "parseG1 k (pi_a sp) = Inr a" "parseG2 k (pi_b sp) = Inr b"
      "parseG1 k (pi_c sp) = Inr c"
    and print: "print_proof k \<lparr>pi_a = g1JSON a, pi_b = g2JSON b, pi_c = g1JSON c, sp_Protocol = snarkjsProtocol,
      sp_Curve = snarkjsCurve\<rparr> = Inr canonical" and pf: "pf = \<lparr>Ar = a, Bs = b, Krs = c\<rparr>"
    using assms(2) unfolding parseBallotProof_def and_then_Inr wrap_Inr
    by (cases "parse_proof k raw") (simp_all only: option.case and_then_Inr wrap_Inr, blast+)
  show ?thesis
    unfolding parseBallotProof_def json_ok_print(1)[OF assms(1) print]
    using parseG1_canonical[OF p(2)] parseG2_canonical[OF p(3)] parseG1_canonical[OF p(4)] print
    by (simp add: pf)
qed

lemma parseBallotVK_canonical:
  assumes "json_ok k" and "parseBallotVK k raw = Inr (vk, canonical)"
  shows "parseBallotVK k canonical = Inr (vk, canonical)"
proof -
  obtain sv where sv: "parse_vk k raw = Some sv"
    using assms(2) by (auto simp: parseBallotVK_def split: option.splits)
  obtain a b g d ks where p: "length (IC sv) = ballotPublicInputs + 1" "parseG1 k (vk_alpha_1 sv) = Inr a"
      "parseG2 k (vk_beta_2 sv) = Inr b" "parseG2 k (vk_gamma_2 sv) = Inr g" "parseG2 k (vk_delta_2 sv) = Inr d"
      "parseG1s k (IC sv) = Inr ks"
    and pre: "Precompute k \<lparr>Alpha = a, Beta = b, Gamma = g, Delta = d, K = ks\<rparr> = Inr vk"
    and print: "print_vk k \<lparr>vk_Protocol = snarkjsProtocol, vk_Curve = snarkjsCurve, nPublic = int ballotPublicInputs,
      vk_alpha_1 = g1JSON a, vk_beta_2 = g2JSON b, vk_gamma_2 = g2JSON g, vk_delta_2 = g2JSON d, IC = map g1JSON ks\<rparr> = Inr canonical"
    using assms(2) unfolding parseBallotVK_def sv option.case and_then_Inr wrap_Inr require_Inr prod.inject sum.inject
    by (elim exE conjE) (rule that, (simp only: refl)+)
  show ?thesis
    unfolding parseBallotVK_def json_ok_print(2)[OF assms(1) print]
    using parseG1_canonical[OF p(2)] parseG2_canonical[OF p(3)] parseG2_canonical[OF p(4)] parseG2_canonical[OF p(5)]
      parseG1s_canonical[OF p(6)] p(1) pre print
    by simp
qed

lemma mask_and: "x AND (push_bit n 1 - 1) = x mod 2 ^ n" for x :: int
  by (simp add: push_bit_of_1 flip: mask_eq_exp_minus_1 take_bit_eq_mask take_bit_eq_mod)

section \<open>Census proofs\<close>

lemma verifyCensusProof_canonical:
  assumes "verifyCensusProof k root addr cp = Inr (w, cp')"
  shows "verifyCensusProof k root addr cp' = Inr (w, cp')"
  using assms
  by (auto simp: verifyCensusProof_def Let_def parseFr_canonical parseFrs_canonical parseFrs_length
      dest: parseFrs_length)

lemma verifyCensusProof_binds:
  assumes "verifyCensusProof k root addr cp = Inr (w, cp')"
  shows "\<exists>leaf. parseFr k (cp_Leaf cp') = Inr leaf \<and> LeafAddress k (frLimbs leaf) = addr \<and>
    w = leaf mod 2 ^ 88 \<and> parseFr k (cp_Root cp') = Inr root"
  using assms
  unfolding verifyCensusProof_def mask_and
  by (auto simp: Let_def parseFr_canonical censusWeightBits_def)

section \<open>Accepted votes\<close>

lemma parsePublicInputs_three:
  assumes "parsePublicInputs k pubs = Inr vs"
  shows "\<exists>a b c. vs = [a, b, c] \<and> (\<forall>v \<in> {a, b, c}. 0 \<le> v \<and> v < frModulus k)"
  using assms
  by (auto simp: parsePublicInputs_def ballotPublicInputs_def length_Suc_conv numeral_3_eq_3 dest!: parseDecimal_range)

lemma parsePublicInputs_decStrings:
  "\<forall>v \<in> {a, b, c}. 0 \<le> v \<and> v < frModulus k \<Longrightarrow>
   parsePublicInputs k [decString (nat a), decString (nat b), decString (nat c)] = Inr [a, b, c]"
  by (simp add: parsePublicInputs_def ballotPublicInputs_def parseDecimal_decString)

lemma be_bytes_key:
  assumes "length bs = 8" and "of_nat (be_val bs) = (key :: u64)"
  shows "bs = be_bytes 8 (unat key)"
proof -
  have "be_val bs < 2 ^ 64" using be_val_bound[of bs] assms(1) by simp
  then have "unat key = be_val bs" by (simp add: unsigned_of_nat take_bit_nat_eq_self flip: assms(2))
  then show ?thesis using be_bytes_be_val[OF assms(1)] by simp
qed

text \<open>
  What the batch guest checks again of a vote: its identity, its census leaf, its proof under
  the public inputs that commit to the election, the ballot and the weight, its signature.
\<close>

definition vote_bound :: "('v, 'st) sdk \<Rightarrow> 'v voteRules \<Rightarrow> VoteSubmission \<Rightarrow> voteProofBundle \<Rightarrow> bool" where
  "vote_bound k rules sub b \<longleftrightarrow>
     sub_VoteID sub = be_bytes 8 (unat (sub_VoteIDKey sub)) \<and>
     (\<exists>ballot w h proof sig.
        DeserializeBallot k (EncKey (vr_cfg rules)) (sub_Ballot sub) = Inr ballot \<and>
        verifyCensusProof k (CensusRoot (vr_cfg rules)) (sub_Address sub) (b_Census b) = Inr (w, b_Census b) \<and>
        BallotInputsHash k (vr_processID rules) (vr_ballotMode rules) (EncKey (vr_cfg rules)) (sub_Address sub)
          (sub_VoteIDKey sub) ballot w = Inr h \<and>
        parsePublicInputs k (b_PublicInputs b) = Inr [int (be_val (sub_Address sub)), uint (sub_VoteIDKey sub), h] \<and>
        parseBallotProof k (b_Proof b) = Inr (proof, b_Proof b) \<and>
        Groth16Verify k proof (vr_ballotVK rules) [int (be_val (sub_Address sub)), uint (sub_VoteIDKey sub), h] \<and>
        parseVoteSig k (sub_Sig sub) = Inr sig \<and>
        fst (SigVerify k sig (PadToSign (sub_VoteID sub)) (sub_Address sub)))"

lemma checkVote_Inr:
  assumes "checkVote k rules sub = Inr (ballot, w, census)"
  shows "sub_VoteID sub = be_bytes 8 (unat (sub_VoteIDKey sub))"
    and "DeserializeBallot k (EncKey (vr_cfg rules)) (sub_Ballot sub) = Inr ballot"
    and "verifyCensusProof k (CensusRoot (vr_cfg rules)) (sub_Address sub) (sub_Census sub) = Inr (w, census)"
  using assms by (auto simp: checkVote_def checkBallot_def intro: be_bytes_key)

lemma Validate_Inr:
  assumes "json_ok k" and "Validate k rules sub = Inr b"
  shows "vote_bound k rules sub b"
proof -
  let ?addr = "int (be_val (sub_Address sub))" and ?key = "uint (sub_VoteIDKey sub)"
  obtain ballot w census where cv: "checkVote k rules sub = Inr (ballot, w, census)"
    using assms(2) by (auto simp: Validate_def)
  obtain pubs where pi: "parsePublicInputs k (sub_PublicInputs sub) = Inr pubs"
    using assms(2) by (auto simp: Validate_def cv Let_def)
  then obtain a key h where pubs: "pubs = [a, key, h]" and rg: "\<forall>v \<in> {a, key, h}. 0 \<le> v \<and> v < frModulus k"
    using parsePublicInputs_three by blast
  obtain sig pf canonical where
      eqs: "a = ?addr" "key = ?key"
      "BallotInputsHash k (vr_processID rules) (vr_ballotMode rules) (EncKey (vr_cfg rules)) (sub_Address sub)
         (sub_VoteIDKey sub) ballot w = Inr h"
      "parseVoteSig k (sub_Sig sub) = Inr sig" "fst (SigVerify k sig (PadToSign (sub_VoteID sub)) (sub_Address sub))"
      "parseBallotProof k (sub_Proof sub) = Inr (pf, canonical)" "Groth16Verify k pf (vr_ballotVK rules) pubs"
      "b_Proof b = canonical" "b_Census b = census"
      "b_PublicInputs b = [decString (be_val (sub_Address sub)), decString (unat (sub_VoteIDKey sub)), decString (nat h)]"
    using assms(2) by (auto simp: Validate_def cv pi pubs Let_def case_prod_beta)
  have "parsePublicInputs k (b_PublicInputs b) = Inr [?addr, ?key, h]"
    using parsePublicInputs_decStrings[of ?addr ?key h k] rg eqs by (simp add: nat_uint_eq)
  with checkVote_Inr[OF cv] eqs parseBallotProof_canonical[OF assms(1) eqs(6)]
    verifyCensusProof_canonical[OF checkVote_Inr(3)[OF cv]] show ?thesis
    unfolding vote_bound_def by (auto simp: pubs)
qed

section \<open>Properties\<close>


lemma sample_parseFr: "parseFr sample_sdk zeros32 = Inr 0"
proof -
  have "\<not> prefix ''0x'' zeros32" 
    using set_hexEncode[of "be_bytes 32 0"] by (auto simp: zeros32_def prefix_def)
  then have "TrimPrefix zeros32 ''0x'' = zeros32" by (simp add: TrimPrefix_def)
  then show ?thesis by (simp add: parseFr_def zeros32_def be_val_be_bytes sample_sdk_def)
qed

lemma TrimSpace_one: "TrimSpace ''1'' = ''1''"
  by (simp add: TrimSpace_def spaces_def char_of_def)

lemma sample_sig: "parseVoteSig sample_sdk raw = Inr 0"
  by (simp add: parseVoteSig_def sample_sdk_def parseHexBig_def TrimSpace_one TrimPrefix_def SetString16_def
      fromHexChar_def fillBytes_def Let_def)


lemma checkVote_error:
  "checkVote k rules sub = Inl e \<Longrightarrow> errors_Is e ErrMalformedVote \<or> errors_Is e ErrInvalidCensusProof"
  by (auto simp: checkVote_def result_Inl)



text \<open>
  \<open>parseVoteSig\<close> compares \<open>r\<close> and \<open>s\<close> with 0 and the group order, but a hexadecimal
  value may carry a minus sign: a negative \<open>r\<close> passes, and is read as its absolute value.
\<close>

lemma TrimSpace_minus: "TrimSpace ''-5'' = ''-5''" "TrimSpace ''5'' = ''5''"
  by (simp_all add: TrimSpace_def spaces_def char_of_def)

lemma negative_signature_accepted:
  assumes "parse_voteSig k raw = Some \<lparr>vs_R = ''-5'', vs_S = ''1'', vs_V = v\<rparr>"
    and "parse_voteSig k raw' = Some \<lparr>vs_R = ''5'', vs_S = ''1'', vs_V = v\<rparr>" and "5 < curveN k"
  shows "parseVoteSig k raw = parseVoteSig k raw'"
  using assms
  by (simp add: parseVoteSig_def parseHexBig_def TrimSpace_one TrimSpace_minus TrimPrefix_def SetString16_def
      fromHexChar_def fillBytes_def Let_def)

end
