(* ===== verification/Engine_State.thy ===== *)
theory Engine_State
  imports Storage_Properties Validation_Laws Retry Worker_Laws
begin

text \<open>
  The state of the orchestrator (src/orchestrator/engine.go: \<open>Engine\<close>,
  \<open>electionRuntime\<close>) and the small operations every other file uses: the audit trail and
  the scheduler's notifications (dispatch.go).

  A method that holds \<open>rt.mu\<close> gets the runtime as an argument and returns it changed;
  its caller writes it back with \<open>put_runtime\<close>. \<open>draws\<close> numbers the calls of
  \<open>ApplyBatch\<close>, which draw fresh randomness. The scheduler keeps the dispatchers (true: a
  pass is pending), the fold chains it loaded and the elections that have a drive lock.

  The batches a fold chain has pending are Go objects that a dispatch pass shares and changes
  through pointers. All of them belong to one election and are only touched under its drive
  lock, so each chain carries its own small heap, \<open>fc_objs\<close>, and a pointer is an index in it.
\<close>

record ('v, 'st) electionRuntime =
  rt_id :: ElectionID
  rt_cfg :: "'v chainConfig"
  rt_rules :: "'v voteRules"
  rt_state :: 'st
  rt_dirty :: bool
  rt_pending :: "Vote list"
  rt_batchSeq :: u64
  rt_batchSize :: int

type_synonym ptr = nat

record foldChain =
  fc_pin :: string
  fc_synced :: bool
  fc_resync :: bool
  fc_aggVK :: string
  fc_batchVK :: string
  fc_lastFold :: string
  fc_lastFoldOn :: string
  fc_foldCount :: u64
  fc_batchesFolded :: u64
  fc_stateRoot :: string
  fc_pending :: "ptr list"
  fc_foldEvery :: int
  fc_foldFailures :: int
  fc_reproved :: bool
  fc_headSuspect :: bool
  fc_avoid :: "u64 \<Rightarrow> string list"
  fc_objs :: "BatchInput list"

record scheduler =
  sc_timeout :: duration
  sc_poll :: duration
  sc_foldEvery :: int
  sc_stopped :: bool
  dispatchers :: "string \<rightharpoonup> bool"
  chains :: "string \<rightharpoonup> foldChain"
  driveMu :: "string set"

record ('b, 'v, 'st) engine =
  store :: "'b storage"
  eng_batchSize :: int
  eng_foldEvery :: int
  window :: duration
  pool :: "WorkerManager option"
  sched :: "scheduler option"
  draining :: "string set"
  finalizing :: "string set"
  eng_retries :: retries
  bgStopped :: bool
  runtimes :: "string \<rightharpoonup> ('v, 'st) electionRuntime"
  draws :: nat

section \<open>Defaults (engine.go)\<close>

definition minBatchSize :: int where "minBatchSize = 2"
definition defaultBatchSize :: int where "defaultBatchSize = 64"
definition defaultFoldEvery :: int where "defaultFoldEvery = 1"
definition defaultBatchTimeWindow :: duration where "defaultBatchTimeWindow = 30 * second"

section \<open>Runtimes, audit trail, notifications\<close>

definition runtime :: "('b, 'v, 'st) engine \<Rightarrow> ElectionID \<Rightarrow> ('v, 'st) electionRuntime option" where
  "runtime e eid = runtimes e (ElectionID_String eid)"

definition put_runtime :: "('v, 'st) electionRuntime \<Rightarrow> ('b, 'v, 'st) engine \<Rightarrow> ('b, 'v, 'st) engine" where
  "put_runtime rt e = e\<lparr>runtimes := (runtimes e)(ElectionID_String (rt_id rt) \<mapsto> rt)\<rparr>"

definition audit ::
  "time \<Rightarrow> ('b, 'v, 'st) engine \<Rightarrow> string \<Rightarrow> string \<Rightarrow> string \<Rightarrow> ElectionID \<Rightarrow> ('b, 'v, 'st) engine" where
  "audit now e subject role action eid =
     e\<lparr>store := snd (AppendAudit now (store e)
        \<lparr>au_Subject = subject, au_Role = role, au_Action = action, au_ElectionID = eid, au_Timestamp = now\<rparr>)\<rparr>"

definition Notify :: "scheduler \<Rightarrow> ElectionID \<Rightarrow> scheduler" where
  "Notify sc eid =
     (if sc_stopped sc then sc
      else sc\<lparr>dispatchers := (dispatchers sc)(ElectionID_String eid \<mapsto> True)\<rparr>)"

definition forgetLocked :: "scheduler \<Rightarrow> ElectionID \<Rightarrow> scheduler" where
  "forgetLocked sc eid =
     sc\<lparr>chains := (chains sc)(ElectionID_String eid := None), driveMu := driveMu sc - {ElectionID_String eid}\<rparr>"

definition Forget :: "scheduler \<Rightarrow> ElectionID \<Rightarrow> scheduler" where
  "Forget sc eid =
     (case dispatchers sc (ElectionID_String eid) of
        Some _ \<Rightarrow> sc\<lparr>dispatchers := (dispatchers sc)(ElectionID_String eid \<mapsto> True)\<rparr>
      | None \<Rightarrow> forgetLocked sc eid)"

definition notify :: "ElectionID \<Rightarrow> ('b, 'v, 'st) engine \<Rightarrow> ('b, 'v, 'st) engine" where
  "notify eid e = (case sched e of None \<Rightarrow> e | Some sc \<Rightarrow> e\<lparr>sched := Some (Notify sc eid)\<rparr>)"

text \<open>
  One round of \<open>dispatchLoop\<close>, once its trigger fired: \<open>result\<close> is what \<open>Dispatch\<close>
  returned and \<open>stopping\<close> whether the scheduler's context is done.
\<close>

definition finished :: "('b, 'v, 'st) engine \<Rightarrow> ElectionID \<Rightarrow> bool" where
  "finished e eid =
     (case store_Election (store e) eid of
        Inl _ \<Rightarrow> False
      | Inr el \<Rightarrow> el_Status el = StatusCanceled \<or> el_Status el = StatusResults)"

definition dispatch_round ::
  "time \<Rightarrow> ('b, 'v, 'st) engine \<Rightarrow> scheduler \<Rightarrow> ElectionID \<Rightarrow> bool \<Rightarrow> gerror + unit \<Rightarrow> ('b, 'v, 'st) engine" where
  "dispatch_round now e sc eid stopping result =
     (if stopping then e
      else if finished e eid then
        e\<lparr>eng_retries := forget (eng_retries e) eid,
          sched := Some (forgetLocked (sc\<lparr>dispatchers := (dispatchers sc)(ElectionID_String eid := None)\<rparr>) eid)\<rparr>
      else (case result of
              Inl _ \<Rightarrow> e\<lparr>eng_retries := snd (failed now (eng_retries e) eid taskDispatch)\<rparr>
            | Inr _ \<Rightarrow> e\<lparr>eng_retries := succeeded (eng_retries e) eid taskDispatch\<rparr>))"

definition sched_Stop :: "scheduler \<Rightarrow> scheduler" where
  "sched_Stop sc = sc\<lparr>sc_stopped := True\<rparr>"

section \<open>Laws\<close>

lemma runtime_put [simp]:
  "runtime (put_runtime rt e) eid = (if eid = rt_id rt then Some rt else runtime e eid)"
  by (simp add: runtime_def put_runtime_def ElectionID_String_def)

lemma put_runtime_frame [simp]:
  "store (put_runtime rt e) = store e" "sched (put_runtime rt e) = sched e" "eng_retries (put_runtime rt e) = eng_retries e"
  by (simp_all add: put_runtime_def)

lemma runtime_store [simp]: "runtime (e\<lparr>store := s\<rparr>) = runtime e"
  by (simp add: fun_eq_iff runtime_def)

lemma notify_frame [simp]:
  "store (notify eid e) = store e" "runtimes (notify eid e) = runtimes e"
  by (simp_all add: notify_def split: option.splits)

lemma audit_frame [simp]:
  "runtimes (audit now e a b c eid) = runtimes e" "sched (audit now e a b c eid) = sched e"
  "draws (audit now e a b c eid) = draws e" "eng_retries (audit now e a b c eid) = eng_retries e"
  by (simp_all add: audit_def)

lemma audit_store_step: "store (audit now e a b c eid) = store_step (OpAppendAudit now
    \<lparr>au_Subject = a, au_Role = b, au_Action = c, au_ElectionID = eid, au_Timestamp = now\<rparr>) (store e)"
  by (simp add: audit_def)

end
