(* ===== verification/Seal.thy ===== *)
theory Seal
  imports Engine_State
begin

text \<open>
  Sealing (src/orchestrator/seal.go, and \<open>sealAllLocked\<close> of lifecycle.go and
  \<open>sealIfStale\<close> of engine.go). \<open>applyBatch\<close> is the source's double loop: apply the
  whole batch, and when the state refuses it find by bisection the shortest failing prefix,
  drop its last vote and try again. \<open>dropVote\<close> removes by pointer; here votes are values,
  and the votes of a pending buffer have distinct IDs, so removal by value is the same.
  The loops that seal until a condition holds are partial functions: \<open>None\<close> would be a
  loop that never ends. The clock is read once per operation.
\<close>

section \<open>The next batch\<close>

fun nextBatch_loop :: "int \<Rightarrow> Vote list \<Rightarrow> u64 set \<Rightarrow> Vote list \<Rightarrow> Vote list \<Rightarrow> Vote list \<times> Vote list" where
  "nextBatch_loop sz [] slots batch rest = (batch, rest)"
| "nextBatch_loop sz (v # vs) slots batch rest =
     (if v_Slot v \<in> slots \<or> int (length batch) = sz
      then nextBatch_loop sz vs slots batch (rest @ [v])
      else nextBatch_loop sz vs (insert (v_Slot v) slots) (batch @ [v]) rest)"

definition nextBatch :: "Vote list \<Rightarrow> int \<Rightarrow> Vote list \<times> Vote list" where
  "nextBatch pending sz = nextBatch_loop sz pending {} [] []"

section \<open>Applying a batch to the state\<close>

definition restoreState ::
  "('v, 'st) sdk \<Rightarrow> 'b storage \<Rightarrow> ('v, 'st) electionRuntime \<Rightarrow> (gerror + unit) \<times> ('v, 'st) electionRuntime" where
  "restoreState k s rt =
     (case store_Snapshot s (rt_id rt) of
        Inl er \<Rightarrow> (Inl (Detail ''load snapshot'' # er), rt)
      | Inr blob \<Rightarrow>
          (case RestoreState k (rt_cfg rt) blob of
             Inl er \<Rightarrow> (Inl (Detail ''restore state'' # er), rt)
           | Inr st \<Rightarrow> (Inr (), rt\<lparr>rt_state := st, rt_dirty := False\<rparr>)))"

definition tryApply ::
  "('v, 'st) sdk \<Rightarrow> nat \<Rightarrow> ('v, 'st) electionRuntime \<Rightarrow> 'v chainVote list
    \<Rightarrow> (gerror + 'v \<times> 'v) \<times> ('v, 'st) electionRuntime" where
  "tryApply k d rt batch =
     (let r = ApplyBatch k d (rt_state rt) batch in (fst r, rt\<lparr>rt_dirty := True, rt_state := snd r\<rparr>))"

function bisect ::
  "('v, 'st) sdk \<Rightarrow> 'b storage \<Rightarrow> 'v chainVote list \<Rightarrow> nat \<Rightarrow> nat \<Rightarrow> gerror \<Rightarrow> ('v, 'st) electionRuntime \<Rightarrow> nat
    \<Rightarrow> (gerror + nat \<times> gerror) \<times> ('v, 'st) electionRuntime \<times> nat" where
  "bisect k s batch lo hi err rt d =
     (if lo < hi then
        let mid = (lo + hi) div 2;
            t = tryApply k d rt (take mid batch);
            u = restoreState k s (snd t) in
        (case fst u of
           Inl er \<Rightarrow> (Inl er, snd u, d + 1)
         | Inr _ \<Rightarrow>
             (case fst t of
                Inl perr \<Rightarrow> bisect k s batch lo mid perr (snd u) (d + 1)
              | Inr _ \<Rightarrow> bisect k s batch (mid + 1) hi err (snd u) (d + 1)))
      else (Inr (hi, err), rt, d))"
  by pat_completeness auto
termination
  by (relation "measure (\<lambda>(k, s, batch, lo, hi, err, rt, d). hi - lo)") auto

declare bisect.simps [simp del]

lemma bisect_bounds:
  "fst (bisect k s batch lo hi err rt d) = Inr (n, e) \<Longrightarrow> lo \<le> hi \<Longrightarrow> lo \<le> n \<and> n \<le> hi"
proof (induction k s batch lo hi err rt d rule: bisect.induct)
  case (1 k s batch lo hi err rt d)
  show ?case
  proof (cases "lo < hi")
    case False
    with 1 show ?thesis by (simp add: bisect.simps[of k s batch lo hi])
  next
    case True
    define t where "t = tryApply k d rt (take ((lo + hi) div 2) batch)"
    define u where "u = restoreState k s (snd t)"
    have ok: "\<exists>x. fst u = Inr x"
      using "1.prems"(1) True by (auto simp: bisect.simps[of k s batch lo hi] t_def u_def Let_def split: sum.splits)
    note IH = "1.IH"[OF True refl refl refl, folded t_def, folded u_def]
    show ?thesis
    proof (cases "fst t")
      case (Inl perr)
      with ok True "1.prems"(1) have "fst (bisect k s batch lo ((lo + hi) div 2) perr (snd u) (d + 1)) = Inr (n, e)"
        by (auto simp: bisect.simps[of k s batch lo hi] t_def u_def Let_def)
      with IH(1)[OF _ Inl] ok True show ?thesis by fastforce
    next
      case (Inr x)
      with ok True "1.prems"(1) have "fst (bisect k s batch ((lo + hi) div 2 + 1) hi err (snd u) (d + 1)) = Inr (n, e)"
        by (auto simp: bisect.simps[of k s batch lo hi] t_def u_def Let_def)
      with IH(2)[OF _ Inr] ok True show ?thesis by fastforce
    qed
  qed
qed

function apply_loop ::
  "('v, 'st) sdk \<Rightarrow> 'b storage \<Rightarrow> 'v chainVote list \<Rightarrow> nat list \<Rightarrow> (nat \<rightharpoonup> gerror) \<Rightarrow> ('v, 'st) electionRuntime \<Rightarrow> nat
    \<Rightarrow> (gerror + ('v \<times> 'v) option \<times> (nat \<rightharpoonup> gerror)) \<times> ('v, 'st) electionRuntime \<times> nat" where
  "apply_loop k s votes idx refused rt d =
     (if idx = [] then (Inr (None, refused), rt, d)
      else
        let batch = map (\<lambda>j. votes ! j) idx;
            t = tryApply k d rt batch in
        (case fst t of
           Inr blocks \<Rightarrow> (Inr (Some blocks, refused), snd t, d + 1)
         | Inl err \<Rightarrow>
             let u = restoreState k s (snd t) in
             (case fst u of
                Inl er \<Rightarrow> (Inl er, snd u, d + 1)
              | Inr _ \<Rightarrow>
                  let b = bisect k s batch 1 (length batch) err (snd u) (d + 1) in
                  (case fst b of
                     Inl er \<Rightarrow> (Inl er, snd b)
                   | Inr (hi, err') \<Rightarrow>
                       apply_loop k s votes (take (hi - 1) idx @ drop hi idx) (refused(idx ! (hi - 1) \<mapsto> err'))
                         (fst (snd b)) (snd (snd b))))))"
  by pat_completeness auto
termination
proof (relation "measure (\<lambda>(k, s, votes, idx, refused, rt, d). length idx)", goal_cases)
  case (2 k s votes idx refused rt d batch t err u r b hi_err hi err')
  then have "1 \<le> hi \<and> hi \<le> length idx"
    using bisect_bounds[of k s batch 1 "length batch" err "snd u" "d + 1" hi err'] by (auto simp: Suc_le_eq)
  then show ?case by auto
qed simp

declare apply_loop.simps [simp del]

definition applyBatch ::
  "('v, 'st) sdk \<Rightarrow> 'b storage \<Rightarrow> ('v, 'st) electionRuntime \<Rightarrow> 'v chainVote list \<Rightarrow> nat
    \<Rightarrow> (gerror + ('v \<times> 'v) option \<times> (nat \<rightharpoonup> gerror)) \<times> ('v, 'st) electionRuntime \<times> nat" where
  "applyBatch k s rt votes d = apply_loop k s votes [0..<length votes] Map.empty rt d"

section \<open>Sealing a batch\<close>

definition dropVote ::
  "('b, 'v, 'st) engine \<Rightarrow> ('v, 'st) electionRuntime \<Rightarrow> Vote \<Rightarrow> ('b, 'v, 'st) engine \<times> ('v, 'st) electionRuntime" where
  "dropVote e rt v =
     (e\<lparr>store := snd (SetVoteStatus (store e) (rt_id rt) (v_ID v) VoteStatusError)\<rparr>,
      rt\<lparr>rt_pending := filter (\<lambda>p. p \<noteq> v) (rt_pending rt)\<rparr>)"

text \<open>The votes of the batch with their decoded ballots and payloads; the others are dropped.\<close>

fun decodeVotes ::
  "('v, 'st) sdk \<Rightarrow> Vote list \<Rightarrow> ('b, 'v, 'st) engine \<Rightarrow> ('v, 'st) electionRuntime
    \<Rightarrow> (Vote \<times> 'v chainVote \<times> voteProofBundle) list \<times> ('b, 'v, 'st) engine \<times> ('v, 'st) electionRuntime" where
  "decodeVotes k [] e rt = ([], e, rt)"
| "decodeVotes k (v # vs) e rt =
     (case DeserializeBallot k (EncKey (rt_cfg rt)) (v_Ballot v) of
        Inl _ \<Rightarrow> decodeVotes k vs (fst (dropVote e rt v)) (snd (dropVote e rt v))
      | Inr ballot \<Rightarrow>
          (case parse_bundle k (v_Payload v) of
             None \<Rightarrow> decodeVotes k vs (fst (dropVote e rt v)) (snd (dropVote e rt v))
           | Some bundle \<Rightarrow>
               let r = decodeVotes k vs e rt in
               ((v, \<lparr>cv_Slot = v_Slot v, cv_VoteID = v_VoteIDKey v, cv_Ballot = ballot\<rparr>, bundle) # fst r, snd r)))"

fun dropRefused ::
  "(nat \<rightharpoonup> gerror) \<Rightarrow> nat \<Rightarrow> (Vote \<times> 'v chainVote \<times> voteProofBundle) list \<Rightarrow> ('b, 'v, 'st) engine
    \<Rightarrow> ('v, 'st) electionRuntime
    \<Rightarrow> (Vote \<times> 'v chainVote \<times> voteProofBundle) list \<times> ('b, 'v, 'st) engine \<times> ('v, 'st) electionRuntime" where
  "dropRefused refused i [] e rt = ([], e, rt)"
| "dropRefused refused i (x # xs) e rt =
     (case refused i of
        Some _ \<Rightarrow> dropRefused refused (i + 1) xs (fst (dropVote e rt (fst x))) (snd (dropVote e rt (fst x)))
      | None \<Rightarrow> let r = dropRefused refused (i + 1) xs e rt in (x # fst r, snd r))"

definition proveRequest :: "bytes \<Rightarrow> ('v \<times> 'v) option \<Rightarrow> (Vote \<times> 'v chainVote \<times> voteProofBundle) list \<Rightarrow> 'v ProveRequest" where
  "proveRequest vk blocks sealed =
     \<lparr>pr_VK = vk, pr_Output = ''stark'', pr_State = fst (the blocks), pr_Reencryption = snd (the blocks),
      pr_Proofs = map (\<lambda>x. b_Proof (snd (snd x))) sealed, pr_PublicInputs = map (\<lambda>x. b_PublicInputs (snd (snd x))) sealed,
      pr_Sigs = map (\<lambda>x. b_Sig (snd (snd x))) sealed, pr_CensusProofs = map (\<lambda>x. b_Census (snd (snd x))) sealed\<rparr>"

text \<open>The last part of \<open>sealLocked\<close>: the batch as persisted, once its votes are known.\<close>

definition persistBatch ::
  "('v, 'st) sdk \<Rightarrow> time \<Rightarrow> Election \<Rightarrow> ('v \<times> 'v) option \<Rightarrow> (Vote \<times> 'v chainVote \<times> voteProofBundle) list \<Rightarrow> Vote list
    \<Rightarrow> ('b, 'v, 'st) engine \<Rightarrow> ('v, 'st) electionRuntime
    \<Rightarrow> (gerror + unit) \<times> ('b, 'v, 'st) engine \<times> ('v, 'st) electionRuntime" where
  "persistBatch k now el blocks sealed rest e rt =
     (case print_request k (proveRequest (cfg_VK (el_Config el)) blocks sealed) of
        Inl er \<Rightarrow> (Inl (Detail ''marshal prove request'' # er), e, rt)
      | Inr reqBytes \<Rightarrow>
          (case Snapshot k (rt_state rt) of
             Inl er \<Rightarrow> (Inl (Detail ''snapshot'' # er), e, rt)
           | Inr snapshot \<Rightarrow>
               (case SealBatch now (store e)
                  \<lparr>bi_ElectionID = rt_id rt, bi_Seq = rt_batchSeq rt, bi_ProveRequest = reqBytes,
                   bi_NewStateRoot = Root k (rt_state rt), bi_VoteIDs = map (\<lambda>x. v_ID (fst x)) sealed, bi_Worker = [],
                   bi_JobID = [], bi_ImportedID = [], bi_FoldWorker = [], bi_SealedAt = now\<rparr> snapshot of
                  (Inl er, s) \<Rightarrow> (Inl (Detail ''persist batch'' # er), e\<lparr>store := s\<rparr>, rt)
                | (Inr _, s) \<Rightarrow>
                    (Inr (),
                     notify (rt_id rt) (audit now (e\<lparr>store := s\<rparr>) ''system'' ''system'' ''seal_batch'' (rt_id rt)),
                     rt\<lparr>rt_dirty := False, rt_pending := rest, rt_batchSeq := rt_batchSeq rt + 1\<rparr>))))"

text \<open>\<open>sealLocked\<close> on a state that agrees with the snapshot and a batch that is not empty.\<close>

definition sealBatch_of ::
  "('v, 'st) sdk \<Rightarrow> time \<Rightarrow> Vote list \<Rightarrow> Vote list \<Rightarrow> ('b, 'v, 'st) engine \<Rightarrow> ('v, 'st) electionRuntime
    \<Rightarrow> (gerror + unit) \<times> ('b, 'v, 'st) engine \<times> ('v, 'st) electionRuntime" where
  "sealBatch_of k now batch rest e rt =
     (case store_Election (store e) (rt_id rt) of
        Inl er \<Rightarrow> (Inl (Detail ''load election'' # er), e, rt)
      | Inr el \<Rightarrow>
          let (dec, e1, rt1) = decodeVotes k batch e rt;
              (res, rt2, d) = applyBatch k (store e1) rt1 (map (\<lambda>x. fst (snd x)) dec) (draws e1);
              e2 = e1\<lparr>draws := d\<rparr> in
          (case res of
             Inl er \<Rightarrow> (Inl er, e2, rt2)
           | Inr (blocks, refused) \<Rightarrow>
               let (sealed, e3, rt3) = dropRefused refused 0 dec e2 rt2 in
               if sealed = [] then (Inr (), e3, rt3\<lparr>rt_pending := rest\<rparr>)
               else persistBatch k now el blocks sealed rest e3 rt3))"

definition sealLocked ::
  "('v, 'st) sdk \<Rightarrow> time \<Rightarrow> ('b, 'v, 'st) engine \<Rightarrow> ('v, 'st) electionRuntime
    \<Rightarrow> (gerror + unit) \<times> ('b, 'v, 'st) engine \<times> ('v, 'st) electionRuntime" where
  "sealLocked k now e rt =
     (let r = (if rt_dirty rt then restoreState k (store e) rt else (Inr (), rt));
          rt1 = snd r in
      case fst r of
        Inl er \<Rightarrow> (Inl er, e, rt1)
      | Inr _ \<Rightarrow>
          let (batch, rest) = nextBatch (rt_pending rt1) (rt_batchSize rt1) in
          if batch = [] then (Inr (), e, rt1)
          else sealBatch_of k now batch rest e rt1)"

section \<open>Sealing loops\<close>

partial_function (option) seal_while ::
  "(('v, 'st) electionRuntime \<Rightarrow> bool) \<Rightarrow> ('v, 'st) sdk \<Rightarrow> time \<Rightarrow> ('b, 'v, 'st) engine \<Rightarrow> ('v, 'st) electionRuntime
    \<Rightarrow> ((gerror + unit) \<times> ('b, 'v, 'st) engine \<times> ('v, 'st) electionRuntime) option" where
  "seal_while go k now e rt =
     (if go rt then
        (case sealLocked k now e rt of
           (Inl er, e', rt') \<Rightarrow> Some (Inl er, e', rt')
         | (Inr _, e', rt') \<Rightarrow> seal_while go k now e' rt')
      else Some (Inr (), e, rt))"

definition sealFullLocked ::
  "('v, 'st) sdk \<Rightarrow> time \<Rightarrow> ('b, 'v, 'st) engine \<Rightarrow> ('v, 'st) electionRuntime
    \<Rightarrow> ((gerror + unit) \<times> ('b, 'v, 'st) engine \<times> ('v, 'st) electionRuntime) option" where
  "sealFullLocked k now e rt =
     seal_while (\<lambda>rt. \<not> int (length (fst (nextBatch (rt_pending rt) (rt_batchSize rt)))) < rt_batchSize rt) k now e rt"

definition sealAllLocked ::
  "('v, 'st) sdk \<Rightarrow> time \<Rightarrow> ('b, 'v, 'st) engine \<Rightarrow> ('v, 'st) electionRuntime
    \<Rightarrow> ((gerror + unit) \<times> ('b, 'v, 'st) engine \<times> ('v, 'st) electionRuntime) option" where
  "sealAllLocked k now e rt = seal_while (\<lambda>rt. rt_pending rt \<noteq> []) k now e rt"

definition sealIfStale ::
  "('v, 'st) sdk \<Rightarrow> time \<Rightarrow> ('b, 'v, 'st) engine \<Rightarrow> ('v, 'st) electionRuntime
    \<Rightarrow> ((gerror + unit) \<times> ('b, 'v, 'st) engine \<times> ('v, 'st) electionRuntime) option" where
  "sealIfStale k now e rt =
     seal_while (\<lambda>rt. rt_pending rt \<noteq> [] \<and> now - v_SubmittedAt (hd (rt_pending rt)) \<ge> window e) k now e rt"

end
