(* ===== verification/Seal_Laws.thy ===== *)
theory Seal_Laws
  imports Seal "HOL-Library.Multiset"
begin

text \<open>
  What sealing guarantees: the batch is a maximal prefix-ordered choice with one vote per
  ballot slot, the bisection of \<open>applyBatch\<close> refuses exactly the votes a one-by-one
  application would refuse, the sealing loops end, no vote is lost, and the persisted
  snapshot always is the state after the last sealed batch.
\<close>

section \<open>The next batch\<close>

abbreviation of_slot :: "u64 \<Rightarrow> Vote list \<Rightarrow> Vote list" where
  "of_slot x vs \<equiv> filter (\<lambda>v. v_Slot v = x) vs"

lemma nextBatch_loop_slots:
  assumes "nextBatch_loop sz vs slots batch rest = (b, r)"
  shows "of_slot x b @ of_slot x r = of_slot x batch @ of_slot x rest @ of_slot x vs
    \<or> of_slot x rest \<noteq> [] \<and> \<not> (x \<in> slots \<or> int (length batch) = sz)"
  using assms
proof (induction sz vs slots batch rest rule: nextBatch_loop.induct)
  case (1 sz slots batch rest)
  then show ?case by simp
next
  case (2 sz v vs slots batch rest)
  show ?case
  proof (cases "v_Slot v \<in> slots \<or> int (length batch) = sz")
    case True
    with 2 have r: "nextBatch_loop sz vs slots batch (rest @ [v]) = (b, r)" by simp
    from 2 True have IH: "of_slot x b @ of_slot x r = of_slot x batch @ of_slot x (rest @ [v]) @ of_slot x vs
        \<or> of_slot x (rest @ [v]) \<noteq> [] \<and> \<not> (x \<in> slots \<or> int (length batch) = sz)" by simp
    show ?thesis
    proof (cases "v_Slot v = x")
      case t: True
      with True have "x \<in> slots \<or> int (length batch) = sz" by simp
      with IH t show ?thesis by simp
    next
      case False
      with IH show ?thesis by auto
    qed
  next
    case False
    with 2 have IH: "of_slot x b @ of_slot x r = of_slot x (batch @ [v]) @ of_slot x rest @ of_slot x vs
        \<or> of_slot x rest \<noteq> [] \<and> \<not> (x \<in> insert (v_Slot v) slots \<or> int (length (batch @ [v])) = sz)" by simp
    show ?thesis using IH False by (cases "of_slot x rest = []"; cases "v_Slot v = x") auto
  qed
qed

lemma nextBatch_loop_shape:
  assumes "nextBatch_loop sz vs slots batch rest = (b, r)" and "slots = set (map v_Slot batch)"
    and "distinct (map v_Slot batch)" and "int (length batch) \<le> sz"
  shows "\<exists>b' r'. b = batch @ b' \<and> r = rest @ r' \<and> subseq b' vs \<and> subseq r' vs \<and> mset b' + mset r' = mset vs \<and>
    distinct (map v_Slot b) \<and> int (length b) \<le> sz \<and>
    (int (length b) < sz \<longrightarrow> set (map v_Slot b) = slots \<union> set (map v_Slot vs))"
  using assms
proof (induction sz vs slots batch rest rule: nextBatch_loop.induct)
  case (1 sz slots batch rest)
  then show ?case by auto
next
  case (2 sz v vs slots batch rest)
  show ?case
  proof (cases "v_Slot v \<in> slots \<or> int (length batch) = sz")
    case True
    with "2.prems" have "nextBatch_loop sz vs slots batch (rest @ [v]) = (b, r)" by simp
    from "2.IH"(1)[OF True this "2.prems"(2-4)] obtain b' r' where
        ih: "b = batch @ b'" "r = (rest @ [v]) @ r'" "subseq b' vs" "subseq r' vs"
        "mset b' + mset r' = mset vs" "distinct (map v_Slot b)" "int (length b) \<le> sz"
        "int (length b) < sz \<longrightarrow> set (map v_Slot b) = slots \<union> set (map v_Slot vs)"
      by blast
    show ?thesis
    proof (intro exI conjI)
      show "b = batch @ b'" "r = rest @ (v # r')" using ih by auto
      show "subseq b' (v # vs)" "subseq (v # r') (v # vs)" using ih by (auto intro: subseq_Cons')
      show "mset b' + mset (v # r') = mset (v # vs)" using ih by simp
      show "distinct (map v_Slot b)" "int (length b) \<le> sz" using ih by auto
      show "int (length b) < sz \<longrightarrow> set (map v_Slot b) = slots \<union> set (map v_Slot (v # vs))"
        using ih True by auto
    qed
  next
    case False
    with "2.prems" have pre: "nextBatch_loop sz vs (insert (v_Slot v) slots) (batch @ [v]) rest = (b, r)"
      "insert (v_Slot v) slots = set (map v_Slot (batch @ [v]))" "distinct (map v_Slot (batch @ [v]))"
      "int (length (batch @ [v])) \<le> sz" by auto
    from "2.IH"(2)[OF False pre] obtain b' r' where ih: "b = (batch @ [v]) @ b'" "r = rest @ r'" "subseq b' vs" "subseq r' vs"
        "mset b' + mset r' = mset vs" "distinct (map v_Slot b)" "int (length b) \<le> sz"
        "int (length b) < sz \<longrightarrow> set (map v_Slot b) = insert (v_Slot v) slots \<union> set (map v_Slot vs)"
      by blast
    show ?thesis
    proof (intro exI conjI)
      show "b = batch @ (v # b')" "r = rest @ r'" using ih by auto
      show "subseq (v # b') (v # vs)" "subseq r' (v # vs)" using ih by (auto intro: subseq_Cons')
      show "mset (v # b') + mset r' = mset (v # vs)" using ih by simp
      show "distinct (map v_Slot b)" "int (length b) \<le> sz" using ih by auto
      show "int (length b) < sz \<longrightarrow> set (map v_Slot b) = slots \<union> set (map v_Slot (v # vs))"
        using ih by auto
    qed
  qed
qed

lemma nextBatch_shape:
  assumes "nextBatch pending sz = (b, r)" and "0 \<le> sz"
  shows "subseq b pending" and "subseq r pending" and "mset b + mset r = mset pending" and "distinct (map v_Slot b)"
    and "int (length b) \<le> sz" and "int (length b) < sz \<longrightarrow> set (map v_Slot b) = set (map v_Slot pending)"
    and "of_slot x b @ of_slot x r = of_slot x pending"
  using nextBatch_loop_shape[of sz pending "{}" "[]" "[]" b r] nextBatch_loop_slots[of sz pending "{}" "[]" "[]" b r x]
    assms by (auto simp: nextBatch_def)

lemma nextBatch_progress:
  assumes "nextBatch pending sz = (b, r)" and "1 \<le> sz" and "pending \<noteq> []"
  shows "b \<noteq> []" and "length r < length pending"
proof -
  note shape = nextBatch_shape[OF assms(1)]
  show "b \<noteq> []" using shape(6) assms(2,3) by (cases "b = []") auto
  moreover have "length b + length r = length pending"
    using shape(3) assms(2) by (metis size_mset size_union zero_le_one order_trans)
  ultimately show "length r < length pending" by (cases b) auto
qed

section \<open>Refusing votes\<close>

text \<open>
  The reference: go through the votes once, keep each that the state accepts after the ones
  kept so far.
\<close>

fun keepAccepted :: "('a list \<Rightarrow> bool) \<Rightarrow> 'a list \<Rightarrow> 'a list \<Rightarrow> 'a list" where
  "keepAccepted ok kept [] = kept"
| "keepAccepted ok kept (x # xs) =
     (if ok (kept @ [x]) then keepAccepted ok (kept @ [x]) xs else keepAccepted ok kept xs)"

locale refusal =
  fixes ok :: "'a list \<Rightarrow> bool"
  assumes ok_Nil: "ok []"
    and ok_prefix: "ok (xs @ ys) \<Longrightarrow> ok xs"
begin

lemma ok_take: "ok xs \<Longrightarrow> ok (take n xs)"
  using ok_prefix[of "take n xs" "drop n xs"] by simp

lemma keep_all: "ok (kept @ xs) \<Longrightarrow> keepAccepted ok kept xs = kept @ xs"
proof (induction xs arbitrary: kept)
  case (Cons x xs)
  then have "ok ((kept @ [x]) @ xs)" by simp
  moreover from ok_prefix[OF this] have "ok (kept @ [x])" .
  ultimately show ?case using Cons.IH[of "kept @ [x]"] by simp
qed simp

lemma keep_append: "keepAccepted ok kept (xs @ ys) = keepAccepted ok (keepAccepted ok kept xs) ys"
  by (induction xs arbitrary: kept) auto

lemma keep_drop:
  assumes "ok xs" and "\<not> ok (xs @ [x])"
  shows "keepAccepted ok [] (xs @ x # ys) = keepAccepted ok [] (xs @ ys)"
  using assms keep_all[of "[]" xs] by (simp add: keep_append)

lemma keep_ok: "ok kept \<Longrightarrow> ok (keepAccepted ok kept xs)"
  by (induction xs arbitrary: kept) auto

lemma keep_set: "set (keepAccepted ok kept xs) \<subseteq> set kept \<union> set xs"
proof (induction xs arbitrary: kept)
  case (Cons x xs)
  from Cons.IH[of "kept @ [x]"] Cons.IH[of kept] show ?case by auto
qed simp

end

text \<open>
  The state accepts a batch when it accepts every prefix of it. \<open>applies_in_order\<close> is what
  \<open>applyBatch\<close> relies on of \<open>ApplyBatch\<close>, in the source's words: it applies the votes
  in order, so once a prefix fails every longer one does; and whether it fails does not
  depend on the randomness it draws.
\<close>

definition accepts :: "('v, 'st) sdk \<Rightarrow> 'st \<Rightarrow> 'v chainVote list \<Rightarrow> bool" where
  "accepts k st vs \<longleftrightarrow> (\<forall>n \<le> length vs. 0 < n \<longrightarrow> isOk (fst (ApplyBatch k 0 st (take n vs))))"

definition applies_in_order :: "('v, 'st) sdk \<Rightarrow> bool" where
  "applies_in_order k \<longleftrightarrow> (\<forall>d st vs. vs \<noteq> [] \<longrightarrow> isOk (fst (ApplyBatch k d st vs)) = accepts k st vs)"

lemma accepts_Nil [simp]: "accepts k st []"
  by (simp add: accepts_def)

lemma accepts_prefix: "accepts k st (xs @ ys) \<Longrightarrow> accepts k st xs"
proof -
  assume a: "accepts k st (xs @ ys)"
  show ?thesis unfolding accepts_def
  proof (intro allI impI)
    fix n assume "n \<le> length xs" "0 < n"
    with a have "isOk (fst (ApplyBatch k 0 st (take n (xs @ ys))))" by (simp add: accepts_def del: take_append)
    with \<open>n \<le> length xs\<close> show "isOk (fst (ApplyBatch k 0 st (take n xs)))" by simp
  qed
qed

definition accepts_at :: "('v, 'st) sdk \<Rightarrow> 'st \<Rightarrow> 'v chainVote list \<Rightarrow> nat list \<Rightarrow> bool" where
  "accepts_at k st votes idx = accepts k st (map (\<lambda>j. votes ! j) idx)"

interpretation positions: refusal "accepts_at k st votes" for k st votes
proof
  show "accepts_at k st votes []" by (simp add: accepts_at_def accepts_def)
  show "accepts_at k st votes (xs @ ys) \<Longrightarrow> accepts_at k st votes xs" for xs ys
    by (auto simp: accepts_at_def intro: accepts_prefix)
qed

section \<open>The runtime's state and its snapshot\<close>

definition synced :: "('v, 'st) sdk \<Rightarrow> 'b storage \<Rightarrow> ('v, 'st) electionRuntime \<Rightarrow> bool" where
  "synced k s rt \<longleftrightarrow>
     (\<exists>blob. store_Snapshot s (rt_id rt) = Inr blob \<and> RestoreState k (rt_cfg rt) blob = Inr (rt_state rt))"

lemma restore_synced:
  assumes "synced k s rt" and "\<not> rt_dirty rt"
  shows "restoreState k s (rt\<lparr>rt_dirty := dt, rt_state := st\<rparr>) = (Inr (), rt)"
  using assms by (auto simp: synced_def restoreState_def)

lemma tryApply_restore:
  assumes "synced k s rt" and "\<not> rt_dirty rt"
  shows "restoreState k s (snd (tryApply k d rt batch)) = (Inr (), rt)"
  using restore_synced[OF assms] by (simp add: tryApply_def Let_def)

lemma tryApply_ok:
  "applies_in_order k \<Longrightarrow> batch \<noteq> [] \<Longrightarrow> isl (fst (tryApply k d rt batch)) \<longleftrightarrow> \<not> accepts k (rt_state rt) batch"
  by (auto simp: applies_in_order_def tryApply_def Let_def)

lemma bisect_step:
  assumes "synced k s rt" and "\<not> rt_dirty rt" and "lo < hi"
  shows "bisect k s batch lo hi err rt d =
    (let mid = (lo + hi) div 2 in
     case fst (tryApply k d rt (take mid batch)) of
       Inl perr \<Rightarrow> bisect k s batch lo mid perr rt (d + 1)
     | Inr _ \<Rightarrow> bisect k s batch (mid + 1) hi err rt (d + 1))"
  using assms by (simp add: bisect.simps[of k s batch lo hi] tryApply_restore Let_def split: sum.split)

lemma bisect_finds:
  assumes "applies_in_order k" and "synced k s rt" and "\<not> rt_dirty rt"
    and "1 \<le> lo" and "lo \<le> hi" and "hi \<le> length batch"
    and "accepts k (rt_state rt) (take (lo - 1) batch)" and "\<not> accepts k (rt_state rt) (take hi batch)"
  shows "\<exists>n er d'. bisect k s batch lo hi err rt d = (Inr (n, er), rt, d') \<and> 1 \<le> n \<and> n \<le> length batch \<and>
    accepts k (rt_state rt) (take (n - 1) batch) \<and> \<not> accepts k (rt_state rt) (take n batch)"
  using assms(4-)
proof (induction "hi - lo" arbitrary: lo hi err d rule: less_induct)
  case less
  show ?case
  proof (cases "lo < hi")
    case False
    with less.prems have "lo = hi" by simp
    with less.prems show ?thesis by (simp add: bisect.simps[of k s batch hi hi])
  next
    case True
    define mid where "mid = (lo + hi) div 2"
    have mid: "lo \<le> mid" "mid < hi" using True by (auto simp: mid_def)
    have ne: "take mid batch \<noteq> []" using mid less.prems by auto
    show ?thesis
    proof (cases "fst (tryApply k d rt (take mid batch))")
      case (Inl perr)
      then have "\<not> accepts k (rt_state rt) (take mid batch)" using tryApply_ok[OF assms(1) ne, of d rt] by simp
      with less.hyps[of mid lo perr "d + 1"] less.prems mid show ?thesis
        by (simp add: bisect_step[OF assms(2,3) True] Inl Let_def flip: mid_def)
    next
      case (Inr x)
      then have "accepts k (rt_state rt) (take mid batch)" using tryApply_ok[OF assms(1) ne, of d rt] by auto
      with less.hyps[of hi "mid + 1" err "d + 1"] less.prems mid show ?thesis
        by (simp add: bisect_step[OF assms(2,3) True] Inr Let_def flip: mid_def)
    qed
  qed
qed

text \<open>What \<open>applyBatch\<close> leaves when it kept the votes at the positions \<open>kept\<close>.\<close>

definition applied ::
  "('v, 'st) sdk \<Rightarrow> ('v, 'st) electionRuntime \<Rightarrow> 'v chainVote list \<Rightarrow> nat list \<Rightarrow> ('v \<times> 'v) option
    \<Rightarrow> ('v, 'st) electionRuntime \<Rightarrow> bool" where
  "applied k rt votes kept blocks rt' \<longleftrightarrow>
     (if kept = [] then blocks = None \<and> rt' = rt
      else \<exists>d bl st. ApplyBatch k d (rt_state rt) (map (\<lambda>j. votes ! j) kept) = (Inr bl, st) \<and>
             blocks = Some bl \<and> rt' = rt\<lparr>rt_dirty := True, rt_state := st\<rparr>)"

lemma apply_loop_accepts:
  assumes order: "applies_in_order k" and "idx \<noteq> []" and "fst (tryApply k d rt (map (\<lambda>j. votes ! j) idx)) = Inr bl"
  shows "keepAccepted (accepts_at k (rt_state rt) votes) [] idx = idx"
    "apply_loop k s votes idx refused rt d = (Inr (Some bl, refused), snd (tryApply k d rt (map (\<lambda>j. votes ! j) idx)), d + 1)"
    "applied k rt votes idx (Some bl) (snd (tryApply k d rt (map (\<lambda>j. votes ! j) idx)))"
proof -
  define batch where "batch = map (\<lambda>j. votes ! j) idx"
  have Inr: "fst (tryApply k d rt batch) = Inr bl" and bne: "batch \<noteq> []" using assms(2,3) by (simp_all add: batch_def)
  have "accepts_at k (rt_state rt) votes idx" using tryApply_ok[OF order bne, of d rt] Inr by (auto simp: accepts_at_def batch_def)
  then show "keepAccepted (accepts_at k (rt_state rt) votes) [] idx = idx"
    using positions.keep_all[of k "rt_state rt" votes "[]" idx] by simp
  show "apply_loop k s votes idx refused rt d = (Inr (Some bl, refused), snd (tryApply k d rt (map (\<lambda>j. votes ! j) idx)), d + 1)"
    using assms(2) Inr by (simp add: apply_loop.simps[of k s votes idx] batch_def[symmetric] Let_def)
  have "ApplyBatch k d (rt_state rt) batch = (Inr bl, snd (ApplyBatch k d (rt_state rt) batch))"
    using Inr by (simp add: tryApply_def Let_def prod_eq_iff)
  then show "applied k rt votes idx (Some bl) (snd (tryApply k d rt (map (\<lambda>j. votes ! j) idx)))"
    unfolding applied_def if_not_P[OF assms(2)] batch_def[symmetric]
    by (intro exI[of _ d] exI[of _ bl] exI[of _ "snd (ApplyBatch k d (rt_state rt) batch)"])
      (simp add: tryApply_def Let_def)
qed

lemma apply_loop_refuses:
  assumes order: "applies_in_order k" and sync: "synced k s rt" "\<not> rt_dirty rt" and ne: "idx \<noteq> []"
    and err: "fst (tryApply k d rt (map (\<lambda>j. votes ! j) idx)) = Inl err"
  obtains xs x ys er d' where "idx = xs @ x # ys"
    "keepAccepted (accepts_at k (rt_state rt) votes) [] idx = keepAccepted (accepts_at k (rt_state rt) votes) [] (xs @ ys)"
    "apply_loop k s votes idx refused rt d = apply_loop k s votes (xs @ ys) (refused(x \<mapsto> er)) rt d'"
proof -
  let ?ok = "accepts_at k (rt_state rt) votes"
  define batch where "batch = map (\<lambda>j. votes ! j) idx"
  have bne: "batch \<noteq> []" and blen: "length batch = length idx" and Inl: "fst (tryApply k d rt batch) = Inl err"
    using ne err by (simp_all add: batch_def)
  then have nok: "\<not> accepts k (rt_state rt) batch" using tryApply_ok[OF order bne, of d rt] by simp
  obtain n er d' where bis: "bisect k s batch 1 (length batch) err rt (d + 1) = (Inr (n, er), rt, d')"
    and n: "1 \<le> n" "n \<le> length idx" "accepts k (rt_state rt) (take (n - 1) batch)"
      "\<not> accepts k (rt_state rt) (take n batch)"
    using bisect_finds[OF order sync, of 1 "length batch" batch err "d + 1"] bne nok blen ne
    by (auto simp: Suc_le_eq)
  define xs x ys where "xs = take (n - 1) idx" and "x = idx ! (n - 1)" and "ys = drop n idx"
  have idx: "idx = xs @ x # ys"
    using n(1,2) id_take_nth_drop[of "n - 1" idx] by (simp add: xs_def x_def ys_def)
  have take_n: "take n idx = xs @ [x]"
    using n(1,2) take_Suc_conv_app_nth[of "n - 1" idx] by (simp add: xs_def x_def)
  have "?ok xs" using n(3) by (simp add: accepts_at_def batch_def take_map xs_def)
  moreover have "\<not> ?ok (xs @ [x])"
    using n(4) unfolding take_n[symmetric] by (simp add: accepts_at_def batch_def take_map)
  ultimately have keep: "keepAccepted ?ok [] idx = keepAccepted ?ok [] (xs @ ys)"
    unfolding idx by (rule positions.keep_drop)
  have "apply_loop k s votes idx refused rt d = apply_loop k s votes (xs @ ys) (refused(x \<mapsto> er)) rt d'"
    using ne Inl bis tryApply_restore[OF sync, of d batch]
    by (simp add: apply_loop.simps[of k s votes idx] batch_def[symmetric] Let_def xs_def x_def ys_def)
  with idx keep show ?thesis by (rule that)
qed

lemma apply_loop_keeps:
  assumes "applies_in_order k" and "synced k s rt" and "\<not> rt_dirty rt" and "distinct idx"
  shows "\<exists>blocks refused' rt' d'. apply_loop k s votes idx refused rt d = (Inr (blocks, refused'), rt', d') \<and>
    dom refused' = dom refused \<union> (set idx - set (keepAccepted (accepts_at k (rt_state rt) votes) [] idx)) \<and>
    applied k rt votes (keepAccepted (accepts_at k (rt_state rt) votes) [] idx) blocks rt'"
  using assms(4)
proof (induction "length idx" arbitrary: idx refused d rule: less_induct)
  case less
  let ?ok = "accepts_at k (rt_state rt) votes"
  show ?case
  proof (cases "idx = []")
    case True
    then show ?thesis by (simp add: apply_loop.simps applied_def)
  next
    case False
    show ?thesis
    proof (cases "fst (tryApply k d rt (map (\<lambda>j. votes ! j) idx))")
      case (Inr bl)
      note A = apply_loop_accepts[OF assms(1) False Inr]
      show ?thesis using A(1,3) A(2)[of s refused] by auto
    next
      case (Inl err)
      obtain xs x ys er d' where idx: "idx = xs @ x # ys" and keep: "keepAccepted ?ok [] idx = keepAccepted ?ok [] (xs @ ys)"
        and loop: "apply_loop k s votes idx refused rt d = apply_loop k s votes (xs @ ys) (refused(x \<mapsto> er)) rt d'"
        using apply_loop_refuses[OF assms(1-3) False Inl] .
      have dist: "distinct (xs @ ys)" and xnot: "x \<notin> set (xs @ ys)" and len: "length (xs @ ys) < length idx"
        using less.prems idx by auto
      have "x \<notin> set (keepAccepted ?ok [] (xs @ ys))"
        using xnot positions.keep_set[of k "rt_state rt" votes "[]" "xs @ ys"] by auto
      with less.hyps[OF len dist, of "refused(x \<mapsto> er)" d'] show ?thesis
        unfolding loop keep by (auto simp: idx)
    qed
  qed
qed

lemma applyBatch_keeps:
  assumes "applies_in_order k" and "synced k s rt" and "\<not> rt_dirty rt"
  shows "\<exists>blocks refused rt' d'. applyBatch k s rt votes d = (Inr (blocks, refused), rt', d') \<and>
    dom refused = {..<length votes} - set (keepAccepted (accepts_at k (rt_state rt) votes) [] [0..<length votes]) \<and>
    applied k rt votes (keepAccepted (accepts_at k (rt_state rt) votes) [] [0..<length votes]) blocks rt'"
  using apply_loop_keeps[OF assms, of "[0..<length votes]" votes Map.empty d]
  by (auto simp: applyBatch_def atLeast0LessThan)

section \<open>Operations that only touch statuses and the audit trail\<close>

text \<open>
  From \<open>s\<close> to \<open>t\<close> only the status of the votes \<open>V\<close> of one election changed, and only
  to error, beside the audit trail; without write failures every pending vote of \<open>V\<close> is
  marked.
\<close>

definition quiet :: "ElectionID \<Rightarrow> VoteID set \<Rightarrow> 'b storage \<Rightarrow> 'b storage \<Rightarrow> bool" where
  "quiet eid V s t \<longleftrightarrow>
     (storage_wf s \<longrightarrow> storage_wf t \<and> votes_forward s t \<and>
        (\<forall>k. (\<forall>v \<in> V. k \<noteq> VoteStatusK eid v) \<and> (\<forall>a. k \<noteq> AuditK a) \<longrightarrow> artifact_at t k = artifact_at s k) \<and>
        (\<forall>v \<in> V. status_at t eid v = status_at s eid v \<or> status_at t eid v = Some VoteStatusError) \<and>
        (faults s = [] \<longrightarrow> faults t = [] \<and>
           (\<forall>v \<in> V. status_at s eid v = Some VoteStatusPending \<longrightarrow> status_at t eid v = Some VoteStatusError)))"

lemma quiet_wf: "quiet eid V s t \<Longrightarrow> storage_wf s \<Longrightarrow> storage_wf t"
  by (simp add: quiet_def)

lemma quiet_at:
  "quiet eid V s t \<Longrightarrow> storage_wf s \<Longrightarrow> (\<And>v. v \<in> V \<Longrightarrow> k \<noteq> VoteStatusK eid v) \<Longrightarrow> (\<And>a. k \<noteq> AuditK a) \<Longrightarrow>
   artifact_at t k = artifact_at s k"
  by (simp add: quiet_def)

lemma quiet_refl: "quiet eid {} s s"
  by (simp add: quiet_def votes_forward_refl)

lemma quiet_trans:
  assumes "quiet eid V s t" and "quiet eid W t u"
  shows "quiet eid (V \<union> W) s u"
  unfolding quiet_def
proof (intro impI)
  assume wf: "storage_wf s"
  then have wft: "storage_wf t" using quiet_wf[OF assms(1)] by simp
  have st: "v \<notin> V \<Longrightarrow> status_at t eid v = status_at s eid v" "v \<notin> W \<Longrightarrow> status_at u eid v = status_at t eid v" for v
    using quiet_at[OF assms(1) wf, of "VoteStatusK eid v"] quiet_at[OF assms(2) wft, of "VoteStatusK eid v"] by fastforce+
  have V: "v \<in> V \<Longrightarrow> status_at t eid v = status_at s eid v \<or> status_at t eid v = Some VoteStatusError"
    and W: "v \<in> W \<Longrightarrow> status_at u eid v = status_at t eid v \<or> status_at u eid v = Some VoteStatusError" for v
    using assms wf wft unfolding quiet_def by blast+
  have k: "artifact_at u k = artifact_at s k"
    if "\<forall>v \<in> V \<union> W. k \<noteq> VoteStatusK eid v" "\<forall>a. k \<noteq> AuditK a" for k
    using quiet_at[OF assms(1) wf, of k] quiet_at[OF assms(2) wft, of k] that by simp
  have f: "faults s = [] \<Longrightarrow> faults t = [] \<and> faults u = [] \<and>
      (\<forall>v \<in> V. status_at s eid v = Some VoteStatusPending \<longrightarrow> status_at t eid v = Some VoteStatusError) \<and>
      (\<forall>v \<in> W. status_at t eid v = Some VoteStatusPending \<longrightarrow> status_at u eid v = Some VoteStatusError)"
    using assms wf wft by (simp add: quiet_def)
  have "v \<in> V \<union> W \<Longrightarrow> status_at u eid v = status_at s eid v \<or> status_at u eid v = Some VoteStatusError" for v
    using V[of v] W[of v] st[of v] by (cases "v \<in> V"; cases "v \<in> W") auto
  moreover have "faults s = [] \<Longrightarrow> v \<in> V \<union> W \<Longrightarrow> status_at s eid v = Some VoteStatusPending \<Longrightarrow>
      status_at u eid v = Some VoteStatusError" for v
    using f V[of v] W[of v] st[of v] by (cases "v \<in> V"; cases "v \<in> W") auto
  moreover have "storage_wf u" "votes_forward s u" using assms wf wft votes_forward_trans unfolding quiet_def by (meson)+
  ultimately show "storage_wf u \<and> votes_forward s u \<and>
        (\<forall>k. (\<forall>v \<in> V \<union> W. k \<noteq> VoteStatusK eid v) \<and> (\<forall>a. k \<noteq> AuditK a) \<longrightarrow> artifact_at u k = artifact_at s k) \<and>
        (\<forall>v \<in> V \<union> W. status_at u eid v = status_at s eid v \<or> status_at u eid v = Some VoteStatusError) \<and>
        (faults s = [] \<longrightarrow> faults u = [] \<and>
           (\<forall>v \<in> V \<union> W. status_at s eid v = Some VoteStatusPending \<longrightarrow> status_at u eid v = Some VoteStatusError))"
    using f k by blast
qed

lemma faults_kept:
  "faults s = [] \<Longrightarrow> faults (snd (SetVoteStatus s eid vid st)) = []"
  "faults s = [] \<Longrightarrow> faults (snd (AppendAudit now s r)) = []"
  "faults s = [] \<Longrightarrow> faults (snd (SealBatch now s b snap)) = []"
  by (auto simp: SetVoteStatus_def setVoteStatusLocked_def setArtifact_def Commit_def AppendAudit_def SealBatch_def Let_def
      split: sum.splits)

lemma quiet_SetVoteStatus: "quiet eid {vid} s (snd (SetVoteStatus s eid vid VoteStatusError))"
  unfolding quiet_def
proof (intro impI)
  let ?t = "snd (SetVoteStatus s eid vid VoteStatusError)"
  assume wf: "storage_wf s"
  have t: "?t = store_step (OpSetVoteStatus eid vid VoteStatusError) s" by simp
  have at: "artifact_at ?t k = (if \<not> next_fault s \<and> k = VoteStatusK eid vid \<and>
      \<not> (\<exists>cur. status_at s eid vid = Some cur \<and> \<not> CanMoveTo cur VoteStatusError)
     then Some (AVoteStatus VoteStatusError) else artifact_at s k)" for k
    unfolding t by (subst store_step_at[OF wf]) (auto simp: op_writes_def)
  have "storage_wf ?t" "votes_forward s ?t" unfolding t by (rule store_step_wf[OF wf], rule store_step_votes[OF wf])
  moreover have "faults s = [] \<Longrightarrow> \<not> next_fault s" by (simp add: next_fault_def)
  ultimately show "storage_wf ?t \<and> votes_forward s ?t \<and>
      (\<forall>k. (\<forall>v \<in> {vid}. k \<noteq> VoteStatusK eid v) \<and> (\<forall>a. k \<noteq> AuditK a) \<longrightarrow> artifact_at ?t k = artifact_at s k) \<and>
      (\<forall>v \<in> {vid}. status_at ?t eid v = status_at s eid v \<or> status_at ?t eid v = Some VoteStatusError) \<and>
      (faults s = [] \<longrightarrow> faults ?t = [] \<and>
         (\<forall>v \<in> {vid}. status_at s eid v = Some VoteStatusPending \<longrightarrow> status_at ?t eid v = Some VoteStatusError))"
    by (auto simp: at faults_kept)
qed

lemma quiet_AppendAudit: "quiet eid {} s (snd (AppendAudit now s r))"
  unfolding quiet_def
proof (intro impI)
  let ?t = "snd (AppendAudit now s r)"
  assume wf: "storage_wf s"
  have t: "?t = store_step (OpAppendAudit now r) s" by simp
  have "artifact_at ?t k = artifact_at s k" if "\<forall>a. k \<noteq> AuditK a" for k
    unfolding t using that by (subst store_step_at[OF wf]) (auto simp: op_writes_def Let_def)
  moreover have "storage_wf ?t" "votes_forward s ?t" unfolding t by (rule store_step_wf[OF wf], rule store_step_votes[OF wf])
  ultimately show "storage_wf ?t \<and> votes_forward s ?t \<and>
      (\<forall>k. (\<forall>v \<in> {}. k \<noteq> VoteStatusK eid v) \<and> (\<forall>a. k \<noteq> AuditK a) \<longrightarrow> artifact_at ?t k = artifact_at s k) \<and>
      (\<forall>v \<in> {}. status_at ?t eid v = status_at s eid v \<or> status_at ?t eid v = Some VoteStatusError) \<and>
      (faults s = [] \<longrightarrow> faults ?t = [] \<and>
         (\<forall>v \<in> {}. status_at s eid v = Some VoteStatusPending \<longrightarrow> status_at ?t eid v = Some VoteStatusError))"
    by (auto simp: faults_kept)
qed

lemma quiet_audit: "quiet eid' {} (store e) (store (audit now e a b c eid))"
  by (simp add: audit_def quiet_AppendAudit)

lemma quiet_dropVote: "quiet (rt_id rt) {v_ID v} (store e) (store (fst (dropVote e rt v)))"
  by (simp add: dropVote_def quiet_SetVoteStatus)

lemma quiet_synced: "quiet eid V s t \<Longrightarrow> storage_wf s \<Longrightarrow> synced k t rt \<longleftrightarrow> synced k s rt"
  by (simp add: synced_def reads quiet_wf quiet_at)

section \<open>What one seal does\<close>

definition decodable :: "('v, 'st) sdk \<Rightarrow> ('v, 'st) electionRuntime \<Rightarrow> Vote \<Rightarrow> bool" where
  "decodable k rt v \<longleftrightarrow>
     isOk (DeserializeBallot k (EncKey (rt_cfg rt)) (v_Ballot v)) \<and> parse_bundle k (v_Payload v) \<noteq> None"

lemma filter_pending_idem:
  "rt\<lparr>rt_pending := filter P (filter Q (rt_pending rt))\<rparr> = rt\<lparr>rt_pending := filter (\<lambda>v. Q v \<and> P v) (rt_pending rt)\<rparr>"
  by simp

lemma pending_cong:
  "(\<And>p. p \<in> set (rt_pending rt) \<Longrightarrow> P p = Q p) \<Longrightarrow>
   rt\<lparr>rt_pending := filter P (rt_pending rt)\<rparr> = rt\<lparr>rt_pending := filter Q (rt_pending rt)\<rparr>"
  by (simp cong: filter_cong)

lemma store_upd_trans: "e1 = e\<lparr>store := a\<rparr> \<Longrightarrow> e2 = e1\<lparr>store := b\<rparr> \<Longrightarrow> e2 = e\<lparr>store := b\<rparr>"
  by simp

lemma dropVote_simps:
  "snd (dropVote e rt v) = rt\<lparr>rt_pending := filter (\<lambda>p. p \<noteq> v) (rt_pending rt)\<rparr>"
  "fst (dropVote e rt v) = e\<lparr>store := store (fst (dropVote e rt v))\<rparr>"
  by (simp_all add: dropVote_def)

lemma decodable_pending [simp]: "decodable k (rt\<lparr>rt_pending := p\<rparr>) v = decodable k rt v"
  by (simp add: decodable_def)

lemma decodeVotes_spec:
  assumes "decodeVotes k vs e rt = (dec, e', rt')"
  shows "map fst dec = filter (decodable k rt) vs \<and>
    rt' = rt\<lparr>rt_pending := filter (\<lambda>p. p \<in> set vs \<longrightarrow> decodable k rt p) (rt_pending rt)\<rparr> \<and>
    quiet (rt_id rt) (v_ID ` {v \<in> set vs. \<not> decodable k rt v}) (store e) (store e') \<and> e' = e\<lparr>store := store e'\<rparr>"
  using assms
proof (induction vs arbitrary: e rt dec)
  case Nil
  then show ?case by (simp add: quiet_refl)
next
  case (Cons v vs)
  show ?case
  proof (cases "decodable k rt v")
    case True
    then obtain ballot bdl where "DeserializeBallot k (EncKey (rt_cfg rt)) (v_Ballot v) = Inr ballot"
      "parse_bundle k (v_Payload v) = Some bdl" by (auto simp: decodable_def isOk_iff)
    with Cons.prems obtain dec' x where "decodeVotes k vs e rt = (dec', e', rt')" "dec = (v, x) # dec'"
      by (auto simp: Let_def prod_eq_iff)
    moreover have "{w \<in> set (v # vs). \<not> decodable k rt w} = {w \<in> set vs. \<not> decodable k rt w}" using True by auto
    ultimately show ?thesis using Cons.IH[of e rt dec'] True by (auto intro: pending_cong)
  next
    case False
    then have drop: "decodeVotes k vs (fst (dropVote e rt v)) (snd (dropVote e rt v)) = (dec, e', rt')"
      using Cons.prems by (auto simp: decodable_def split: sum.splits option.splits)
    note IH = Cons.IH[OF drop]
    from IH have "map fst dec = filter (decodable k rt) (v # vs)" using False by (simp add: dropVote_simps(1))
    moreover from IH have "rt' = rt\<lparr>rt_pending := filter (\<lambda>p. p \<in> set (v # vs) \<longrightarrow> decodable k rt p) (rt_pending rt)\<rparr>"
      using False by (auto simp: dropVote_simps(1) filter_pending_idem intro: pending_cong)
    moreover have "quiet (rt_id rt) (v_ID ` {w \<in> set (v # vs). \<not> decodable k rt w}) (store e) (store e')"
    proof -
      have "v_ID ` {w \<in> set (v # vs). \<not> decodable k rt w} = {v_ID v} \<union> v_ID ` {w \<in> set vs. \<not> decodable k rt w}"
        using False by auto
      moreover from IH have "quiet (rt_id rt) (v_ID ` {w \<in> set vs. \<not> decodable k rt w}) (store (fst (dropVote e rt v))) (store e')"
        by (simp add: dropVote_simps(1))
      ultimately show ?thesis using quiet_trans[OF quiet_dropVote[of rt v e]] by simp
    qed
    moreover from IH have "e' = e\<lparr>store := store e'\<rparr>" using store_upd_trans[OF dropVote_simps(2)[of e rt v]] by blast
    ultimately show ?thesis by blast
  qed
qed

definition notRefused :: "(nat \<rightharpoonup> gerror) \<Rightarrow> nat \<Rightarrow> 'a list \<Rightarrow> 'a list" where
  "notRefused refused i xs = map snd (filter (\<lambda>(j, x). refused j = None) (List.enumerate i xs))"

lemma notRefused_simps [simp]:
  "notRefused refused i [] = []"
  "notRefused refused i (x # xs) = (if refused i = None then [x] else []) @ notRefused refused (Suc i) xs"
  by (simp_all add: notRefused_def)

lemma notRefused_set: "set (notRefused refused i xs) \<subseteq> set xs"
  by (induction xs arbitrary: i) auto

lemma insert_both: "x \<notin> A \<Longrightarrow> (\<lambda>p. p \<in> insert x A \<longrightarrow> p \<in> insert x B) = (\<lambda>p. p \<in> A \<longrightarrow> p \<in> B)"
  by auto

lemma dropRefused_spec:
  assumes "dropRefused refused i xs e rt = (ys, e', rt')" and "distinct (map fst xs)"
  shows "ys = notRefused refused i xs \<and>
    rt' = rt\<lparr>rt_pending := filter (\<lambda>p. p \<in> fst ` set xs \<longrightarrow> p \<in> fst ` set ys) (rt_pending rt)\<rparr> \<and>
    quiet (rt_id rt) (v_ID ` (fst ` set xs - fst ` set ys)) (store e) (store e') \<and> e' = e\<lparr>store := store e'\<rparr>"
  using assms
proof (induction xs arbitrary: i e rt ys)
  case Nil
  then show ?case by (simp add: quiet_refl)
next
  case (Cons x xs)
  show ?case
  proof (cases "refused i")
    case None
    with Cons.prems obtain ys' where rec: "dropRefused refused (i + 1) xs e rt = (ys', e', rt')" and ys: "ys = x # ys'"
      by (auto simp: Let_def prod_eq_iff)
    have x: "fst x \<notin> fst ` set xs" "distinct (map fst xs)" using Cons.prems(2) by auto
    note IH = Cons.IH[OF rec x(2)]
    have "(\<lambda>p. p \<in> fst ` set (x # xs) \<longrightarrow> p \<in> fst ` set ys) = (\<lambda>p. p \<in> fst ` set xs \<longrightarrow> p \<in> fst ` set ys')"
      unfolding ys list.set image_insert by (rule insert_both[OF x(1)])
    moreover have "fst ` set (x # xs) - fst ` set ys = fst ` set xs - fst ` set ys'" using x(1) ys by auto
    moreover have "ys = notRefused refused i (x # xs)" using ys IH None by simp
    ultimately show ?thesis using IH by metis
  next
    case (Some er)
    then have drop: "dropRefused refused (i + 1) xs (fst (dropVote e rt (fst x))) (snd (dropVote e rt (fst x))) = (ys, e', rt')"
      using Cons.prems by simp
    have IH: "ys = notRefused refused (i + 1) xs"
        "rt' = (snd (dropVote e rt (fst x)))\<lparr>rt_pending := filter (\<lambda>p. p \<in> fst ` set xs \<longrightarrow> p \<in> fst ` set ys)
           (rt_pending (snd (dropVote e rt (fst x))))\<rparr>"
        "quiet (rt_id rt) (v_ID ` (fst ` set xs - fst ` set ys)) (store (fst (dropVote e rt (fst x)))) (store e')" "e' = (fst (dropVote e rt (fst x)))\<lparr>store := store e'\<rparr>"
      using Cons.IH[OF drop] Cons.prems(2) by (auto simp: dropVote_simps(1))
    have x: "fst x \<notin> fst ` set ys" using IH(1) Cons.prems(2) notRefused_set[of refused "i + 1" xs] by auto
    then have "rt' = rt\<lparr>rt_pending := filter (\<lambda>p. p \<in> fst ` set (x # xs) \<longrightarrow> p \<in> fst ` set ys) (rt_pending rt)\<rparr>"
      unfolding IH(2) dropVote_simps(1) by (auto simp: filter_pending_idem intro!: pending_cong)
    moreover have "ys = notRefused refused i (x # xs)" using IH(1) Some by simp
    moreover have "quiet (rt_id rt) (v_ID ` (fst ` set (x # xs) - fst ` set ys)) (store e) (store e')"
    proof -
      have "v_ID ` (fst ` set (x # xs) - fst ` set ys) = {v_ID (fst x)} \<union> v_ID ` (fst ` set xs - fst ` set ys)"
        using x by auto
      then show ?thesis using quiet_trans[OF quiet_dropVote IH(3)] by simp
    qed
    moreover have "e' = e\<lparr>store := store e'\<rparr>" by (rule store_upd_trans[OF dropVote_simps(2) IH(4)])
    ultimately show ?thesis by blast
  qed
qed

lemma SealBatch_frame:
  assumes "storage_wf s" and "SealBatch now s b snap = (r, s')"
  shows "storage_wf s'" and "votes_forward s s'"
  using store_step_wf[OF assms(1), of "OpSealBatch now b snap"] store_step_votes[OF assms(1), of "OpSealBatch now b snap"]
    assms(2) by simp_all

lemma SealBatch_failed:
  assumes "SealBatch now s b snap = (Inl er, s')"
  shows "quiet eid {} s s'"
  unfolding quiet_def using SealBatch_frame[OF _ assms] SealBatch_at[OF _ assms] faults_kept(3)[of s now b snap] assms by simp

text \<open>
  A batch of the votes \<open>sealed\<close> is persisted: its record, with its votes, its prove request
  and the root of the state after it; the snapshot of that state; the votes' batched status;
  and nothing else changed but vote statuses and the audit trail.
\<close>

definition persisted ::
  "('v, 'st) sdk \<Rightarrow> Election \<Rightarrow> ('v \<times> 'v) option \<Rightarrow> (Vote \<times> 'v chainVote \<times> voteProofBundle) list
    \<Rightarrow> ('v, 'st) electionRuntime \<Rightarrow> 'b storage \<Rightarrow> 'b storage \<Rightarrow> bool" where
  "persisted k el blocks sealed rt s s' \<longleftrightarrow>
     storage_wf s' \<and> votes_forward s s' \<and> (faults s = [] \<longrightarrow> faults s' = []) \<and>
     (\<exists>b blob. batch_at s' (rt_id rt) (rt_batchSeq rt) = Some b \<and> bi_VoteIDs b = map (\<lambda>x. v_ID (fst x)) sealed \<and>
        print_request k (proveRequest (cfg_VK (el_Config el)) blocks sealed) = Inr (bi_ProveRequest b) \<and>
        bi_NewStateRoot b = Root k (rt_state rt) \<and>
        snapshot_at s' (rt_id rt) = Some blob \<and> Snapshot k (rt_state rt) = Inr blob) \<and>
     (\<forall>x \<in> set sealed. status_at s (rt_id rt) (v_ID (fst x)) = Some VoteStatusPending \<longrightarrow>
        status_at s' (rt_id rt) (v_ID (fst x)) = Some VoteStatusBatched) \<and>
     (\<forall>key. key \<noteq> BatchK (rt_id rt) (rt_batchSeq rt) \<and> key \<noteq> SnapshotK (rt_id rt) \<and>
        (\<forall>x \<in> set sealed. key \<noteq> VoteStatusK (rt_id rt) (v_ID (fst x))) \<and> (\<forall>a. key \<noteq> AuditK a) \<longrightarrow>
        artifact_at s' key = artifact_at s key)"

lemma audit_keeps:
  assumes "storage_wf (store e)" and "\<And>a. key \<noteq> AuditK a"
  shows "artifact_at (store (audit now e x y z eid)) key = artifact_at (store e) key"
  using quiet_at[OF quiet_audit[of eid e now x y z eid] assms(1), of key] assms(2) by simp

lemma persistBatch_spec:
  assumes wf: "storage_wf (store e)" and run: "persistBatch k now el blocks sealed rest e rt = (r, e', rt')"
  shows "(isl r \<longrightarrow> rt' = rt \<and> quiet (rt_id rt) {} (store e) (store e')) \<and>
    (isOk r \<longrightarrow> rt' = rt\<lparr>rt_dirty := False, rt_pending := rest, rt_batchSeq := rt_batchSeq rt + 1\<rparr> \<and>
       persisted k el blocks sealed rt (store e) (store e'))"
proof (cases "\<exists>req blob. print_request k (proveRequest (cfg_VK (el_Config el)) blocks sealed) = Inr req \<and> Snapshot k (rt_state rt) = Inr blob")
  case False
  with run have "isl r \<and> rt' = rt \<and> e' = e"
    by (auto simp: persistBatch_def split: sum.splits)
  then show ?thesis by (simp add: quiet_refl)
next
  case True
  then obtain req blob where rq: "print_request k (proveRequest (cfg_VK (el_Config el)) blocks sealed) = Inr req"
    and sn: "Snapshot k (rt_state rt) = Inr blob" by blast
  define b where "b = \<lparr>bi_ElectionID = rt_id rt, bi_Seq = rt_batchSeq rt, bi_ProveRequest = req,
    bi_NewStateRoot = Root k (rt_state rt), bi_VoteIDs = map (\<lambda>x. v_ID (fst x)) sealed, bi_Worker = [],
    bi_JobID = [], bi_ImportedID = [], bi_FoldWorker = [], bi_SealedAt = now\<rparr>"
  obtain r1 s1 where sb: "SealBatch now (store e) b blob = (r1, s1)" by fastforce
  note at = SealBatch_at[OF wf sb]
  show ?thesis
  proof (cases r1)
    case (Inl er)
    with run rq sn sb have "isl r \<and> rt' = rt \<and> store e' = s1" by (auto simp: persistBatch_def b_def)
    with SealBatch_failed sb Inl show ?thesis by auto
  next
    case (Inr u)
    define e1 where "e1 = e\<lparr>store := s1\<rparr>"
    have wf1: "storage_wf (store e1)" using SealBatch_frame[OF wf sb] by (simp add: e1_def)
    from run rq sn sb Inr have r: "r = Inr ()"
      and e': "store e' = store (audit now e1 ''system'' ''system'' ''seal_batch'' (rt_id rt))"
      and rt': "rt' = rt\<lparr>rt_dirty := False, rt_pending := rest, rt_batchSeq := rt_batchSeq rt + 1\<rparr>"
      by (auto simp: persistBatch_def b_def e1_def)
    have key: "artifact_at (store e') key = artifact_at s1 key" if "\<And>a. key \<noteq> AuditK a" for key
      unfolding e' using audit_keeps[OF wf1 that] by (simp add: e1_def)
    have "quiet (rt_id rt) {} s1 (store e')" unfolding e' using quiet_audit[of "rt_id rt" e1] by (simp add: e1_def)
    then have "storage_wf (store e')" "votes_forward (store e) (store e')" "faults (store e) = [] \<longrightarrow> faults (store e') = []"
      using SealBatch_frame[OF wf sb] faults_kept(3)[of "store e" now b blob] sb votes_forward_trans by (auto simp: quiet_def)
    moreover have "batch_at (store e') (rt_id rt) (rt_batchSeq rt) = Some b" using at[of "BatchK _ _"] Inr by (simp add: key b_def)
    moreover have "snapshot_at (store e') (rt_id rt) = Some blob" using at[of "SnapshotK _"] Inr by (simp add: key b_def)
    moreover have "artifact_at (store e') (VoteStatusK (rt_id rt) (v_ID (fst x))) = Some (AVoteStatus VoteStatusBatched)"
      if "x \<in> set sealed" "status_at (store e) (rt_id rt) (v_ID (fst x)) = Some VoteStatusPending" for x
      using at[of "VoteStatusK _ _"] that Inr by (auto simp: key b_def CanMoveTo_simps)
    moreover have "artifact_at (store e') key = artifact_at (store e) key"
      if "key \<noteq> BatchK (rt_id rt) (rt_batchSeq rt)" "key \<noteq> SnapshotK (rt_id rt)"
        "\<And>x. x \<in> set sealed \<Longrightarrow> key \<noteq> VoteStatusK (rt_id rt) (v_ID (fst x))" "\<And>a. key \<noteq> AuditK a" for key
      using at[of key] that Inr key[of key] by (cases key) (auto simp: b_def)
    ultimately show ?thesis using r rt' rq sn unfolding persisted_def by (auto simp: b_def)
  qed
qed

section \<open>The runtime stays consistent with its snapshot\<close>

text \<open>The states the SDK can produce for a chain configuration.\<close>

inductive chain_state :: "('v, 'st) sdk \<Rightarrow> 'v chainConfig \<Rightarrow> 'st \<Rightarrow> bool" for k cfg where
  genesis: "NewState k cfg = Inr st \<Longrightarrow> chain_state k cfg st"
| restored: "RestoreState k cfg blob = Inr st \<Longrightarrow> chain_state k cfg st"
| applied: "chain_state k cfg st \<Longrightarrow> chain_state k cfg (snd (ApplyBatch k d st votes))"

definition rt_ok :: "('v, 'st) sdk \<Rightarrow> 'b storage \<Rightarrow> ('v, 'st) electionRuntime \<Rightarrow> bool" where
  "rt_ok k s rt \<longleftrightarrow> chain_state k (rt_cfg rt) (rt_state rt) \<and> (rt_dirty rt \<or> synced k s rt)"

definition same_rt :: "('v, 'st) electionRuntime \<Rightarrow> ('v, 'st) electionRuntime \<Rightarrow> bool" where
  "same_rt rt rt' \<longleftrightarrow> rt' = rt\<lparr>rt_state := rt_state rt', rt_dirty := rt_dirty rt'\<rparr>"

lemma same_rt_simps:
  "same_rt rt rt' \<Longrightarrow> rt_id rt' = rt_id rt \<and> rt_cfg rt' = rt_cfg rt \<and> rt_pending rt' = rt_pending rt \<and>
     rt_batchSeq rt' = rt_batchSeq rt \<and> rt_batchSize rt' = rt_batchSize rt \<and> rt_rules rt' = rt_rules rt"
  unfolding same_rt_def by (cases rt; cases rt') simp

lemma same_rt_refl: "same_rt rt rt"
  by (simp add: same_rt_def)

lemma same_rt_trans: "same_rt a b \<Longrightarrow> same_rt b c \<Longrightarrow> same_rt a c"
  unfolding same_rt_def by (cases a; cases b; cases c) simp

lemma restoreState_keeps:
  "same_rt rt (snd (restoreState k s rt)) \<and> (rt_ok k s rt \<longrightarrow> rt_ok k s (snd (restoreState k s rt)))"
  by (auto simp: restoreState_def same_rt_def rt_ok_def synced_def intro: chain_state.restored split: sum.splits)

lemma restoreState_Inr: "fst (restoreState k s rt) = Inr u \<Longrightarrow> synced k s (snd (restoreState k s rt)) \<and> \<not> rt_dirty (snd (restoreState k s rt))"
  by (auto simp: restoreState_def synced_def split: sum.splits)

lemma tryApply_keeps:
  "rt_ok k s rt \<Longrightarrow> same_rt rt (snd (tryApply k d rt batch)) \<and> rt_ok k s (snd (tryApply k d rt batch))"
  by (simp add: tryApply_def same_rt_def rt_ok_def Let_def chain_state.applied)

lemma retry_keeps:
  "rt_ok k s rt \<Longrightarrow> same_rt rt (snd (restoreState k s (snd (tryApply k d rt batch)))) \<and>
   rt_ok k s (snd (restoreState k s (snd (tryApply k d rt batch))))"
  using restoreState_keeps[of "snd (tryApply k d rt batch)" k s] tryApply_keeps[of k s rt d batch] same_rt_trans by blast

lemma bisect_keeps:
  "rt_ok k s rt \<Longrightarrow> same_rt rt (fst (snd (bisect k s batch lo hi err rt d))) \<and> rt_ok k s (fst (snd (bisect k s batch lo hi err rt d)))"
proof (induction k s batch lo hi err rt d rule: bisect.induct)
  case (1 k s batch lo hi err rt d)
  define t where "t = tryApply k d rt (take ((lo + hi) div 2) batch)"
  define u where "u = restoreState k s (snd t)"
  have u: "same_rt rt (snd u) \<and> rt_ok k s (snd u)" unfolding u_def t_def by (rule retry_keeps[OF "1.prems"])
  show ?case
  proof (cases "lo < hi")
    case False
    with "1.prems" show ?thesis by (simp add: bisect.simps[of k s batch lo hi] same_rt_refl)
  next
    case True
    note IH = "1.IH"[OF True refl refl refl, folded t_def, folded u_def]
    show ?thesis
      using u IH same_rt_trans
      by (simp add: bisect.simps[of k s batch lo hi] True Let_def flip: t_def u_def split: sum.split) blast
  qed
qed

lemma apply_loop_keepsrt:
  "rt_ok k s rt \<Longrightarrow> same_rt rt (fst (snd (apply_loop k s votes idx refused rt d))) \<and>
     rt_ok k s (fst (snd (apply_loop k s votes idx refused rt d)))"
proof (induction k s votes idx refused rt d rule: apply_loop.induct)
  case (1 k s votes idx refused rt d)
  define batch where "batch = map (\<lambda>j. votes ! j) idx"
  define t where "t = tryApply k d rt batch"
  define u where "u = restoreState k s (snd t)"
  have t: "same_rt rt (snd t) \<and> rt_ok k s (snd t)" unfolding t_def by (rule tryApply_keeps[OF "1.prems"])
  have u: "same_rt rt (snd u) \<and> rt_ok k s (snd u)" unfolding u_def t_def by (rule retry_keeps[OF "1.prems"])
  define b where "b = (\<lambda>err. bisect k s batch 1 (length batch) err (snd u) (d + 1))"
  have b: "same_rt rt (fst (snd (b err))) \<and> rt_ok k s (fst (snd (b err)))" for err
    unfolding b_def using bisect_keeps[of k s "snd u"] u same_rt_trans by blast
  show ?case
  proof (cases "idx = []")
    case True
    with "1.prems" show ?thesis by (simp add: apply_loop.simps same_rt_refl)
  next
    case False
    note IH = "1.IH"[OF False batch_def t_def]
    show ?thesis
    proof (cases "fst t")
      case (Inr bl)
      then show ?thesis using t by (simp add: apply_loop.simps[of k s votes idx] False Let_def flip: batch_def t_def)
    next
      case (Inl err)
      show ?thesis
      proof (cases "fst u")
        case u': (Inl er)
        then show ?thesis using u Inl
          by (simp add: apply_loop.simps[of k s votes idx] False Let_def flip: batch_def t_def u_def)
      next
        case u': (Inr y)
        show ?thesis
        proof (cases "fst (b err)")
          case b': (Inl er)
          then show ?thesis using b[of err] Inl u'
            by (simp add: apply_loop.simps[of k s votes idx] False Let_def b_def flip: batch_def t_def u_def)
        next
          case b': (Inr he)
          have "apply_loop k s votes idx refused rt d = apply_loop k s votes (take (fst he - 1) idx @ drop (fst he) idx)
              (refused(idx ! (fst he - 1) \<mapsto> snd he)) (fst (snd (b err))) (snd (snd (b err)))"
            using b' Inl u' by (simp add: apply_loop.simps[of k s votes idx] False Let_def b_def case_prod_beta flip: batch_def t_def u_def)
          moreover note IH[OF Inl u_def u' fun_cong[OF b_def] b' prod.collapse] b[of err]
          ultimately show ?thesis using same_rt_trans by metis
        qed
      qed
    qed
  qed
qed

lemma applyBatch_keepsrt:
  assumes "applyBatch k s rt votes d = (res, rt', d')" and "rt_ok k s rt"
  shows "same_rt rt rt'" and "rt_ok k s rt'"
  using apply_loop_keepsrt[OF assms(2), of votes "[0..<length votes]" Map.empty d] assms(1)
  by (simp_all add: applyBatch_def)

section \<open>One seal\<close>

text \<open>What the engine relies on of the SDK: a snapshot of a chain's state restores to that state.\<close>

definition snapshots_restore :: "('v, 'st) sdk \<Rightarrow> bool" where
  "snapshots_restore k \<longleftrightarrow>
     (\<forall>cfg st blob. chain_state k cfg st \<longrightarrow> Snapshot k st = Inr blob \<longrightarrow> RestoreState k cfg blob = Inr st)"

lemma rt_ok_pending [simp]: "rt_ok k s (rt\<lparr>rt_pending := p\<rparr>) = rt_ok k s rt"
  by (simp add: rt_ok_def synced_def)

lemma rt_ok_quiet: "quiet eid V s t \<Longrightarrow> storage_wf s \<Longrightarrow> rt_ok k s rt \<Longrightarrow> rt_ok k t rt"
  by (simp add: rt_ok_def quiet_synced)

lemma persisted_synced:
  assumes "snapshots_restore k" and "persisted k el blocks sealed rt s s'" and "chain_state k (rt_cfg rt) (rt_state rt)"
  shows "synced k s' (rt\<lparr>rt_dirty := dt, rt_pending := p, rt_batchSeq := n\<rparr>)"
  using assms by (auto simp: synced_def persisted_def reads snapshots_restore_def)

text \<open>
  The result of a seal of \<open>batch\<close>: a failure leaves the store as it was up to statuses and
  the audit trail and drops at most votes of the batch from the pending buffer; a success
  takes the batch out of the buffer and either persists a batch of some of its votes or, when
  every vote was dropped, nothing.
\<close>

definition seal_result ::
  "('v, 'st) sdk \<Rightarrow> Vote list \<Rightarrow> Vote list \<Rightarrow> 'b storage \<Rightarrow> ('v, 'st) electionRuntime \<Rightarrow> gerror + unit \<Rightarrow> 'b storage
    \<Rightarrow> ('v, 'st) electionRuntime \<Rightarrow> bool" where
  "seal_result k batch rest s rt r s' rt' \<longleftrightarrow>
     rt_id rt' = rt_id rt \<and> rt_cfg rt' = rt_cfg rt \<and> rt_batchSize rt' = rt_batchSize rt \<and> rt_rules rt' = rt_rules rt \<and>
     (case r of
        Inl _ \<Rightarrow> rt_batchSeq rt' = rt_batchSeq rt \<and>
          (\<exists>D \<subseteq> set batch. rt_pending rt' = filter (\<lambda>v. v \<notin> D) (rt_pending rt) \<and> quiet (rt_id rt) (v_ID ` D) s s')
      | Inr _ \<Rightarrow> rt_pending rt' = rest \<and>
          (quiet (rt_id rt) (v_ID ` set batch) s s' \<and> rt_batchSeq rt' = rt_batchSeq rt \<or>
           rt_batchSeq rt' = rt_batchSeq rt + 1 \<and> \<not> rt_dirty rt' \<and>
           (\<exists>el blocks sealed s1 rt1. sealed \<noteq> [] \<and> subseq (map fst sealed) batch \<and>
              quiet (rt_id rt) (v_ID ` (set batch - fst ` set sealed)) s s1 \<and>
              rt_id rt1 = rt_id rt \<and> rt_batchSeq rt1 = rt_batchSeq rt \<and> rt_state rt' = rt_state rt1 \<and>
              persisted k el blocks sealed rt1 s1 s')))"

lemma notRefused_subseq: "subseq (notRefused refused i xs) xs"
  by (induction xs arbitrary: i) (auto intro: subseq_Cons' split: option.splits)

text \<open>A batch that is written, from the votes that are left after the refused ones.\<close>

lemma persistBatch_seals:
  assumes q: "quiet (rt_id rt) (v_ID ` (set batch - fst ` set sealed)) s (store e)" and wf: "storage_wf (store e)"
    and p: "rt_pending rt1 = filter (\<lambda>p. p \<notin> set batch - fst ` set sealed) (rt_pending rt)" and ok: "rt_ok k (store e) rt1"
    and fr: "rt_id rt1 = rt_id rt" "rt_cfg rt1 = rt_cfg rt" "rt_batchSeq rt1 = rt_batchSeq rt" "rt_batchSize rt1 = rt_batchSize rt"
      "rt_rules rt1 = rt_rules rt"
    and sub: "subseq (map fst sealed) batch" and ne: "sealed \<noteq> []" and restore: "snapshots_restore k"
    and run: "persistBatch k now el blocks sealed rest e rt1 = (r, e', rt')"
  shows "seal_result k batch rest s rt r (store e') rt' \<and> storage_wf (store e') \<and> rt_ok k (store e') rt'"
proof (cases r)
  case (Inl er)
  let ?gone = "set batch - fst ` set sealed"
  have rt': "rt' = rt1" and q4: "quiet (rt_id rt) {} (store e) (store e')" using persistBatch_spec[OF wf run] fr Inl by auto
  have "rt_pending rt' = filter (\<lambda>v. v \<notin> ?gone) (rt_pending rt) \<and> quiet (rt_id rt) (v_ID ` ?gone) s (store e')"
    using p rt' quiet_trans[OF q q4] by simp
  then have "\<exists>D \<subseteq> set batch. rt_pending rt' = filter (\<lambda>v. v \<notin> D) (rt_pending rt) \<and> quiet (rt_id rt) (v_ID ` D) s (store e')"
    by (intro exI[of _ ?gone]) auto
  then show ?thesis using Inl fr rt' quiet_wf[OF q4 wf] rt_ok_quiet[OF q4 wf ok] unfolding seal_result_def by simp
next
  case (Inr u)
  then have rt': "rt' = rt1\<lparr>rt_dirty := False, rt_pending := rest, rt_batchSeq := rt_batchSeq rt1 + 1\<rparr>"
    and per: "persisted k el blocks sealed rt1 (store e) (store e')" using persistBatch_spec[OF wf run] by auto
  have "chain_state k (rt_cfg rt1) (rt_state rt1)" using ok by (simp add: rt_ok_def)
  moreover have "synced k (store e') rt'" using persisted_synced[OF restore per] calculation rt' by simp
  moreover have "storage_wf (store e')" using per by (simp add: persisted_def)
  moreover have "rt_batchSeq rt' = rt_batchSeq rt + 1 \<and>
     (\<exists>el blocks sealed s1 rt1. sealed \<noteq> [] \<and> subseq (map fst sealed) batch \<and>
        quiet (rt_id rt) (v_ID ` (set batch - fst ` set sealed)) s s1 \<and>
        rt_id rt1 = rt_id rt \<and> rt_batchSeq rt1 = rt_batchSeq rt \<and> rt_state rt' = rt_state rt1 \<and>
        persisted k el blocks sealed rt1 s1 (store e'))"
    using rt' fr
    by (intro conjI exI[of _ el] exI[of _ blocks] exI[of _ sealed] exI[of _ "store e"] exI[of _ rt1] ne sub q per) simp_all
  ultimately show ?thesis using Inr rt' fr unfolding seal_result_def rt_ok_def by simp
qed

text \<open>Dropping the refused votes of the decoded ones, after the votes \<open>bad\<close> that did not decode.\<close>

lemma dropRefused_rest:
  assumes dr: "dropRefused refused 0 dec e rt2 = (sealed, e3, rt3)" and dec: "map fst dec = filter (\<lambda>v. v \<notin> bad) batch"
    and dist: "distinct batch" and bad: "bad \<subseteq> set batch" and wf: "storage_wf s" and q: "quiet (rt_id rt) (v_ID ` bad) s (store e)"
    and p: "rt_pending rt2 = filter (\<lambda>p. p \<notin> bad) (rt_pending rt)" and id: "rt_id rt2 = rt_id rt" and ok: "rt_ok k (store e) rt2"
  shows "quiet (rt_id rt) (v_ID ` (set batch - fst ` set sealed)) s (store e3)"
    and "rt3 = rt2\<lparr>rt_pending := filter (\<lambda>p. p \<notin> set batch - fst ` set sealed) (rt_pending rt)\<rparr>"
    and "rt_ok k (store e3) rt3" and "subseq (map fst sealed) batch"
proof -
  have dd: "distinct (map fst dec)" using dec dist by simp
  have decset: "fst ` set dec = set batch - bad" using arg_cong[OF dec, of set] by auto
  note R = dropRefused_spec[OF dr dd]
  have q2: "quiet (rt_id rt) (v_ID ` (set batch - bad - fst ` set sealed)) (store e) (store e3)"
  proof -
    have "quiet (rt_id rt2) (v_ID ` (fst ` set dec - fst ` set sealed)) (store e) (store e3)" using R by blast
    then show ?thesis by (simp add: id decset)
  qed
  have "fst ` set sealed \<subseteq> fst ` set dec" using R notRefused_set[of refused 0 dec] by auto
  then have gone: "bad \<union> (set batch - bad - fst ` set sealed) = set batch - fst ` set sealed" using decset bad by auto
  show "quiet (rt_id rt) (v_ID ` (set batch - fst ` set sealed)) s (store e3)"
    using quiet_trans[OF q q2] gone by (simp add: image_Un[symmetric])
  have p3: "rt_pending rt3 = filter (\<lambda>p. p \<notin> set batch - fst ` set sealed) (rt_pending rt)"
  proof -
    have "rt_pending rt3 = filter (\<lambda>p. p \<notin> bad \<union> (set batch - bad - fst ` set sealed)) (rt_pending rt)"
      using R p by (auto simp: decset intro!: filter_cong)
    then show ?thesis unfolding gone .
  qed
  have rt3: "rt3 = rt2\<lparr>rt_pending := rt_pending rt3\<rparr>" using R by auto
  then show "rt3 = rt2\<lparr>rt_pending := filter (\<lambda>p. p \<notin> set batch - fst ` set sealed) (rt_pending rt)\<rparr>" using p3 by simp
  show "rt_ok k (store e3) rt3"
    using rt_ok_quiet[OF q2 quiet_wf[OF q wf] ok] by (subst rt3, simp only: rt_ok_pending)
  have "subseq (map fst sealed) (map fst dec)" using R notRefused_subseq[of refused 0 dec] by (simp add: subseq_map)
  then show "subseq (map fst sealed) batch" unfolding dec by (metis subseq_filter_left subseq_order.trans)
qed

lemma sealBatch_of_spec:
  assumes wf: "storage_wf (store e)" and dist: "distinct batch" and ok: "rt_ok k (store e) rt"
    and restore: "snapshots_restore k" and run: "sealBatch_of k now batch rest e rt = (r, e', rt')"
  shows "seal_result k batch rest (store e) rt r (store e') rt' \<and> storage_wf (store e') \<and> rt_ok k (store e') rt'"
proof (cases "store_Election (store e) (rt_id rt)")
  case (Inl er)
  with run have "isl r \<and> e' = e \<and> rt' = rt" by (auto simp: sealBatch_of_def)
  then show ?thesis using wf ok
    by (auto simp: seal_result_def quiet_refl isl_def intro!: exI[of _ "{}"])
next
  case el: (Inr el)
  obtain dec e1 rt1 where dec: "decodeVotes k batch e rt = (dec, e1, rt1)" by (metis prod_cases3)
  note D = decodeVotes_spec[OF dec]
  define bad where "bad = {v \<in> set batch. \<not> decodable k rt v}"
  have q1: "quiet (rt_id rt) (v_ID ` bad) (store e) (store e1)" and rt1: "rt1 = rt\<lparr>rt_pending := rt_pending rt1\<rparr>"
    and p1: "rt_pending rt1 = filter (\<lambda>p. p \<notin> bad) (rt_pending rt)" and good: "map fst dec = filter (\<lambda>v. v \<notin> bad) batch"
    using D by (auto simp: bad_def intro!: filter_cong)
  have wf1: "storage_wf (store e1)" by (rule quiet_wf[OF q1 wf])
  have ok1: "rt_ok k (store e1) rt1" using rt_ok_quiet[OF q1 wf ok] rt1 by (metis rt_ok_pending)
  obtain res rt2 d where app: "applyBatch k (store e1) rt1 (map (\<lambda>x. fst (snd x)) dec) (draws e1) = (res, rt2, d)"
    by (metis prod_cases3)
  note A = applyBatch_keepsrt[OF app ok1] same_rt_simps[OF applyBatch_keepsrt(1)[OF app ok1]]
  have fr1: "rt_id rt1 = rt_id rt" "rt_cfg rt1 = rt_cfg rt" "rt_batchSeq rt1 = rt_batchSeq rt" "rt_batchSize rt1 = rt_batchSize rt"
    "rt_rules rt1 = rt_rules rt" by (subst rt1; simp)+
  show ?thesis
  proof (cases res)
    case (Inl er)
    with run el dec app have "r = Inl er" "e' = e1\<lparr>draws := d\<rparr>" "rt' = rt2" by (simp_all add: sealBatch_of_def)
    then show ?thesis using A fr1 p1 q1 wf1 by (auto simp: seal_result_def bad_def intro!: exI[of _ bad])
  next
    case (Inr bl)
    obtain blocks refused where bl: "bl = (blocks, refused)" by fastforce
    obtain sealed e3 rt3 where dr: "dropRefused refused 0 dec (e1\<lparr>draws := d\<rparr>) rt2 = (sealed, e3, rt3)" by (metis prod_cases3)
    have pre: "bad \<subseteq> set batch" "quiet (rt_id rt) (v_ID ` bad) (store e) (store (e1\<lparr>draws := d\<rparr>))"
      "rt_pending rt2 = filter (\<lambda>p. p \<notin> bad) (rt_pending rt)" "rt_id rt2 = rt_id rt" "rt_ok k (store (e1\<lparr>draws := d\<rparr>)) rt2"
      using q1 p1 A fr1 by (simp_all add: bad_def)
    note R = dropRefused_rest[OF dr good dist pre(1) wf pre(2-5)]
    have wf3: "storage_wf (store e3)" by (rule quiet_wf[OF R(1) wf])
    have fr3: "rt_id rt3 = rt_id rt" "rt_cfg rt3 = rt_cfg rt" "rt_batchSeq rt3 = rt_batchSeq rt" "rt_batchSize rt3 = rt_batchSize rt"
      "rt_rules rt3 = rt_rules rt" by (subst R(2); use A fr1 in simp)+
    show ?thesis
    proof (cases "sealed = []")
      case True
      with run el dec app Inr bl dr have "r = Inr ()" "e' = e3" "rt' = rt3\<lparr>rt_pending := rest\<rparr>" by (simp_all add: sealBatch_of_def)
      then show ?thesis using fr3 R(1,3) wf3 True by (simp add: seal_result_def)
    next
      case False
      with run el dec app Inr bl dr have pb: "persistBatch k now el blocks sealed rest e3 rt3 = (r, e', rt')"
        by (simp add: sealBatch_of_def)
      have p3: "rt_pending rt3 = filter (\<lambda>p. p \<notin> set batch - fst ` set sealed) (rt_pending rt)" by (subst R(2)) simp
      show ?thesis by (rule persistBatch_seals[OF R(1) wf3 p3 R(3) fr3 R(4) False restore pb])
    qed
  qed
qed

lemma subseq_distinct: "subseq xs ys \<Longrightarrow> distinct ys \<Longrightarrow> distinct xs"
  by (simp only: subseq_conv_nths) (erule exE, simp only: distinct_nthsI)

lemma nextBatch_distinct:
  "nextBatch pending sz = (b, r) \<Longrightarrow> 0 \<le> sz \<Longrightarrow> distinct pending \<Longrightarrow> distinct b \<and> distinct r"
  by (rule conjI, erule (2) subseq_distinct[OF nextBatch_shape(1)], erule (2) subseq_distinct[OF nextBatch_shape(2)])

lemma sealLocked_spec:
  assumes wf: "storage_wf (store e)" and dist: "distinct (rt_pending rt)" and ok: "rt_ok k (store e) rt"
    and sz: "0 \<le> rt_batchSize rt" and restore: "snapshots_restore k"
    and nb: "nextBatch (rt_pending rt) (rt_batchSize rt) = (batch, rest)"
    and run: "sealLocked k now e rt = (r, e', rt')"
  shows "(seal_result k batch rest (store e) rt r (store e') rt' \<or>
          e' = e \<and> same_rt rt rt' \<and> (isl r \<or> batch = [])) \<and>
    storage_wf (store e') \<and> rt_ok k (store e') rt'"
proof -
  define r1 where "r1 = (if rt_dirty rt then restoreState k (store e) rt else (Inr (), rt))"
  have keep: "same_rt rt (snd r1) \<and> rt_ok k (store e) (snd r1)"
    using restoreState_keeps[of rt k "store e"] ok same_rt_refl[of rt] by (cases "rt_dirty rt") (simp_all add: r1_def)
  note S = same_rt_simps[OF conjunct1[OF keep]]
  show ?thesis
  proof (cases "fst r1")
    case (Inl er)
    with run have "r = Inl er" "e' = e" "rt' = snd r1" by (simp_all add: sealLocked_def r1_def[symmetric] Let_def)
    with keep wf show ?thesis by simp
  next
    case (Inr u)
    show ?thesis
    proof (cases "batch = []")
      case True
      with run nb Inr S have "r = Inr ()" "e' = e" "rt' = snd r1" by (simp_all add: sealLocked_def r1_def[symmetric] Let_def)
      with keep wf True show ?thesis by simp
    next
      case False
      with run nb Inr S have "sealBatch_of k now batch rest e (snd r1) = (r, e', rt')"
        by (simp add: sealLocked_def r1_def[symmetric] Let_def)
      from sealBatch_of_spec[OF wf _ conjunct2[OF keep] restore this] nextBatch_distinct[OF nb sz dist]
      have "seal_result k batch rest (store e) (snd r1) r (store e') rt' \<and> storage_wf (store e') \<and> rt_ok k (store e') rt'"
        by blast
      then show ?thesis unfolding seal_result_def by (simp only: S simp_thms)
    qed
  qed
qed

end
