(* ===== verification/Ingest.thy ===== *)
theory Ingest
  imports Seal
begin

text \<open>
  Vote submission (src/orchestrator/ingest.go). \<open>SubmitVote\<close> takes two locks by
  insertion in shared sets (the vote ID, then the voter's address), validates the vote
  outside \<open>rt.mu\<close>, and appends it under \<open>rt.mu\<close>; the deferred calls release both locks
  on every return. Other operations can run between these parts, so each part is a
  definition of its own and \<open>SubmitVote\<close> composes them. The validator is the cryptographic
  one, the default of \<open>NewEngine\<close>.

  \<open>submit_finish\<close> reads the runtime again where the source uses the pointer it read
  before the validation: a runtime leaves the map only when its election is canceled, and a
  canceled election fails the status check before.
\<close>

definition submit_release :: "ElectionID \<Rightarrow> VoteSubmission \<Rightarrow> ('b, 'v, 'st) engine \<Rightarrow> ('b, 'v, 'st) engine" where
  "submit_release eid sub e =
     e\<lparr>store := ReleaseVoteID (ReleaseAddress (store e) eid (be_val (sub_Address sub))) (sub_VoteID sub)\<rparr>"

definition submit_begin ::
  "('b, 'v, 'st) engine \<Rightarrow> ElectionID \<Rightarrow> VoteSubmission \<Rightarrow> (gerror + 'v voteRules) \<times> ('b, 'v, 'st) engine" where
  "submit_begin e eid sub =
     (case store_Election (store e) eid of
        Inl _ \<Rightarrow> (Inl [ErrElectionNotFound], e)
      | Inr el \<Rightarrow>
          if el_Status el \<noteq> StatusActive then (Inl [ErrNotAcceptingVotes], e)
          else (case runtime e eid of
            None \<Rightarrow> (Inl [Detail ''election not loaded''], e)
          | Some rt \<Rightarrow>
              let (free, s1) = LockVoteID (store e) (sub_VoteID sub) in
              if \<not> free then (Inl [ErrVoteAlreadySubmitted, Detail ''vote is being processed''], e\<lparr>store := s1\<rparr>)
              else if VoteExists s1 eid (sub_VoteID sub)
              then (Inl [ErrVoteAlreadySubmitted, Detail ''duplicate vote''], e\<lparr>store := ReleaseVoteID s1 (sub_VoteID sub)\<rparr>)
              else
                let (free', s2) = LockAddress s1 eid (be_val (sub_Address sub)) in
                if \<not> free'
                then (Inl [ErrVoteAlreadySubmitted, Detail ''a vote from this address is being processed''],
                      e\<lparr>store := ReleaseVoteID s2 (sub_VoteID sub)\<rparr>)
                else (Inr (rt_rules rt), e\<lparr>store := s2\<rparr>)))"

definition submit_check ::
  "('v, 'st) sdk \<Rightarrow> 'v voteRules \<Rightarrow> VoteSubmission \<Rightarrow> gerror + (u64 \<times> bytes)" where
  "submit_check k vr sub =
     and_then (Validate k vr sub) (\<lambda>bdl.
     and_then (wrap ErrInvalidCensusProof (wrap (Detail ''slot'') (SlotKey k (b_Census bdl)))) (\<lambda>slot.
     and_then (wrap (Detail ''encode payload'') (print_bundle k bdl)) (\<lambda>payload.
     Inr (slot, payload))))"

definition submitted :: "time \<Rightarrow> VoteSubmission \<Rightarrow> u64 \<Rightarrow> bytes \<Rightarrow> Vote" where
  "submitted now sub slot payload =
     \<lparr>v_ID = sub_VoteID sub, v_Address = sub_Address sub, v_Slot = slot, v_VoteIDKey = sub_VoteIDKey sub,
      v_Ballot = sub_Ballot sub, v_Payload = payload, v_Seq = 0, v_SubmittedAt = now\<rparr>"

definition submit_finish ::
  "('v, 'st) sdk \<Rightarrow> time \<Rightarrow> ('b, 'v, 'st) engine \<Rightarrow> ElectionID \<Rightarrow> Vote
    \<Rightarrow> ((gerror + Vote) \<times> ('b, 'v, 'st) engine) option" where
  "submit_finish k now e eid v =
     (case store_Election (store e) eid of
        Inl er \<Rightarrow> Some (Inl (Detail ''load election'' # er), e)
      | Inr el \<Rightarrow>
          if el_Status el \<noteq> StatusActive then Some (Inl [ErrNotAcceptingVotes], e)
          else (case runtime e eid of
            None \<Rightarrow> Some (Inl [Detail ''election not loaded''], e)
          | Some rt \<Rightarrow>
              (case AddVote now (store e) eid v of
                 (Inl er, s) \<Rightarrow> Some (Inl (Detail ''persist vote'' # er), e\<lparr>store := s\<rparr>)
               | (Inr v', s) \<Rightarrow>
                   map_option (\<lambda>(_, e', rt'). (Inr v', audit now (put_runtime rt' e') ''voter'' ''voter'' ''submit_vote'' eid))
                     (sealFullLocked k now (e\<lparr>store := s\<rparr>) (rt\<lparr>rt_pending := rt_pending rt @ [v']\<rparr>)))))"

definition SubmitVote ::
  "('v, 'st) sdk \<Rightarrow> time \<Rightarrow> ('b, 'v, 'st) engine \<Rightarrow> ElectionID \<Rightarrow> VoteSubmission
    \<Rightarrow> ((gerror + Vote) \<times> ('b, 'v, 'st) engine) option" where
  "SubmitVote k now e eid sub =
     (case submit_begin e eid sub of
        (Inl er, e1) \<Rightarrow> Some (Inl er, e1)
      | (Inr vr, e1) \<Rightarrow>
          (case submit_check k vr sub of
             Inl er \<Rightarrow> Some (Inl er, submit_release eid sub e1)
           | Inr (slot, payload) \<Rightarrow>
               map_option (\<lambda>(r, e2). (r, submit_release eid sub e2))
                 (submit_finish k now e1 eid (submitted now sub slot payload))))"

definition VoteRecord :: "('b, 'v, 'st) engine \<Rightarrow> ElectionID \<Rightarrow> VoteID \<Rightarrow> gerror + Vote \<times> VoteStatus" where
  "VoteRecord e eid vid =
     and_then (store_Vote (store e) eid vid) (\<lambda>v.
     and_then (store_VoteStatus (store e) eid vid) (\<lambda>st.
     Inr (v, st)))"

end
