(* ===== verification/Lifecycle.thy ===== *)
theory Lifecycle
  imports Seal
begin

text \<open>
  The lifecycle of an election (src/orchestrator/lifecycle.go and the finalize reasons of
  finalize.go): status changes on request or at the end time, the drain to the decrypting
  status, the decryption key, and what a finished finalize does. A method that holds
  \<open>rt.mu\<close> throughout is one step. \<open>drain\<close> and \<open>finalizeElection\<close> release it while the
  scheduler proves and folds: the scheduler's call is an argument that returns its result
  and the engine it leaves.
\<close>

section \<open>Status changes\<close>

fun statusChanges :: "Status \<Rightarrow> Status list option" where
  "statusChanges StatusActive = Some [StatusPaused, StatusEnded, StatusCanceled]"
| "statusChanges StatusPaused = Some [StatusActive, StatusEnded, StatusCanceled]"
| "statusChanges _ = None"

fun statusActions :: "Status \<Rightarrow> string" where
  "statusActions StatusActive = ''resume_election''"
| "statusActions StatusPaused = ''pause_election''"
| "statusActions StatusEnded = ''end_election''"
| "statusActions StatusCanceled = ''cancel_election''"
| "statusActions _ = []"

definition transitionError :: "Status \<Rightarrow> Status \<Rightarrow> gerror" where
  "transitionError from to =
     [ErrInvalidTransition, Detail (''election is '' @ Status_String from @ '', cannot become '' @ Status_String to)]"

definition deleteProofs :: "ElectionID \<Rightarrow> ('b, 'v, 'st) engine \<Rightarrow> ('b, 'v, 'st) engine" where
  "deleteProofs eid e = e\<lparr>store := snd (DeleteProofs (store e) eid)\<rparr>"

definition setVotesStatus :: "ElectionID \<Rightarrow> VoteStatus \<Rightarrow> ('b, 'v, 'st) engine \<Rightarrow> ('b, 'v, 'st) engine" where
  "setVotesStatus eid st e =
     e\<lparr>store := fold (\<lambda>v s. snd (SetVoteStatus s eid (v_ID v) st)) (ListVotes (store e) eid) (store e)\<rparr>"

definition sched_Forget :: "ElectionID \<Rightarrow> ('b, 'v, 'st) engine \<Rightarrow> ('b, 'v, 'st) engine" where
  "sched_Forget eid e = (case sched e of None \<Rightarrow> e | Some sc \<Rightarrow> e\<lparr>sched := Some (Forget sc eid)\<rparr>)"

text \<open>The update function of \<open>changeStatus\<close>, \<open>drain\<close> and \<open>SubmitDecryptionKey\<close>.\<close>

definition moveStatus :: "Status \<Rightarrow> Status \<Rightarrow> Election \<Rightarrow> gerror + Election" where
  "moveStatus from to stored =
     (if el_Status stored \<noteq> from then Inl (transitionError (el_Status stored) to)
      else Inr (stored\<lparr>el_Status := to\<rparr>))"

definition forgetElection :: "ElectionID \<Rightarrow> ('b, 'v, 'st) engine \<Rightarrow> ('b, 'v, 'st) engine" where
  "forgetElection eid e =
     sched_Forget eid (deleteProofs eid (setVotesStatus eid VoteStatusError
       (e\<lparr>runtimes := (runtimes e)(ElectionID_String eid := None)\<rparr>)))"

text \<open>What \<open>changeStatus\<close> does to the pending votes before the status is written.\<close>

definition settlePending ::
  "('v, 'st) sdk \<Rightarrow> time \<Rightarrow> ('b, 'v, 'st) engine \<Rightarrow> ('v, 'st) electionRuntime \<Rightarrow> Status
    \<Rightarrow> (('b, 'v, 'st) engine \<times> ('v, 'st) electionRuntime) option" where
  "settlePending k now e rt to =
     (if to = StatusEnded then map_option snd (sealAllLocked k now e rt)
      else if to = StatusCanceled then Some (e, rt\<lparr>rt_pending := []\<rparr>)
      else Some (e, rt))"

definition changeStatus ::
  "('v, 'st) sdk \<Rightarrow> time \<Rightarrow> ('b, 'v, 'st) engine \<Rightarrow> ('v, 'st) electionRuntime \<Rightarrow> string \<Rightarrow> string \<Rightarrow> Status
    \<Rightarrow> ((gerror + unit) \<times> ('b, 'v, 'st) engine) option" where
  "changeStatus k now e rt subject role to =
     (case store_Election (store e) (rt_id rt) of
        Inl _ \<Rightarrow> Some (Inl [ErrElectionNotFound], e)
      | Inr el \<Rightarrow>
          let from = el_Status el in
          if to \<notin> set (case statusChanges from of None \<Rightarrow> [] | Some tos \<Rightarrow> tos) then Some (Inl (transitionError from to), e)
          else map_option (\<lambda>(e1, rt1).
            (case UpdateElection now (store e1) (rt_id rt) (moveStatus from to) of
               (Inl er, s) \<Rightarrow> (Inl er, put_runtime rt1 (e1\<lparr>store := s\<rparr>))
             | (Inr _, s) \<Rightarrow>
                 let e2 = put_runtime rt1 (e1\<lparr>store := s\<rparr>);
                     e3 = (if to = StatusCanceled then forgetElection (rt_id rt) e2 else e2) in
                 (Inr (), audit now e3 subject role (statusActions to) (rt_id rt))))
            (settlePending k now e rt to))"

definition SetStatus ::
  "('v, 'st) sdk \<Rightarrow> time \<Rightarrow> ('b, 'v, 'st) engine \<Rightarrow> string \<Rightarrow> ElectionID \<Rightarrow> Status
    \<Rightarrow> ((gerror + unit) \<times> ('b, 'v, 'st) engine) option" where
  "SetStatus k now e subject eid to =
     (case store_Election (store e) eid of
        Inl _ \<Rightarrow> Some (Inl [ErrElectionNotFound], e)
      | Inr el \<Rightarrow>
          (case runtime e eid of
             None \<Rightarrow>
               (case statusChanges (el_Status el) of
                  Some _ \<Rightarrow> Some (Inl [Detail ''election not loaded''], e)
                | None \<Rightarrow> Some (Inl (transitionError (el_Status el) to), e))
           | Some rt \<Rightarrow> changeStatus k now e rt subject ''admin'' to))"

section \<open>The drain\<close>

type_synonym ('b, 'v, 'st) sched_call = "('b, 'v, 'st) engine \<Rightarrow> (gerror + unit) \<times> ('b, 'v, 'st) engine"

definition drain_seal ::
  "('v, 'st) sdk \<Rightarrow> time \<Rightarrow> ('b, 'v, 'st) engine \<Rightarrow> ('v, 'st) electionRuntime
    \<Rightarrow> ((gerror + unit) \<times> ('b, 'v, 'st) engine) option" where
  "drain_seal k now e rt =
     map_option (\<lambda>(r, e', rt'). (wrap (Detail ''seal pending votes'') r, put_runtime rt' e')) (sealAllLocked k now e rt)"

definition drain_publish :: "time \<Rightarrow> ('b, 'v, 'st) engine \<Rightarrow> ElectionID \<Rightarrow> (gerror + unit) \<times> ('b, 'v, 'st) engine" where
  "drain_publish now e eid =
     (case UpdateElection now (store e) eid (moveStatus StatusEnded StatusDecrypting) of
        (Inl er, s) \<Rightarrow> (Inl (Detail ''set decrypting'' # er), e\<lparr>store := s\<rparr>)
      | (Inr _, s) \<Rightarrow> (Inr (), audit now (e\<lparr>store := s\<rparr>) ''system'' ''system'' ''publish_encrypted_results'' eid))"

definition drain ::
  "('v, 'st) sdk \<Rightarrow> time \<Rightarrow> ('b, 'v, 'st) sched_call \<Rightarrow> ('b, 'v, 'st) engine \<Rightarrow> ('v, 'st) electionRuntime
    \<Rightarrow> ((gerror + unit) \<times> ('b, 'v, 'st) engine) option" where
  "drain k now sched_Drain e rt =
     map_option (\<lambda>(r, e1).
       (case r of
          Inl er \<Rightarrow> (Inl er, e1)
        | Inr _ \<Rightarrow>
            (case sched_Drain e1 of
               (Inl er, e2) \<Rightarrow> (Inl er, e2)
             | (Inr _, e2) \<Rightarrow> drain_publish now e2 (rt_id rt))))
       (drain_seal k now e rt)"

text \<open>\<open>stopping\<close> is whether the engine's context is done when a failed drain returns.\<close>

definition drainAndPublish ::
  "('v, 'st) sdk \<Rightarrow> time \<Rightarrow> bool \<Rightarrow> ('b, 'v, 'st) sched_call \<Rightarrow> ('b, 'v, 'st) engine \<Rightarrow> ('v, 'st) electionRuntime
    \<Rightarrow> ('b, 'v, 'st) engine option" where
  "drainAndPublish k now stopping sched_Drain e rt =
     (let eid = rt_id rt; i = ElectionID_String eid in
      if i \<in> draining e then Some e
      else if sched e = None then Some e
      else map_option (\<lambda>(r, e1).
        (case r of
           Inl _ \<Rightarrow> if stopping then e1 else e1\<lparr>eng_retries := snd (failed now (eng_retries e1) eid taskDrain)\<rparr>
         | Inr _ \<Rightarrow> e1\<lparr>eng_retries := succeeded (eng_retries e1) eid taskDrain\<rparr>)\<lparr>draining := draining e1 - {i}\<rparr>)
        (drain k now sched_Drain (e\<lparr>draining := insert i (draining e)\<rparr>) rt))"

section \<open>Results\<close>

definition EncryptedResults :: "('v, 'st) sdk \<Rightarrow> ('b, 'v, 'st) engine \<Rightarrow> ElectionID \<Rightarrow> gerror + string list" where
  "EncryptedResults k e eid =
     and_then (store_Election (store e) eid) (\<lambda>el.
     and_then (require (el_Status el \<in> {StatusDecrypting, StatusFinalizing, StatusResults})
       [Detail (''election not decrypting yet (status '' @ Status_String (el_Status el) @ '')'')]) (\<lambda>_.
     (case runtime e eid of
        None \<Rightarrow> Inl [Detail ''election not loaded'']
      | Some rt \<Rightarrow> Inr (EncryptedResultsOf k (rt_state rt)))))"

definition checkDecryptionKey :: "('v, 'st) sdk \<Rightarrow> 'v \<Rightarrow> int \<Rightarrow> gerror + unit" where
  "checkDecryptionKey k encKey key =
     and_then (require (\<not> (key \<le> 0 \<or> key \<ge> Order k encKey)) [ErrInvalidDecryptionKey, Detail ''out of range'']) (\<lambda>_.
     require (PointEqual k (ScalarBaseMult k key) encKey)
       [ErrInvalidDecryptionKey, Detail ''it does not match the election's encryption key''])"

text \<open>
  \<open>SubmitDecryptionKey\<close> up to the start of the background finalize: on success the
  finalize runs, and \<open>finalizeElection\<close> is what it does when it returns. \<open>canFinalize\<close> is \<open>e.finalize != nil\<close>: a worker pool
  is configured.
\<close>

definition canFinalize :: "('b, 'v, 'st) engine \<Rightarrow> bool" where
  "canFinalize e \<longleftrightarrow> sched e \<noteq> None"

definition SubmitDecryptionKey ::
  "('v, 'st) sdk \<Rightarrow> time \<Rightarrow> ('b, 'v, 'st) engine \<Rightarrow> string \<Rightarrow> ElectionID \<Rightarrow> int \<Rightarrow> (gerror + unit) \<times> ('b, 'v, 'st) engine" where
  "SubmitDecryptionKey k now e subject eid key =
     (case store_Election (store e) eid of
        Inl _ \<Rightarrow> (Inl [ErrElectionNotFound], e)
      | Inr el \<Rightarrow>
          if el_Status el \<noteq> StatusDecrypting then (Inl (transitionError (el_Status el) StatusFinalizing), e)
          else (case runtime e eid of
            None \<Rightarrow> (Inl [Detail ''election not loaded''], e)
          | Some rt \<Rightarrow>
              (case checkDecryptionKey k (EncKey (rt_cfg rt)) key of
                 Inl er \<Rightarrow> (Inl er, e)
               | Inr _ \<Rightarrow>
                   if \<not> canFinalize e then (Inl [Detail ''no worker pool configured: cannot finalize''], e)
                   else if ElectionID_String eid \<in> finalizing e
                   then (Inl [ErrInvalidTransition, Detail ''a finalize is already running''], e)
                   else
                     (case UpdateElection now (store e) eid
                        (\<lambda>stored. and_then (moveStatus StatusDecrypting StatusFinalizing stored)
                                    (\<lambda>stored. Inr (stored\<lparr>el_FinalizeError := []\<rparr>))) of
                        (Inl er, s) \<Rightarrow> (Inl er, e\<lparr>store := s\<rparr>)
                      | (Inr _, s) \<Rightarrow>
                          let e1 = audit now (e\<lparr>store := s\<rparr>) subject ''keywarden'' ''submit_decryption_key'' eid in
                          if bgStopped e1 then (Inl [Detail ''shutting down''], e1)
                          else (Inr (), e1\<lparr>finalizing := insert (ElectionID_String eid) (finalizing e1)\<rparr>)))))"

section \<open>The end of a finalize\<close>

fun sentinel_Error :: "sentinel \<Rightarrow> string" where
  "sentinel_Error ErrProverUnavailable = ''prover unavailable''"
| "sentinel_Error ErrFinalizeInterrupted = ''finalize interrupted''"
| "sentinel_Error ErrNothingToFinalize = ''nothing to finalize''"
| "sentinel_Error ErrFinalFoldFailed = ''fold failed''"
| "sentinel_Error ErrDecryptionFailed = ''decryption failed''"
| "sentinel_Error ErrFinalProofFailed = ''final proof failed''"
| "sentinel_Error ErrVerificationFailed = ''final proof verification failed''"
| "sentinel_Error ErrFinalizeInternal = ''internal error''"
| "sentinel_Error (Detail d) = d"
| "sentinel_Error ErrNotFound = ''not found''"
| "sentinel_Error ErrKeyAlreadyExists = ''key already exists''"
| "sentinel_Error ErrNoMoreElements = ''no more elements''"
| "sentinel_Error ErrElectionNotFound = ''election not found''"
| "sentinel_Error ErrNotAcceptingVotes = ''election is not accepting votes''"
| "sentinel_Error ErrVoteAlreadySubmitted = ''vote already submitted''"
| "sentinel_Error ErrInvalidBallotProof = ''invalid ballot proof''"
| "sentinel_Error ErrInvalidSignature = ''invalid signature''"
| "sentinel_Error ErrInvalidCensusProof = ''invalid census proof''"
| "sentinel_Error ErrMalformedVote = ''malformed vote''"
| "sentinel_Error ErrInvalidTransition = ''invalid election status transition''"
| "sentinel_Error ErrInvalidDecryptionKey = ''invalid decryption key''"
| "sentinel_Error ErrWorkerNotFound = ''worker not found''"
| "sentinel_Error ErrWorkerRemoved = ''worker removed from the pool''"
| "sentinel_Error ErrNoWorker = ''no healthy worker available''"
| "sentinel_Error ErrFoldWorker = ''fold worker failed''"
| "sentinel_Error ErrJobFailed = ''job failed''"
| "sentinel_Error ErrStopped = ''election no longer running''"
| "sentinel_Error ContextCanceled = ''context canceled''"

text \<open>\<open>err.Error()\<close> of an error chain: its texts, each wrapped in the one before.\<close>

fun gerror_Error :: "gerror \<Rightarrow> string" where
  "gerror_Error [] = []"
| "gerror_Error [x] = sentinel_Error x"
| "gerror_Error (x # y # er) = sentinel_Error x @ '': '' @ gerror_Error (y # er)"

definition finalizeSummary :: "gerror \<Rightarrow> string" where
  "finalizeSummary er =
     (if errors_Is er ErrNoWorker \<or> errors_Is er ErrWorkerRemoved \<or> errors_Is er ErrProverUnavailable
      then sentinel_Error ErrProverUnavailable
      else if errors_Is er ContextCanceled \<or> errors_Is er ErrFinalizeInterrupted
      then sentinel_Error ErrFinalizeInterrupted
      else (case find (errors_Is er)
              [ErrNothingToFinalize, ErrFinalFoldFailed, ErrDecryptionFailed, ErrFinalProofFailed, ErrVerificationFailed] of
              Some reason \<Rightarrow> sentinel_Error reason
            | None \<Rightarrow> sentinel_Error ErrFinalizeInternal))"

text \<open>The part of \<open>finalizeElection\<close> after \<open>e.finalize\<close> returned \<open>res\<close>.\<close>

definition finalizeElection ::
  "time \<Rightarrow> ('b, 'v, 'st) engine \<Rightarrow> ElectionID \<Rightarrow> gerror + Results \<Rightarrow> ('b, 'v, 'st) engine" where
  "finalizeElection now e eid res =
     (let e1 = e\<lparr>finalizing := finalizing e - {ElectionID_String eid}\<rparr> in
      case res of
        Inl er \<Rightarrow>
          let e2 = audit now e1 ''system'' ''system'' (''finalize_failed: '' @ gerror_Error er) eid in
          e2\<lparr>store := snd (UpdateElection now (store e2) eid
            (\<lambda>el. Inr (el\<lparr>el_Status := StatusDecrypting, el_FinalizeError := finalizeSummary er\<rparr>)))\<rparr>
      | Inr _ \<Rightarrow>
          let e2 = setVotesStatus eid VoteStatusSettled e1 in
          (case SetElectionStatus now (store e2) eid StatusResults of
             (Inl _, s) \<Rightarrow> e2\<lparr>store := s\<rparr>
           | (Inr _, s) \<Rightarrow> sched_Forget eid (deleteProofs eid (e2\<lparr>store := s\<rparr>))))"

definition engine_Results :: "('b, 'v, 'st) engine \<Rightarrow> ElectionID \<Rightarrow> gerror + Results" where
  "engine_Results e eid = store_Results (store e) eid"

end
