(* ===== verification/Engine_Ops.thy ===== *)
theory Engine_Ops
  imports Ingest Lifecycle
begin

text \<open>
  The engine's own operations (src/orchestrator/engine.go): start-up with the recovery of
  the stored elections, creation of an election, the worker registrations, and the sweep of
  the lifecycle monitor. Go's map order is an argument (\<open>order\<close>: the keys in the order a
  range meets them).
\<close>

section \<open>Recovery\<close>

text \<open>
  \<open>slices.SortFunc\<close> orders votes by their sequence number; votes with one number (there are
  none in an election's log) would keep an unspecified order.
\<close>

definition unsealedVotes :: "'b storage \<Rightarrow> ElectionID \<Rightarrow> BatchInput list \<Rightarrow> gerror + Vote list" where
  "unsealedVotes s eid batches =
     (case VotesWithStatus s eid VoteStatusPending of
        Inl er \<Rightarrow> Inl er
      | Inr votes \<Rightarrow>
          let sealed = set (concat (map bi_VoteIDs batches)) in
          Inr (sort_key v_Seq (filter (\<lambda>v. v_ID v \<notin> sealed) votes)))"

definition runtimeFromStorage ::
  "('v, 'st) sdk \<Rightarrow> int \<Rightarrow> 'b storage \<Rightarrow> Election \<Rightarrow> gerror + ('v, 'st) electionRuntime" where
  "runtimeFromStorage k batchSz s el =
     and_then (wrap (Detail ''config'') (newVoteRules k (el_Config el))) (\<lambda>vr.
     and_then (wrap (Detail ''snapshot'') (store_Snapshot s (el_ID el))) (\<lambda>blob.
     and_then (wrap (Detail ''restore state'') (RestoreState k (vr_cfg vr) blob)) (\<lambda>st.
     (let batches = ListBatchInputs s (el_ID el) in
      and_then (wrap (Detail ''pending votes'') (unsealedVotes s (el_ID el) batches)) (\<lambda>pending.
      Inr \<lparr>rt_id = el_ID el, rt_cfg = vr_cfg vr, rt_rules = vr, rt_state = st, rt_dirty = False, rt_pending = pending,
           rt_batchSeq = of_nat (length batches),
           rt_batchSize = (if el_BatchSize el \<le> 0 then batchSz else el_BatchSize el)\<rparr>)))))"

definition resetFinalizing :: "time \<Rightarrow> ('b, 'v, 'st) engine \<Rightarrow> Election \<Rightarrow> ('b, 'v, 'st) engine \<times> Election" where
  "resetFinalizing now e el =
     (if el_Status el = StatusFinalizing
      then (e\<lparr>store := snd (UpdateElection now (store e) (el_ID el)
              (\<lambda>stored. Inr (stored\<lparr>el_Status := StatusDecrypting,
                 el_FinalizeError := sentinel_Error ErrFinalizeInterrupted\<rparr>)))\<rparr>,
            el\<lparr>el_Status := StatusDecrypting\<rparr>)
      else (e, el))"

definition restoreElection :: "('v, 'st) sdk \<Rightarrow> time \<Rightarrow> Election \<Rightarrow> ('b, 'v, 'st) engine \<Rightarrow> ('b, 'v, 'st) engine" where
  "restoreElection k now el e =
     (if el_Status el = StatusCanceled \<or> el_Status el = StatusResults then deleteProofs (el_ID el) e
      else
        let (e1, el1) = resetFinalizing now e el in
        (case runtimeFromStorage k (eng_batchSize e1) (store e1) el1 of
           Inl _ \<Rightarrow> e1
         | Inr rt \<Rightarrow>
             let e2 = put_runtime rt e1 in
             if el_Status el1 \<noteq> StatusEnded
             then e2\<lparr>eng_retries := schedule (eng_retries e2) (el_ID el1) taskDispatch\<rparr>
             else e2))"

definition restore :: "('v, 'st) sdk \<Rightarrow> time \<Rightarrow> ('b, 'v, 'st) engine \<Rightarrow> ('b, 'v, 'st) engine" where
  "restore k now e = fold (restoreElection k now) (ListElections (store e)) e"

definition restoreWorkers :: "('b, 'v, 'st) engine \<Rightarrow> ('b, 'v, 'st) engine" where
  "restoreWorkers e =
     (case pool e of
        None \<Rightarrow> e
      | Some wm \<Rightarrow>
          e\<lparr>pool := Some (fold (\<lambda>r wm. snd (AddWorker wm (wr_Address r) (wr_Name r))) (ListWorkers (store e)) wm)\<rparr>)"

record Options =
  opt_BatchSize :: int
  opt_BatchTimeWindow :: duration
  opt_Pool :: "WorkerManager option"
  opt_FoldEvery :: int
  opt_JobTimeout :: duration
  opt_JobPoll :: duration

definition maxJobAttempts :: nat where "maxJobAttempts = 3"
definition defaultJobTimeout :: duration where "defaultJobTimeout = 30 * minute"
definition defaultJobPoll :: duration where "defaultJobPoll = 5 * second"
definition reservationMargin :: duration where "reservationMargin = 5 * minute"

definition NewScheduler :: "'b storage \<Rightarrow> int \<Rightarrow> duration \<Rightarrow> duration \<Rightarrow> scheduler \<times> 'b storage" where
  "NewScheduler s foldEvery timeout poll =
     (let fe = (if foldEvery \<le> 0 then defaultFoldEvery else foldEvery);
          t = (if timeout \<le> 0 then defaultJobTimeout else timeout);
          p = (if poll \<le> 0 then defaultJobPoll else poll) in
      (\<lparr>sc_timeout = t, sc_poll = p, sc_foldEvery = fe, sc_stopped = False, dispatchers = Map.empty,
        chains = Map.empty, driveMu = {}\<rparr>,
       SetReservationTimeout s (int maxJobAttempts * t + reservationMargin)))"

definition NewEngine :: "('v, 'st) sdk \<Rightarrow> time \<Rightarrow> 'b storage \<Rightarrow> Options \<Rightarrow> ('b, 'v, 'st) engine" where
  "NewEngine k now s opts =
     (let fe = (if opt_FoldEvery opts \<le> 0 then defaultFoldEvery else opt_FoldEvery opts);
          (sc, s') =
            (case opt_Pool opts of
               None \<Rightarrow> (None, s)
             | Some _ \<Rightarrow> apfst Some (NewScheduler s fe (opt_JobTimeout opts) (opt_JobPoll opts))) in
      restore k now (restoreWorkers
       \<lparr>store = s',
        eng_batchSize = (if opt_BatchSize opts \<le> 0 then defaultBatchSize else opt_BatchSize opts),
        eng_foldEvery = fe,
        window = (if opt_BatchTimeWindow opts \<le> 0 then defaultBatchTimeWindow else opt_BatchTimeWindow opts),
        pool = opt_Pool opts,
        sched = sc,
        draining = {}, finalizing = {}, eng_retries = newRetries, bgStopped = False,
        runtimes = Map.empty, draws = 0\<rparr>))"

definition Stop :: "('b, 'v, 'st) engine \<Rightarrow> ('b, 'v, 'st) engine" where
  "Stop e = e\<lparr>bgStopped := True, sched := map_option sched_Stop (sched e)\<rparr>"

definition goBackground ::
  "(('b, 'v, 'st) engine \<Rightarrow> ('b, 'v, 'st) engine) \<Rightarrow> ('b, 'v, 'st) engine \<Rightarrow> bool \<times> ('b, 'v, 'st) engine" where
  "goBackground fn e = (if bgStopped e then (False, e) else (True, fn e))"

section \<open>Elections\<close>

text \<open>The checks of \<open>CreateElection\<close>, with the defaults it fills in.\<close>

definition prepareElection ::
  "('v, 'st) sdk \<Rightarrow> ('b, 'v, 'st) engine \<Rightarrow> Election \<Rightarrow> gerror + Election \<times> 'v voteRules \<times> 'st \<times> bytes" where
  "prepareElection k e el =
     (let raw = (if cfg_VK (el_Config el) = [] \<or> cfg_VK (el_Config el) = ''null''
                 then CircomVerificationKey k else cfg_VK (el_Config el)) in
      and_then (wrap (Detail ''invalid election config: vk'') (parseBallotVK k raw)) (\<lambda>(_, vk).
      (let cfg = (el_Config el)\<lparr>cfg_VK := vk\<rparr> in
       and_then (wrap (Detail ''invalid election config'') (newVoteRules k cfg)) (\<lambda>vr.
       and_then (wrap (Detail ''genesis state'') (NewState k (vr_cfg vr))) (\<lambda>st.
       and_then (wrap (Detail ''genesis snapshot'') (Snapshot k st)) (\<lambda>snapshot.
       (let bs = (if el_BatchSize el \<le> 0 then eng_batchSize e else el_BatchSize el);
            fe = (if el_FoldEvery el \<le> 0 then eng_foldEvery e else el_FoldEvery el) in
        and_then (require (minBatchSize \<le> bs) [Detail ''batch size is below the minimum'']) (\<lambda>_.
        and_then (require (bs \<le> MaxBatchSize k) [Detail ''batch size exceeds circuit maximum'']) (\<lambda>_.
        Inr (el\<lparr>el_Config := cfg, el_BatchSize := bs, el_FoldEvery := fe, el_Status := StatusActive\<rparr>,
             vr, st, snapshot))))))))))"

definition engine_CreateElection ::
  "('v, 'st) sdk \<Rightarrow> time \<Rightarrow> ('b, 'v, 'st) engine \<Rightarrow> string \<Rightarrow> Election \<Rightarrow> (gerror + Election) \<times> ('b, 'v, 'st) engine" where
  "engine_CreateElection k now e subject el =
     (case prepareElection k e el of
        Inl er \<Rightarrow> (Inl er, e)
      | Inr (el', vr, st, snapshot) \<Rightarrow>
          (case CreateElection now (store e) el' snapshot of
             (Inl er, s) \<Rightarrow> (Inl er, e\<lparr>store := s\<rparr>)
           | (Inr stored, s) \<Rightarrow>
               let rt = \<lparr>rt_id = el_ID stored, rt_cfg = vr_cfg vr, rt_rules = vr, rt_state = st, rt_dirty = False,
                         rt_pending = [], rt_batchSeq = 0, rt_batchSize = el_BatchSize stored\<rparr> in
               (Inr stored, audit now (put_runtime rt (e\<lparr>store := s\<rparr>)) subject ''admin'' ''create_election'' (el_ID stored))))"

definition withDefaults :: "('b, 'v, 'st) engine \<Rightarrow> Election \<Rightarrow> Election" where
  "withDefaults e el = (if el_FoldEvery el \<le> 0 then el\<lparr>el_FoldEvery := eng_foldEvery e\<rparr> else el)"

definition engine_Election :: "('b, 'v, 'st) engine \<Rightarrow> ElectionID \<Rightarrow> gerror + Election" where
  "engine_Election e eid = and_then (store_Election (store e) eid) (\<lambda>el. Inr (withDefaults e el))"

definition engine_ListElections :: "('b, 'v, 'st) engine \<Rightarrow> Election list" where
  "engine_ListElections e = map (withDefaults e) (ListElections (store e))"

section \<open>Worker registrations\<close>

definition RegisterWorker ::
  "time \<Rightarrow> ('b, 'v, 'st) engine \<Rightarrow> string \<Rightarrow> string \<Rightarrow> string \<Rightarrow> (gerror + handle) \<times> ('b, 'v, 'st) engine" where
  "RegisterWorker now e subject address name =
     (case pool e of
        None \<Rightarrow> (Inl [Detail ''no worker pool configured''], e)
      | Some wm \<Rightarrow>
          let known = GetWorker wm address \<noteq> None;
              (h, wm1) = AddWorker wm address name;
              w = worker wm1 h in
          (case SetWorker now (store e) \<lparr>wr_Address = w_Address w, wr_Name = w_Name w, wr_RegisteredAt = 0\<rparr> of
             (Inl er, s) \<Rightarrow>
               (Inl (Detail ''persist worker'' # er),
                e\<lparr>store := s, pool := Some (if known then wm1 else Workers.RemoveWorker wm1 address)\<rparr>)
           | (Inr _, s) \<Rightarrow>
               (Inr h, audit now (e\<lparr>store := s, pool := Some wm1\<rparr>) subject ''admin'' (''register_worker:'' @ address) [])))"

definition loaded :: "('b, 'v, 'st) engine \<Rightarrow> string list \<Rightarrow> ('v, 'st) electionRuntime list" where
  "loaded e order = List.map_filter (runtimes e) order"

definition moveFoldChains :: "string list \<Rightarrow> string \<Rightarrow> ('b, 'v, 'st) engine \<Rightarrow> ('b, 'v, 'st) engine" where
  "moveFoldChains order address e =
     fold (\<lambda>eid e.
        case store_Election (store e) eid of
          Inl _ \<Rightarrow> e
        | Inr el \<Rightarrow> if el_FoldWorker el = address then notify eid e else e)
       (map rt_id (loaded e order)) e"

definition engine_RemoveWorker ::
  "time \<Rightarrow> string list \<Rightarrow> string list \<Rightarrow> ('b, 'v, 'st) engine \<Rightarrow> string \<Rightarrow> string \<Rightarrow> (gerror + unit) \<times> ('b, 'v, 'st) engine" where
  "engine_RemoveWorker now worder order e subject workerID =
     (case Option.bind (pool e) (\<lambda>wm. map_option (\<lambda>h. (wm, h)) (WorkerByID wm worder workerID)) of
        None \<Rightarrow> (Inl [ErrWorkerNotFound], e)
      | Some (wm, h) \<Rightarrow>
          let address = w_Address (worker wm h) in
          (case DeleteWorker (store e) address of
             (Inl er, s) \<Rightarrow> (Inl (Detail ''delete worker'' # er), e\<lparr>store := s\<rparr>)
           | (Inr _, s) \<Rightarrow>
               (Inr (),
                moveFoldChains order address
                  (audit now (e\<lparr>store := s, pool := Some (RemoveWorker wm address)\<rparr>) subject ''admin''
                    (''remove_worker:'' @ address) []))))"

section \<open>The lifecycle monitor\<close>

definition endElection ::
  "('v, 'st) sdk \<Rightarrow> time \<Rightarrow> ('v, 'st) electionRuntime \<Rightarrow> ('b, 'v, 'st) engine \<Rightarrow> ('b, 'v, 'st) engine option" where
  "endElection k now rt e =
     (if \<not> due now (eng_retries e) (rt_id rt) taskEnd then Some e
      else map_option (\<lambda>(r, e').
        (case r of
           Inl er \<Rightarrow>
             if errors_Is er ErrInvalidTransition
             then e'\<lparr>eng_retries := succeeded (eng_retries e') (rt_id rt) taskEnd\<rparr>
             else e'\<lparr>eng_retries := snd (failed now (eng_retries e') (rt_id rt) taskEnd)\<rparr>
         | Inr _ \<Rightarrow> e'\<lparr>eng_retries := succeeded (eng_retries e') (rt_id rt) taskEnd\<rparr>))
        (changeStatus k now e rt ''system'' ''system'' StatusEnded))"

definition retryDispatch :: "time \<Rightarrow> ElectionID \<Rightarrow> ('b, 'v, 'st) engine \<Rightarrow> ('b, 'v, 'st) engine" where
  "retryDispatch now eid e =
     (case sched e of
        None \<Rightarrow> e
      | Some sc \<Rightarrow>
          let (run, r) = take_task now (eng_retries e) eid taskDispatch in
          if run then notify eid (e\<lparr>eng_retries := r\<rparr>) else e\<lparr>eng_retries := r\<rparr>)"

text \<open>
  What a sweep does to one runtime. The drain of an ended election runs in the background:
  the sweep returns the elections whose drain it starts.
\<close>

definition tick_election ::
  "('v, 'st) sdk \<Rightarrow> time \<Rightarrow> ('v, 'st) electionRuntime \<Rightarrow> ('b, 'v, 'st) engine
    \<Rightarrow> (('b, 'v, 'st) engine \<times> ElectionID list) option" where
  "tick_election k now rt e =
     (case store_Election (store e) (rt_id rt) of
        Inl _ \<Rightarrow> Some (e, [])
      | Inr el \<Rightarrow>
          if el_Status el = StatusActive \<or> el_Status el = StatusPaused then
            if el_EndTime el \<noteq> 0 \<and> now > el_EndTime el
            then map_option (\<lambda>e'. (e', [])) (endElection k now rt e)
            else map_option (\<lambda>(_, e', rt'). (retryDispatch now (rt_id rt) (put_runtime rt' e'), [])) (sealIfStale k now e rt)
          else if el_Status el = StatusEnded then
            Some (e, if due now (eng_retries e) (rt_id rt) taskDrain \<and> \<not> bgStopped e then [rt_id rt] else [])
          else if el_Status el = StatusDecrypting then Some (retryDispatch now (rt_id rt) e, [])
          else Some (e, []))"

fun tick_loop ::
  "('v, 'st) sdk \<Rightarrow> time \<Rightarrow> string list \<Rightarrow> ('b, 'v, 'st) engine \<Rightarrow> (('b, 'v, 'st) engine \<times> ElectionID list) option" where
  "tick_loop k now [] e = Some (e, [])"
| "tick_loop k now (i # is) e =
     (case runtimes e i of
        None \<Rightarrow> tick_loop k now is e
      | Some rt \<Rightarrow>
          (case tick_election k now rt e of
             None \<Rightarrow> None
           | Some (e1, ds) \<Rightarrow>
               (case tick_loop k now is e1 of None \<Rightarrow> None | Some (e2, ds') \<Rightarrow> Some (e2, ds @ ds'))))"

definition tick ::
  "('v, 'st) sdk \<Rightarrow> time \<Rightarrow> string list \<Rightarrow> ('b, 'v, 'st) engine \<Rightarrow> (('b, 'v, 'st) engine \<times> ElectionID list) option" where
  "tick k now order e = tick_loop k now order e"

end
