(* ===== verification/Runtime_Inv.thy ===== *)
theory Runtime_Inv
  imports Seal_Laws Engine_Ops
begin

text \<open>
  The invariant that ties an election's in-memory runtime to the storage, and that sealing
  keeps it: the vote log is complete and numbered without repetition, batches are numbered
  from zero without gaps and share no vote, every vote of the pending buffer is stored with
  the pending status in no batch, the buffer is in submission order, and the state in memory
  is the persisted snapshot unless it is marked dirty. The counters cannot overflow before
  the vote counter does: a batch takes at least one vote.
\<close>

section \<open>The stored side\<close>

definition counter :: "'b storage \<Rightarrow> ElectionID \<Rightarrow> u64" where
  "counter s eid = (case voteSeq_at s eid of None \<Rightarrow> 0 | Some n \<Rightarrow> n)"

definition pend :: "'b storage \<Rightarrow> ElectionID \<Rightarrow> VoteID set" where
  "pend s eid = {vid. vote_at s eid vid \<noteq> None \<and> status_at s eid vid = Some VoteStatusPending}"

definition log_inv :: "'b storage \<Rightarrow> ElectionID \<Rightarrow> bool" where
  "log_inv s eid \<longleftrightarrow>
     (\<forall>vid. vote_at s eid vid = None \<longleftrightarrow> status_at s eid vid = None) \<and>
     (\<forall>vid v. vote_at s eid vid = Some v \<longrightarrow> v_Seq v \<le> counter s eid) \<and>
     (\<forall>vid vid' v v'. vote_at s eid vid = Some v \<and> vote_at s eid vid' = Some v' \<and> v_Seq v = v_Seq v' \<longrightarrow> vid = vid')"

definition batch_votes :: "'b storage \<Rightarrow> ElectionID \<Rightarrow> u64 \<Rightarrow> VoteID list option" where
  "batch_votes s eid sq = map_option bi_VoteIDs (batch_at s eid sq)"

definition batches_inv :: "'b storage \<Rightarrow> ElectionID \<Rightarrow> u64 \<Rightarrow> bool" where
  "batches_inv s eid n \<longleftrightarrow>
     (\<forall>sq. batch_votes s eid sq \<noteq> None \<longleftrightarrow> sq < n) \<and>
     (\<forall>sq vids. batch_votes s eid sq = Some vids \<longrightarrow> distinct vids \<and>
        (\<forall>vid \<in> set vids. vote_at s eid vid \<noteq> None \<and> vid \<notin> pend s eid)) \<and>
     (\<forall>sq sq' vids vids'. batch_votes s eid sq = Some vids \<and> batch_votes s eid sq' = Some vids' \<and> sq \<noteq> sq' \<longrightarrow>
        set vids \<inter> set vids' = {}) \<and>
     unat n + card (pend s eid) \<le> unat (counter s eid)"

definition store_inv :: "'b storage \<Rightarrow> ElectionID \<Rightarrow> bool" where
  "store_inv s eid \<longleftrightarrow> log_inv s eid \<and> (\<exists>n. batches_inv s eid n)"

definition rt_inv :: "('v, 'st) sdk \<Rightarrow> 'b storage \<Rightarrow> ('v, 'st) electionRuntime \<Rightarrow> bool" where
  "rt_inv k s rt \<longleftrightarrow>
     rt_ok k s rt \<and> 1 \<le> rt_batchSize rt \<and> batches_inv s (rt_id rt) (rt_batchSeq rt) \<and>
     sorted_wrt (<) (map v_Seq (rt_pending rt)) \<and>
     (\<forall>v \<in> set (rt_pending rt). vote_at s (rt_id rt) (v_ID v) = Some v \<and> v_ID v \<in> pend s (rt_id rt))"

lemma finite_keys: "finite {key. artifact_at s key \<noteq> None}"
proof (rule finite_imageD)
  have "key_bytes ` {key. artifact_at s key \<noteq> None} \<subseteq> fst ` set (db s)"
    by (auto simp: artifact_at_def at_key_def kv_get_def dest!: map_of_SomeD split: bind_splits) (force dest: map_of_SomeD)
  then show "finite (key_bytes ` {key. artifact_at s key \<noteq> None})" by (rule finite_subset) simp
  show "inj_on key_bytes {key. artifact_at s key \<noteq> None}" by (simp add: inj_on_def)
qed

lemma finite_pend [simp]: "finite (pend s eid)"
proof (rule finite_imageD)
  show "finite (VoteK eid ` pend s eid)"
    by (rule finite_subset[OF _ finite_keys[of s]]) (auto simp: pend_def split: bind_splits)
  show "inj_on (VoteK eid) (pend s eid)" by (simp add: inj_on_def)
qed

lemma batches_inv_unique: "batches_inv s eid n \<Longrightarrow> batches_inv s eid m \<Longrightarrow> m = n"
  unfolding batches_inv_def by (metis less_irrefl linorder_neqE)

section \<open>Frames\<close>

text \<open>The keys the invariant of an election reads.\<close>

definition same_log :: "ElectionID \<Rightarrow> 'b storage \<Rightarrow> 'b storage \<Rightarrow> bool" where
  "same_log eid s t \<longleftrightarrow>
     (\<forall>vid. vote_at t eid vid = vote_at s eid vid \<and> status_at t eid vid = status_at s eid vid) \<and>
     voteSeq_at t eid = voteSeq_at s eid \<and>
     (\<forall>sq. batch_votes t eid sq = batch_votes s eid sq) \<and>
     snapshot_at t eid = snapshot_at s eid"

lemma same_log_refl: "same_log eid s s"
  by (simp add: same_log_def)

lemma same_log_trans: "same_log eid s t \<Longrightarrow> same_log eid t u \<Longrightarrow> same_log eid s u"
  by (simp add: same_log_def)

lemma same_log_keys:
  "(\<And>key. key \<in> range (VoteK eid) \<union> range (VoteStatusK eid) \<union> range (BatchK eid) \<union> {VoteSeqK eid, SnapshotK eid} \<Longrightarrow>
      artifact_at t key = artifact_at s key) \<Longrightarrow> same_log eid s t"
  by (simp add: same_log_def batch_votes_def)

lemma same_log_views:
  assumes "same_log eid s t"
  shows "counter t eid = counter s eid" "pend t eid = pend s eid"
    "log_inv t eid \<longleftrightarrow> log_inv s eid" "batches_inv t eid n \<longleftrightarrow> batches_inv s eid n" "store_inv t eid \<longleftrightarrow> store_inv s eid"
proof -
  have v: "vote_at t eid vid = vote_at s eid vid" "status_at t eid vid = status_at s eid vid" for vid
    using assms by (simp_all add: same_log_def)
  show c: "counter t eid = counter s eid" using assms by (simp add: same_log_def counter_def)
  show p: "pend t eid = pend s eid" by (simp add: pend_def v)
  show l: "log_inv t eid \<longleftrightarrow> log_inv s eid" by (simp add: log_inv_def v c)
  show "batches_inv t eid n \<longleftrightarrow> batches_inv s eid n" for n
    using assms by (simp add: batches_inv_def v c p same_log_def)
  then show "store_inv t eid \<longleftrightarrow> store_inv s eid" by (simp add: store_inv_def l)
qed

lemma same_log_synced:
  "same_log (rt_id rt) s t \<Longrightarrow> storage_wf s \<Longrightarrow> storage_wf t \<Longrightarrow> synced k t rt = synced k s rt"
  by (simp add: synced_def reads same_log_def)

lemma same_log_rt_inv:
  assumes "same_log (rt_id rt) s t" and "storage_wf s" and "storage_wf t"
  shows "rt_inv k t rt \<longleftrightarrow> rt_inv k s rt"
proof -
  have "vote_at t (rt_id rt) vid = vote_at s (rt_id rt) vid" for vid using assms by (simp add: same_log_def)
  then show ?thesis
    by (simp add: rt_inv_def rt_ok_def same_log_synced[OF assms] same_log_views[OF assms(1)])
qed

lemma quiet_same_log: "quiet eid V s t \<Longrightarrow> storage_wf s \<Longrightarrow> eid' \<noteq> eid \<or> V = {} \<Longrightarrow> same_log eid' s t"
  by (rule same_log_keys, rule quiet_at) auto

lemma persisted_same_log: "persisted k el blocks sealed rt s t \<Longrightarrow> eid \<noteq> rt_id rt \<Longrightarrow> same_log eid s t"
  by (rule same_log_keys) (auto simp: persisted_def)

section \<open>What marking and persisting do to the invariant\<close>

lemma quiet_views:
  assumes q: "quiet eid V s t" and wf: "storage_wf s" and V: "\<And>v. v \<in> V \<Longrightarrow> vote_at s eid v \<noteq> None"
  shows "vote_at t eid vid = vote_at s eid vid" "counter t eid = counter s eid" "batch_votes t eid sq = batch_votes s eid sq"
    "pend t eid \<subseteq> pend s eid" "pend s eid - V \<subseteq> pend t eid" "log_inv s eid \<Longrightarrow> log_inv t eid"
    "batches_inv s eid n \<Longrightarrow> batches_inv t eid n"
proof -
  show v: "vote_at t eid vid = vote_at s eid vid" for vid using quiet_at[OF q wf] by simp
  show c: "counter t eid = counter s eid" unfolding counter_def using quiet_at[OF q wf] by simp
  show b: "batch_votes t eid sq = batch_votes s eid sq" for sq unfolding batch_votes_def using quiet_at[OF q wf] by simp
  have other: "status_at t eid vid = status_at s eid vid" if "vid \<notin> V" for vid
  proof -
    have "artifact_at t (VoteStatusK eid vid) = artifact_at s (VoteStatusK eid vid)"
      by (rule quiet_at[OF q wf]) (use that in auto)
    then show ?thesis by simp
  qed
  have mine: "status_at t eid vid = status_at s eid vid \<or> status_at t eid vid = Some VoteStatusError" if "vid \<in> V" for vid
    using q wf that unfolding quiet_def by blast
  show sub: "pend t eid \<subseteq> pend s eid"
  proof
    fix vid assume "vid \<in> pend t eid"
    then show "vid \<in> pend s eid" using other[of vid] mine[of vid] v[of vid] by (cases "vid \<in> V") (auto simp: pend_def)
  qed
  show "pend s eid - V \<subseteq> pend t eid" using other v by (auto simp: pend_def)
  show "log_inv s eid \<Longrightarrow> log_inv t eid"
  proof -
    assume l: "log_inv s eid"
    have "vote_at t eid vid = None \<longleftrightarrow> status_at t eid vid = None" for vid
    proof (cases "vid \<in> V")
      case True
      then show ?thesis using V[of vid] mine[of vid] l v[of vid] unfolding log_inv_def by (metis option.distinct(1))
    next
      case False
      then show ?thesis using other[of vid] l v[of vid] by (simp add: log_inv_def)
    qed
    with l show "log_inv t eid" by (simp add: log_inv_def v c)
  qed
  have "card (pend t eid) \<le> card (pend s eid)" by (rule card_mono[OF finite_pend sub])
  then show "batches_inv s eid n \<Longrightarrow> batches_inv t eid n"
    using sub by (auto simp: batches_inv_def v c b)
qed

lemma persisted_views:
  assumes p: "persisted k el blocks sealed rt s t"
    and ids: "\<And>x. x \<in> set sealed \<Longrightarrow> v_ID (fst x) \<in> pend s (rt_id rt)"
  shows "vote_at t (rt_id rt) vid = vote_at s (rt_id rt) vid" "counter t (rt_id rt) = counter s (rt_id rt)"
    "batch_votes t (rt_id rt) sq =
       (if sq = rt_batchSeq rt then Some (map (\<lambda>x. v_ID (fst x)) sealed) else batch_votes s (rt_id rt) sq)"
    "status_at t (rt_id rt) vid =
       (if vid \<in> (\<lambda>x. v_ID (fst x)) ` set sealed then Some VoteStatusBatched else status_at s (rt_id rt) vid)"
    "pend t (rt_id rt) = pend s (rt_id rt) - (\<lambda>x. v_ID (fst x)) ` set sealed"
proof -
  have at: "artifact_at t key = artifact_at s key"
    if "key \<noteq> BatchK (rt_id rt) (rt_batchSeq rt)" "key \<noteq> SnapshotK (rt_id rt)"
       "\<And>x. x \<in> set sealed \<Longrightarrow> key \<noteq> VoteStatusK (rt_id rt) (v_ID (fst x))" "\<And>a. key \<noteq> AuditK a" for key
    using p that unfolding persisted_def by blast
  show v: "vote_at t (rt_id rt) vid = vote_at s (rt_id rt) vid" for vid by (simp add: at)
  show "counter t (rt_id rt) = counter s (rt_id rt)" by (simp add: counter_def at)
  show "batch_votes t (rt_id rt) sq =
      (if sq = rt_batchSeq rt then Some (map (\<lambda>x. v_ID (fst x)) sealed) else batch_votes s (rt_id rt) sq)"
    using p at[of "BatchK (rt_id rt) sq"] by (auto simp: batch_votes_def persisted_def)
  show st: "status_at t (rt_id rt) vid =
      (if vid \<in> (\<lambda>x. v_ID (fst x)) ` set sealed then Some VoteStatusBatched else status_at s (rt_id rt) vid)" for vid
  proof (cases "vid \<in> (\<lambda>x. v_ID (fst x)) ` set sealed")
    case True
    then obtain x where x: "x \<in> set sealed" "vid = v_ID (fst x)" by blast
    then have "status_at s (rt_id rt) vid = Some VoteStatusPending" using ids[of x] by (simp add: pend_def)
    then show ?thesis using p x True by (simp add: persisted_def)
  next
    case False
    then show ?thesis using at[of "VoteStatusK (rt_id rt) vid"] by force
  qed
  show "pend t (rt_id rt) = pend s (rt_id rt) - (\<lambda>x. v_ID (fst x)) ` set sealed"
    by (auto simp: pend_def st v split: if_splits)
qed

text \<open>The new batch gets the next number; the vote counter bounds it, so the number does not wrap.\<close>

lemma persisted_room:
  assumes V: "pend t eid = pend s eid - I" and I: "I \<noteq> {}" "I \<subseteq> pend s eid" and b: "batches_inv s eid n"
  shows "unat (n + 1) = unat n + 1" "unat (n + 1) + card (pend t eid) \<le> unat (counter s eid)"
proof -
  have fin: "finite I" by (rule finite_subset[OF I(2) finite_pend])
  then have "1 \<le> card I" "card I \<le> card (pend s eid)" using I card_mono[OF finite_pend I(2)] by (simp_all add: Suc_leI card_gt_0_iff)
  then have card: "card (pend t eid) + 1 \<le> card (pend s eid)" using card_Diff_subset[OF fin I(2)] by (simp add: V)
  have bound: "unat n + card (pend s eid) \<le> unat (counter s eid)" using b by (simp add: batches_inv_def)
  have "unat n + 1 < 2 ^ 64" using card bound unsigned_less[of "counter s eid", where 'a = nat] by simp
  then show suc: "unat (n + 1) = unat n + 1" by (simp add: unat_word_ariths)
  show "unat (n + 1) + card (pend t eid) \<le> unat (counter s eid)" using suc card bound by simp
qed

text \<open>Adding batch \<open>n\<close> with votes that were pending.\<close>

lemma batches_inv_add:
  assumes b: "batches_inv s eid n" and V: "\<And>vid. vote_at t eid vid = vote_at s eid vid" "counter t eid = counter s eid"
      "\<And>sq. batch_votes t eid sq = (if sq = n then Some new else batch_votes s eid sq)" "pend t eid = pend s eid - set new"
    and new: "distinct new" "new \<noteq> []" "set new \<subseteq> pend s eid"
  shows "batches_inv t eid (n + 1)"
proof -
  have "set new \<noteq> {}" using new(2) by simp
  note room = persisted_room[OF V(4) this new(3) b]
  have less: "sq < n + 1 \<longleftrightarrow> sq < n \<or> sq = n" for sq
    using room(1) by (simp add: word_less_nat_alt word_eq_iff_unsigned[where 'a = nat] less_Suc_eq)
  have old: "set vids \<inter> pend s eid = {}" if "batch_votes s eid sq = Some vids" for sq vids
    using b that unfolding batches_inv_def by blast
  have newv: "vid \<in> set new \<Longrightarrow> vote_at s eid vid \<noteq> None" for vid using new(3) by (auto simp: pend_def)
  show ?thesis unfolding batches_inv_def
  proof (intro conjI)
    show "\<forall>sq. batch_votes t eid sq \<noteq> None \<longleftrightarrow> sq < n + 1" using b by (simp add: less V(3) batches_inv_def)
    show "\<forall>sq vids. batch_votes t eid sq = Some vids \<longrightarrow> distinct vids \<and>
        (\<forall>vid \<in> set vids. vote_at t eid vid \<noteq> None \<and> vid \<notin> pend t eid)"
      using b new(1) newv by (auto simp: V(1,3,4) batches_inv_def)
    show "\<forall>sq sq' vids vids'. batch_votes t eid sq = Some vids \<and> batch_votes t eid sq' = Some vids' \<and>
        sq \<noteq> sq' \<longrightarrow> set vids \<inter> set vids' = {}"
    proof (intro allI impI, elim conjE)
      fix sq sq' vids vids'
      assume a: "batch_votes t eid sq = Some vids" "batch_votes t eid sq' = Some vids'" "sq \<noteq> sq'"
      show "set vids \<inter> set vids' = {}"
      proof (cases "sq = n \<or> sq' = n")
        case True
        then show ?thesis using a old[of sq vids] old[of sq' vids'] new(3) by (auto simp: V(3) split: if_splits)
      next
        case False
        then show ?thesis using b a unfolding batches_inv_def V(3) by metis
      qed
    qed
    show "unat (n + 1) + card (pend t eid) \<le> unat (counter t eid)" using room(2) by (simp add: V(2))
  qed
qed

lemma persisted_inv:
  assumes p: "persisted k el blocks sealed rt s t" and ne: "sealed \<noteq> []"
    and ids: "\<And>x. x \<in> set sealed \<Longrightarrow> v_ID (fst x) \<in> pend s (rt_id rt)"
    and dist: "distinct (map (\<lambda>x. v_ID (fst x)) sealed)"
    and b: "batches_inv s (rt_id rt) (rt_batchSeq rt)" and l: "log_inv s (rt_id rt)"
  shows "log_inv t (rt_id rt)" "batches_inv t (rt_id rt) (rt_batchSeq rt + 1)"
proof -
  note V = persisted_views[OF p ids]
  have "status_at t (rt_id rt) vid = None \<longleftrightarrow> status_at s (rt_id rt) vid = None" for vid
    using V(4)[of vid] ids by (auto simp: pend_def)
  then show "log_inv t (rt_id rt)" using l by (simp add: log_inv_def V(1,2))
  show "batches_inv t (rt_id rt) (rt_batchSeq rt + 1)"
    by (rule batches_inv_add[OF b, where new = "map (\<lambda>x. v_ID (fst x)) sealed"]) (use V dist ne ids in auto)
qed

section \<open>Sealing keeps the invariant\<close>

text \<open>Every vote of the log still pending is in the buffer.\<close>

definition complete :: "'b storage \<Rightarrow> ('v, 'st) electionRuntime \<Rightarrow> bool" where
  "complete s rt \<longleftrightarrow> pend s (rt_id rt) \<subseteq> v_ID ` set (rt_pending rt)"

text \<open>The stored snapshot can be restored.\<close>

definition restorable :: "('v, 'st) sdk \<Rightarrow> 'b storage \<Rightarrow> ElectionID \<Rightarrow> 'v chainConfig \<Rightarrow> bool" where
  "restorable k s eid cfg \<longleftrightarrow> (\<exists>blob st. snapshot_at s eid = Some blob \<and> RestoreState k cfg blob = Inr st)"

definition seal_rel ::
  "('v, 'st) sdk \<Rightarrow> 'b storage \<Rightarrow> ('v, 'st) electionRuntime \<Rightarrow> 'b storage \<Rightarrow> ('v, 'st) electionRuntime \<Rightarrow> bool" where
  "seal_rel k s rt s' rt' \<longleftrightarrow>
     storage_wf s' \<and> log_inv s' (rt_id rt) \<and> rt_inv k s' rt' \<and>
     (\<forall>eid. eid \<noteq> rt_id rt \<longrightarrow> same_log eid s s') \<and>
     (\<forall>eid. artifact_at s' (ElectionK eid) = artifact_at s (ElectionK eid)) \<and>
     (\<forall>eid vid. artifact_at s' (VoteK eid vid) = artifact_at s (VoteK eid vid)) \<and>
     (\<forall>sq vids. batch_votes s (rt_id rt) sq = Some vids \<longrightarrow> batch_votes s' (rt_id rt) sq = Some vids) \<and>
     rt_id rt' = rt_id rt \<and> rt_cfg rt' = rt_cfg rt \<and> rt_rules rt' = rt_rules rt \<and> rt_batchSize rt' = rt_batchSize rt \<and>
     subseq (rt_pending rt') (rt_pending rt) \<and>
     (restorable k s (rt_id rt) (rt_cfg rt) \<longrightarrow> restorable k s' (rt_id rt) (rt_cfg rt)) \<and>
     (faults s = [] \<and> complete s rt \<longrightarrow> faults s' = [] \<and> complete s' rt')"

lemma seal_rel_refl: "storage_wf s \<Longrightarrow> log_inv s (rt_id rt) \<Longrightarrow> rt_inv k s rt \<Longrightarrow> seal_rel k s rt s rt"
  by (simp add: seal_rel_def same_log_refl)

lemma seal_rel_trans:
  assumes "seal_rel k s rt s' rt'" and "seal_rel k s' rt' s'' rt''"
  shows "seal_rel k s rt s'' rt''"
  using assms same_log_trans[of _ s s' s''] subseq_order.trans[of "rt_pending rt''" "rt_pending rt'" "rt_pending rt"]
  by (simp add: seal_rel_def)

lemma pending_ids:
  assumes "rt_inv k s rt"
  shows "inj_on v_ID (set (rt_pending rt))" "distinct (rt_pending rt)" "distinct (map v_ID (rt_pending rt))"
proof -
  show inj: "inj_on v_ID (set (rt_pending rt))"
    using assms by (auto simp: rt_inv_def inj_on_def) (metis option.inject)
  have "distinct (map v_Seq (rt_pending rt))"
    using assms strict_sorted_iff[of "map v_Seq (rt_pending rt)"] by (simp add: rt_inv_def)
  then show d: "distinct (rt_pending rt)" by (simp add: distinct_map)
  show "distinct (map v_ID (rt_pending rt))" using inj d by (simp add: distinct_map)
qed

lemma subseq_subset: "subseq xs ys \<Longrightarrow> set xs \<subseteq> set ys"
  by (simp only: subseq_conv_nths) (erule exE, simp only: set_nths_subset)

lemma subseq_filter_set: "subseq xs ys \<Longrightarrow> distinct ys \<Longrightarrow> xs = filter (\<lambda>v. v \<in> set xs) ys"
proof (induction rule: list_emb.induct)
  case (list_emb_Cons xs ys y)
  then show ?case using subseq_subset[OF list_emb_Cons(1)] by auto
next
  case (list_emb_Cons2 x y xs ys)
  then have "filter (\<lambda>v. v \<in> set (x # xs)) ys = filter (\<lambda>v. v \<in> set xs) ys" by (intro filter_cong) auto
  with list_emb_Cons2 show ?case by simp
qed simp

lemma nextBatch_split:
  assumes "nextBatch pending sz = (b, r)" and "0 \<le> sz" and "distinct pending"
  shows "set b \<inter> set r = {}" "set b \<union> set r = set pending"
proof -
  have m: "mset b + mset r = mset pending" by (rule nextBatch_shape(3)[OF assms(1,2)])
  then have "distinct (b @ r)" using assms(3) by (metis mset_append mset_eq_imp_distinct_iff)
  then show "set b \<inter> set r = {}" by simp
  show "set b \<union> set r = set pending" using arg_cong[OF m, of set_mset] by simp
qed

lemma sorted_subseq:
  assumes "subseq xs ys" and "sorted_wrt (<) (map f ys)"
  shows "sorted_wrt (<) (map (f :: 'a \<Rightarrow> 'b::linorder) xs)"
  using assms
proof (induction rule: list_emb.induct)
  case (list_emb_Cons2 x y xs ys)
  then show ?case using subseq_subset[OF list_emb_Cons2(2)] by auto
qed simp_all

text \<open>
  What is left to show of a step on one election: the buffer lost the votes \<open>G\<close>, whose
  status moved, and the runtime still agrees with the storage.
\<close>

lemma rt_inv_shrink:
  assumes i: "rt_inv k s rt" and sub: "subseq (rt_pending rt') (rt_pending rt)"
    and G: "set (rt_pending rt') \<inter> G = {}" "G \<subseteq> set (rt_pending rt)"
    and id: "rt_id rt' = rt_id rt" "rt_batchSize rt' = rt_batchSize rt"
    and ok: "rt_ok k s' rt'" and b: "batches_inv s' (rt_id rt) (rt_batchSeq rt')"
    and v: "\<And>vid. vote_at s' (rt_id rt) vid = vote_at s (rt_id rt) vid"
    and p: "pend s (rt_id rt) - v_ID ` G \<subseteq> pend s' (rt_id rt)"
  shows "rt_inv k s' rt'"
proof -
  have set: "set (rt_pending rt') \<subseteq> set (rt_pending rt)" using sub by (rule subseq_subset)
  have "vote_at s' (rt_id rt) (v_ID w) = Some w \<and> v_ID w \<in> pend s' (rt_id rt)" if w: "w \<in> set (rt_pending rt')" for w
  proof -
    have wi: "w \<in> set (rt_pending rt)" "w \<notin> G" using w set G by auto
    then have "v_ID w \<notin> v_ID ` G" using inj_onD[OF pending_ids(1)[OF i]] G(2) by (metis image_iff subsetD)
    then show ?thesis using wi(1) i p v[of "v_ID w"] by (auto simp: rt_inv_def)
  qed
  then show ?thesis using i ok b sub id sorted_subseq[OF sub, of v_Seq] by (simp add: rt_inv_def)
qed

lemma quiet_seal_rel:
  assumes wf: "storage_wf s" and l: "log_inv s (rt_id rt)" and i: "rt_inv k s rt"
    and q: "quiet (rt_id rt) (v_ID ` G) s s'" and G: "set (rt_pending rt') \<inter> G = {}" "G \<subseteq> set (rt_pending rt)"
      "set (rt_pending rt) \<subseteq> set (rt_pending rt') \<union> G"
    and sub: "subseq (rt_pending rt') (rt_pending rt)" and ok: "rt_ok k s' rt'"
    and fr: "rt_id rt' = rt_id rt" "rt_cfg rt' = rt_cfg rt" "rt_rules rt' = rt_rules rt" "rt_batchSize rt' = rt_batchSize rt"
      "rt_batchSeq rt' = rt_batchSeq rt"
  shows "seal_rel k s rt s' rt'"
proof -
  have ex: "vote_at s (rt_id rt) vid \<noteq> None" if "vid \<in> v_ID ` G" for vid using that i G(2) by (auto simp: rt_inv_def)
  note V = quiet_views[OF q wf ex, simplified]
  have b: "batches_inv s' (rt_id rt) (rt_batchSeq rt')" using V(7) i fr by (simp add: rt_inv_def)
  have inv: "rt_inv k s' rt'" by (rule rt_inv_shrink[OF i sub G(1,2) fr(1,4) ok b V(1) V(5)])
  have "complete s' rt'" if nofault: "faults s = []" and compl: "complete s rt"
  proof -
    have gone: "v_ID ` G \<inter> pend s' (rt_id rt) = {}"
    proof -
      have "status_at s' (rt_id rt) vid = Some VoteStatusError" if "vid \<in> v_ID ` G" "vid \<in> pend s (rt_id rt)" for vid
        using q wf that nofault unfolding quiet_def pend_def by blast
      then show ?thesis using V(4) by (force simp: pend_def)
    qed
    show ?thesis unfolding complete_def fr
    proof
      fix vid assume v: "vid \<in> pend s' (rt_id rt)"
      then obtain w where w: "w \<in> set (rt_pending rt)" "vid = v_ID w" using V(4) compl by (auto simp: complete_def)
      then show "vid \<in> v_ID ` set (rt_pending rt')" using G(3) gone v by blast
    qed
  qed
  moreover have "faults s = [] \<Longrightarrow> faults s' = []" using q wf by (simp add: quiet_def)
  ultimately show ?thesis using inv V(6)[OF l] quiet_wf[OF q wf] quiet_same_log[OF q wf] quiet_at[OF q wf] V(3) sub fr
    by (simp add: seal_rel_def restorable_def)
qed

lemma image_diff_cover: "A \<subseteq> f ` P \<Longrightarrow> P \<subseteq> P' \<union> Q \<Longrightarrow> A - f ` Q \<subseteq> f ` P'"
  by blast

lemma persisted_seal_rel:
  assumes wf: "storage_wf s" and l: "log_inv s (rt_id rt)" and i: "rt_inv k s rt"
    and p: "persisted k el blocks sealed rt1 s s'" and ne: "sealed \<noteq> []"
    and rt1: "rt_id rt1 = rt_id rt" "rt_batchSeq rt1 = rt_batchSeq rt"
    and d: "distinct (map fst sealed)" and G: "set (rt_pending rt') \<inter> fst ` set sealed = {}"
      "fst ` set sealed \<subseteq> set (rt_pending rt)" "set (rt_pending rt) \<subseteq> set (rt_pending rt') \<union> fst ` set sealed"
    and sub: "subseq (rt_pending rt') (rt_pending rt)" and ok: "rt_ok k s' rt'"
    and fr: "rt_id rt' = rt_id rt" "rt_cfg rt' = rt_cfg rt" "rt_rules rt' = rt_rules rt" "rt_batchSize rt' = rt_batchSize rt"
      "rt_batchSeq rt' = rt_batchSeq rt + 1" and clean: "\<not> rt_dirty rt'"
  shows "seal_rel k s rt s' rt'"
proof -
  have ids: "v_ID (fst x) \<in> pend s (rt_id rt1)" if "x \<in> set sealed" for x
    using that i G(2) rt1 by (auto simp: rt_inv_def)
  have im: "(\<lambda>x. v_ID (fst x)) ` set sealed = v_ID ` fst ` set sealed" by (simp add: image_image)
  note V = persisted_views[OF p ids]
  have "distinct (map v_ID (map fst sealed))"
    using d inj_on_subset[OF pending_ids(1)[OF i], of "fst ` set sealed"] G(2) by (simp add: distinct_map comp_inj_on)
  then have dist: "distinct (map (\<lambda>x. v_ID (fst x)) sealed)" by (simp add: comp_def)
  have b: "batches_inv s (rt_id rt1) (rt_batchSeq rt1)" using i rt1 by (simp add: rt_inv_def)
  have l1: "log_inv s (rt_id rt1)" using l rt1 by simp
  note I = persisted_inv[OF p ne ids dist b l1]
  have b': "batches_inv s' (rt_id rt) (rt_batchSeq rt')" using I(2) rt1 fr by simp
  have v: "vote_at s' (rt_id rt) vid = vote_at s (rt_id rt) vid" for vid using V(1) rt1 by simp
  have pe: "pend s' (rt_id rt) = pend s (rt_id rt) - v_ID ` fst ` set sealed" using V(5) rt1 im by simp
  have inv: "rt_inv k s' rt'"
    by (rule rt_inv_shrink[OF i sub G(1,2) fr(1,4) ok b' v]) (simp add: pe)
  have "complete s' rt'" if "complete s rt" 
    using that unfolding complete_def fr pe by (rule image_diff_cover[OF _ G(3)])
  moreover have "artifact_at s' key = artifact_at s key" if "(\<exists>eid. key = ElectionK eid) \<or> (\<exists>eid vid. key = VoteK eid vid)" for key
    using p that by (auto simp: persisted_def)
  moreover have "restorable k s' (rt_id rt) (rt_cfg rt)"
  proof -
    have wf': "storage_wf s'" using p by (simp add: persisted_def)
    show ?thesis using ok clean fr by (auto simp: rt_ok_def synced_def restorable_def reads[OF wf'])
  qed
  moreover have "batch_votes s' (rt_id rt) sq = Some vids" if "batch_votes s (rt_id rt) sq = Some vids" for sq vids
    using that V(3)[of sq] b rt1 by (auto simp: batches_inv_def)
  ultimately show ?thesis using inv I(1) rt1 p persisted_same_log[OF p] sub fr
    by (simp add: seal_rel_def) (simp add: persisted_def)
qed

text \<open>A batch that was sealed: first the refused votes went, then the batch was written.\<close>

lemma sealed_seal_rel:
  assumes wf: "storage_wf s" and l: "log_inv s (rt_id rt)" and i: "rt_inv k s rt"
    and nb: "nextBatch (rt_pending rt) (rt_batchSize rt) = (batch, rest)" and ok': "rt_ok k t rt'" and pr: "rt_pending rt' = rest"
    and fr: "rt_id rt' = rt_id rt" "rt_cfg rt' = rt_cfg rt" "rt_rules rt' = rt_rules rt" "rt_batchSize rt' = rt_batchSize rt"
    and some: "rt_batchSeq rt' = rt_batchSeq rt + 1" "sealed \<noteq> []" "subseq (map fst sealed) batch"
      "quiet (rt_id rt) (v_ID ` (set batch - fst ` set sealed)) s s1"
      "rt_id rt1 = rt_id rt" "rt_batchSeq rt1 = rt_batchSeq rt" "persisted k el blocks sealed rt1 s1 t" "\<not> rt_dirty rt'"
  shows "seal_rel k s rt t rt'"
proof -
  have sz: "0 \<le> rt_batchSize rt" and rok: "rt_ok k s rt" using i by (simp_all add: rt_inv_def)
  note P = pending_ids[OF i]
  note S = nextBatch_split[OF nb sz P(2)]
  have subs: "subseq rest (rt_pending rt)" "distinct batch"
    using nextBatch_shape(2)[OF nb sz] nextBatch_distinct[OF nb sz P(2)] by auto
  define mid where "mid = rt\<lparr>rt_pending := filter (\<lambda>v. v \<in> set rest \<union> fst ` set sealed) (rt_pending rt)\<rparr>"
  have sealed: "fst ` set sealed \<subseteq> set batch" using subseq_subset[OF some(3)] by simp
  have okm: "rt_ok k s1 mid" using rt_ok_quiet[OF some(4) wf rok] by (simp add: mid_def)
  have r1: "seal_rel k s rt s1 mid"
    by (rule quiet_seal_rel[OF wf l i some(4) _ _ _ _ okm]) (use S sealed in \<open>auto simp: mid_def\<close>)
  have restm: "subseq rest (rt_pending mid)"
  proof -
    have "rest = filter (\<lambda>v. v \<in> set rest) (rt_pending rt)" using subs(1) P(2) by (rule subseq_filter_set)
    moreover have "filter (\<lambda>v. v \<in> set rest) (rt_pending mid) = filter (\<lambda>v. v \<in> set rest) (rt_pending rt)"
      by (auto simp: mid_def intro!: filter_cong)
    ultimately show ?thesis by (metis subseq_filter_left)
  qed
  have "seal_rel k s1 mid t rt'"
  proof (rule persisted_seal_rel[OF _ _ _ some(7) some(2)])
    show "storage_wf s1" "log_inv s1 (rt_id mid)" "rt_inv k s1 mid" using r1 by (simp_all add: seal_rel_def mid_def)
    show "distinct (map fst sealed)" by (rule subseq_distinct[OF some(3) subs(2)])
  qed (use pr S sealed some fr ok' restm in \<open>auto simp: mid_def\<close>)
  from seal_rel_trans[OF r1 this] show ?thesis .
qed

lemma sealLocked_inv:
  assumes wf: "storage_wf (store e)" and l: "log_inv (store e) (rt_id rt)" and i: "rt_inv k (store e) rt"
    and restore: "snapshots_restore k" and run: "sealLocked k now e rt = (r, e', rt')"
  shows "seal_rel k (store e) rt (store e') rt'"
    and "isOk r \<Longrightarrow> rt_pending rt \<noteq> [] \<Longrightarrow> length (rt_pending rt') < length (rt_pending rt)"
proof -
  obtain batch rest where nb: "nextBatch (rt_pending rt) (rt_batchSize rt) = (batch, rest)" by fastforce
  have sz: "1 \<le> rt_batchSize rt" "0 \<le> rt_batchSize rt" and rok: "rt_ok k (store e) rt" using i by (simp_all add: rt_inv_def)
  note P = pending_ids[OF i]
  note S = nextBatch_split[OF nb sz(2) P(2)]
  have sub: "subseq rest (rt_pending rt)" using nextBatch_shape(2)[OF nb sz(2)] by auto
  note spec = sealLocked_spec[OF wf P(2) rok sz(2) restore nb run]
  have ok': "rt_ok k (store e') rt'" using spec by simp
  consider (same) "e' = e" "same_rt rt rt'" "isl r \<or> batch = []"
    | (fail) er where "r = Inl er" "seal_result k batch rest (store e) rt r (store e') rt'"
    | (succ) "r = Inr ()" "seal_result k batch rest (store e) rt r (store e') rt'"
    using spec by (cases r) auto
  then have "seal_rel k (store e) rt (store e') rt' \<and>
      (isOk r \<longrightarrow> rt_pending rt \<noteq> [] \<longrightarrow> length (rt_pending rt') < length (rt_pending rt))"
  proof cases
    case same
    have "quiet (rt_id rt) (v_ID ` {}) (store e) (store e')" using same(1) quiet_refl by simp
    from quiet_seal_rel[OF wf l i this, of rt'] ok' same_rt_simps[OF same(2)]
    have "seal_rel k (store e) rt (store e') rt'" by simp
    moreover have "rt_pending rt = []" if "isOk r" using nextBatch_progress(1)[OF nb sz(1)] same(3) that by blast
    ultimately show ?thesis by blast
  next
    case (fail er)
    then obtain D where D: "D \<subseteq> set batch" "rt_pending rt' = filter (\<lambda>v. v \<notin> D) (rt_pending rt)"
      "quiet (rt_id rt) (v_ID ` D) (store e) (store e')" and fr: "rt_id rt' = rt_id rt" "rt_cfg rt' = rt_cfg rt"
      "rt_rules rt' = rt_rules rt" "rt_batchSize rt' = rt_batchSize rt" "rt_batchSeq rt' = rt_batchSeq rt"
      unfolding seal_result_def by auto
    have "seal_rel k (store e) rt (store e') rt'"
      by (rule quiet_seal_rel[OF wf l i D(3) _ _ _ _ ok' fr]) (use D S in auto)
    with fail(1) show ?thesis by simp
  next
    case succ
    have pr: "rt_pending rt' = rest" and fr: "rt_id rt' = rt_id rt" "rt_cfg rt' = rt_cfg rt" "rt_rules rt' = rt_rules rt"
      "rt_batchSize rt' = rt_batchSize rt" using succ unfolding seal_result_def by simp_all
    have none: "seal_rel k (store e) rt (store e') rt'"
      if "quiet (rt_id rt) (v_ID ` set batch) (store e) (store e')" "rt_batchSeq rt' = rt_batchSeq rt"
      by (rule quiet_seal_rel[OF wf l i that(1) _ _ _ _ ok' fr that(2)]) (use pr S sub in auto)
    have "seal_rel k (store e) rt (store e') rt'"
      using succ none sealed_seal_rel[OF wf l i nb ok' pr fr] unfolding seal_result_def by auto
    then show ?thesis using nextBatch_progress(2)[OF nb sz(1)] pr by simp
  qed
  then show "seal_rel k (store e) rt (store e') rt'"
    and "isOk r \<Longrightarrow> rt_pending rt \<noteq> [] \<Longrightarrow> length (rt_pending rt') < length (rt_pending rt)" by blast+
qed

section \<open>The sealing loops\<close>

text \<open>
  Sealing changes nothing else of the engine than the stored artifacts, the draws and the
  notifications; in particular it leaves the vote locks alone.
\<close>

definition locks :: "'b storage \<Rightarrow> string set \<times> VoteID set" where
  "locks s = (processingAddresses s, processingVoteIDs s)"

lemma locks_Commit [simp]: "locks (snd (Commit s ops)) = locks s"
  by (simp add: locks_def Commit_def)

lemma locks_setArtifact [simp]: "locks (snd (setArtifact s pre key a)) = locks s"
  by (simp add: setArtifact_def split: sum.splits)

lemma locks_ops [simp]:
  "locks (snd (SetVoteStatus s eid vid st)) = locks s"
  "locks (snd (AppendAudit now s r)) = locks s"
  "locks (snd (SealBatch now s b snap)) = locks s"
  "locks (snd (UpdateElection now s eid f)) = locks s"
  "locks (snd (DeleteProofs s eid)) = locks s"
  "locks (snd (AddVote now s eid v)) = locks s"
  "locks (snd (CreateElection now s el snap)) = locks s"
  "locks (snd (SetWorker now s w)) = locks s"
  "locks (snd (DeleteWorker s addr)) = locks s"
  by (auto simp: SetVoteStatus_def setVoteStatusLocked_def AppendAudit_def SealBatch_def UpdateElection_def DeleteProofs_def
      AddVote_def CreateElection_def SetWorker_def DeleteWorker_def deleteArtifact_def with_value_def Let_def split: sum.splits)
    (simp_all add: locks_def)

definition only_store :: "('b, 'v, 'st) engine \<Rightarrow> ('b, 'v, 'st) engine \<Rightarrow> bool" where
  "only_store e e' \<longleftrightarrow>
     runtimes e' = runtimes e \<and> eng_batchSize e' = eng_batchSize e \<and> eng_foldEvery e' = eng_foldEvery e \<and>
     window e' = window e \<and> pool e' = pool e \<and> draining e' = draining e \<and> finalizing e' = finalizing e \<and>
     eng_retries e' = eng_retries e \<and> bgStopped e' = bgStopped e \<and> locks (store e') = locks (store e) \<and>
     (sched e' = None \<longleftrightarrow> sched e = None)"

lemma only_store_refl: "only_store e e"
  by (simp add: only_store_def)

lemma only_store_trans: "only_store e e' \<Longrightarrow> only_store e' e'' \<Longrightarrow> only_store e e''"
  by (simp add: only_store_def)

lemma only_store_upd [simp]: "locks s = locks (store e) \<Longrightarrow> only_store e (e\<lparr>store := s\<rparr>)" "only_store e (e\<lparr>draws := d\<rparr>)"
  by (simp_all add: only_store_def)

lemma only_store_audit [simp]: "only_store e (audit now e a b c eid)"
  by (simp add: only_store_def audit_def)

lemma only_store_notify [simp]: "only_store e (notify eid e)"
  by (simp add: only_store_def notify_def split: option.splits)

lemma only_store_persistBatch:
  assumes "persistBatch k now el blocks sealed rest e rt = (r, e', rt')"
  shows "only_store e e'"
proof -
  have "only_store e (notify i (audit now (e\<lparr>store := s\<rparr>) a b c i))" if "locks s = locks (store e)" for s i a b c
    using that by (intro only_store_trans[OF only_store_trans[OF only_store_upd(1) only_store_audit] only_store_notify])
  moreover have "locks t = locks (store e)" if "SealBatch now (store e) b snap = (x, t)" for b snap x t
    using locks_ops(3)[of now "store e" b snap] that by simp
  ultimately show ?thesis using assms
    by (auto simp: persistBatch_def only_store_refl split: sum.splits prod.splits)
qed

lemma only_store_dropVote: "only_store e (fst (dropVote e rt v))"
  by (simp add: dropVote_def)

lemma only_store_decodeVotes: "decodeVotes k vs e rt = (dec, e', rt') \<Longrightarrow> only_store e e'"
proof (induction k vs e rt arbitrary: dec rule: decodeVotes.induct)
  case (2 k v vs e rt)
  show ?case
  proof (cases "decodable k rt v")
    case True
    then obtain ballot bdl where "DeserializeBallot k (EncKey (rt_cfg rt)) (v_Ballot v) = Inr ballot"
      "parse_bundle k (v_Payload v) = Some bdl" by (auto simp: decodable_def isOk_iff)
    with 2 show ?thesis by (auto simp: Let_def prod_eq_iff)
  next
    case False
    then have drop: "decodeVotes k vs (fst (dropVote e rt v)) (snd (dropVote e rt v)) = (dec, e', rt')"
      using "2.prems" by (auto simp: decodable_def split: sum.splits option.splits)
    have "only_store (fst (dropVote e rt v)) e'"
      using False "2.IH"(1)[OF _ drop] "2.IH"(2)[OF _ _ drop] 
      by (cases "DeserializeBallot k (EncKey (rt_cfg rt)) (v_Ballot v)") (auto simp: decodable_def)
    then show ?thesis by (rule only_store_trans[OF only_store_dropVote])
  qed
qed (simp add: only_store_refl)

lemma only_store_dropRefused: "dropRefused refused i xs e rt = (ys, e', rt') \<Longrightarrow> only_store e e'"
proof (induction refused i xs e rt arbitrary: ys rule: dropRefused.induct)
  case (2 refused i x xs e rt)
  show ?case
  proof (cases "refused i")
    case None
    with 2 show ?thesis by (auto simp: Let_def prod_eq_iff)
  next
    case (Some er)
    with 2 have "only_store (fst (dropVote e rt (fst x))) e'" by simp
    then show ?thesis by (rule only_store_trans[OF only_store_dropVote])
  qed
qed (simp add: only_store_refl)

lemma only_store_sealBatch_of:
  assumes "sealBatch_of k now batch rest e rt = (r, e', rt')"
  shows "only_store e e'"
proof (cases "store_Election (store e) (rt_id rt)")
  case (Inl er)
  with assms show ?thesis by (simp add: sealBatch_of_def only_store_refl)
next
  case (Inr el)
  obtain dec e1 rt1 where dec: "decodeVotes k batch e rt = (dec, e1, rt1)" by (metis prod_cases3)
  have o1: "only_store e e1" by (rule only_store_decodeVotes[OF dec])
  obtain res rt2 d where app: "applyBatch k (store e1) rt1 (map (\<lambda>x. fst (snd x)) dec) (draws e1) = (res, rt2, d)"
    by (metis prod_cases3)
  have o2: "only_store e (e1\<lparr>draws := d\<rparr>)" by (rule only_store_trans[OF o1 only_store_upd(2)])
  show ?thesis
  proof (cases res)
    case (Inl er)
    with assms Inr dec app o2 show ?thesis by (simp add: sealBatch_of_def)
  next
    case (Inr bl)
    obtain sealed e3 rt3 where dr: "dropRefused (snd bl) 0 dec (e1\<lparr>draws := d\<rparr>) rt2 = (sealed, e3, rt3)" by (metis prod_cases3)
    have "only_store (e1\<lparr>draws := d\<rparr>) e3" by (rule only_store_dropRefused[OF dr])
    with o2 have o3: "only_store e e3" by (rule only_store_trans)
    show ?thesis
    proof (cases "sealed = []")
      case True
      with assms \<open>store_Election (store e) (rt_id rt) = Inr el\<close> dec app Inr dr o3 show ?thesis
        by (cases bl) (simp add: sealBatch_of_def)
    next
      case False
      with assms \<open>store_Election (store e) (rt_id rt) = Inr el\<close> dec app Inr dr
      have "persistBatch k now el (fst bl) sealed rest e3 rt3 = (r, e', rt')" by (cases bl) (simp add: sealBatch_of_def)
      from only_store_persistBatch[OF this] show ?thesis by (rule only_store_trans[OF o3])
    qed
  qed
qed

lemma only_store_sealLocked: "sealLocked k now e rt = (r, e', rt') \<Longrightarrow> only_store e e'"
  by (auto simp: sealLocked_def Let_def only_store_refl dest: only_store_sealBatch_of split: sum.splits prod.splits if_splits)

lemma seal_while_inv:
  assumes "storage_wf (store e)" and "log_inv (store e) (rt_id rt)" and "rt_inv k (store e) rt"
    and restore: "snapshots_restore k"
    and go: "\<And>rt. 1 \<le> rt_batchSize rt \<Longrightarrow> go rt \<Longrightarrow> rt_pending rt \<noteq> []"
  shows "\<exists>r e' rt'. seal_while go k now e rt = Some (r, e', rt') \<and> seal_rel k (store e) rt (store e') rt' \<and>
    only_store e e' \<and> (isOk r \<longrightarrow> \<not> go rt')"
  using assms(1-3)
proof (induction "length (rt_pending rt)" arbitrary: e rt rule: less_induct)
  case less
  show ?case
  proof (cases "go rt")
    case False
    then show ?thesis using seal_rel_refl[OF less.prems] only_store_refl[of e] by (subst seal_while.simps) simp
  next
    case True
    have ne: "rt_pending rt \<noteq> []" using go True less.prems(3) by (simp add: rt_inv_def)
    obtain r e1 rt1 where run: "sealLocked k now e rt = (r, e1, rt1)" by (metis prod_cases3)
    note S = sealLocked_inv[OF less.prems restore run]
    note O = only_store_sealLocked[OF run]
    show ?thesis
    proof (cases r)
      case (Inl er)
      then show ?thesis using S(1) O run True by (subst seal_while.simps) simp
    next
      case (Inr u)
      have p: "storage_wf (store e1)" "log_inv (store e1) (rt_id rt1)" "rt_inv k (store e1) rt1"
        using S(1) by (simp_all add: seal_rel_def)
      from less.hyps[OF _ p] S(2) Inr ne obtain r2 e2 rt2 where
        r2: "seal_while go k now e1 rt1 = Some (r2, e2, rt2)" "seal_rel k (store e1) rt1 (store e2) rt2"
          "only_store e1 e2" "isOk r2 \<longrightarrow> \<not> go rt2" by auto
      have "seal_while go k now e rt = Some (r2, e2, rt2)" using r2(1) run True Inr by (subst seal_while.simps) simp
      with r2 seal_rel_trans[OF S(1) r2(2)] only_store_trans[OF O r2(3)] show ?thesis by blast
    qed
  qed
qed

lemma nextBatch_Nil [simp]: "nextBatch [] sz = ([], [])"
  by (simp add: nextBatch_def)

lemmas loop_conds = seal_while_inv[where go = "\<lambda>rt. rt_pending rt \<noteq> []"]
  seal_while_inv[where go = "\<lambda>rt. \<not> int (length (fst (nextBatch (rt_pending rt) (rt_batchSize rt)))) < rt_batchSize rt"]

lemma sealAllLocked_inv:
  assumes "storage_wf (store e)" and "log_inv (store e) (rt_id rt)" and "rt_inv k (store e) rt" and "snapshots_restore k"
  shows "\<exists>r e' rt'. sealAllLocked k now e rt = Some (r, e', rt') \<and> seal_rel k (store e) rt (store e') rt' \<and>
    only_store e e' \<and> (isOk r \<longrightarrow> rt_pending rt' = [])"
  using loop_conds(1)[OF assms, of now] by (simp add: sealAllLocked_def)

lemma sealFullLocked_inv:
  assumes "storage_wf (store e)" and "log_inv (store e) (rt_id rt)" and "rt_inv k (store e) rt" and "snapshots_restore k"
  shows "\<exists>r e' rt'. sealFullLocked k now e rt = Some (r, e', rt') \<and> seal_rel k (store e) rt (store e') rt' \<and>
    only_store e e' \<and>
    (isOk r \<longrightarrow> int (length (fst (nextBatch (rt_pending rt') (rt_batchSize rt')))) < rt_batchSize rt')"
  unfolding sealFullLocked_def using loop_conds(2)[OF assms, of now] by fastforce

lemma sealIfStale_inv:
  assumes "storage_wf (store e)" and "log_inv (store e) (rt_id rt)" and "rt_inv k (store e) rt" and "snapshots_restore k"
  shows "\<exists>r e' rt'. sealIfStale k now e rt = Some (r, e', rt') \<and> seal_rel k (store e) rt (store e') rt' \<and>
    only_store e e' \<and>
    (isOk r \<longrightarrow> rt_pending rt' = [] \<or> now - v_SubmittedAt (hd (rt_pending rt')) < window e)"
  using seal_while_inv[OF assms, where now = now and
      go = "\<lambda>rt. rt_pending rt \<noteq> [] \<and> now - v_SubmittedAt (hd (rt_pending rt)) \<ge> window e"]
  by (auto simp: sealIfStale_def)

end
