(* ===== verification/Engine_Laws.thy ===== *)
theory Engine_Laws
  imports Runtime_Inv
begin

text \<open>
  What each engine operation does to the invariant of theory Runtime_Inv: the storage
  operations it uses, one by one, then the operations. An operation on one election leaves
  what the invariant reads of the others alone.
\<close>

section \<open>Storage operations\<close>

lemma audit_same:
  assumes "storage_wf (store e)"
  shows "storage_wf (store (audit now e a b c i))" "same_log eid (store e) (store (audit now e a b c i))"
    "election_at (store (audit now e a b c i)) eid = election_at (store e) eid"
  using quiet_wf[OF quiet_audit[of i e] assms] quiet_same_log[OF quiet_audit[of i e] assms, of eid] audit_keeps[OF assms] by auto

lemma UpdateElection_same:
  assumes wf: "storage_wf s" and run: "UpdateElection now s eid f = (r, t)"
    and f: "\<And>e e'. f e = Inr e' \<Longrightarrow> el_ID e' = el_ID e"
  shows "storage_wf t" "same_log i s t" "i \<noteq> eid \<Longrightarrow> election_at t i = election_at s i"
    "isl r \<Longrightarrow> election_at t i = election_at s i"
    "isOk r \<Longrightarrow> \<exists>el el'. election_at s eid = Some el \<and> f el = Inr el' \<and> election_at t eid = Some (el'\<lparr>el_UpdatedAt := now\<rparr>)"
    "election_at t i = None \<longleftrightarrow> election_at s i = None"
proof -
  have C: "storage_wf t \<and> same_log i s t \<and> (i \<noteq> eid \<longrightarrow> election_at t i = election_at s i) \<and>
    (isl r \<longrightarrow> election_at t i = election_at s i) \<and>
    (isOk r \<longrightarrow> (\<exists>el el'. election_at s eid = Some el \<and> f el = Inr el' \<and> election_at t eid = Some (el'\<lparr>el_UpdatedAt := now\<rparr>)))"
  proof (cases "\<exists>el el'. election_at s eid = Some el \<and> f el = Inr el'")
    case False
    then have "isl r \<and> t = s" using run
      by (auto simp: UpdateElection_writes[OF wf] split: option.splits sum.splits)
    then show ?thesis using wf same_log_refl by auto
  next
    case True
    then obtain el el' where el: "election_at s eid = Some el" "f el = Inr el'" by blast
    define ws where "ws = [Put (ElectionK eid) (AElection (el'\<lparr>el_UpdatedAt := now\<rparr>))]"
    have ok: "list_all write_ok ws" using el f election_at_ID[OF wf el(1)] by (simp add: ws_def)
    have c: "commit_writes s ws = (r, t)" using run el by (simp add: UpdateElection_writes[OF wf] ws_def)
    have at: "artifact_at t = (if isOk r then apply_writes ws (artifact_at s) else artifact_at s)"
      by (rule commit_outcome[OF wf ok c])
    have "storage_wf t" using commit_writes_wf[OF wf ok] c by (metis snd_conv)
    moreover have "same_log i s t" by (rule same_log_keys) (auto simp: at ws_def)
    ultimately show ?thesis using el by (auto simp: at ws_def)
  qed
  then show "storage_wf t" "same_log i s t" "i \<noteq> eid \<Longrightarrow> election_at t i = election_at s i"
    "isl r \<Longrightarrow> election_at t i = election_at s i"
    "isOk r \<Longrightarrow> \<exists>el el'. election_at s eid = Some el \<and> f el = Inr el' \<and> election_at t eid = Some (el'\<lparr>el_UpdatedAt := now\<rparr>)"
    by blast+
  show "election_at t i = None \<longleftrightarrow> election_at s i = None"
    using C by (cases "i = eid \<and> isOk r") auto
qed

lemma DeleteProofs_same:
  assumes "storage_wf s"
  shows "storage_wf (snd (DeleteProofs s eid))" "same_log i s (snd (DeleteProofs s eid))"
    "election_at (snd (DeleteProofs s eid)) i = election_at s i"
  using DeleteProofs_wf[OF assms] by (auto intro!: same_log_keys simp: DeleteProofs_at[OF assms])

lemma New_same:
  assumes "storage_wf s"
  shows "storage_wf (New (db s) (cbor s) fl)" "same_log i s (New (db s) (cbor s) fl)"
    "election_at (New (db s) (cbor s) fl) i = election_at s i"
  using New_wf[OF assms] by (auto intro!: same_log_keys simp: New_at[OF assms])

lemma SetVoteStatus_moves:
  assumes wf: "storage_wf s" and st: "st \<noteq> VoteStatusPending" and ex: "vote_at s eid vid \<noteq> None"
    and t: "t = snd (SetVoteStatus s eid vid st)"
  shows "storage_wf t" "i \<noteq> eid \<Longrightarrow> same_log i s t" "election_at t i = election_at s i"
    "vote_at t i w = vote_at s i w" "store_inv s eid \<Longrightarrow> store_inv t eid" "pend t eid \<subseteq> pend s eid"
    "snapshot_at t i = snapshot_at s i"
proof -
  have t': "t = store_step (OpSetVoteStatus eid vid st) s" using t by simp
  show wft: "storage_wf t" unfolding t' by (rule store_step_wf[OF wf])
  have at: "artifact_at t key = (if \<not> next_fault s \<and> key = VoteStatusK eid vid \<and>
      \<not> (\<exists>cur. status_at s eid vid = Some cur \<and> \<not> CanMoveTo cur st) then Some (AVoteStatus st) else artifact_at s key)" for key
    unfolding t' by (subst store_step_at[OF wf]) (auto simp: op_writes_def)
  show "i \<noteq> eid \<Longrightarrow> same_log i s t" by (rule same_log_keys) (auto simp: at)
  show "election_at t i = election_at s i" "vote_at t i w = vote_at s i w" "snapshot_at t i = snapshot_at s i"
    by (simp_all add: at)
  show sub: "pend t eid \<subseteq> pend s eid" using st by (auto simp: pend_def at split: if_splits)
  have v: "vote_at t eid w = vote_at s eid w" and c: "counter t eid = counter s eid"
    and b: "batch_votes t eid sq = batch_votes s eid sq" for w sq
    by (simp_all add: at counter_def batch_votes_def)
  have "status_at t eid w = None \<longleftrightarrow> status_at s eid w = None" if "log_inv s eid" for w
    using that ex by (auto simp: at log_inv_def split: if_splits)
  then have "log_inv s eid \<Longrightarrow> log_inv t eid" by (simp add: log_inv_def v c)
  moreover have "batches_inv s eid n \<Longrightarrow> batches_inv t eid n" for n
    using sub card_mono[OF finite_pend sub] by (auto simp: batches_inv_def v c b)
  ultimately show "store_inv s eid \<Longrightarrow> store_inv t eid" by (auto simp: store_inv_def)
qed

lemma setVotesStatus_moves:
  assumes wf: "storage_wf s" and st: "st \<noteq> VoteStatusPending" and ex: "\<And>v. v \<in> set vs \<Longrightarrow> vote_at s eid (v_ID v) \<noteq> None"
    and t: "t = fold (\<lambda>v s. snd (SetVoteStatus s eid (v_ID v) st)) vs s"
  shows "storage_wf t \<and> (i \<noteq> eid \<longrightarrow> same_log i s t) \<and> election_at t i = election_at s i \<and>
    vote_at t i w = vote_at s i w \<and> (store_inv s eid \<longrightarrow> store_inv t eid) \<and> pend t eid \<subseteq> pend s eid \<and>
    snapshot_at t i = snapshot_at s i \<and> locks t = locks s"
  using wf ex t
proof (induction vs arbitrary: s)
  case Nil
  then show ?case by (simp add: same_log_refl)
next
  case (Cons v vs)
  define u where "u = snd (SetVoteStatus s eid (v_ID v) st)"
  have ev: "vote_at s eid (v_ID v) \<noteq> None" using Cons.prems(2) by simp
  note U = SetVoteStatus_moves[OF Cons.prems(1) st ev u_def]
  have "vote_at u eid (v_ID w) \<noteq> None" if "w \<in> set vs" for w using U(4) Cons.prems(2) that by simp
  from Cons.IH[OF U(1) this] Cons.prems(3)
  have IH: "storage_wf t \<and> (i \<noteq> eid \<longrightarrow> same_log i u t) \<and> election_at t i = election_at u i \<and>
      vote_at t i w = vote_at u i w \<and> (store_inv u eid \<longrightarrow> store_inv t eid) \<and> pend t eid \<subseteq> pend u eid \<and>
      snapshot_at t i = snapshot_at u i \<and> locks t = locks u"
    by (simp add: u_def)
  moreover have "locks u = locks s" by (simp add: u_def)
  ultimately show ?case using U(2,3,4,5,6,7) same_log_trans[of i s u t] by auto
qed

lemma AddVote_inv:
  assumes wf: "storage_wf s" and l: "log_inv s eid" and new: "vote_at s eid (v_ID v) = None"
    and room: "counter s eid + 1 \<noteq> 0" and run: "AddVote now s eid v = (Inr v', t)"
  shows "storage_wf t" "log_inv t eid" "batches_inv s eid n \<Longrightarrow> batches_inv t eid n"
    "i \<noteq> eid \<Longrightarrow> same_log i s t" "election_at t i = election_at s i" "snapshot_at t i = snapshot_at s i"
    "vote_at t eid w = (if w = v_ID v then Some v' else vote_at s eid w)" "pend t eid = insert (v_ID v) (pend s eid)"
    "v_ID v' = v_ID v" "counter s eid < v_Seq v'"
proof -
  have t': "t = store_step (OpAddVote now eid v) s" using run new by (simp add: VoteExists_iff[OF wf])
  show wft: "storage_wf t" unfolding t' by (rule store_step_wf[OF wf])
  note A = AddVote_at[OF wf run, simplified]
  have v': "v' = v\<lparr>v_Seq := counter s eid + 1, v_SubmittedAt := now\<rparr>" using A by (simp add: counter_def)
  have vt: "vote_at t eid (v_ID v) = Some v'" and stt: "status_at t eid (v_ID v) = Some VoteStatusPending"
    and ct: "counter t eid = counter s eid + 1" using A v' by (simp_all add: reads[OF wft] counter_def)
  have at: "artifact_at t key = artifact_at s key" if "key \<notin> {VoteSeqK eid, VoteK eid (v_ID v), VoteStatusK eid (v_ID v)}" for key
    using A that by blast
  have suc: "unat (counter s eid + 1) = unat (counter s eid) + 1"
    using room unatSuc[of "counter s eid"] by (simp add: add.commute)
  show lt: "counter s eid < v_Seq v'" using suc by (simp add: v' word_less_nat_alt)
  show "v_ID v' = v_ID v" by (simp add: v')
  show votes: "vote_at t eid w = (if w = v_ID v then Some v' else vote_at s eid w)" for w
    using vt at[of "VoteK eid w"] by auto
  have sts: "status_at t eid w = (if w = v_ID v then Some VoteStatusPending else status_at s eid w)" for w
    using stt at[of "VoteStatusK eid w"] by auto
  show p: "pend t eid = insert (v_ID v) (pend s eid)" by (auto simp: pend_def votes sts)
  show "i \<noteq> eid \<Longrightarrow> same_log i s t" by (rule same_log_keys) (auto simp: at)
  show "election_at t i = election_at s i" "snapshot_at t i = snapshot_at s i" by (simp_all add: at)
  have le: "v_Seq w \<le> counter s eid" if "vote_at s eid wid = Some w" for wid w using l that by (simp add: log_inv_def)
  show "log_inv t eid" unfolding log_inv_def
  proof (intro conjI allI impI)
    show "vote_at t eid vid = None \<longleftrightarrow> status_at t eid vid = None" for vid using l by (simp add: votes sts log_inv_def)
    show "vote_at t eid vid = Some w \<Longrightarrow> v_Seq w \<le> counter t eid" for vid w
      using le[of vid w] lt by (auto simp: votes ct v' split: if_splits)
    show "vid = vid'" if "vote_at t eid vid = Some w \<and> vote_at t eid vid' = Some w' \<and> v_Seq w = v_Seq w'" for vid vid' w w'
      using that le[of vid w] le[of vid' w'] lt l by (fastforce simp: votes log_inv_def split: if_splits)
  qed
  have bv: "batch_votes t eid sq = batch_votes s eid sq" for sq by (simp add: batch_votes_def at)
  have card: "card (pend t eid) \<le> card (pend s eid) + 1" by (simp add: p card_insert_if)
  show "batches_inv s eid n \<Longrightarrow> batches_inv t eid n"
  proof -
    assume b: "batches_inv s eid n"
    have "v_ID v \<notin> set vids" if "batch_votes s eid sq = Some vids" for sq vids
      using b that new unfolding batches_inv_def by blast
    with b card show ?thesis by (auto simp: batches_inv_def bv p votes ct suc)
  qed
qed

end
