(* ===== verification/Recovery.thy ===== *)
theory Recovery
  imports Engine_Laws
begin

text \<open>
  Recovery after a crash: what \<open>runtimeFromStorage\<close> rebuilds from the storage alone.
  Whatever the storage holds, as long as it satisfies its invariant, the rebuilt runtime
  agrees with it; compared with the runtime the crash destroyed, no vote of the pending
  buffer is missing, the order is the submission order, the next batch number is the same
  and the state is the one after the last sealed batch.
\<close>

section \<open>Votes with a status\<close>

lemma voteStatus_scan:
  assumes wf: "storage_wf s"
    and ids_def: "ids = map fst (filter (\<lambda>kb. typed unVoteStatus (DecodeArtifact (cbor s) KVoteStatus (snd kb)) = Inr st)
      (iterateArtifacts s (voteStatusPrefix @ electionScanPrefix eid)))"
  shows "set ids = {vid. status_at s eid vid = Some st}" and "distinct ids"
proof -
  have key: "(voteStatusPrefix @ electionScanPrefix eid) @ vid = key_bytes (VoteStatusK eid vid)" for vid
    by (simp add: electionScanPrefix_subKey)
  have dec: "typed unVoteStatus (DecodeArtifact (cbor s) KVoteStatus b) = Inr st \<longleftrightarrow>
      Option.bind (Unmarshal (cbor s) KVoteStatus b) unVoteStatus = Some st" for b
    by (auto simp: typed_def DecodeArtifact_def split: option.splits bind_splits)
  have "vid \<in> set ids \<longleftrightarrow> (\<exists>b. kv_get (db s) (key_bytes (VoteStatusK eid vid)) = Some b \<and>
      Option.bind (Unmarshal (cbor s) KVoteStatus b) unVoteStatus = Some st)" for vid
    using iterateArtifacts_mem[OF wf, of vid _ "voteStatusPrefix @ electionScanPrefix eid"]
    unfolding ids_def key by (force simp: dec)
  also have "\<dots> vid \<longleftrightarrow> status_at s eid vid = Some st" for vid
    by (auto simp: artifact_at_def at_key_def split: bind_splits)
  finally show "set ids = {vid. status_at s eid vid = Some st}" by blast
  have "distinct (map fst (iterateArtifacts s (voteStatusPrefix @ electionScanPrefix eid)))"
    using iterateArtifacts_sorted[OF wf] strict_sorted_iff by blast
  then show "distinct ids" unfolding ids_def by (rule distinct_map_filter)
qed

lemma load_votes_all:
  assumes "storage_wf s" and "\<And>vid. vid \<in> set ids \<Longrightarrow> vote_at s eid vid \<noteq> None"
  shows "load_votes s eid ids = Inr (map (\<lambda>vid. the (vote_at s eid vid)) ids)"
  using assms(2)
proof (induction ids)
  case (Cons vid ids)
  obtain v where "vote_at s eid vid = Some v" using Cons.prems[of vid] by auto
  with Cons show ?case by (simp add: reads[OF assms(1)])
qed simp

lemma VotesWithStatus_spec:
  assumes wf: "storage_wf s" and l: "log_inv s eid"
  shows "\<exists>votes. VotesWithStatus s eid st = Inr votes \<and> distinct (map v_ID votes) \<and>
    set votes = {v. vote_at s eid (v_ID v) = Some v \<and> status_at s eid (v_ID v) = Some st}"
proof -
  define ids where "ids = map fst (filter (\<lambda>kb. typed unVoteStatus (DecodeArtifact (cbor s) KVoteStatus (snd kb)) = Inr st)
      (iterateArtifacts s (voteStatusPrefix @ electionScanPrefix eid)))"
  note I = voteStatus_scan[OF wf ids_def]
  define vote where "vote vid = the (vote_at s eid vid)" for vid
  have ex: "vote_at s eid vid = Some (vote vid) \<and> v_ID (vote vid) = vid" if "vid \<in> set ids" for vid
  proof -
    have "vote_at s eid vid \<noteq> None" using that I(1) l by (auto simp: log_inv_def)
    then have v: "vote_at s eid vid = Some (vote vid)" by (auto simp: vote_def)
    with vote_at_ID[OF wf v] show ?thesis by simp
  qed
  have "VotesWithStatus s eid st = Inr (map vote ids)"
    unfolding VotesWithStatus_def ids_def[symmetric] vote_def using ex by (intro load_votes_all[OF wf]) simp
  moreover have "map v_ID (map vote ids) = ids" using ex by (simp add: map_idI)
  moreover have "set (map vote ids) = {v. vote_at s eid (v_ID v) = Some v \<and> status_at s eid (v_ID v) = Some st}"
    using ex I(1) by (auto simp: image_iff) (metis option.inject)
  ultimately show ?thesis using I(2) by metis
qed

section \<open>The rebuilt runtime\<close>

lemma sort_key_strict: "inj_on f (set xs) \<Longrightarrow> distinct xs \<Longrightarrow> sorted_wrt (<) (map f (sort_key f xs))"
  using sorted_sort_key[of f xs] by (simp add: strict_sorted_iff distinct_map)

lemma log_inv_seq:
  assumes "log_inv s eid" and "vote_at s eid a = Some v" and "vote_at s eid b = Some w" and "v_Seq v = v_Seq w"
  shows "a = b"
proof -
  have "\<forall>vid vid' v v'. vote_at s eid vid = Some v \<and> vote_at s eid vid' = Some v' \<and> v_Seq v = v_Seq v' \<longrightarrow> vid = vid'"
    using assms(1) unfolding log_inv_def by (elim conjE)
  from this[rule_format, OF conjI[OF assms(2) conjI[OF assms(3,4)]]] show ?thesis .
qed

lemma unsealedVotes_spec:
  assumes wf: "storage_wf s" and l: "log_inv s eid" and b: "batches_inv s eid n"
  shows "\<exists>pending. unsealedVotes s eid (ListBatchInputs s eid) = Inr pending \<and>
    set pending = {v. vote_at s eid (v_ID v) = Some v \<and> v_ID v \<in> pend s eid} \<and>
    sorted_wrt (<) (map v_Seq pending)"
proof -
  obtain votes where v: "VotesWithStatus s eid VoteStatusPending = Inr votes" "distinct (map v_ID votes)"
    "set votes = {v. vote_at s eid (v_ID v) = Some v \<and> status_at s eid (v_ID v) = Some VoteStatusPending}"
    using VotesWithStatus_spec[OF wf l] by blast
  define sealed where "sealed = set (concat (map bi_VoteIDs (ListBatchInputs s eid)))"
  have "v_ID x \<notin> sealed" if "x \<in> set votes" for x
  proof
    assume "v_ID x \<in> sealed"
    then obtain bi where bi: "bi \<in> set (ListBatchInputs s eid)" "v_ID x \<in> set (bi_VoteIDs bi)" by (auto simp: sealed_def)
    then have "batch_votes s eid (bi_Seq bi) = Some (bi_VoteIDs bi)" by (simp add: ListBatchInputs_mem[OF wf] batch_votes_def)
    then have "v_ID x \<notin> pend s eid" using b bi(2) unfolding batches_inv_def by blast
    then show False using that v(3) by (simp add: pend_def)
  qed
  then have all: "filter (\<lambda>x. v_ID x \<notin> sealed) votes = votes" by (simp add: filter_id_conv)
  have "unsealedVotes s eid (ListBatchInputs s eid) = Inr (sort_key v_Seq votes)"
    unfolding unsealedVotes_def v(1) Let_def sealed_def[symmetric] by (simp only: sum.case all)
  moreover have "inj_on v_Seq (set votes)"
  proof (rule inj_onI)
    fix x y assume "x \<in> set votes" "y \<in> set votes" and seq: "v_Seq x = v_Seq y"
    then have xy: "vote_at s eid (v_ID x) = Some x" "vote_at s eid (v_ID y) = Some y" using v(3) by auto
    have same: "v_ID x = v_ID y" by (rule log_inv_seq[OF l xy seq])
    have "Some x = Some y" by (rule trans[OF sym[OF xy(1)[unfolded same]] xy(2)])
    then show "x = y" by simp
  qed
  then have "sorted_wrt (<) (map v_Seq (sort_key v_Seq votes))"
    using v(2) by (intro sort_key_strict) (simp_all add: distinct_map)
  moreover have "set (sort_key v_Seq votes) = {v. vote_at s eid (v_ID v) = Some v \<and> v_ID v \<in> pend s eid}"
    by (auto simp: v(3) pend_def)
  ultimately show ?thesis by blast
qed

lemma ListBatchInputs_length:
  assumes wf: "storage_wf s" and b: "batches_inv s eid n"
  shows "length (ListBatchInputs s eid) = unat n"
proof -
  let ?l = "ListBatchInputs s eid"
  have "sorted_wrt (<) (map bi_Seq ?l)"
    using ListBatchInputs_sorted_bytes[OF wf, of eid] by (simp add: seqBytes_less sorted_wrt_map)
  then have d: "distinct (map bi_Seq ?l)" by (simp add: strict_sorted_iff)
  have "set (map bi_Seq ?l) = {sq. sq < n}"
  proof -
    have "sq \<in> set (map bi_Seq ?l) \<longleftrightarrow> batch_at s eid sq \<noteq> None" for sq
    proof
      assume "sq \<in> set (map bi_Seq ?l)"
      then obtain bi where "bi \<in> set ?l" "sq = bi_Seq bi" by auto
      then show "batch_at s eid sq \<noteq> None" by (simp add: ListBatchInputs_mem[OF wf])
    next
      assume "batch_at s eid sq \<noteq> None"
      then obtain bi where bi: "batch_at s eid sq = Some bi" by blast
      then have "bi_Seq bi = sq" using batch_at_ID[OF wf] by blast
      with bi have "bi \<in> set ?l" by (simp add: ListBatchInputs_mem[OF wf])
      with \<open>bi_Seq bi = sq\<close> show "sq \<in> set (map bi_Seq ?l)" by (metis image_eqI list.set_map)
    qed
    moreover have "batch_at s eid sq \<noteq> None \<longleftrightarrow> sq < n" for sq
      using b unfolding batches_inv_def batch_votes_def by auto
    ultimately show ?thesis by blast
  qed
  with d have "length ?l = card {sq. sq < n}" by (metis distinct_card length_map)
  also have "\<dots> = card (unat ` {sq. sq < n})" by (simp add: card_image inj_on_def word_unat_eq_iff)
  also have "unat ` {sq. sq < n} = {..< unat n}"
  proof (intro set_eqI iffI)
    fix x assume x: "x \<in> {..< unat n}"
    then have "x < 2 ^ 64" using unsigned_less[of n, where 'a = nat] by simp
    then have "unat (word_of_nat x :: u64) = x" by (intro of_nat_inverse) simp_all
    with x show "x \<in> unat ` {sq. sq < n}" by (intro image_eqI[of _ _ "word_of_nat x"]) (simp_all add: word_less_nat_alt)
  qed (auto simp: word_less_nat_alt)
  also have "card {..< unat n} = unat n" by simp
  finally show ?thesis .
qed

definition configured :: "('v, 'st) sdk \<Rightarrow> Election \<Rightarrow> ('v, 'st) electionRuntime \<Rightarrow> bool" where
  "configured k el rt \<longleftrightarrow>
     newVoteRules k (el_Config el) = Inr (rt_rules rt) \<and> rt_cfg rt = vr_cfg (rt_rules rt) \<and>
     (el_BatchSize el \<le> 0 \<or> rt_batchSize rt = el_BatchSize el)"

lemma runtimeFromStorage_inv:
  assumes wf: "storage_wf s" and i: "store_inv s (el_ID el)" and bs: "1 \<le> bs"
    and run: "runtimeFromStorage k bs s el = Inr rt"
  shows "rt_id rt = el_ID el" "rt_inv k s rt" "complete s rt" "\<not> rt_dirty rt" "configured k el rt"
proof -
  obtain n where l: "log_inv s (el_ID el)" and b: "batches_inv s (el_ID el) n" using i by (auto simp: store_inv_def)
  obtain pending where p: "unsealedVotes s (el_ID el) (ListBatchInputs s (el_ID el)) = Inr pending"
    "set pending = {v. vote_at s (el_ID el) (v_ID v) = Some v \<and> v_ID v \<in> pend s (el_ID el)}"
    "sorted_wrt (<) (map v_Seq pending)" using unsealedVotes_spec[OF wf l b] by blast
  obtain vr blob st where vr: "newVoteRules k (el_Config el) = Inr vr" "store_Snapshot s (el_ID el) = Inr blob"
    "RestoreState k (vr_cfg vr) blob = Inr st"
    and rt: "rt = \<lparr>rt_id = el_ID el, rt_cfg = vr_cfg vr, rt_rules = vr, rt_state = st, rt_dirty = False,
        rt_pending = pending, rt_batchSeq = of_nat (length (ListBatchInputs s (el_ID el))),
        rt_batchSize = (if el_BatchSize el \<le> 0 then bs else el_BatchSize el)\<rparr>"
    using run p(1) by (auto simp: runtimeFromStorage_def Let_def)
  have seq: "rt_batchSeq rt = n" by (simp add: rt ListBatchInputs_length[OF wf b])
  show "rt_id rt = el_ID el" "\<not> rt_dirty rt" "configured k el rt" using vr(1) by (simp_all add: rt configured_def)
  show "complete s rt"
  proof -
    have "vid \<in> v_ID ` set pending" if "vid \<in> pend s (el_ID el)" for vid
    proof -
      have "vote_at s (el_ID el) vid \<noteq> None" using that by (simp add: pend_def)
      then obtain v where v: "vote_at s (el_ID el) vid = Some v" by blast
      have "v_ID v = vid" by (rule vote_at_ID[OF wf v])
      with v that show ?thesis by (intro image_eqI[of _ _ v]) (simp_all add: p(2))
    qed
    then show ?thesis by (auto simp: complete_def rt)
  qed
  have "synced k s rt" using vr(2,3) by (simp add: synced_def rt)
  moreover have "batches_inv s (rt_id rt) (rt_batchSeq rt)" using b seq by (simp add: rt)
  ultimately show "rt_inv k s rt" using bs p(2,3) chain_state.restored[OF vr(3)] by (auto simp: rt_inv_def rt_ok_def rt)
qed

lemma runtimeFromStorage_succeeds:
  assumes wf: "storage_wf s" and i: "store_inv s (el_ID el)"
    and r: "newVoteRules k (el_Config el) = Inr vr" "restorable k s (el_ID el) (vr_cfg vr)"
  shows "\<exists>rt. runtimeFromStorage k bs s el = Inr rt"
proof -
  obtain n where l: "log_inv s (el_ID el)" and b: "batches_inv s (el_ID el) n" using i by (auto simp: store_inv_def)
  obtain pending where "unsealedVotes s (el_ID el) (ListBatchInputs s (el_ID el)) = Inr pending"
    using unsealedVotes_spec[OF wf l b] by blast
  moreover obtain blob st where "store_Snapshot s (el_ID el) = Inr blob" "RestoreState k (vr_cfg vr) blob = Inr st"
    using r(2) by (auto simp: restorable_def reads[OF wf])
  ultimately show ?thesis using r(1) by (simp add: runtimeFromStorage_def Let_def)
qed

lemma subseq_of_sorted:
  assumes "sorted_wrt (<) (map f xs)" and "sorted_wrt (<) (map (f :: 'a \<Rightarrow> 'b::linorder) ys)" and "set xs \<subseteq> set ys"
  shows "subseq xs ys"
  using assms
proof (induction ys arbitrary: xs)
  case Nil
  then show ?case by simp
next
  case (Cons y ys)
  show ?case
  proof (cases xs)
    case Nil
    then show ?thesis by simp
  next
    case (Cons x xs')
    show ?thesis
    proof (cases "x = y")
      case True
      have "set xs' \<subseteq> set ys"
      proof
        fix z assume z: "z \<in> set xs'"
        then have "f x < f z" using Cons.prems(1) Cons by simp
        then show "z \<in> set ys" using z Cons.prems(3) Cons True by auto
      qed
      then show ?thesis using Cons.IH[of xs'] Cons.prems Cons True by simp
    next
      case False
      have x: "x \<in> set ys" using False Cons.prems(3) Cons by auto
      then have "f y < f x" using Cons.prems(2) by simp
      then have "y \<notin> set xs" using Cons.prems(1) Cons by auto
      then have "set xs \<subseteq> set ys" using Cons.prems(3) by auto
      then have "subseq xs ys" using Cons.IH[of xs] Cons.prems by simp
      then show ?thesis by (rule list_emb_Cons)
    qed
  qed
qed

text \<open>The rebuilt runtime beside the one it replaces.\<close>

definition rebuilt :: "('v, 'st) sdk \<Rightarrow> 'b storage \<Rightarrow> Election \<Rightarrow> ('v, 'st) electionRuntime \<Rightarrow> bool" where
  "rebuilt k s el rt \<longleftrightarrow> rt_id rt = el_ID el \<and> rt_inv k s rt \<and> complete s rt \<and> \<not> rt_dirty rt \<and> configured k el rt"

lemma rebuilt_same_log:
  "rebuilt k s el rt \<Longrightarrow> same_log (el_ID el) s t \<Longrightarrow> storage_wf s \<Longrightarrow> storage_wf t \<Longrightarrow> rebuilt k t el rt"
  using same_log_rt_inv[of rt s t k] same_log_views(2)[of "el_ID el" s t] by (auto simp: rebuilt_def complete_def)

lemma recovered_runtime:
  assumes old: "rt_inv k s rt" "rt_id rt = el_ID el" "configured k el rt" and new: "rebuilt k s el rt'"
  shows "rt_batchSeq rt' = rt_batchSeq rt" "rt_rules rt' = rt_rules rt" "rt_cfg rt' = rt_cfg rt"
    "subseq (rt_pending rt) (rt_pending rt')" "complete s rt \<Longrightarrow> rt_pending rt' = rt_pending rt"
    "\<not> rt_dirty rt \<Longrightarrow> rt_state rt' = rt_state rt"
proof -
  have N: "rt_id rt' = el_ID el" "rt_inv k s rt'" "complete s rt'" "\<not> rt_dirty rt'" "configured k el rt'"
    using new by (simp_all add: rebuilt_def)
  have b: "batches_inv s (el_ID el) (rt_batchSeq rt)" "batches_inv s (el_ID el) (rt_batchSeq rt')"
    using old N(1,2) by (simp_all add: rt_inv_def)
  show "rt_batchSeq rt' = rt_batchSeq rt" using batches_inv_unique[OF b] .
  show "rt_rules rt' = rt_rules rt" and cfg: "rt_cfg rt' = rt_cfg rt" using old(3) N(5) by (simp_all add: configured_def)
  have sorted: "sorted_wrt (<) (map v_Seq (rt_pending rt))" "sorted_wrt (<) (map v_Seq (rt_pending rt'))"
    using old(1) N(2) by (simp_all add: rt_inv_def)
  have set': "v \<in> set (rt_pending rt')" if vote: "vote_at s (el_ID el) (v_ID v) = Some v" and pend: "v_ID v \<in> pend s (el_ID el)" for v
  proof -
    have "v_ID v \<in> v_ID ` set (rt_pending rt')" using N(1,3) pend by (auto simp: complete_def)
    then obtain w where w: "w \<in> set (rt_pending rt')" "v_ID w = v_ID v" by auto
    have "vote_at s (el_ID el) (v_ID w) = Some w" using w(1) N(1,2) by (simp add: rt_inv_def)
    with w vote show ?thesis by simp
  qed
  then have sub: "set (rt_pending rt) \<subseteq> set (rt_pending rt')" using old(1,2) by (auto simp: rt_inv_def)
  show sq: "subseq (rt_pending rt) (rt_pending rt')" by (rule subseq_of_sorted[OF sorted sub])
  show "rt_pending rt' = rt_pending rt" if "complete s rt"
  proof -
    have "set (rt_pending rt') \<subseteq> set (rt_pending rt)"
    proof
      fix v assume v: "v \<in> set (rt_pending rt')"
      then have at: "vote_at s (el_ID el) (v_ID v) = Some v" "v_ID v \<in> pend s (el_ID el)" using N(1,2) by (simp_all add: rt_inv_def)
      then have "v_ID v \<in> v_ID ` set (rt_pending rt)" using that old(2) by (auto simp: complete_def)
      then obtain w where w: "w \<in> set (rt_pending rt)" "v_ID w = v_ID v" by auto
      have "vote_at s (el_ID el) (v_ID w) = Some w" using w(1) old(1,2) by (simp add: rt_inv_def)
      with w at(1) show "v \<in> set (rt_pending rt)" by simp
    qed
    from subseq_of_sorted[OF sorted(2,1) this] sq show ?thesis by (metis subseq_order.antisym)
  qed
  show "rt_state rt' = rt_state rt" if "\<not> rt_dirty rt"
  proof -
    have "synced k s rt" "synced k s rt'" using that old(1) N(2,4) by (simp_all add: rt_inv_def rt_ok_def)
    then show ?thesis using cfg old(2) N(1) by (auto simp: synced_def)
  qed
qed

end
