(* ===== verification/System.thy ===== *)
theory System
  imports Recovery
begin

text \<open>
  The engine as a concurrent system. A step is one region of code that runs under a lock or
  as one storage transaction: the parts of a vote submission, a status change, one election
  of a monitor sweep, the two ends of a drain, a decryption key, the return of a finalize, a
  worker registration, a write of the scheduler, and a restart after a crash at any point.
  \<open>flights\<close> are the submissions between their first and their last part, \<open>finals\<close> the
  elections whose finalize runs in the background; a crash loses both. The scheduler's
  writes are environment steps, limited to what scheduler.go and finalize.go write (theory
  Scheduler_Steps shows that its code makes no other), and so are the changes to the worker
  pool and to the scheduler's memory, which may be any.
\<close>

record ('b, 'v, 'st) system =
  eng :: "('b, 'v, 'st) engine"
  flights :: "(ElectionID \<times> VoteSubmission \<times> 'v voteRules) list"
  finals :: "ElectionID set"

text \<open>The writes of the scheduler: batches keep their votes, only folded votes are marked.\<close>

fun sched_write :: "'b storage \<Rightarrow> store_op \<Rightarrow> bool" where
  "sched_write s (OpSetVoteStatus eid vid st) =
     (st = VoteStatusFolded \<and> (\<exists>sq vids. batch_votes s eid sq = Some vids \<and> vid \<in> set vids))"
| "sched_write s (OpSetBatchInput now b) = (batch_votes s (bi_ElectionID b) (bi_Seq b) = Some (bi_VoteIDs b))"
| "sched_write s (OpResetBatch b) = (batch_votes s (bi_ElectionID b) (bi_Seq b) = Some (bi_VoteIDs b))"
| "sched_write s (OpReserveBatch _ _ _) = True"
| "sched_write s (OpReleaseBatch _ _) = True"
| "sched_write s (OpReleaseStale _) = True"
| "sched_write s (OpSetFoldCheckpoint _ _) = True"
| "sched_write s (OpSetBatchProof _ _ _) = True"
| "sched_write s (OpDeleteBatchProof _ _) = True"
| "sched_write s (OpCommitFold _ _ _ _) = True"
| "sched_write s (OpSetResults _ _) = True"
| "sched_write s _ = False"

definition live :: "ElectionID set \<Rightarrow> Election \<Rightarrow> bool" where
  "live fin el \<longleftrightarrow> el_Status el \<noteq> StatusFinalizing \<and> el_Status el \<noteq> StatusResults \<or> el_ID el \<in> fin"

inductive sys_step :: "('v, 'st) sdk \<Rightarrow> ('b, 'v, 'st) system \<Rightarrow> ('b, 'v, 'st) system \<Rightarrow> bool"
  for k :: "('v, 'st) sdk" where
  Create: "engine_CreateElection k now (eng y) subject el = (r, e') \<Longrightarrow> sys_step k y (y\<lparr>eng := e'\<rparr>)"
| Begin: "submit_begin (eng y) eid sub = (Inr vr, e') \<Longrightarrow>
    sys_step k y (y\<lparr>eng := e', flights := (eid, sub, vr) # flights y\<rparr>)"
| Refused: "submit_begin (eng y) eid sub = (Inl er, e') \<Longrightarrow> sys_step k y (y\<lparr>eng := e'\<rparr>)"
| Invalid: "(eid, sub, vr) \<in> set (flights y) \<Longrightarrow> submit_check k vr sub = Inl er \<Longrightarrow>
    sys_step k y (y\<lparr>eng := submit_release eid sub (eng y), flights := remove1 (eid, sub, vr) (flights y)\<rparr>)"
| Finish: "(eid, sub, vr) \<in> set (flights y) \<Longrightarrow> submit_check k vr sub = Inr (slot, payload) \<Longrightarrow>
    counter (store (eng y)) eid + 1 \<noteq> 0 \<Longrightarrow>
    submit_finish k now (eng y) eid (submitted now sub slot payload) = Some (r, e') \<Longrightarrow>
    sys_step k y (y\<lparr>eng := submit_release eid sub e', flights := remove1 (eid, sub, vr) (flights y)\<rparr>)"
| SetStatus: "SetStatus k now (eng y) subject eid to = Some (r, e') \<Longrightarrow> sys_step k y (y\<lparr>eng := e'\<rparr>)"
| Tick: "runtime (eng y) eid = Some rt \<Longrightarrow> tick_election k now rt (eng y) = Some (e', ds) \<Longrightarrow> sys_step k y (y\<lparr>eng := e'\<rparr>)"
| DrainSeal: "runtime (eng y) eid = Some rt \<Longrightarrow> election_at (store (eng y)) eid = Some el \<Longrightarrow> live (finals y) el \<Longrightarrow>
    drain_seal k now (eng y) rt = Some (r, e') \<Longrightarrow> sys_step k y (y\<lparr>eng := e'\<rparr>)"
| DrainPublish: "drain_publish now (eng y) eid = (r, e') \<Longrightarrow> sys_step k y (y\<lparr>eng := e'\<rparr>)"
| KeyRefused: "SubmitDecryptionKey k now (eng y) subject eid key = (Inl er, e') \<Longrightarrow> sys_step k y (y\<lparr>eng := e'\<rparr>)"
| KeyAccepted: "SubmitDecryptionKey k now (eng y) subject eid key = (Inr (), e') \<Longrightarrow>
    sys_step k y (y\<lparr>eng := e', finals := insert eid (finals y)\<rparr>)"
| Finalized: "eid \<in> finals y \<Longrightarrow>
    sys_step k y (y\<lparr>eng := finalizeElection now (eng y) eid res, finals := finals y - {eid}\<rparr>)"
| Scheduler: "sched_write (store (eng y)) op \<Longrightarrow>
    sys_step k y (y\<lparr>eng := (eng y)\<lparr>store := store_step op (store (eng y))\<rparr>\<rparr>)"
| FoldWorker: "UpdateElection now (store (eng y)) eid (\<lambda>el. Inr (el\<lparr>el_FoldWorker := w\<rparr>)) = (r, s) \<Longrightarrow>
    sys_step k y (y\<lparr>eng := (eng y)\<lparr>store := s\<rparr>\<rparr>)"
| Register: "RegisterWorker now (eng y) subject address name = (r, e') \<Longrightarrow> sys_step k y (y\<lparr>eng := e'\<rparr>)"
| Remove: "engine_RemoveWorker now worder order (eng y) subject workerID = (r, e') \<Longrightarrow> sys_step k y (y\<lparr>eng := e'\<rparr>)"
| Dispatched: "sched (eng y) = Some sc \<Longrightarrow>
    sys_step k y (y\<lparr>eng := dispatch_round now (eng y) sc eid stopping result\<rparr>)"
| Pool: "sys_step k y (y\<lparr>eng := (eng y)\<lparr>pool := p\<rparr>\<rparr>)"
| Chains: "sys_step k y (y\<lparr>eng := (eng y)\<lparr>sched := sc\<rparr>\<rparr>)"
| Audited: "sys_step k y (y\<lparr>eng := audit now (eng y) subject role action eid\<rparr>)"
| Stopped: "sys_step k y (y\<lparr>eng := Stop (eng y)\<rparr>)"
| Restart: "sys_step k y
    \<lparr>eng = NewEngine k now (New (db (store (eng y))) (cbor (store (eng y))) fl) opts, flights = [], finals = {}\<rparr>"

section \<open>The invariant\<close>

definition store_ok :: "'b storage \<Rightarrow> bool" where
  "store_ok s \<longleftrightarrow> storage_wf s \<and> (\<forall>eid. store_inv s eid) \<and>
     (\<forall>eid. election_at s eid = None \<longrightarrow> (\<forall>vid. vote_at s eid vid = None) \<and> (\<forall>sq. batch_votes s eid sq = None))"

definition loaded_ok :: "('v, 'st) sdk \<Rightarrow> 'b storage \<Rightarrow> ElectionID set \<Rightarrow> ('v, 'st) electionRuntime \<Rightarrow> bool" where
  "loaded_ok k s fin rt \<longleftrightarrow>
     (\<exists>el. election_at s (rt_id rt) = Some el \<and> el_Status el \<noteq> StatusCanceled \<and> configured k el rt \<and>
        restorable k s (rt_id rt) (rt_cfg rt) \<and> (live fin el \<longrightarrow> rt_inv k s rt))"

fun flight_ok :: "'b storage \<Rightarrow> ElectionID \<times> VoteSubmission \<times> 'v voteRules \<Rightarrow> bool" where
  "flight_ok s (eid, sub, _) \<longleftrightarrow> sub_VoteID sub \<in> processingVoteIDs s \<and> vote_at s eid (sub_VoteID sub) = None"

definition flights_ok :: "'b storage \<Rightarrow> (ElectionID \<times> VoteSubmission \<times> 'v voteRules) list \<Rightarrow> bool" where
  "flights_ok s fl \<longleftrightarrow>
     distinct (map (\<lambda>f. sub_VoteID (fst (snd f))) fl) \<and> (\<forall>f \<in> set fl. flight_ok s f)"

definition finals_ok :: "('b, 'v, 'st) engine \<Rightarrow> ElectionID set \<Rightarrow> bool" where
  "finals_ok e fin \<longleftrightarrow>
     (\<forall>eid \<in> fin. ElectionID_String eid \<in> finalizing e \<and>
        (\<exists>el. election_at (store e) eid = Some el \<and> el_Status el = StatusFinalizing))"

definition sys_inv :: "('v, 'st) sdk \<Rightarrow> ('b, 'v, 'st) system \<Rightarrow> bool" where
  "sys_inv k y \<longleftrightarrow>
     store_ok (store (eng y)) \<and> 1 \<le> eng_batchSize (eng y) \<and>
     (\<forall>i rt. runtimes (eng y) i = Some rt \<longrightarrow> i = ElectionID_String (rt_id rt) \<and> loaded_ok k (store (eng y)) (finals y) rt) \<and>
     flights_ok (store (eng y)) (flights y) \<and> finals_ok (eng y) (finals y)"

lemma ElectionID_String_eq [simp]: "ElectionID_String a = ElectionID_String b \<longleftrightarrow> a = b"
  by (simp add: ElectionID_String_def)

text \<open>An operation that touches one election only.\<close>

lemma sys_inv_step:
  fixes y y' :: "('b, 'v, 'st) system"
  assumes inv: "sys_inv k y" and wf: "storage_wf (store (eng y'))"
    and same: "\<And>eid. eid \<noteq> me \<Longrightarrow> same_log eid (store (eng y)) (store (eng y')) \<and>
        election_at (store (eng y')) eid = election_at (store (eng y)) eid"
    and mine: "store_inv (store (eng y')) me" "election_at (store (eng y')) me = None \<Longrightarrow>
        same_log me (store (eng y)) (store (eng y')) \<and> election_at (store (eng y)) me = None"
    and bs: "eng_batchSize (eng y') = eng_batchSize (eng y)"
    and rts: "\<And>i. i \<noteq> ElectionID_String me \<Longrightarrow> runtimes (eng y') i = runtimes (eng y) i"
    and rt0: "\<And>rt. runtimes (eng y') (ElectionID_String me) = Some rt \<Longrightarrow>
        rt_id rt = me \<and> loaded_ok k (store (eng y')) (finals y') rt"
    and fin: "\<And>eid. eid \<noteq> me \<Longrightarrow> eid \<in> finals y' \<longleftrightarrow> eid \<in> finals y"
    and fz: "\<And>eid. eid \<noteq> me \<Longrightarrow> ElectionID_String eid \<in> finalizing (eng y) \<Longrightarrow> ElectionID_String eid \<in> finalizing (eng y')"
    and fin0: "me \<in> finals y' \<Longrightarrow> ElectionID_String me \<in> finalizing (eng y') \<and>
        (\<exists>el. election_at (store (eng y')) me = Some el \<and> el_Status el = StatusFinalizing)"
    and fl: "flights_ok (store (eng y')) (flights y')"
  shows "sys_inv k y'"
proof -
  let ?s = "store (eng y)" and ?s' = "store (eng y')"
  have wf0: "storage_wf ?s" using inv by (simp add: sys_inv_def store_ok_def)
  have "store_inv ?s' eid" for eid
    using inv mine(1) same_log_views(5)[of eid ?s ?s'] same[of eid] by (cases "eid = me") (simp_all add: sys_inv_def store_ok_def)
  moreover have "(\<forall>vid. vote_at ?s' eid vid = None) \<and> (\<forall>sq. batch_votes ?s' eid sq = None)" if "election_at ?s' eid = None" for eid
  proof -
    have "same_log eid ?s ?s'" "election_at ?s eid = None" using that mine(2) same[of eid] by (cases "eid = me"; simp)+
    then show ?thesis using inv unfolding sys_inv_def store_ok_def same_log_def by simp
  qed
  ultimately have so: "store_ok ?s'" using wf by (simp add: store_ok_def)
  have "i = ElectionID_String (rt_id rt) \<and> loaded_ok k ?s' (finals y') rt" if "runtimes (eng y') i = Some rt" for i rt
  proof (cases "i = ElectionID_String me")
    case True
    with that rt0 show ?thesis by simp
  next
    case False
    then have "runtimes (eng y) i = Some rt" using that rts by simp
    then have i: "i = ElectionID_String (rt_id rt)" and lo: "loaded_ok k ?s (finals y) rt" using inv by (simp_all add: sys_inv_def)
    then have ne: "rt_id rt \<noteq> me" using False by auto
    obtain el where el: "election_at ?s (rt_id rt) = Some el" "el_Status el \<noteq> StatusCanceled" "configured k el rt"
      "restorable k ?s (rt_id rt) (rt_cfg rt)" "live (finals y) el \<longrightarrow> rt_inv k ?s rt"
      using lo by (auto simp: loaded_ok_def)
    have sl: "same_log (rt_id rt) ?s ?s'" and el': "election_at ?s' (rt_id rt) = Some el" using same[OF ne] el(1) by simp_all
    have "live (finals y') el \<longleftrightarrow> live (finals y) el" using fin[of "el_ID el"] ne election_at_ID[OF wf0 el(1)] by (simp add: live_def)
    moreover have "restorable k ?s' (rt_id rt) (rt_cfg rt)" using sl el(4) by (simp add: restorable_def same_log_def)
    ultimately show ?thesis using i el el' same_log_rt_inv[OF sl wf0 wf, of k] by (auto simp: loaded_ok_def)
  qed
  moreover have "finals_ok (eng y') (finals y')" unfolding finals_ok_def
  proof
    fix eid assume "eid \<in> finals y'"
    then show "ElectionID_String eid \<in> finalizing (eng y') \<and> (\<exists>el. election_at ?s' eid = Some el \<and> el_Status el = StatusFinalizing)"
      using inv fin fz fin0 same[of eid] by (cases "eid = me") (simp_all add: sys_inv_def finals_ok_def)
  qed
  ultimately show ?thesis using so inv bs fl by (simp add: sys_inv_def)
qed

end
