(* ===== verification/System_Inv.thy ===== *)
theory System_Inv
  imports System
begin

text \<open>
  Every step of the system keeps its invariant. The lemmas follow the operations: those that
  leave the votes, batches and snapshots alone, a status write, sealing, the parts of a
  submission, creation, and the restart.
\<close>

section \<open>Steps that leave the vote log alone\<close>

lemma flights_ok_same:
  "flights_ok s fl \<Longrightarrow> processingVoteIDs t = processingVoteIDs s \<Longrightarrow>
   (\<And>eid vid. vote_at s eid vid = None \<Longrightarrow> vote_at t eid vid = None) \<Longrightarrow> flights_ok t fl"
  by (fastforce simp: flights_ok_def)

lemma locks_voteIDs: "locks t = locks s \<Longrightarrow> processingVoteIDs t = processingVoteIDs s"
  by (simp add: locks_def)

lemma sys_inv_wf: "sys_inv k y \<Longrightarrow> storage_wf (store (eng y))"
  by (simp add: sys_inv_def store_ok_def)

lemma sys_inv_loaded:
  assumes "sys_inv k y" and "runtime (eng y) eid = Some rt"
  shows "rt_id rt = eid" "loaded_ok k (store (eng y)) (finals y) rt"
  using assms unfolding sys_inv_def runtime_def by (metis ElectionID_String_eq)+

lemma loaded_ok_update:
  assumes wf: "storage_wf s" "storage_wf t" and sl: "same_log (rt_id rt) s t"
    and el: "election_at s (rt_id rt) = Some el" "election_at t (rt_id rt) = Some el'"
    and cfg: "el_Config el' = el_Config el" "el_BatchSize el' = el_BatchSize el" "el_Status el' \<noteq> StatusCanceled"
    and live: "live fin' el' \<Longrightarrow> live fin el" and lo: "loaded_ok k s fin rt"
  shows "loaded_ok k t fin' rt"
proof -
  have "restorable k t (rt_id rt) (rt_cfg rt) \<longleftrightarrow> restorable k s (rt_id rt) (rt_cfg rt)"
    using sl by (simp add: restorable_def same_log_def)
  moreover have "configured k el' rt \<longleftrightarrow> configured k el rt" using cfg by (simp add: configured_def)
  ultimately show ?thesis using lo el cfg(3) live same_log_rt_inv[OF sl wf, of k] by (auto simp: loaded_ok_def)
qed

lemma sys_inv_same:
  assumes inv: "sys_inv k y" and wf: "storage_wf (store e')"
    and same: "\<And>eid. same_log eid (store (eng y)) (store e')" "\<And>eid. election_at (store e') eid = election_at (store (eng y)) eid"
    and fr: "eng_batchSize e' = eng_batchSize (eng y)" "runtimes e' = runtimes (eng y)" "finalizing e' = finalizing (eng y)"
      "locks (store e') = locks (store (eng y))"
  shows "sys_inv k (y\<lparr>eng := e'\<rparr>)"
proof (rule sys_inv_step[OF inv, where me = "[]"])
  note wf0 = sys_inv_wf[OF inv]
  have vt: "vote_at (store e') eid vid = vote_at (store (eng y)) eid vid" for eid vid using same(1)[of eid] by (simp add: same_log_def)
  show "flights_ok (store (eng (y\<lparr>eng := e'\<rparr>))) (flights (y\<lparr>eng := e'\<rparr>))"
    using flights_ok_same[of "store (eng y)" "flights y" "store e'"] inv locks_voteIDs[OF fr(4)] vt by (simp add: sys_inv_def)
  fix rt assume "runtimes (eng (y\<lparr>eng := e'\<rparr>)) (ElectionID_String []) = Some rt"
  then have rt: "runtime (eng y) [] = Some rt" using fr(2) by (simp add: runtime_def)
  note L = sys_inv_loaded[OF inv rt]
  then obtain el where el: "election_at (store (eng y)) (rt_id rt) = Some el" "el_Status el \<noteq> StatusCanceled" by (auto simp: loaded_ok_def)
  show "rt_id rt = [] \<and> loaded_ok k (store (eng (y\<lparr>eng := e'\<rparr>))) (finals (y\<lparr>eng := e'\<rparr>)) rt"
    using L(1) loaded_ok_update[OF wf0 wf same(1) el(1) _ _ _ el(2) _ L(2), of "finals y"] el(1) same(2) by simp
qed (use inv same wf fr same_log_views(5)[OF same(1)] in \<open>simp_all add: sys_inv_def store_ok_def finals_ok_def\<close>)

lemma sys_inv_audit: "sys_inv k (y\<lparr>eng := e\<rparr>) \<Longrightarrow> sys_inv k (y\<lparr>eng := audit now e a b c i\<rparr>)"
  using sys_inv_same[of k "y\<lparr>eng := e\<rparr>" "audit now e a b c i"] audit_same[where e = e and now = now and a = a and b = b and c = c and i = i] sys_inv_wf[of k "y\<lparr>eng := e\<rparr>"]
    only_store_audit[where e = e and now = now and a = a and b = b and c = c and eid = i] by (simp add: only_store_def)

lemma sys_inv_memory:
  assumes "sys_inv k (y\<lparr>eng := e\<rparr>)" and "store e' = store e" "runtimes e' = runtimes e" "eng_batchSize e' = eng_batchSize e"
    "finalizing e' = finalizing e"
  shows "sys_inv k (y\<lparr>eng := e'\<rparr>)"
  using assms by (simp add: sys_inv_def finals_ok_def)

lemma sys_inv_notify: "sys_inv k (y\<lparr>eng := e\<rparr>) \<Longrightarrow> sys_inv k (y\<lparr>eng := notify i e\<rparr>)"
  by (erule sys_inv_memory) (simp_all add: notify_def split: option.splits)

lemma sys_inv_retryDispatch: "sys_inv k (y\<lparr>eng := e\<rparr>) \<Longrightarrow> sys_inv k (y\<lparr>eng := retryDispatch now i e\<rparr>)"
  by (erule sys_inv_memory) (auto simp: retryDispatch_def notify_def Let_def split: option.splits prod.splits)

lemma sys_inv_Forget: "sys_inv k (y\<lparr>eng := e\<rparr>) \<Longrightarrow> sys_inv k (y\<lparr>eng := sched_Forget i e\<rparr>)"
  by (erule sys_inv_memory) (simp_all add: sched_Forget_def split: option.splits)

lemma sys_inv_deleteProofs: "sys_inv k (y\<lparr>eng := e\<rparr>) \<Longrightarrow> sys_inv k (y\<lparr>eng := deleteProofs i e\<rparr>)"
  using sys_inv_same[of k "y\<lparr>eng := e\<rparr>" "deleteProofs i e"] DeleteProofs_same[of "store e"] sys_inv_wf[of k "y\<lparr>eng := e\<rparr>"]
  by (simp add: deleteProofs_def)

section \<open>Writing an election\<close>

text \<open>
  \<open>UpdateElection\<close> with a function that keeps the configuration and whose status move does
  not bring a runtime to life that was not.
\<close>

text \<open>A loaded election after its record was updated, or after the update failed.\<close>

lemma loaded_after_update:
  assumes inv: "sys_inv k y" and run: "UpdateElection now (store (eng y)) eid f = (r, s)"
    and f: "\<And>el el'. f el = Inr el' \<Longrightarrow> el_ID el' = el_ID el \<and> el_Config el' = el_Config el \<and> el_BatchSize el' = el_BatchSize el"
    and R: "runtime (eng y) eid = Some rt"
    and ok: "\<And>el el'. isOk r \<Longrightarrow> election_at (store (eng y)) eid = Some el \<Longrightarrow> f el = Inr el' \<Longrightarrow>
        el_Status el' \<noteq> StatusCanceled \<and> (live fin' el' \<longrightarrow> live (finals y) el)"
    and fail: "isl r \<Longrightarrow> fin' \<subseteq> finals y"
  shows "rt_id rt = eid \<and> loaded_ok k s fin' rt"
proof -
  note wf0 = sys_inv_wf[OF inv]
  have f': "\<And>el el'. f el = Inr el' \<Longrightarrow> el_ID el' = el_ID el" using f by blast
  note U = UpdateElection_same[OF wf0 run f']
  note L = sys_inv_loaded[OF inv R]
  show ?thesis
  proof (cases "isOk r")
    case True
    then obtain el el' where el: "election_at (store (eng y)) eid = Some el" "f el = Inr el'"
      "election_at s eid = Some (el'\<lparr>el_UpdatedAt := now\<rparr>)" using U(5) by blast
    have "loaded_ok k s fin' rt"
      by (rule loaded_ok_update[OF wf0 U(1) U(2) _ _ _ _ _ _ L(2), where el = el and el' = "el'\<lparr>el_UpdatedAt := now\<rparr>"])
        (use el L(1) ok[OF True el(1,2)] f[OF el(2)] in \<open>simp_all add: live_def\<close>)
    then show ?thesis using L(1) by simp
  next
    case False
    obtain el where el: "election_at (store (eng y)) (rt_id rt) = Some el" "el_Status el \<noteq> StatusCanceled"
      using L(2) by (auto simp: loaded_ok_def)
    have "loaded_ok k s fin' rt"
      by (rule loaded_ok_update[OF wf0 U(1) U(2) el(1) _ _ _ el(2) _ L(2)]) (use el U(4) False fail in \<open>auto simp: live_def\<close>)
    then show ?thesis using L(1) by simp
  qed
qed

lemma sys_inv_UpdateElection:
  assumes inv: "sys_inv k y" and run: "UpdateElection now (store (eng y)) eid f = (r, s)"
    and f: "\<And>el el'. f el = Inr el' \<Longrightarrow> el_ID el' = el_ID el \<and> el_Config el' = el_Config el \<and> el_BatchSize el' = el_BatchSize el"
    and rt: "\<And>el el' rt. isOk r \<Longrightarrow> election_at (store (eng y)) eid = Some el \<Longrightarrow> f el = Inr el' \<Longrightarrow> runtimes e' (ElectionID_String eid) = Some rt \<Longrightarrow>
        runtime (eng y) eid = Some rt \<and> el_Status el' \<noteq> StatusCanceled \<and> (live fin' el' \<longrightarrow> live (finals y) el)"
    and fail: "isl r \<Longrightarrow> fin' \<subseteq> finals y \<and> (\<forall>rt. runtimes e' (ElectionID_String eid) = Some rt \<longrightarrow> runtime (eng y) eid = Some rt)"
    and fin: "fin' - {eid} = finals y - {eid}" and fin0: "\<And>el el'. eid \<in> fin' \<Longrightarrow> isOk r \<Longrightarrow>
        election_at (store (eng y)) eid = Some el \<Longrightarrow> f el = Inr el' \<Longrightarrow> el_Status el' = StatusFinalizing"
    and e': "store e' = s" "eng_batchSize e' = eng_batchSize (eng y)"
      "\<And>i. i \<noteq> ElectionID_String eid \<Longrightarrow> runtimes e' i = runtimes (eng y) i"
      "finalizing (eng y) - {ElectionID_String eid} \<subseteq> finalizing e'" "eid \<in> fin' \<Longrightarrow> ElectionID_String eid \<in> finalizing e'"
  shows "sys_inv k (y\<lparr>eng := e', finals := fin'\<rparr>)"
proof -
  note wf0 = sys_inv_wf[OF inv]
  have f': "\<And>el el'. f el = Inr el' \<Longrightarrow> el_ID el' = el_ID el" using f by blast
  note U = UpdateElection_same[OF wf0 run f']
  have lk: "locks s = locks (store (eng y))" using locks_ops(4)[of now "store (eng y)" eid f] run by simp
  show ?thesis
  proof (rule sys_inv_step[OF inv, where me = eid])
    let ?y' = "y\<lparr>eng := e', finals := fin'\<rparr>"
    show "storage_wf (store (eng ?y'))" using U(1) e'(1) by simp
    show "store_inv (store (eng ?y')) eid"
      using inv same_log_views(5)[OF U(2)] e'(1) by (simp add: sys_inv_def store_ok_def)
    show "flights_ok (store (eng ?y')) (flights ?y')"
    proof -
      have "vote_at s i vid = vote_at (store (eng y)) i vid" for i vid using U(2)[of i] by (simp add: same_log_def)
      then show ?thesis using flights_ok_same[of "store (eng y)" "flights y" s] inv locks_voteIDs[OF lk] e'(1) by (simp add: sys_inv_def)
    qed
    show "rt_id rt = eid \<and> loaded_ok k (store (eng ?y')) (finals ?y') rt"
      if "runtimes (eng ?y') (ElectionID_String eid) = Some rt" for rt
    proof -
      have some: "runtimes e' (ElectionID_String eid) = Some rt" using that by simp
      have "runtime (eng y) eid = Some rt"
      proof (cases "isOk r")
        case True
        then obtain el el' where "election_at (store (eng y)) eid = Some el" "f el = Inr el'" using U(5) by blast
        from rt[OF True this some] show ?thesis by simp
      qed (use fail some in auto)
      from loaded_after_update[OF inv run f this, of fin'] rt[OF _ _ _ some] fail show ?thesis by (simp add: e'(1))
    qed
    show "ElectionID_String eid \<in> finalizing (eng ?y') \<and>
        (\<exists>el. election_at (store (eng ?y')) eid = Some el \<and> el_Status el = StatusFinalizing)" if "eid \<in> finals ?y'"
    proof (cases "isOk r")
      case True
      then obtain el el' where "election_at (store (eng y)) eid = Some el" "f el = Inr el'"
        "election_at s eid = Some (el'\<lparr>el_UpdatedAt := now\<rparr>)" using U(5) by blast
      with fin0[of el el'] that True e'(1,5) show ?thesis by simp
    next
      case False
      then show ?thesis using fail U(4)[of eid] that e'(1,5) inv by (auto simp: sys_inv_def finals_ok_def)
    qed
    show "eid' \<noteq> eid \<Longrightarrow> eid' \<in> finals ?y' \<longleftrightarrow> eid' \<in> finals y" for eid' using fin by auto
  qed (use U e' in auto)
qed

section \<open>Sealing\<close>

lemma sys_inv_seal_put:
  assumes inv0: "sys_inv k (y0\<lparr>eng := put_runtime rt e\<rparr>)"
    and R: "seal_rel k (store e) rt (store e') rt'" and os: "only_store e e'"
  shows "sys_inv k (y0\<lparr>eng := put_runtime rt' e'\<rparr>)"
proof -
  define y where "y = y0\<lparr>eng := put_runtime rt e\<rparr>"
  define eid where "eid = rt_id rt"
  have inv: "sys_inv k y" and st [simp]: "store (eng y) = store e" using inv0 by (simp_all add: y_def)
  have rt: "runtime (eng y) eid = Some rt" by (simp add: y_def eid_def)
  have y0: "y0\<lparr>eng := x\<rparr> = y\<lparr>eng := x\<rparr>" for x by (simp add: y_def)
  have ey: "eng_batchSize (eng y) = eng_batchSize e" "finalizing (eng y) = finalizing e"
    "i \<noteq> ElectionID_String eid \<Longrightarrow> runtimes (eng y) i = runtimes e i" for i by (simp_all add: y_def eid_def put_runtime_def)
  note L = sys_inv_loaded[OF inv rt]
  obtain el where el: "election_at (store (eng y)) eid = Some el" "el_Status el \<noteq> StatusCanceled" "configured k el rt"
    "restorable k (store (eng y)) (rt_id rt) (rt_cfg rt)" using L by (auto simp: loaded_ok_def)
  have fr: "rt_id rt' = eid" "rt_cfg rt' = rt_cfg rt" "rt_rules rt' = rt_rules rt" "rt_batchSize rt' = rt_batchSize rt"
    using R L(1) by (simp_all add: seal_rel_def)
  have els: "election_at (store e') i = election_at (store (eng y)) i" and vts: "vote_at (store e') i v = vote_at (store (eng y)) i v"
    for i v using R by (simp_all add: seal_rel_def)
  have si: "store_inv (store e') eid" using R L(1) fr(1) by (auto simp: seal_rel_def store_inv_def rt_inv_def)
  have lo: "loaded_ok k (store e') (finals y) rt'"
    using el R fr els L(1) by (auto simp: loaded_ok_def seal_rel_def configured_def)
  show ?thesis unfolding y0
  proof (rule sys_inv_step[OF inv, where me = eid])
    let ?y' = "y\<lparr>eng := put_runtime rt' e'\<rparr>"
    show "flights_ok (store (eng ?y')) (flights ?y')"
      using flights_ok_same[of "store (eng y)" "flights y" "store e'"] inv os locks_voteIDs[of "store e'" "store (eng y)"] vts
      by (simp add: sys_inv_def only_store_def)
    show "eid \<in> finals ?y' \<Longrightarrow> ElectionID_String eid \<in> finalizing (eng ?y') \<and>
        (\<exists>el. election_at (store (eng ?y')) eid = Some el \<and> el_Status el = StatusFinalizing)"
      using inv os els ey by (simp add: sys_inv_def finals_ok_def put_runtime_def only_store_def)
  qed (use R L(1) fr els el(1) os si lo ey in \<open>auto simp: put_runtime_def only_store_def seal_rel_def\<close>)
qed

lemma put_runtime_same: "runtime e eid = Some rt \<Longrightarrow> rt_id rt = eid \<Longrightarrow> put_runtime rt e = e"
  by (auto simp: put_runtime_def runtime_def fun_upd_idem)

lemma sys_inv_seal:
  assumes inv: "sys_inv k y" and rt: "runtime (eng y) eid = Some rt"
    and R: "seal_rel k (store (eng y)) rt (store e') rt'" "only_store (eng y) e'"
  shows "sys_inv k (y\<lparr>eng := put_runtime rt' e'\<rparr>)"
  by (rule sys_inv_seal_put[OF _ R]) (use inv put_runtime_same[OF rt sys_inv_loaded(1)[OF inv rt]] in simp)

lemma sys_inv_live:
  assumes inv: "sys_inv k y" and rt: "runtime (eng y) eid = Some rt"
    and el: "election_at (store (eng y)) eid = Some el" "live (finals y) el"
  shows "storage_wf (store (eng y))" "log_inv (store (eng y)) (rt_id rt)" "rt_inv k (store (eng y)) rt"
  using inv sys_inv_loaded[OF inv rt] el by (auto simp: sys_inv_def store_ok_def store_inv_def loaded_ok_def)

lemma sys_inv_clear:
  assumes inv: "sys_inv k y" and rt: "runtime (eng y) eid = Some rt"
  shows "sys_inv k (y\<lparr>eng := put_runtime (rt\<lparr>rt_pending := []\<rparr>) (eng y)\<rparr>)"
proof -
  note L = sys_inv_loaded[OF inv rt]
  have "loaded_ok k (store (eng y)) (finals y) (rt\<lparr>rt_pending := []\<rparr>)"
    using L(2) by (auto simp: loaded_ok_def configured_def rt_inv_def rt_ok_def synced_def)
  then show ?thesis using inv by (auto simp: sys_inv_def put_runtime_def finals_ok_def)
qed

end
