(* ===== verification/System_Steps.thy ===== *)
theory System_Steps
  imports System_Inv
begin

text \<open>
  Each rule of the step relation keeps the invariant of the system, in the order of the
  rules: status changes and the sweep of the monitor, the drain, the decryption key and the
  end of a finalize, the parts of a submission, creation, the scheduler's writes, the worker
  registrations, and the restart.
\<close>

section \<open>Status changes\<close>

lemma sys_inv_setVotesStatus:
  assumes inv: "sys_inv k y" and st: "st \<noteq> VoteStatusPending"
    and dead: "\<And>rt el. runtime (eng y) eid = Some rt \<Longrightarrow> election_at (store (eng y)) eid = Some el \<Longrightarrow> \<not> live (finals y) el"
  shows "sys_inv k (y\<lparr>eng := setVotesStatus eid st (eng y)\<rparr>)"
proof -
  let ?s = "store (eng y)" and ?e = "setVotesStatus eid st (eng y)"
  note wf = sys_inv_wf[OF inv]
  have ex: "vote_at ?s eid (v_ID v) \<noteq> None" if "v \<in> set (ListVotes ?s eid)" for v
    using that ListVotes_mem[OF wf] by simp
  have M: "storage_wf (store ?e) \<and> (i \<noteq> eid \<longrightarrow> same_log i ?s (store ?e)) \<and> election_at (store ?e) i = election_at ?s i \<and>
      vote_at (store ?e) i w = vote_at ?s i w \<and> (store_inv ?s eid \<longrightarrow> store_inv (store ?e) eid) \<and> pend (store ?e) eid \<subseteq> pend ?s eid \<and>
      snapshot_at (store ?e) i = snapshot_at ?s i \<and> locks (store ?e) = locks ?s" for i w
    by (rule setVotesStatus_moves[OF wf st ex]) (simp_all add: setVotesStatus_def)
  have fr: "runtimes ?e = runtimes (eng y)" "eng_batchSize ?e = eng_batchSize (eng y)" "finalizing ?e = finalizing (eng y)"
    by (simp_all add: setVotesStatus_def)
  have si: "store_inv (store ?e) eid" using M inv by (simp add: sys_inv_def store_ok_def)
  have els: "election_at (store ?e) i = election_at ?s i" for i using M by blast
  show ?thesis
  proof (rule sys_inv_step[OF inv, where me = eid])
    let ?y' = "y\<lparr>eng := ?e\<rparr>"
    show "flights_ok (store (eng ?y')) (flights ?y')"
      using flights_ok_same[of ?s "flights y" "store ?e"] inv locks_voteIDs[of "store ?e" ?s] M by (simp add: sys_inv_def)
    show "rt_id rt = eid \<and> loaded_ok k (store (eng ?y')) (finals ?y') rt"
      if "runtimes (eng ?y') (ElectionID_String eid) = Some rt" for rt
    proof -
      have rt: "runtime (eng y) eid = Some rt" using that fr by (simp add: runtime_def)
      note L = sys_inv_loaded[OF inv rt]
      have snap: "snapshot_at (store ?e) eid = snapshot_at ?s eid" using M by blast
      then have "restorable k (store ?e) eid c = restorable k ?s eid c" for c by (simp add: restorable_def)
      then show ?thesis using L dead[OF rt] els by (auto simp: loaded_ok_def)
    qed
    show "eid \<in> finals ?y' \<Longrightarrow> ElectionID_String eid \<in> finalizing (eng ?y') \<and>
        (\<exists>el. election_at (store (eng ?y')) eid = Some el \<and> el_Status el = StatusFinalizing)"
      using inv fr els by (simp add: sys_inv_def finals_ok_def)
    show "election_at (store (eng ?y')) eid = None \<Longrightarrow> same_log eid (store (eng y)) (store (eng ?y')) \<and> election_at (store (eng y)) eid = None"
    proof -
      assume a: "election_at (store (eng ?y')) eid = None"
      then have n: "election_at ?s eid = None" using els by simp
      have "ListVotes ?s eid = []"
      proof (rule ccontr)
        assume "ListVotes ?s eid \<noteq> []"
        then obtain v where "v \<in> set (ListVotes ?s eid)" by (meson list.set_sel(1))
        then have "vote_at ?s eid (v_ID v) \<noteq> None" by (rule ex)
        then show False using n inv by (simp add: sys_inv_def store_ok_def)
      qed
      then have "store ?e = ?s" by (simp add: setVotesStatus_def)
      then show ?thesis using n by (simp add: same_log_refl)
    qed
  qed (use M fr si in auto)
qed

lemma sys_inv_forget:
  assumes inv: "sys_inv k y" and gone: "runtime (eng y) eid = None"
  shows "sys_inv k (y\<lparr>eng := sched_Forget eid (deleteProofs eid (setVotesStatus eid VoteStatusError (eng y)))\<rparr>)"
  by (intro sys_inv_Forget sys_inv_deleteProofs sys_inv_setVotesStatus[OF inv]) (simp_all add: gone)

lemma sys_inv_settlePending:
  assumes inv: "sys_inv k y" and rt: "runtime (eng y) eid = Some rt" and restore: "snapshots_restore k"
    and el: "election_at (store (eng y)) eid = Some el" "live (finals y) el"
    and run: "settlePending k now (eng y) rt to = Some (e', rt')"
  shows "sys_inv k (y\<lparr>eng := put_runtime rt' e'\<rparr>)" "rt_id rt' = eid" "election_at (store e') i = election_at (store (eng y)) i"
proof -
  note id = sys_inv_loaded(1)[OF inv rt]
  have "sys_inv k (y\<lparr>eng := put_runtime rt' e'\<rparr>) \<and> rt_id rt' = eid \<and> election_at (store e') i = election_at (store (eng y)) i"
  proof (cases "to = StatusEnded")
    case True
    obtain r where s: "sealAllLocked k now (eng y) rt = Some (r, e', rt')"
      using run True by (auto simp: settlePending_def)
    have "seal_rel k (store (eng y)) rt (store e') rt'" "only_store (eng y) e'"
      using sealAllLocked_inv[OF sys_inv_live[OF inv rt el] restore, of now] s by auto
    then show ?thesis using sys_inv_seal[OF inv rt] id el(1) by (simp add: seal_rel_def)
  next
    case False
    show ?thesis
    proof (cases "to = StatusCanceled")
      case True
      then have "e' = eng y" "rt' = rt\<lparr>rt_pending := []\<rparr>" using run by (auto simp: settlePending_def)
      then show ?thesis using sys_inv_clear[OF inv rt] id el(1) by simp
    next
      case no: False
      then have "e' = eng y" "rt' = rt" using run False by (auto simp: settlePending_def)
      then show ?thesis using inv id el(1) put_runtime_same[OF rt id] by simp
    qed
  qed
  then show "sys_inv k (y\<lparr>eng := put_runtime rt' e'\<rparr>)" "rt_id rt' = eid" "election_at (store e') i = election_at (store (eng y)) i" by blast+
qed

lemma moveStatus_Inr: "moveStatus cur to el = Inr el' \<Longrightarrow> el_Status el = cur \<and> el' = el\<lparr>el_Status := to\<rparr>"
  by (auto simp: moveStatus_def split: if_splits)

lemma statusChanges_from:
  "to \<in> set (case statusChanges cur of None \<Rightarrow> [] | Some tos \<Rightarrow> tos) \<Longrightarrow>
     (cur = StatusActive \<or> cur = StatusPaused) \<and> to \<in> {StatusActive, StatusPaused, StatusEnded, StatusCanceled}"
  by (cases cur) auto

text \<open>The shape of \<open>changeStatus\<close>: refused, or the pending votes settled and one update.\<close>

lemma changeStatus_shape:
  fixes e :: "('b, 'v, 'st) engine"
  assumes el: "store_Election (store e) (rt_id rt) = Inr el" and run: "changeStatus k now e rt subject role to = Some (r, e')"
  shows "isl r \<and> e' = e \<or>
    to \<in> set (case statusChanges (el_Status el) of None \<Rightarrow> [] | Some tos \<Rightarrow> tos) \<and>
    (\<exists>e1 rt1 ru s e2. settlePending k now e rt to = Some (e1, rt1) \<and>
       UpdateElection now (store e1) (rt_id rt) (moveStatus (el_Status el) to) = (ru, s) \<and> e2 = put_runtime rt1 (e1\<lparr>store := s\<rparr>) \<and>
       (isl ru \<and> e' = e2 \<or>
        isOk ru \<and> e' = audit now (if to = StatusCanceled then forgetElection (rt_id rt) e2 else e2) subject role (statusActions to) (rt_id rt)))"
proof (cases "to \<in> set (case statusChanges (el_Status el) of None \<Rightarrow> [] | Some tos \<Rightarrow> tos)")
  case False
  with run el have "isl r \<and> e' = e" by (auto simp: changeStatus_def Let_def)
  then show ?thesis by blast
next
  case True
  define upd where "upd x = UpdateElection now (store (fst x)) (rt_id rt) (moveStatus (el_Status el) to)"
    for x :: "('b, 'v, 'st) engine \<times> ('v, 'st) electionRuntime"
  define e2 where "e2 x = put_runtime (snd x) ((fst x)\<lparr>store := snd (upd x)\<rparr>)" for x
  have "map_option (\<lambda>x. case fst (upd x) of Inl er \<Rightarrow> (Inl er, e2 x)
      | Inr _ \<Rightarrow> (Inr (), audit now (if to = StatusCanceled then forgetElection (rt_id rt) (e2 x) else e2 x) subject role
          (statusActions to) (rt_id rt))) (settlePending k now e rt to) = Some (r, e')"
    using run el True unfolding changeStatus_def e2_def upd_def
    by (simp only: sum.case Let_def not_True_eq_False if_False case_prod_unfold)
  then obtain x where x: "settlePending k now e rt to = Some x" "(case fst (upd x) of Inl er \<Rightarrow> (Inl er, e2 x)
      | Inr _ \<Rightarrow> (Inr (), audit now (if to = StatusCanceled then forgetElection (rt_id rt) (e2 x) else e2 x) subject role
          (statusActions to) (rt_id rt))) = (r, e')" by auto
  have "isl (fst (upd x)) \<and> e' = e2 x \<or> isOk (fst (upd x)) \<and>
      e' = audit now (if to = StatusCanceled then forgetElection (rt_id rt) (e2 x) else e2 x) subject role (statusActions to) (rt_id rt)"
  proof (cases "fst (upd x)")
    case (Inl er)
    then have "e' = e2 x" using x(2) by simp
    then show ?thesis using Inl by (metis sum.disc(1))
  next
    case (Inr u)
    then have "e' = audit now (if to = StatusCanceled then forgetElection (rt_id rt) (e2 x) else e2 x) subject role
        (statusActions to) (rt_id rt)" using x(2) by simp
    then show ?thesis using Inr by (metis sum.disc(2))
  qed
  moreover obtain e1 rt1 ru s where p: "x = (e1, rt1)" "upd x = (ru, s)" by (metis prod.exhaust)
  ultimately have "settlePending k now e rt to = Some (e1, rt1) \<and>
      UpdateElection now (store e1) (rt_id rt) (moveStatus (el_Status el) to) = (ru, s) \<and> e2 x = put_runtime rt1 (e1\<lparr>store := s\<rparr>) \<and>
      (isl ru \<and> e' = e2 x \<or> isOk ru \<and>
       e' = audit now (if to = StatusCanceled then forgetElection (rt_id rt) (e2 x) else e2 x) subject role (statusActions to) (rt_id rt))"
    using x(1) by (simp add: upd_def e2_def)
  then show ?thesis using True by blast
qed

lemma sys_inv_changeStatus:
  assumes inv: "sys_inv k y" and rt: "runtime (eng y) eid = Some rt" and restore: "snapshots_restore k"
    and run: "changeStatus k now (eng y) rt subject role to = Some (r, e')"
  shows "sys_inv k (y\<lparr>eng := e'\<rparr>)"
proof -
  note id = sys_inv_loaded(1)[OF inv rt]
  obtain el where el: "election_at (store (eng y)) eid = Some el" using sys_inv_loaded[OF inv rt] by (auto simp: loaded_ok_def)
  define cur where "cur = el_Status el"
  have "store_Election (store (eng y)) (rt_id rt) = Inr el" using el id by (simp add: reads[OF sys_inv_wf[OF inv]])
  from changeStatus_shape[OF this run] consider (same) "e' = eng y"
    | (moved) e1 rt1 ru s e2 where "to \<in> set (case statusChanges cur of None \<Rightarrow> [] | Some tos \<Rightarrow> tos)"
        "settlePending k now (eng y) rt to = Some (e1, rt1)" "UpdateElection now (store e1) eid (moveStatus cur to) = (ru, s)"
        "e2 = put_runtime rt1 (e1\<lparr>store := s\<rparr>)"
        "isl ru \<and> e' = e2 \<or> isOk ru \<and>
           e' = audit now (if to = StatusCanceled then forgetElection eid e2 else e2) subject role (statusActions to) eid"
    unfolding id cur_def by blast
  then show ?thesis
  proof cases
    case same
    with inv show ?thesis by simp
  next
    case moved
    note S = statusChanges_from[OF moved(1)] and U = moved(3)
    have lv: "live (finals y) el" using S by (auto simp: live_def cur_def)
    note P = sys_inv_settlePending[OF inv rt restore el lv moved(2)]
    define e3 where "e3 = (if isOk ru \<and> to = StatusCanceled
      then e2\<lparr>runtimes := (runtimes e2)(ElectionID_String eid := None)\<rparr> else e2)"
    have nofin: "eid \<notin> finals y" using inv el S by (auto simp: sys_inv_def finals_ok_def cur_def)
    have i3: "sys_inv k (y\<lparr>eng := e3\<rparr>)"
    proof -
      have "sys_inv k (y\<lparr>eng := put_runtime rt1 e1, eng := e3, finals := finals y\<rparr>)"
      proof (rule sys_inv_UpdateElection[OF P(1), where eid = eid and f = "moveStatus cur to" and r = ru and now = now and s = s])
        show "UpdateElection now (store (eng (y\<lparr>eng := put_runtime rt1 e1\<rparr>))) eid (moveStatus cur to) = (ru, s)" using U by simp
        show "\<And>el el'. moveStatus cur to el = Inr el' \<Longrightarrow>
            el_ID el' = el_ID el \<and> el_Config el' = el_Config el \<and> el_BatchSize el' = el_BatchSize el"
          by (auto dest!: moveStatus_Inr)
        show "runtime (eng (y\<lparr>eng := put_runtime rt1 e1\<rparr>)) eid = Some rt'' \<and> el_Status el'' \<noteq> StatusCanceled \<and>
            (live (finals y) el'' \<longrightarrow> live (finals (y\<lparr>eng := put_runtime rt1 e1\<rparr>)) el')"
          if "isOk ru" "moveStatus cur to el' = Inr el''" "runtimes e3 (ElectionID_String eid) = Some rt''" for el' el'' rt''
          using that S P(2) by (auto dest!: moveStatus_Inr simp: e3_def moved(4) put_runtime_def runtime_def live_def split: if_splits)
      qed (use P(2) nofin in \<open>auto simp: e3_def moved(4) put_runtime_def runtime_def\<close>)
      then show ?thesis by simp
    qed
    show ?thesis
    proof (cases "isOk ru \<and> to = StatusCanceled")
      case True
      then have e3: "e3 = e2\<lparr>runtimes := (runtimes e2)(ElectionID_String eid := None)\<rparr>" by (simp add: e3_def)
      have e': "e' = audit now (forgetElection eid e2) subject role (statusActions to) eid" using moved(5) True by auto
      have "sys_inv k (y\<lparr>eng := forgetElection eid e2\<rparr>)"
        using sys_inv_forget[OF i3, of eid] by (simp add: runtime_def e3 forgetElection_def)
      then show ?thesis unfolding e' by (rule sys_inv_audit)
    next
      case False
      then have "e3 = e2" by (auto simp: e3_def)
      moreover have "e' = e2 \<or> e' = audit now e2 subject role (statusActions to) eid" using moved(5) False by auto
      ultimately show ?thesis using i3 sys_inv_audit by auto
    qed
  qed
qed

lemma sys_inv_SetStatus:
  assumes inv: "sys_inv k y" and restore: "snapshots_restore k" and run: "SetStatus k now (eng y) subject eid to = Some (r, e')"
  shows "sys_inv k (y\<lparr>eng := e'\<rparr>)"
proof (cases "\<exists>el rt. store_Election (store (eng y)) eid = Inr el \<and> runtime (eng y) eid = Some rt")
  case True
  then obtain rt where rt: "runtime (eng y) eid = Some rt" and "changeStatus k now (eng y) rt subject ''admin'' to = Some (r, e')"
    using run by (auto simp: SetStatus_def)
  then show ?thesis using sys_inv_changeStatus[OF inv rt restore] by blast
next
  case False
  then have "e' = eng y" using run by (auto simp: SetStatus_def split: sum.splits option.splits)
  with inv show ?thesis by simp
qed

section \<open>The monitor and the drain\<close>

lemma sys_inv_retries:
  "sys_inv k (y\<lparr>eng := e\<rparr>) \<Longrightarrow> sys_inv k (y\<lparr>eng := e\<lparr>eng_retries := rs\<rparr>\<rparr>)"
  by (erule sys_inv_memory) simp_all

lemma sys_inv_endElection:
  assumes inv: "sys_inv k y" and rt: "runtime (eng y) eid = Some rt" and restore: "snapshots_restore k"
    and run: "endElection k now rt (eng y) = Some e'"
  shows "sys_inv k (y\<lparr>eng := e'\<rparr>)"
proof (cases "due now (eng_retries (eng y)) (rt_id rt) taskEnd")
  case False
  with run have "e' = eng y" by (simp add: endElection_def)
  with inv show ?thesis by simp
next
  case True
  obtain x where c: "changeStatus k now (eng y) rt ''system'' ''system'' StatusEnded = Some x"
    using run True by (auto simp: endElection_def)
  obtain r e1 where x: "x = (r, e1)" by (cases x)
  have "\<exists>rs. e' = e1\<lparr>eng_retries := rs\<rparr>"
    using run True c x by (cases r) (auto simp: endElection_def split: if_splits)
  with c x show ?thesis using sys_inv_changeStatus[OF inv rt restore] sys_inv_retries by blast
qed

lemma sys_inv_tick_election:
  assumes inv: "sys_inv k y" and rt: "runtime (eng y) eid = Some rt" and restore: "snapshots_restore k"
    and run: "tick_election k now rt (eng y) = Some (e', ds)"
  shows "sys_inv k (y\<lparr>eng := e'\<rparr>)"
proof -
  note L = sys_inv_loaded[OF inv rt]
  obtain el where el: "election_at (store (eng y)) eid = Some el" using L by (auto simp: loaded_ok_def)
  then have se: "store_Election (store (eng y)) (rt_id rt) = Inr el" using L(1) by (simp add: reads[OF sys_inv_wf[OF inv]])
  have self: "sys_inv k (y\<lparr>eng := eng y\<rparr>)" using inv by simp
  show ?thesis
  proof (cases "el_Status el = StatusActive \<or> el_Status el = StatusPaused")
    case False
    then have "e' = eng y \<or> e' = retryDispatch now (rt_id rt) (eng y)"
      using run se by (auto simp: tick_election_def split: if_splits)
    then show ?thesis using self sys_inv_retryDispatch[OF self] by auto
  next
    case act: True
    then have lv: "live (finals y) el" by (auto simp: live_def)
    show ?thesis
    proof (cases "el_EndTime el \<noteq> 0 \<and> now > el_EndTime el")
      case True
      with run se act have "endElection k now rt (eng y) = Some e'" by (auto simp: tick_election_def)
      then show ?thesis by (rule sys_inv_endElection[OF inv rt restore])
    next
      case False
      obtain r e1 rt1 where s: "sealIfStale k now (eng y) rt = Some (r, e1, rt1)"
        and e': "e' = retryDispatch now (rt_id rt) (put_runtime rt1 e1)"
        using run se act False by (auto simp: tick_election_def split: if_splits)
      have "seal_rel k (store (eng y)) rt (store e1) rt1" "only_store (eng y) e1"
        using sealIfStale_inv[OF sys_inv_live[OF inv rt el lv] restore, of now] s by auto
      then show ?thesis unfolding e' by (intro sys_inv_retryDispatch sys_inv_seal[OF inv rt])
    qed
  qed
qed

lemma sys_inv_drain_seal:
  assumes inv: "sys_inv k y" and rt: "runtime (eng y) eid = Some rt" and restore: "snapshots_restore k"
    and el: "election_at (store (eng y)) eid = Some el" "live (finals y) el"
    and run: "drain_seal k now (eng y) rt = Some (r, e')"
  shows "sys_inv k (y\<lparr>eng := e'\<rparr>)"
proof -
  obtain ru e1 rt1 where s: "sealAllLocked k now (eng y) rt = Some (ru, e1, rt1)" and e': "e' = put_runtime rt1 e1"
    using run by (auto simp: drain_seal_def)
  have "seal_rel k (store (eng y)) rt (store e1) rt1" "only_store (eng y) e1"
    using sealAllLocked_inv[OF sys_inv_live[OF inv rt el] restore, of now] s by auto
  then show ?thesis unfolding e' by (rule sys_inv_seal[OF inv rt])
qed

text \<open>An update that keeps the configuration and stays among the statuses of a live election.\<close>

lemma sys_inv_move:
  assumes inv: "sys_inv k y" and run: "UpdateElection now (store (eng y)) eid f = (r, s)"
    and f: "\<And>el el'. f el = Inr el' \<Longrightarrow> el_ID el' = el_ID el \<and> el_Config el' = el_Config el \<and> el_BatchSize el' = el_BatchSize el \<and>
      (el_Status el' = el_Status el \<or> el_Status el' \<noteq> StatusCanceled \<and> el_Status el \<noteq> StatusFinalizing \<and> el_Status el \<noteq> StatusResults)"
  shows "sys_inv k (y\<lparr>eng := (eng y)\<lparr>store := s\<rparr>\<rparr>)"
proof -
  have "sys_inv k (y\<lparr>eng := (eng y)\<lparr>store := s\<rparr>, finals := finals y\<rparr>)"
  proof (rule sys_inv_UpdateElection[OF inv run])
    show "el_ID el' = el_ID el \<and> el_Config el' = el_Config el \<and> el_BatchSize el' = el_BatchSize el" if "f el = Inr el'" for el el'
      using f[OF that] by blast
    show "runtime (eng y) eid = Some rt \<and> el_Status el' \<noteq> StatusCanceled \<and> (live (finals y) el' \<longrightarrow> live (finals y) el)"
      if "election_at (store (eng y)) eid = Some el" "f el = Inr el'" "runtimes ((eng y)\<lparr>store := s\<rparr>) (ElectionID_String eid) = Some rt" for el el' rt
    proof -
      have rt: "runtime (eng y) eid = Some rt" using that(3) by (simp add: runtime_def)
      then have "el_Status el \<noteq> StatusCanceled" using sys_inv_loaded[OF inv rt] that(1) by (auto simp: loaded_ok_def)
      then show ?thesis using rt f[OF that(2)] by (auto simp: live_def)
    qed
    show "el_Status el' = StatusFinalizing" if "eid \<in> finals y" "election_at (store (eng y)) eid = Some el" "f el = Inr el'" for el el'
      using inv that f[OF that(3)] by (auto simp: sys_inv_def finals_ok_def)
    show "eid \<in> finals y \<Longrightarrow> ElectionID_String eid \<in> finalizing ((eng y)\<lparr>store := s\<rparr>)" using inv by (simp add: sys_inv_def finals_ok_def)
  qed (auto simp: runtime_def)
  then show ?thesis by simp
qed

lemma sys_inv_drain_publish:
  assumes inv: "sys_inv k y" and run: "drain_publish now (eng y) eid = (r, e')"
  shows "sys_inv k (y\<lparr>eng := e'\<rparr>)"
proof -
  obtain ru s where U: "UpdateElection now (store (eng y)) eid (moveStatus StatusEnded StatusDecrypting) = (ru, s)" by (metis prod.exhaust)
  have i: "sys_inv k (y\<lparr>eng := (eng y)\<lparr>store := s\<rparr>\<rparr>)" by (rule sys_inv_move[OF inv U]) (auto dest!: moveStatus_Inr)
  have "e' = (eng y)\<lparr>store := s\<rparr> \<or> e' = audit now ((eng y)\<lparr>store := s\<rparr>) ''system'' ''system'' ''publish_encrypted_results'' eid"
    using run U by (auto simp: drain_publish_def split: sum.splits)
  then show ?thesis using i sys_inv_audit[OF i] by auto
qed

section \<open>The decryption key and the end of a finalize\<close>

definition toFinalizing :: "Election \<Rightarrow> gerror + Election" where
  "toFinalizing stored = and_then (moveStatus StatusDecrypting StatusFinalizing stored) (\<lambda>stored. Inr (stored\<lparr>el_FinalizeError := []\<rparr>))"

lemma toFinalizing_Inr:
  "toFinalizing el = Inr el' \<Longrightarrow> el_Status el = StatusDecrypting \<and> el' = el\<lparr>el_Status := StatusFinalizing, el_FinalizeError := []\<rparr>"
  by (auto simp: toFinalizing_def and_then_def moveStatus_def split: if_splits)

text \<open>The shape of \<open>SubmitDecryptionKey\<close>: refused as it was, or one update and one audit record.\<close>

lemma SubmitDecryptionKey_shape:
  assumes run: "SubmitDecryptionKey k now e subject eid key = (r, e')"
  shows "isl r \<and> e' = e \<or> (\<exists>ru s. UpdateElection now (store e) eid toFinalizing = (ru, s) \<and>
    (isl ru \<and> isl r \<and> e' = e\<lparr>store := s\<rparr> \<or>
     isOk ru \<and> bgStopped e \<and> isl r \<and> e' = audit now (e\<lparr>store := s\<rparr>) subject ''keywarden'' ''submit_decryption_key'' eid \<or>
     isOk ru \<and> \<not> bgStopped e \<and> isOk r \<and>
       e' = (audit now (e\<lparr>store := s\<rparr>) subject ''keywarden'' ''submit_decryption_key'' eid)
          \<lparr>finalizing := insert (ElectionID_String eid) (finalizing e)\<rparr>))"
proof -
  obtain ru s where U: "UpdateElection now (store e) eid toFinalizing = (ru, s)" by (metis prod.exhaust)
  have fold: "(\<lambda>stored. and_then (moveStatus StatusDecrypting StatusFinalizing stored)
      (\<lambda>stored. Inr (stored\<lparr>el_FinalizeError := []\<rparr>))) = toFinalizing" by (simp add: fun_eq_iff toFinalizing_def)
  have bg: "bgStopped (audit now (e\<lparr>store := s\<rparr>) a b c i) = bgStopped e"
    "finalizing (audit now (e\<lparr>store := s\<rparr>) a b c i) = finalizing e" for a b c i by (simp_all add: audit_def)
  show ?thesis
  proof (cases "\<exists>el rt. store_Election (store e) eid = Inr el \<and> el_Status el = StatusDecrypting \<and> runtime e eid = Some rt \<and>
      checkDecryptionKey k (EncKey (rt_cfg rt)) key = Inr () \<and> canFinalize e \<and> ElectionID_String eid \<notin> finalizing e")
    case False
    then have "isl r \<and> e' = e" using run unfolding SubmitDecryptionKey_def fold
      by (auto split: sum.splits option.splits if_splits) (metis sum.disc(1))
    then show ?thesis by blast
  next
    case True
    have "(case ru of Inl er \<Rightarrow> (Inl er, e\<lparr>store := s\<rparr>) | Inr _ \<Rightarrow>
        let e1 = audit now (e\<lparr>store := s\<rparr>) subject ''keywarden'' ''submit_decryption_key'' eid in
        if bgStopped e1 then (Inl [Detail ''shutting down''], e1)
        else (Inr (), e1\<lparr>finalizing := insert (ElectionID_String eid) (finalizing e1)\<rparr>)) = (r, e')"
      using True by (elim exE conjE) (use run in \<open>simp add: SubmitDecryptionKey_def fold U\<close>)
    then show ?thesis using U by (cases ru) (auto simp: bg Let_def split: if_splits)
  qed
qed

lemma sys_inv_finals_dead:
  assumes "sys_inv k y" and "\<And>el. election_at (store (eng y)) eid = Some el \<Longrightarrow> el_Status el = StatusFinalizing"
  shows "sys_inv k (y\<lparr>eng := (eng y)\<lparr>finalizing := finalizing (eng y) - {ElectionID_String eid}\<rparr>, finals := finals y - {eid}\<rparr>)"
proof -
  have "loaded_ok k (store (eng y)) (finals y - {eid}) rt" if "loaded_ok k (store (eng y)) (finals y) rt" for rt
    using that by (auto simp: loaded_ok_def live_def)
  then show ?thesis using assms(1) by (auto simp: sys_inv_def finals_ok_def)
qed

lemma sys_inv_key_refused:
  assumes inv: "sys_inv k y" and run: "SubmitDecryptionKey k now (eng y) subject eid key = (Inl er, e')"
  shows "sys_inv k (y\<lparr>eng := e'\<rparr>)"
proof -
  have self: "sys_inv k (y\<lparr>eng := eng y\<rparr>)" using inv by simp
  have "sys_inv k (y\<lparr>eng := (eng y)\<lparr>store := s\<rparr>\<rparr>)" if "UpdateElection now (store (eng y)) eid toFinalizing = (ru, s)" for ru s
    by (rule sys_inv_move[OF inv that]) (auto dest!: toFinalizing_Inr)
  then show ?thesis using SubmitDecryptionKey_shape[OF run] self sys_inv_audit by auto
qed

lemma sys_inv_key_accepted:
  assumes inv: "sys_inv k y" and run: "SubmitDecryptionKey k now (eng y) subject eid key = (Inr (), e')"
  shows "sys_inv k (y\<lparr>eng := e', finals := insert eid (finals y)\<rparr>)"
proof -
  obtain ru s where U: "UpdateElection now (store (eng y)) eid toFinalizing = (ru, s)" "isOk ru"
    and e': "e' = (audit now ((eng y)\<lparr>store := s\<rparr>) subject ''keywarden'' ''submit_decryption_key'' eid)
        \<lparr>finalizing := insert (ElectionID_String eid) (finalizing (eng y))\<rparr>"
    using SubmitDecryptionKey_shape[OF run] by auto
  define e1 where "e1 = (eng y)\<lparr>store := s, finalizing := insert (ElectionID_String eid) (finalizing (eng y))\<rparr>"
  define z where "z = y\<lparr>eng := e1, finals := insert eid (finals y)\<rparr>"
  have "sys_inv k z" unfolding z_def
  proof (rule sys_inv_UpdateElection[OF inv U(1)])
    show "runtime (eng y) eid = Some rt \<and> el_Status el' \<noteq> StatusCanceled \<and> (live (insert eid (finals y)) el' \<longrightarrow> live (finals y) el)"
      if "election_at (store (eng y)) eid = Some el" "toFinalizing el = Inr el'" "runtimes e1 (ElectionID_String eid) = Some rt" for el el' rt
      using that by (auto dest!: toFinalizing_Inr simp: e1_def runtime_def live_def)
  qed (use U(2) in \<open>auto dest!: toFinalizing_Inr simp: e1_def\<close>)
  moreover have zz: "z\<lparr>eng := e\<rparr> = y\<lparr>eng := e, finals := insert eid (finals y)\<rparr>" for e by (simp add: z_def)
  ultimately have "sys_inv k (z\<lparr>eng := e1\<rparr>)" unfolding zz by (simp only: z_def)
  from sys_inv_audit[OF this, of now subject "''keywarden''" "''submit_decryption_key''" eid]
  moreover have "audit now e1 subject ''keywarden'' ''submit_decryption_key'' eid = e'"
    by (cases "eng y") (simp add: e' e1_def audit_def)
  ultimately show ?thesis by (simp only: zz)
qed

lemma sys_inv_Finalized:
  assumes inv: "sys_inv k y" and fin: "eid \<in> finals y"
  shows "sys_inv k (y\<lparr>eng := finalizeElection now (eng y) eid res, finals := finals y - {eid}\<rparr>)"
proof -
  obtain el where el: "election_at (store (eng y)) eid = Some el" "el_Status el = StatusFinalizing"
    using inv fin by (auto simp: sys_inv_def finals_ok_def)
  show ?thesis
  proof (cases res)
    case (Inl er)
    define e2 where "e2 = audit now (eng y) ''system'' ''system'' (''finalize_failed: '' @ gerror_Error er) eid"
    define f where "f = (\<lambda>el. Inr (el\<lparr>el_Status := StatusDecrypting, el_FinalizeError := finalizeSummary er\<rparr>) :: gerror + Election)"
    have i2: "sys_inv k (y\<lparr>eng := e2\<rparr>)" unfolding e2_def by (rule sys_inv_audit) (use inv in simp)
    obtain r s where U: "UpdateElection now (store e2) eid f = (r, s)" by (metis prod.exhaust)
    have "sys_inv k (y\<lparr>eng := e2, eng := e2\<lparr>finalizing := finalizing e2 - {ElectionID_String eid}, store := s\<rparr>, finals := finals y - {eid}\<rparr>)"
    proof (rule sys_inv_UpdateElection[OF i2])
      show "UpdateElection now (store (eng (y\<lparr>eng := e2\<rparr>))) eid f = (r, s)" using U by simp
      have el2: "election_at (store e2) eid = Some el" using audit_same(3)[OF sys_inv_wf[OF inv]] el(1) by (simp add: e2_def)
      show "runtime (eng (y\<lparr>eng := e2\<rparr>)) eid = Some rt \<and> el_Status c \<noteq> StatusCanceled \<and>
          (live (finals y - {eid}) c \<longrightarrow> live (finals (y\<lparr>eng := e2\<rparr>)) b)"
        if "election_at (store (eng (y\<lparr>eng := e2\<rparr>))) eid = Some b" "f b = Inr c"
          "runtimes (e2\<lparr>finalizing := finalizing e2 - {ElectionID_String eid}, store := s\<rparr>) (ElectionID_String eid) = Some rt" for b c rt
        using that el2 fin election_at_ID[OF sys_inv_wf[OF inv] el(1)] by (auto simp: f_def live_def runtime_def)
    qed (auto simp: f_def runtime_def)
    then show ?thesis using U Inl by (simp add: finalizeElection_def Let_def e2_def f_def audit_def)
  next
    case (Inr x)
    define y1 where "y1 = y\<lparr>eng := (eng y)\<lparr>finalizing := finalizing (eng y) - {ElectionID_String eid}\<rparr>, finals := finals y - {eid}\<rparr>"
    have i1: "sys_inv k y1" unfolding y1_def by (rule sys_inv_finals_dead[OF inv]) (use el in simp)
    have dead: "\<not> live (finals y1) el" using el election_at_ID[OF sys_inv_wf[OF inv] el(1)] by (simp add: live_def y1_def)
    define e2 where "e2 = setVotesStatus eid VoteStatusSettled (eng y1)"
    have i2: "sys_inv k (y1\<lparr>eng := e2\<rparr>)" unfolding e2_def
      by (rule sys_inv_setVotesStatus[OF i1]) (use dead el(1) in \<open>auto simp: y1_def\<close>)
    obtain r s where U: "SetElectionStatus now (store e2) eid StatusResults = (r, s)" by (metis prod.exhaust)
    have i3: "sys_inv k (y1\<lparr>eng := e2\<lparr>store := s\<rparr>\<rparr>)"
    proof -
      have "sys_inv k (y1\<lparr>eng := e2, eng := e2\<lparr>store := s\<rparr>, finals := finals y1\<rparr>)"
      proof (rule sys_inv_UpdateElection[OF i2])
        show "UpdateElection now (store (eng (y1\<lparr>eng := e2\<rparr>))) eid (\<lambda>el. Inr (el\<lparr>el_Status := StatusResults\<rparr>)) = (r, s)"
          using U by (simp add: SetElectionStatus_def)
        show "runtime (eng (y1\<lparr>eng := e2\<rparr>)) eid = Some rt \<and> el_Status c \<noteq> StatusCanceled \<and> (live (finals y1) c \<longrightarrow> live (finals (y1\<lparr>eng := e2\<rparr>)) b)"
          if "election_at (store (eng (y1\<lparr>eng := e2\<rparr>))) eid = Some b" "Inr (b\<lparr>el_Status := StatusResults\<rparr>) = (Inr c :: gerror + Election)"
            "runtimes (e2\<lparr>store := s\<rparr>) (ElectionID_String eid) = Some rt" for b c rt
          using that election_at_ID[OF sys_inv_wf[OF i2], of eid b] by (auto simp: live_def runtime_def y1_def)
      qed (auto simp: y1_def runtime_def)
      then show ?thesis by simp
    qed
    have "finalizeElection now (eng y) eid res = e2\<lparr>store := s\<rparr> \<or>
        finalizeElection now (eng y) eid res = sched_Forget eid (deleteProofs eid (e2\<lparr>store := s\<rparr>))"
      using U Inr by (auto simp: finalizeElection_def Let_def e2_def y1_def split: sum.splits)
    moreover have "y1\<lparr>eng := e\<rparr> = y\<lparr>eng := e, finals := finals y - {eid}\<rparr>" for e by (simp add: y1_def)
    ultimately show ?thesis using i3 sys_inv_Forget[OF sys_inv_deleteProofs[OF i3]] by auto
  qed
qed

section \<open>The parts of a submission\<close>

abbreviation relock :: "'b storage \<Rightarrow> string set \<Rightarrow> VoteID set \<Rightarrow> 'b storage" where
  "relock s A V \<equiv> s\<lparr>processingAddresses := A, processingVoteIDs := V\<rparr>"

lemma relock_at [simp]: "artifact_at (relock s A V) = artifact_at s" "storage_wf (relock s A V) = storage_wf s"
  by (simp_all add: artifact_at_def fun_eq_iff storage_wf_def)

lemma sys_inv_relock:
  assumes inv: "sys_inv k y" and fl: "flights_ok (relock (store (eng y)) A V) fl"
  shows "sys_inv k (y\<lparr>eng := (eng y)\<lparr>store := relock (store (eng y)) A V\<rparr>, flights := fl\<rparr>)"
proof (rule sys_inv_step[OF inv, where me = "[]"])
  let ?s = "store (eng y)"
  let ?y' = "y\<lparr>eng := (eng y)\<lparr>store := relock ?s A V\<rparr>, flights := fl\<rparr>"
  have same: "same_log i ?s (relock ?s A V)" for i by (rule same_log_keys) simp
  show "same_log i (store (eng y)) (store (eng ?y')) \<and> election_at (store (eng ?y')) i = election_at (store (eng y)) i" for i
    using same by simp
  show "store_inv (store (eng ?y')) []" using same_log_views(5)[OF same] inv by (simp add: sys_inv_def store_ok_def)
  show "rt_id rt = [] \<and> loaded_ok k (store (eng ?y')) (finals ?y') rt" if "runtimes (eng ?y') (ElectionID_String []) = Some rt" for rt
  proof -
    have rt: "runtime (eng y) [] = Some rt" using that by (simp add: runtime_def)
    note L = sys_inv_loaded[OF inv rt]
    obtain el where el: "election_at ?s (rt_id rt) = Some el" "el_Status el \<noteq> StatusCanceled" using L by (auto simp: loaded_ok_def)
    have wf: "storage_wf ?s" "storage_wf (relock ?s A V)" using sys_inv_wf[OF inv] by simp_all
    show ?thesis using loaded_ok_update[OF wf same el(1) _ _ _ el(2) _ L(2), of "finals y"] L(1) el(1) by simp
  qed
  show "election_at (store (eng ?y')) [] = None \<Longrightarrow> same_log [] (store (eng y)) (store (eng ?y')) \<and> election_at (store (eng y)) [] = None"
    using same by simp
qed (use inv fl in \<open>auto simp: sys_inv_def store_ok_def finals_ok_def\<close>)

lemma distinct_map_remove1:
  "distinct (map h xs) \<Longrightarrow> x \<in> set xs \<Longrightarrow> distinct (map h (remove1 x xs)) \<and> h x \<notin> h ` set (remove1 x xs)"
  by (induction xs) (auto dest: notin_set_remove1 set_remove1_subset[THEN subsetD] intro: rev_image_eqI)

lemma flights_remove:
  assumes "flights_ok s fl" and "(eid, sub, vr) \<in> set fl"
  shows "flights_ok (relock s A (processingVoteIDs s - {sub_VoteID sub})) (remove1 (eid, sub, vr) fl)"
    "flights_ok s (remove1 (eid, sub, vr) fl)"
    "(eid', sub', vr') \<in> set (remove1 (eid, sub, vr) fl) \<Longrightarrow> sub_VoteID sub' \<noteq> sub_VoteID sub"
proof -
  have d: "distinct (map (\<lambda>f. sub_VoteID (fst (snd f))) fl)" using assms(1) by (simp add: flights_ok_def)
  note D = distinct_map_remove1[OF d assms(2)]
  have in_fl: "f \<in> set (remove1 (eid, sub, vr) fl) \<Longrightarrow> f \<in> set fl" for f using set_remove1_subset by fast
  show other: "(eid', sub', vr') \<in> set (remove1 (eid, sub, vr) fl) \<Longrightarrow> sub_VoteID sub' \<noteq> sub_VoteID sub" for eid' sub' vr'
    using D by force
  show rest: "flights_ok s (remove1 (eid, sub, vr) fl)" using assms(1) D in_fl by (simp add: flights_ok_def)
  have "flight_ok (relock s A (processingVoteIDs s - {sub_VoteID sub})) f" if "f \<in> set (remove1 (eid, sub, vr) fl)" for f
  proof -
    have "flight_ok s f" using that rest by (simp add: flights_ok_def)
    moreover have "sub_VoteID (fst (snd f)) \<noteq> sub_VoteID sub" using other[of "fst f" "fst (snd f)" "snd (snd f)"] that by simp
    ultimately show ?thesis by (cases f) simp
  qed
  then show "flights_ok (relock s A (processingVoteIDs s - {sub_VoteID sub})) (remove1 (eid, sub, vr) fl)"
    using rest by (simp add: flights_ok_def)
qed

lemma submit_release_relock: "submit_release eid sub e = e\<lparr>store := relock (store e)
    (processingAddresses (store e) - {addressKey eid (be_val (sub_Address sub))}) (processingVoteIDs (store e) - {sub_VoteID sub})\<rparr>"
  by (simp add: submit_release_def ReleaseVoteID_def ReleaseAddress_def)

lemma sys_inv_release:
  assumes inv: "sys_inv k y" and fl: "(eid, sub, vr) \<in> set (flights y)"
  shows "sys_inv k (y\<lparr>eng := submit_release eid sub (eng y), flights := remove1 (eid, sub, vr) (flights y)\<rparr>)"
  unfolding submit_release_relock
  by (rule sys_inv_relock[OF inv flights_remove(1)[OF _ fl]]) (use inv in \<open>simp add: sys_inv_def\<close>)

lemma submit_begin_Inr:
  assumes wf: "storage_wf (store e)" and run: "submit_begin e eid sub = (Inr vr, e')"
  shows "\<exists>el rt. election_at (store e) eid = Some el \<and> el_Status el = StatusActive \<and> runtime e eid = Some rt \<and> vr = rt_rules rt \<and>
    sub_VoteID sub \<notin> processingVoteIDs (store e) \<and> vote_at (store e) eid (sub_VoteID sub) = None \<and>
    addressKey eid (be_val (sub_Address sub)) \<notin> processingAddresses (store e) \<and>
    e' = e\<lparr>store := relock (store e) (insert (addressKey eid (be_val (sub_Address sub))) (processingAddresses (store e)))
      (insert (sub_VoteID sub) (processingVoteIDs (store e)))\<rparr>"
proof -
  have wf1: "storage_wf ((store e)\<lparr>processingVoteIDs := V\<rparr>)" for V using wf by (simp add: storage_wf_def)
  have at1: "artifact_at ((store e)\<lparr>processingVoteIDs := V\<rparr>) = artifact_at (store e)" for V by (simp add: artifact_at_def fun_eq_iff)
  show ?thesis using run
    by (auto simp: submit_begin_def reads[OF wf] LockVoteID_def LockAddress_def VoteExists_iff[OF wf1] at1 Let_def found_def
        split: option.splits if_splits)
qed

lemma submit_begin_Inl:
  assumes "submit_begin e eid sub = (Inl er, e')"
  shows "e' = e \<or> e' = e\<lparr>store := relock (store e) (processingAddresses (store e)) (processingVoteIDs (store e))\<rparr>"
  using assms
  by (auto simp: submit_begin_def LockVoteID_def LockAddress_def ReleaseVoteID_def Let_def insert_absorb
      split: option.splits sum.splits if_splits)

lemma sys_inv_Begin:
  assumes inv: "sys_inv k y" and run: "submit_begin (eng y) eid sub = (Inr vr, e')"
  shows "sys_inv k (y\<lparr>eng := e', flights := (eid, sub, vr) # flights y\<rparr>)"
proof -
  obtain A where B: "sub_VoteID sub \<notin> processingVoteIDs (store (eng y))" "vote_at (store (eng y)) eid (sub_VoteID sub) = None"
    and e': "e' = (eng y)\<lparr>store := relock (store (eng y)) A (insert (sub_VoteID sub) (processingVoteIDs (store (eng y))))\<rparr>"
    using submit_begin_Inr[OF sys_inv_wf[OF inv] run] by blast
  show ?thesis unfolding e' by (rule sys_inv_relock[OF inv]) (use inv B in \<open>auto simp: sys_inv_def flights_ok_def\<close>)
qed

lemma sys_inv_Refused:
  assumes inv: "sys_inv k y" and run: "submit_begin (eng y) eid sub = (Inl er, e')"
  shows "sys_inv k (y\<lparr>eng := e'\<rparr>)"
proof -
  let ?s = "store (eng y)"
  have "flights_ok (relock ?s (processingAddresses ?s) (processingVoteIDs ?s)) (flights y)" using inv by (simp add: sys_inv_def)
  from sys_inv_relock[OF inv this] submit_begin_Inl[OF run] inv show ?thesis by auto
qed

lemma rt_inv_append:
  assumes i: "rt_inv k s rt" and l: "log_inv s (rt_id rt)" and wf: "storage_wf s" "storage_wf t"
    and A: "batches_inv t (rt_id rt) (rt_batchSeq rt)" "snapshot_at t (rt_id rt) = snapshot_at s (rt_id rt)"
      "\<And>w. vote_at t (rt_id rt) w = (if w = v_ID v then Some v else vote_at s (rt_id rt) w)"
      "pend t (rt_id rt) = insert (v_ID v) (pend s (rt_id rt))" "counter s (rt_id rt) < v_Seq v"
    and new: "vote_at s (rt_id rt) (v_ID v) = None"
  shows "rt_inv k t (rt\<lparr>rt_pending := rt_pending rt @ [v]\<rparr>)"
proof -
  have old: "vote_at s (rt_id rt) (v_ID w) = Some w \<and> v_ID w \<in> pend s (rt_id rt)" if "w \<in> set (rt_pending rt)" for w
    using i that by (simp add: rt_inv_def)
  have "v_Seq w < v_Seq v" if "w \<in> set (rt_pending rt)" for w
    using old[OF that] l A(5) by (force simp: log_inv_def)
  moreover have "v_ID w \<noteq> v_ID v" if "w \<in> set (rt_pending rt)" for w using old[OF that] new by auto
  moreover have "rt_ok k t rt" using i A(2) by (simp add: rt_inv_def rt_ok_def synced_def reads[OF wf(1)] reads[OF wf(2)])
  ultimately show ?thesis using i A old by (simp add: rt_inv_def sorted_wrt_append)
qed

lemma sys_inv_AddVote:
  assumes inv: "sys_inv k y" and rt: "runtime (eng y) eid = Some rt"
    and el: "election_at (store (eng y)) eid = Some el" "el_Status el = StatusActive"
    and new: "vote_at (store (eng y)) eid (v_ID v) = None" and fresh: "\<And>f. f \<in> set (flights y) \<Longrightarrow> sub_VoteID (fst (snd f)) \<noteq> v_ID v"
    and room: "counter (store (eng y)) eid + 1 \<noteq> 0" and run: "AddVote now (store (eng y)) eid v = (Inr v', s)"
  shows "sys_inv k (y\<lparr>eng := put_runtime (rt\<lparr>rt_pending := rt_pending rt @ [v']\<rparr>) ((eng y)\<lparr>store := s\<rparr>)\<rparr>)"
proof -
  note wf = sys_inv_wf[OF inv]
  note L = sys_inv_loaded[OF inv rt]
  have lv: "live (finals y) el" using el(2) by (simp add: live_def)
  note R = sys_inv_live[OF inv rt el(1) lv]
  have l: "log_inv (store (eng y)) eid" using R(2) L(1) by simp
  note A = AddVote_inv[OF wf l new room run]
  have b: "batches_inv s eid (rt_batchSeq rt)" by (rule A(3)) (use R(3) L(1) in \<open>simp add: rt_inv_def\<close>)
  have lk: "locks s = locks (store (eng y))" using locks_ops(6)[of now "store (eng y)" eid v] run by simp
  have vo: "vote_at s i w = vote_at (store (eng y)) i w" if "i \<noteq> eid \<or> w \<noteq> v_ID v" for i w
    using that A(4)[of i] A(7)[of w] by (cases "i = eid") (simp_all add: same_log_def)
  have si: "store_inv s eid" using A(2) b by (auto simp: store_inv_def)
  let ?rt = "rt\<lparr>rt_pending := rt_pending rt @ [v']\<rparr>"
  have lo: "loaded_ok k s (finals y) ?rt"
  proof -
    have "rt_inv k s ?rt"
      using rt_inv_append[OF R(3) R(2) wf A(1), of v'] A(5-10) b new L(1) by simp
    moreover have "configured k e ?rt \<longleftrightarrow> configured k e rt" for e by (simp add: configured_def)
    ultimately show ?thesis using L el A(5,6) by (auto simp: loaded_ok_def restorable_def)
  qed
  show ?thesis
  proof (rule sys_inv_step[OF inv, where me = eid])
    let ?y' = "y\<lparr>eng := put_runtime ?rt ((eng y)\<lparr>store := s\<rparr>)\<rparr>"
    show "flights_ok (store (eng ?y')) (flights ?y')"
    proof -
      have "flight_ok s f" if "f \<in> set (flights y)" for f
      proof -
        have "flight_ok (store (eng y)) f" using inv that by (simp add: sys_inv_def flights_ok_def)
        then show ?thesis using fresh[OF that] vo locks_voteIDs[OF lk] by (cases f) simp
      qed
      then show ?thesis using inv by (simp add: sys_inv_def flights_ok_def)
    qed
    show "eid \<in> finals ?y' \<Longrightarrow> ElectionID_String eid \<in> finalizing (eng ?y') \<and>
        (\<exists>el. election_at (store (eng ?y')) eid = Some el \<and> el_Status el = StatusFinalizing)"
      using inv A(5) by (simp add: sys_inv_def finals_ok_def put_runtime_def)
  qed (use A L(1) si lo el in \<open>auto simp: put_runtime_def\<close>)
qed

lemma sys_inv_submit_finish:
  assumes inv: "sys_inv k y" and restore: "snapshots_restore k"
    and new: "vote_at (store (eng y)) eid (v_ID v) = None" and fresh: "\<And>f. f \<in> set (flights y) \<Longrightarrow> sub_VoteID (fst (snd f)) \<noteq> v_ID v"
    and room: "counter (store (eng y)) eid + 1 \<noteq> 0" and run: "submit_finish k now (eng y) eid v = Some (r, e')"
  shows "sys_inv k (y\<lparr>eng := e'\<rparr>) \<and> election_at (store e') i = election_at (store (eng y)) i"
proof (cases "\<exists>el rt. election_at (store (eng y)) eid = Some el \<and> el_Status el = StatusActive \<and> runtime (eng y) eid = Some rt")
  case False
  note wf = sys_inv_wf[OF inv]
  have "e' = eng y" using run False
    by (auto simp: submit_finish_def reads[OF wf] found_def split: option.splits if_splits)
  then show ?thesis using inv by simp
next
  case True
  note wf = sys_inv_wf[OF inv]
  obtain el rt where el: "election_at (store (eng y)) eid = Some el" "el_Status el = StatusActive" and rt: "runtime (eng y) eid = Some rt"
    using True by blast
  obtain ra s where av: "AddVote now (store (eng y)) eid v = (ra, s)" by (metis prod.exhaust)
  show ?thesis
  proof (cases ra)
    case (Inl er)
    have t': "s = store_step (OpAddVote now eid v) (store (eng y))" using av new by (simp add: VoteExists_iff[OF wf])
    have "storage_wf s" unfolding t' by (rule store_step_wf[OF wf])
    moreover have "artifact_at s = artifact_at (store (eng y))" using AddVote_at[OF wf av] Inl by simp
    moreover have "locks s = locks (store (eng y))" using locks_ops(6)[of now "store (eng y)" eid v] av by simp
    moreover have "e' = (eng y)\<lparr>store := s\<rparr>" using run el rt av Inl by (simp add: submit_finish_def reads[OF wf])
    ultimately show ?thesis by (auto intro!: sys_inv_same[OF inv] same_log_keys)
  next
    case (Inr v')
    let ?e = "(eng y)\<lparr>store := s\<rparr>" and ?rt = "rt\<lparr>rt_pending := rt_pending rt @ [v']\<rparr>"
    have av': "AddVote now (store (eng y)) eid v = (Inr v', s)" using av Inr by simp
    note i1 = sys_inv_AddVote[OF inv rt el new fresh room av']
    note L = sys_inv_loaded[OF inv rt]
    have rt1: "runtime (eng (y\<lparr>eng := put_runtime ?rt ?e\<rparr>)) eid = Some ?rt" using L(1) by simp
    have el1: "election_at (store (eng (y\<lparr>eng := put_runtime ?rt ?e\<rparr>))) eid = Some el"
      using AddVote_inv(5)[OF wf _ new room av', of eid] inv el(1) by (simp add: sys_inv_def store_ok_def store_inv_def)
    have lv: "live (finals (y\<lparr>eng := put_runtime ?rt ?e\<rparr>)) el" using el(2) by (simp add: live_def)
    have S: "storage_wf (store ?e)" "log_inv (store ?e) (rt_id ?rt)" "rt_inv k (store ?e) ?rt"
      using sys_inv_live[OF i1 rt1 el1 lv] by simp_all
    obtain rs e2 rt2 where sf: "sealFullLocked k now ?e ?rt = Some (rs, e2, rt2)" "seal_rel k (store ?e) ?rt (store e2) rt2" "only_store ?e e2"
      using sealFullLocked_inv[OF S restore, of now] by blast
    have "e' = audit now (put_runtime rt2 e2) ''voter'' ''voter'' ''submit_vote'' eid"
      using run el rt av' sf(1) by (simp add: submit_finish_def reads[OF wf])
    moreover have "election_at (store e2) i = election_at (store (eng y)) i"
      using sf(2) AddVote_inv(5)[OF wf _ new room av', of i] inv by (simp add: seal_rel_def sys_inv_def store_ok_def store_inv_def)
    moreover have "storage_wf (store (put_runtime rt2 e2))" using sf(2) by (simp add: seal_rel_def)
    ultimately show ?thesis using sys_inv_audit[OF sys_inv_seal_put[OF i1 sf(2,3)]] audit_same(3)[of "put_runtime rt2 e2"] by simp
  qed
qed

lemma sys_inv_Finish:
  assumes inv: "sys_inv k y" and restore: "snapshots_restore k" and fl: "(eid, sub, vr) \<in> set (flights y)"
    and room: "counter (store (eng y)) eid + 1 \<noteq> 0"
    and run: "submit_finish k now (eng y) eid (submitted now sub slot payload) = Some (r, e')"
  shows "sys_inv k (y\<lparr>eng := submit_release eid sub e', flights := remove1 (eid, sub, vr) (flights y)\<rparr>)"
proof -
  have fo: "flights_ok (store (eng y)) (flights y)" using inv by (simp add: sys_inv_def)
  note F = flights_remove[OF fo fl]
  define y1 where "y1 = y\<lparr>flights := remove1 (eid, sub, vr) (flights y)\<rparr>"
  have i1: "sys_inv k y1" using inv F(2) by (simp add: y1_def sys_inv_def)
  have id: "v_ID (submitted now sub slot payload) = sub_VoteID sub" by (simp add: submitted_def)
  have fresh: "sub_VoteID (fst (snd f)) \<noteq> sub_VoteID sub" if "f \<in> set (flights y1)" for f
    using F(3)[of "fst f" "fst (snd f)" "snd (snd f)"] that by (simp add: y1_def)
  have "flight_ok (store (eng y)) (eid, sub, vr)" using fo fl unfolding flights_ok_def by blast
  then have i2: "sys_inv k (y1\<lparr>eng := e'\<rparr>)"
    by (intro conjunct1[OF sys_inv_submit_finish[OF i1 restore, where v = "submitted now sub slot payload", unfolded id, OF _ fresh]])
      (use room run in \<open>simp_all add: y1_def\<close>)
  have "flights_ok (store e') (flights y1)" using i2 by (simp add: sys_inv_def)
  moreover have "flight_ok (relock (store e') A (processingVoteIDs (store e') - {sub_VoteID sub})) f"
    if "flight_ok (store e') f" "f \<in> set (flights y1)" for f A using that(1) fresh[OF that(2)] by (cases f) simp
  ultimately have "flights_ok (relock (store e') A (processingVoteIDs (store e') - {sub_VoteID sub})) (flights y1)" for A
    by (simp add: flights_ok_def)
  from sys_inv_relock[OF i2, simplified, OF this] show ?thesis by (simp add: submit_release_relock y1_def)
qed

section \<open>Creation\<close>

lemma CreateElection_run:
  assumes wf: "storage_wf s" and run: "CreateElection now s el snap = (r, t)"
  shows "storage_wf t" "locks t = locks s"
    "isl r \<Longrightarrow> artifact_at t = artifact_at s"
    "r = Inr stored \<Longrightarrow> stored = el\<lparr>el_CreatedAt := now, el_UpdatedAt := now\<rparr> \<and> election_at s (el_ID el) = None \<and>
      artifact_at t = (artifact_at s)(ElectionK (el_ID el) \<mapsto> AElection stored, SnapshotK (el_ID el) \<mapsto> ABlob snap)"
proof -
  have t': "t = store_step (OpCreateElection now el snap) s" using run by simp
  show "storage_wf t" unfolding t' by (rule store_step_wf[OF wf])
  show "locks t = locks s" using locks_ops(7)[of now s el snap] run by simp
  define st where "st = el\<lparr>el_CreatedAt := now, el_UpdatedAt := now\<rparr>"
  define ws where "ws = [Put (ElectionK (el_ID el)) (AElection st), Put (SnapshotK (el_ID el)) (ABlob snap)]"
  have ok: "list_all write_ok ws" by (simp add: ws_def st_def)
  have C: "CreateElection now s el snap = (if election_at s (el_ID el) \<noteq> None then (Inl [ErrKeyAlreadyExists], s)
      else with_value st (commit_writes s ws))"
    by (simp add: CreateElection_writes[OF wf] ws_def st_def Let_def)
  show "isl r \<Longrightarrow> artifact_at t = artifact_at s"
    and "r = Inr stored \<Longrightarrow> stored = el\<lparr>el_CreatedAt := now, el_UpdatedAt := now\<rparr> \<and> election_at s (el_ID el) = None \<and>
      artifact_at t = (artifact_at s)(ElectionK (el_ID el) \<mapsto> AElection stored, SnapshotK (el_ID el) \<mapsto> ABlob snap)"
    using run C commit_outcome[OF wf ok, of "fst (commit_writes s ws)" "snd (commit_writes s ws)"]
    by (auto simp: with_value_def ws_def st_def split: if_splits sum.splits prod.splits)
qed

lemma prepareElection_Inr:
  assumes "prepareElection k e el = Inr (el', vr, st, snap)"
  shows "newVoteRules k (el_Config el') = Inr vr" "NewState k (vr_cfg vr) = Inr st" "Snapshot k st = Inr snap"
    "minBatchSize \<le> el_BatchSize el'" "el_BatchSize el' \<le> MaxBatchSize k" "el_Status el' = StatusActive" "el_ID el' = el_ID el"
  using assms unfolding prepareElection_def Let_def by auto

text \<open>The runtime of an election just created: the genesis state, no batch, no vote.\<close>

lemma created_loaded:
  assumes inv: "sys_inv k y" and restore: "snapshots_restore k" and prep: "prepareElection k (eng y) el = Inr (el', vr, st, snap)"
    and ce: "CreateElection now (store (eng y)) el' snap = (Inr stored, s)"
    and rt: "rt = \<lparr>rt_id = el_ID stored, rt_cfg = vr_cfg vr, rt_rules = vr, rt_state = st, rt_dirty = False,
        rt_pending = [], rt_batchSeq = 0, rt_batchSize = el_BatchSize stored\<rparr>"
  shows "store_inv s (el_ID el')" "rt_id rt = el_ID el'" "loaded_ok k s (finals y) rt"
proof -
  define me where "me = el_ID el'"
  note P = prepareElection_Inr[OF prep]
  note C = CreateElection_run[OF sys_inv_wf[OF inv] ce]
  have st: "stored = el'\<lparr>el_CreatedAt := now, el_UpdatedAt := now\<rparr>" and none: "election_at (store (eng y)) me = None"
    and at: "artifact_at s = (artifact_at (store (eng y)))(ElectionK me \<mapsto> AElection stored, SnapshotK me \<mapsto> ABlob snap)"
    using C(4)[OF refl] by (simp_all add: me_def)
  have c: "counter s i = counter (store (eng y)) i" "pend s i = pend (store (eng y)) i"
    "batch_votes s i sq = batch_votes (store (eng y)) i sq" for i sq by (simp_all add: counter_def pend_def batch_votes_def at)
  have "log_inv s me \<longleftrightarrow> log_inv (store (eng y)) me" "batches_inv s me n \<longleftrightarrow> batches_inv (store (eng y)) me n" for n
    by (simp_all add: log_inv_def batches_inv_def c at)
  then have l: "store_inv s me" using inv by (simp add: sys_inv_def store_ok_def store_inv_def)
  have b: "batches_inv s me 0"
  proof -
    obtain n where n: "batches_inv s me n" using l by (auto simp: store_inv_def)
    have "batch_votes s me 0 = None" using inv none by (simp add: c sys_inv_def store_ok_def)
    moreover have "batch_votes s me 0 \<noteq> None \<longleftrightarrow> 0 < n" using n unfolding batches_inv_def by (elim conjE) (erule spec)
    ultimately have "\<not> 0 < n" by simp
    then show ?thesis using n by (simp add: word_gt_0)
  qed
  have cs: "chain_state k (vr_cfg vr) st" by (rule chain_state.genesis[OF P(2)])
  then have rs: "RestoreState k (vr_cfg vr) snap = Inr st" using restore P(3) by (simp add: snapshots_restore_def)
  have id: "rt_id rt = me" by (simp add: rt st me_def)
  have "rt_inv k s rt"
    using cs rs b P(4) by (auto simp: rt_inv_def rt_ok_def synced_def reads[OF C(1)] at rt st me_def minBatchSize_def)
  then show "loaded_ok k s (finals y) rt"
    using P rs by (auto simp: loaded_ok_def configured_def restorable_def at id) (simp_all add: rt st)
  show "store_inv s (el_ID el')" "rt_id rt = el_ID el'" using l id by (simp_all add: me_def)
qed

lemma sys_inv_Create:
  assumes inv: "sys_inv k y" and restore: "snapshots_restore k" and run: "engine_CreateElection k now (eng y) subject el = (r, e')"
  shows "sys_inv k (y\<lparr>eng := e'\<rparr>)"
proof (cases "prepareElection k (eng y) el")
  case (Inl er)
  then have "e' = eng y" using run by (simp add: engine_CreateElection_def)
  with inv show ?thesis by simp
next
  case (Inr x)
  obtain el' vr st snap where x: "x = (el', vr, st, snap)" by (metis prod_cases4)
  note wf = sys_inv_wf[OF inv]
  obtain ru s where ce: "CreateElection now (store (eng y)) el' snap = (ru, s)" by (metis prod.exhaust)
  note C = CreateElection_run[OF wf ce]
  show ?thesis
  proof (cases ru)
    case (Inl er)
    then have "artifact_at s = artifact_at (store (eng y))" "e' = (eng y)\<lparr>store := s\<rparr>"
      using C(3) run ce \<open>prepareElection k (eng y) el = Inr x\<close> x by (simp_all add: engine_CreateElection_def)
    then show ?thesis using C(1,2) by (auto intro!: sys_inv_same[OF inv] same_log_keys)
  next
    case ok: (Inr stored)
    define me where "me = el_ID el'"
    define rt where "rt = \<lparr>rt_id = el_ID stored, rt_cfg = vr_cfg vr, rt_rules = vr, rt_state = st, rt_dirty = False,
        rt_pending = [], rt_batchSeq = 0, rt_batchSize = el_BatchSize stored\<rparr>"
    have none: "election_at (store (eng y)) me = None"
      and at: "artifact_at s = (artifact_at (store (eng y)))(ElectionK me \<mapsto> AElection stored, SnapshotK me \<mapsto> ABlob snap)"
      using C(4)[OF ok] by (simp_all add: me_def)
    have e': "e' = audit now (put_runtime rt ((eng y)\<lparr>store := s\<rparr>)) subject ''admin'' ''create_election'' (el_ID stored)"
      using run ce Inr x ok by (simp add: engine_CreateElection_def rt_def Let_def)
    note L = created_loaded[OF inv restore Inr[unfolded x] ce[unfolded ok] rt_def, folded me_def]
    have "sys_inv k (y\<lparr>eng := put_runtime rt ((eng y)\<lparr>store := s\<rparr>)\<rparr>)"
    proof (rule sys_inv_step[OF inv, where me = me])
      let ?y' = "y\<lparr>eng := put_runtime rt ((eng y)\<lparr>store := s\<rparr>)\<rparr>"
      show "same_log i (store (eng y)) (store (eng ?y')) \<and> election_at (store (eng ?y')) i = election_at (store (eng y)) i"
        if "i \<noteq> me" for i using that by (auto intro!: same_log_keys simp: at)
      show "flights_ok (store (eng ?y')) (flights ?y')"
        using flights_ok_same[of "store (eng y)" "flights y" s] inv locks_voteIDs[OF C(2)] by (simp add: sys_inv_def at)
      have "me \<notin> finals y" using inv none by (auto simp: sys_inv_def finals_ok_def)
      then show "me \<in> finals ?y' \<Longrightarrow> ElectionID_String me \<in> finalizing (eng ?y') \<and>
          (\<exists>el. election_at (store (eng ?y')) me = Some el \<and> el_Status el = StatusFinalizing)" by simp
    qed (use C(1) L in \<open>auto simp: put_runtime_def at\<close>)
    then show ?thesis unfolding e' by (rule sys_inv_audit)
  qed
qed

section \<open>The scheduler and the workers\<close>

lemma batch_votes_at:
  "batch_votes s eid sq = Some vids \<Longrightarrow> \<exists>b. batch_at s eid sq = Some b \<and> bi_VoteIDs b = vids"
  by (auto simp: batch_votes_def)

lemma locks_monitor: "locks (monitorStaleReservations now s) = locks s"
proof -
  have "locks (snd (releaseStaleInPrefix s pre n m)) = locks s" for pre n m
    using releaseStaleInPrefix_commit[of s pre n m] by auto
  then show ?thesis
    by (auto simp: monitorStaleReservations_def releaseStaleReservations_def reservationBasePrefixes_def split: sum.splits prod.splits)
      (metis snd_conv)+
qed

lemma sched_write_locks:
  "sched_write s op \<Longrightarrow> locks (store_step op s) = locks s"
  by (cases op)
    (auto simp: locks_monitor SetBatchInput_def ResetBatch_def ReserveBatch_def setReservation_def ReleaseBatch_def deleteReservation_def
      SetFoldCheckpoint_def SetBatchProof_def DeleteBatchProof_def CommitFold_def SetResults_def deleteArtifact_def Let_def
      split: sum.splits if_splits)

lemma sched_write_same:
  assumes wf: "storage_wf s" and w: "sched_write s op" and no: "\<And>eid vid st. op \<noteq> OpSetVoteStatus eid vid st"
  shows "same_log i s (store_step op s)" "election_at (store_step op s) i = election_at s i"
proof -
  have "same_log i s (store_step op s) \<and> election_at (store_step op s) i = election_at s i"
  proof (cases op)
    case (OpReleaseStale now)
    then show ?thesis by (auto intro!: same_log_keys simp: monitorStale_at[OF wf] releaseStaleInPrefix_at[OF wf])
  next
    case (OpSetBatchInput now b)
    then show ?thesis using w store_step_at[OF wf, of op] by (auto simp: op_writes_def same_log_def batch_votes_def)
  next
    case (OpResetBatch b)
    then show ?thesis using w store_step_at[OF wf, of op] by (auto simp: op_writes_def same_log_def batch_votes_def)
  qed (use w no store_step_at[OF wf, of op] in \<open>auto intro!: same_log_keys simp: op_writes_def apply_writes_maps\<close>)
  then show "same_log i s (store_step op s)" "election_at (store_step op s) i = election_at s i" by blast+
qed

text \<open>Marking a batched vote as folded changes no pending vote.\<close>

lemma mark_folded:
  assumes wf: "storage_wf s" and si: "store_inv s eid" and b: "batch_votes s eid sq = Some vids" "vid \<in> set vids"
    and t: "t = snd (SetVoteStatus s eid vid VoteStatusFolded)"
  shows "pend t eid = pend s eid" "batches_inv t eid n \<longleftrightarrow> batches_inv s eid n" "snapshot_at t eid = snapshot_at s eid"
proof -
  have np: "vid \<notin> pend s eid" and ex: "vote_at s eid vid \<noteq> None"
    using si b unfolding store_inv_def batches_inv_def by blast+
  have at: "artifact_at t key = artifact_at s key \<or> key = VoteStatusK eid vid \<and> artifact_at t key = Some (AVoteStatus VoteStatusFolded)" for key
    using store_step_at[OF wf, of "OpSetVoteStatus eid vid VoteStatusFolded"] by (auto simp: t op_writes_def split: if_splits)
  have vs: "vote_at t eid w = vote_at s eid w" "batch_votes t eid x = batch_votes s eid x" "counter t eid = counter s eid" for w x
    using at[of "VoteK eid w"] at[of "BatchK eid x"] at[of "VoteSeqK eid"] by (simp_all add: batch_votes_def counter_def)
  show "snapshot_at t eid = snapshot_at s eid" using at[of "SnapshotK eid"] by simp
  have "w \<in> pend t eid \<longleftrightarrow> w \<in> pend s eid" for w
    using at[of "VoteStatusK eid w"] np vs(1)[of w] by (cases "w = vid") (auto simp: pend_def)
  then show p: "pend t eid = pend s eid" by blast
  show "batches_inv t eid n \<longleftrightarrow> batches_inv s eid n" by (simp add: batches_inv_def vs p)
qed

lemma sys_inv_fold_mark:
  assumes inv: "sys_inv k y" and b: "batch_votes (store (eng y)) eid sq = Some vids" "vid \<in> set vids"
    and s: "s = snd (SetVoteStatus (store (eng y)) eid vid VoteStatusFolded)"
  shows "sys_inv k (y\<lparr>eng := (eng y)\<lparr>store := s\<rparr>\<rparr>)"
proof -
  let ?s = "store (eng y)"
  note wf = sys_inv_wf[OF inv]
  have si: "store_inv ?s eid" using inv by (simp add: sys_inv_def store_ok_def)
  have ex: "vote_at ?s eid vid \<noteq> None" using si b unfolding store_inv_def batches_inv_def by blast
  note S = SetVoteStatus_moves[OF wf _ ex s, simplified]
  note M = mark_folded[OF wf si b s]
  have lk: "locks s = locks ?s" by (simp add: s)
  have rti: "rt_inv k s rt" if "rt_inv k ?s rt" "rt_id rt = eid" for rt
    using that M S(1,4) by (simp add: rt_inv_def rt_ok_def synced_def reads[OF wf] reads[OF S(1)])
  show ?thesis
  proof (rule sys_inv_step[OF inv, where me = eid])
    let ?y' = "y\<lparr>eng := (eng y)\<lparr>store := s\<rparr>\<rparr>"
    show "flights_ok (store (eng ?y')) (flights ?y')"
      using flights_ok_same[of ?s "flights y" s] inv locks_voteIDs[OF lk] S(4) by (simp add: sys_inv_def)
    show "rt_id rt = eid \<and> loaded_ok k (store (eng ?y')) (finals ?y') rt"
      if "runtimes (eng ?y') (ElectionID_String eid) = Some rt" for rt
    proof -
      have rt: "runtime (eng y) eid = Some rt" using that by (simp add: runtime_def)
      note L = sys_inv_loaded[OF inv rt]
      have "restorable k s eid c = restorable k ?s eid c" for c using M(3) by (simp add: restorable_def)
      then show ?thesis using L S(3) rti by (auto simp: loaded_ok_def)
    qed
    show "eid \<in> finals ?y' \<Longrightarrow> ElectionID_String eid \<in> finalizing (eng ?y') \<and>
        (\<exists>el. election_at (store (eng ?y')) eid = Some el \<and> el_Status el = StatusFinalizing)"
      using inv S(3) by (simp add: sys_inv_def finals_ok_def)
    have "election_at ?s eid \<noteq> None"
    proof
      assume "election_at ?s eid = None"
      then have "vote_at ?s eid vid = None" using inv by (simp add: sys_inv_def store_ok_def)
      then show False using ex by simp
    qed
    then show "election_at (store (eng ?y')) eid = None \<Longrightarrow> same_log eid ?s (store (eng ?y')) \<and> election_at ?s eid = None"
      using S(3) by simp
  qed (use S si in auto)
qed

lemma sys_inv_Scheduler:
  assumes inv: "sys_inv k y" and w: "sched_write (store (eng y)) op"
  shows "sys_inv k (y\<lparr>eng := (eng y)\<lparr>store := store_step op (store (eng y))\<rparr>\<rparr>)"
proof (cases "\<exists>eid vid st. op = OpSetVoteStatus eid vid st")
  case True
  then obtain eid vid sq vids where op: "op = OpSetVoteStatus eid vid VoteStatusFolded"
    and b: "batch_votes (store (eng y)) eid sq = Some vids" "vid \<in> set vids" using w by auto
  show ?thesis using sys_inv_fold_mark[OF inv b] op by simp
next
  case False
  then have no: "\<And>eid vid st. op \<noteq> OpSetVoteStatus eid vid st" by blast
  note wf = sys_inv_wf[OF inv]
  show ?thesis
    by (rule sys_inv_same[OF inv]) (simp_all add: store_step_wf[OF wf] sched_write_same[OF wf w no] sched_write_locks[OF w])
qed

lemma sys_inv_store_op:
  assumes inv: "sys_inv k (y\<lparr>eng := e\<rparr>)" and op: "s = store_step op (store e)" "\<not> scan_op op"
    and keys: "\<And>k m. apply_writes (op_writes op (store e)) m k = m k \<or> (\<exists>a. k = WorkerK a)" and lk: "locks s = locks (store e)"
    and e': "store e' = s" "eng_batchSize e' = eng_batchSize e" "runtimes e' = runtimes e" "finalizing e' = finalizing e"
  shows "sys_inv k (y\<lparr>eng := e'\<rparr>)"
proof -
  have wf: "storage_wf (store e)" using sys_inv_wf[OF inv] by simp
  have at: "artifact_at s key = artifact_at (store e) key" if "\<And>a. key \<noteq> WorkerK a" for key
    using store_step_at[OF wf op(2)] op(1) keys[of "artifact_at (store e)" key] that by auto
  have "sys_inv k (y\<lparr>eng := e, eng := e'\<rparr>)"
  proof (rule sys_inv_same[OF inv])
    show "storage_wf (store e')" using store_step_wf[OF wf] op(1) e'(1) by simp
  qed (auto intro!: same_log_keys simp: at e' lk)
  then show ?thesis by simp
qed

lemma sys_inv_Register:
  assumes inv: "sys_inv k y" and run: "RegisterWorker now (eng y) subject address name = (r, e')"
  shows "sys_inv k (y\<lparr>eng := e'\<rparr>)"
proof (cases "pool (eng y)")
  case None
  with run have "e' = eng y" by (simp add: RegisterWorker_def)
  with inv show ?thesis by simp
next
  case (Some wm)
  define h where "h = fst (AddWorker wm address name)"
  define wm1 where "wm1 = snd (AddWorker wm address name)"
  define w where "w = \<lparr>wr_Address = w_Address (worker wm1 h), wr_Name = w_Name (worker wm1 h), wr_RegisteredAt = 0\<rparr>"
  obtain ru s where sw: "SetWorker now (store (eng y)) w = (ru, s)" by (metis prod.exhaust)
  have self: "sys_inv k (y\<lparr>eng := eng y\<rparr>)" using inv by simp
  have i: "sys_inv k (y\<lparr>eng := (eng y)\<lparr>store := s, pool := p\<rparr>\<rparr>)" for p
    by (rule sys_inv_store_op[OF self, where op = "OpSetWorker now w" and s = s])
      (use sw locks_ops(8)[of now "store (eng y)" w] in \<open>auto simp: op_writes_def\<close>)
  have "(\<exists>p. e' = (eng y)\<lparr>store := s, pool := p\<rparr>) \<or>
      (\<exists>p. e' = audit now ((eng y)\<lparr>store := s, pool := p\<rparr>) subject ''admin'' (''register_worker:'' @ address) [])"
    using run Some sw by (auto simp: RegisterWorker_def Let_def h_def wm1_def w_def split: prod.splits sum.splits)
  then show ?thesis using i sys_inv_audit[OF i] by auto
qed

lemma sys_inv_moveFoldChains:
  assumes "sys_inv k (y\<lparr>eng := e\<rparr>)"
  shows "sys_inv k (y\<lparr>eng := moveFoldChains order address e\<rparr>)"
proof -
  have "sys_inv k (y\<lparr>eng := fold (\<lambda>eid e. case store_Election (store e) eid of Inl _ \<Rightarrow> e
      | Inr el \<Rightarrow> if el_FoldWorker el = address then notify eid e else e) ids e\<rparr>)" if "sys_inv k (y\<lparr>eng := e\<rparr>)" for ids e
    using that by (induction ids arbitrary: e) (auto simp: sys_inv_notify split: sum.split)
  then show ?thesis using assms by (simp add: moveFoldChains_def)
qed

lemma sys_inv_Remove:
  assumes inv: "sys_inv k y" and run: "engine_RemoveWorker now worder order (eng y) subject workerID = (r, e')"
  shows "sys_inv k (y\<lparr>eng := e'\<rparr>)"
proof (cases "Option.bind (pool (eng y)) (\<lambda>wm. map_option (\<lambda>h. (wm, h)) (WorkerByID wm worder workerID))")
  case None
  with run have "e' = eng y" by (simp add: engine_RemoveWorker_def)
  with inv show ?thesis by simp
next
  case (Some x)
  obtain wm h where x: "x = (wm, h)" by (cases x)
  define a where "a = w_Address (worker wm h)"
  obtain ru s where dw: "DeleteWorker (store (eng y)) a = (ru, s)" by (metis prod.exhaust)
  have self: "sys_inv k (y\<lparr>eng := eng y\<rparr>)" using inv by simp
  have i: "sys_inv k (y\<lparr>eng := (eng y)\<lparr>store := s, pool := p\<rparr>\<rparr>)" for p
    by (rule sys_inv_store_op[OF self, where op = "OpDeleteWorker a" and s = s])
      (use dw locks_ops(9)[of "store (eng y)" a] in \<open>auto simp: op_writes_def\<close>)
  have "e' = (eng y)\<lparr>store := s, pool := pool (eng y)\<rparr> \<or> (\<exists>p. e' = moveFoldChains order a
      (audit now ((eng y)\<lparr>store := s, pool := p\<rparr>) subject ''admin'' (''remove_worker:'' @ a) []))"
    using run Some x dw by (auto simp: engine_RemoveWorker_def Let_def a_def split: sum.splits)
  then show ?thesis using i[of "pool (eng y)"] sys_inv_moveFoldChains[OF sys_inv_audit[OF i]] by auto
qed

lemma sys_inv_Dispatched:
  "sys_inv k y \<Longrightarrow> sys_inv k (y\<lparr>eng := dispatch_round now (eng y) sc eid stopping result\<rparr>)"
  by (rule sys_inv_memory[where e = "eng y"]) (auto simp: dispatch_round_def split: sum.splits)

lemma sys_inv_Stopped: "sys_inv k y \<Longrightarrow> sys_inv k (y\<lparr>eng := Engine_Ops.Stop (eng y)\<rparr>)"
  by (rule sys_inv_memory[where e = "eng y"]) (auto simp: Stop_def)

lemma sys_inv_Pool:
  assumes "sys_inv k y"
  shows "sys_inv k (y\<lparr>eng := (eng y)\<lparr>pool := p\<rparr>\<rparr>)" "sys_inv k (y\<lparr>eng := (eng y)\<lparr>sched := sc\<rparr>\<rparr>)"
    "sys_inv k (y\<lparr>eng := audit now (eng y) subject role action eid\<rparr>)"
  using assms by (auto intro: sys_inv_memory[where e = "eng y"] sys_inv_audit)

text \<open>What only changes memory.\<close>

lemma retryDispatch_store [simp]: "store (retryDispatch now i e) = store e"
  by (auto simp: retryDispatch_def notify_def Let_def split: option.splits prod.splits)

lemma moveFoldChains_store [simp]: "store (moveFoldChains order address e) = store e"
proof -
  have "store (fold (\<lambda>eid e. case store_Election (store e) eid of Inl _ \<Rightarrow> e
      | Inr el \<Rightarrow> if el_FoldWorker el = address then notify eid e else e) ids e) = store e" for ids and e :: "('a, 'b, 'c) engine"
    by (induction ids arbitrary: e) (auto split: sum.split)
  then show ?thesis by (simp add: moveFoldChains_def)
qed

end
