(* ===== verification/System_Restart.thy ===== *)
theory System_Restart
  imports System_Steps
begin

text \<open>
  A restart after a crash at any point: the engine that \<open>NewEngine\<close> builds from the
  surviving database has the invariant again, so every reachable state has it.
\<close>

section \<open>Restoring one election\<close>

abbreviation booted :: "('b, 'v, 'st) engine \<Rightarrow> ('b, 'v, 'st) system" where
  "booted e \<equiv> \<lparr>eng = e, flights = [], finals = {}\<rparr>"

lemma booted_upd: "(booted e)\<lparr>eng := e'\<rparr> = booted e'"
  by simp

lemma sys_inv_put:
  assumes "sys_inv k y" and "loaded_ok k (store (eng y)) (finals y) rt"
  shows "sys_inv k (y\<lparr>eng := put_runtime rt (eng y)\<rparr>)"
  using assms by (auto simp: sys_inv_def put_runtime_def finals_ok_def)

lemma synced_restorable: "storage_wf s \<Longrightarrow> rt_ok k s rt \<Longrightarrow> \<not> rt_dirty rt \<Longrightarrow> restorable k s (rt_id rt) (rt_cfg rt)"
  by (auto simp: rt_ok_def synced_def restorable_def reads)

lemma resetFinalizing_inv:
  assumes inv: "sys_inv k (booted e)" and el: "election_at (store e) (el_ID el) = Some el" and new: "runtime e (el_ID el) = None"
    and run: "resetFinalizing now e el = (e1, el1)"
  shows "sys_inv k (booted e1)" "\<And>i. i \<noteq> el_ID el \<Longrightarrow> election_at (store e1) i = election_at (store e) i"
    "runtimes e1 = runtimes e" "eng_batchSize e1 = eng_batchSize e"
    "\<exists>st. el1 = el\<lparr>el_Status := st\<rparr>" "\<And>i. same_log i (store e) (store e1)"
    "\<exists>el2. election_at (store e1) (el_ID el) = Some el2 \<and> el_Config el2 = el_Config el \<and> el_BatchSize el2 = el_BatchSize el \<and>
       (el_Status el2 = el_Status el \<or> el_Status el = StatusFinalizing \<and> el_Status el2 = StatusDecrypting)"
proof -
  have wf: "storage_wf (store e)" using sys_inv_wf[OF inv] by simp
  define f where "f = (\<lambda>stored. Inr (stored\<lparr>el_Status := StatusDecrypting,
      el_FinalizeError := sentinel_Error ErrFinalizeInterrupted\<rparr>) :: gerror + Election)"
  obtain r s where U: "UpdateElection now (store e) (el_ID el) f = (r, s)" by (metis prod.exhaust)
  note S = UpdateElection_same[OF wf U]
  have "sys_inv k ((booted e)\<lparr>eng := e\<lparr>store := s\<rparr>, finals := {}\<rparr>)"
    by (rule sys_inv_UpdateElection[OF inv, where f = f and r = r and s = s and eid = "el_ID el" and now = now])
      (use U new in \<open>auto simp: f_def runtime_def\<close>)
  then have i1: "sys_inv k (booted (e\<lparr>store := s\<rparr>))" by simp
  have e1: "e1 = (if el_Status el = StatusFinalizing then e\<lparr>store := s\<rparr> else e)"
    and el1: "el1 = (if el_Status el = StatusFinalizing then el\<lparr>el_Status := StatusDecrypting\<rparr> else el)"
    using run U by (auto simp: resetFinalizing_def f_def split: if_splits)
  show "sys_inv k (booted e1)" using inv i1 e1 by simp
  show "i \<noteq> el_ID el \<Longrightarrow> election_at (store e1) i = election_at (store e) i" for i using S(3) e1 by (simp add: f_def)
  show "same_log i (store e) (store e1)" for i using S(2) e1 by (simp add: f_def same_log_refl)
  show "runtimes e1 = runtimes e" "eng_batchSize e1 = eng_batchSize e" by (simp_all add: e1)
  show "\<exists>st. el1 = el\<lparr>el_Status := st\<rparr>" by (cases "el_Status el = StatusFinalizing") (auto simp: el1 intro: exI[of _ "el_Status el"])
  show "\<exists>el2. election_at (store e1) (el_ID el) = Some el2 \<and> el_Config el2 = el_Config el \<and> el_BatchSize el2 = el_BatchSize el \<and>
       (el_Status el2 = el_Status el \<or> el_Status el = StatusFinalizing \<and> el_Status el2 = StatusDecrypting)"
    using S(4,5) el by (cases "isOk r") (auto simp: e1 f_def)
qed

lemma restored_load:
  assumes inv: "sys_inv k (booted e)" and rs: "restorable k (store e) (el_ID el) (vr_cfg vr)" and vr: "newVoteRules k (el_Config el) = Inr vr"
  shows "\<exists>rt. runtimeFromStorage k (eng_batchSize e) (store e) el = Inr rt"
proof -
  have "store_inv (store e) (el_ID el)" using inv by (simp add: sys_inv_def store_ok_def)
  then show ?thesis using sys_inv_wf[OF inv] rs vr by (intro runtimeFromStorage_succeeds[of "store e" el k vr]) auto
qed

lemma restored_put:
  assumes inv: "sys_inv k (booted e)" and rt: "runtimeFromStorage k (eng_batchSize e) (store e) el = Inr rt"
    and el2: "election_at (store e) (el_ID el) = Some el2" "el_Config el2 = el_Config el" "el_BatchSize el2 = el_BatchSize el"
      "el_Status el2 \<noteq> StatusCanceled"
  shows "rt_id rt = el_ID el" "sys_inv k (booted (put_runtime rt e))" "sys_inv k (booted ((put_runtime rt e)\<lparr>eng_retries := x\<rparr>))"
    "rebuilt k (store e) el rt"
proof -
  have wf: "storage_wf (store e)" using sys_inv_wf[OF inv] by simp
  have bs: "1 \<le> eng_batchSize e" and si: "store_inv (store e) (el_ID el)" using inv by (simp_all add: sys_inv_def store_ok_def)
  note R = runtimeFromStorage_inv[OF wf si bs rt]
  show id: "rt_id rt = el_ID el" using R(1) by simp
  have "configured k el2 rt" using R(5) el2(2,3) by (auto simp: configured_def)
  moreover have "restorable k (store e) (rt_id rt) (rt_cfg rt)"
    by (rule synced_restorable[OF wf _ R(4)]) (use R(2) in \<open>simp add: rt_inv_def\<close>)
  ultimately have "loaded_ok k (store e) {} rt" using R(1,2) el2 by (auto simp: loaded_ok_def)
  then show i2: "sys_inv k (booted (put_runtime rt e))" using sys_inv_put[OF inv] by simp
  show "sys_inv k (booted ((put_runtime rt e)\<lparr>eng_retries := x\<rparr>))"
    using sys_inv_retries[where y = "booted e" and e = "put_runtime rt e" and rs = x] i2 by simp
  show "rebuilt k (store e) el rt" using R by (auto simp: rebuilt_def configured_def)
qed

lemma restoreElection_inv:
  assumes inv: "sys_inv k (booted e)" and el: "election_at (store e) (el_ID el) = Some el" and new: "runtime e (el_ID el) = None"
  shows "sys_inv k (booted (restoreElection k now el e))"
    "i \<noteq> el_ID el \<Longrightarrow> election_at (store (restoreElection k now el e)) i = election_at (store e) i"
    "i \<noteq> el_ID el \<Longrightarrow> runtime (restoreElection k now el e) i = runtime e i"
    "same_log i (store e) (store (restoreElection k now el e))"
    "el_Status el \<noteq> StatusCanceled \<Longrightarrow> el_Status el \<noteq> StatusResults \<Longrightarrow> newVoteRules k (el_Config el) = Inr vr \<Longrightarrow>
      restorable k (store e) (el_ID el) (vr_cfg vr) \<Longrightarrow>
      \<exists>rt. runtime (restoreElection k now el e) (el_ID el) = Some rt \<and> rebuilt k (store (restoreElection k now el e)) el rt"
    "\<exists>el2. election_at (store (restoreElection k now el e)) (el_ID el) = Some el2 \<and>
      (el_Status el2 = el_Status el \<or> el_Status el = StatusFinalizing \<and> el_Status el2 = StatusDecrypting)"
proof -
  let ?e' = "restoreElection k now el e"
  have wf: "storage_wf (store e)" using sys_inv_wf[OF inv] by simp
  have "sys_inv k (booted ?e') \<and> (\<forall>i. i \<noteq> el_ID el \<longrightarrow> election_at (store ?e') i = election_at (store e) i) \<and>
      (\<forall>i. i \<noteq> el_ID el \<longrightarrow> runtime ?e' i = runtime e i) \<and> (\<forall>i. same_log i (store e) (store ?e')) \<and>
      (el_Status el \<noteq> StatusCanceled \<and> el_Status el \<noteq> StatusResults \<and> newVoteRules k (el_Config el) = Inr vr \<and>
       restorable k (store e) (el_ID el) (vr_cfg vr) \<longrightarrow>
       (\<exists>rt. runtime ?e' (el_ID el) = Some rt \<and> rebuilt k (store ?e') el rt)) \<and>
      (\<exists>el2. election_at (store ?e') (el_ID el) = Some el2 \<and>
      (el_Status el2 = el_Status el \<or> el_Status el = StatusFinalizing \<and> el_Status el2 = StatusDecrypting))"
  proof (cases "el_Status el = StatusCanceled \<or> el_Status el = StatusResults")
    case True
    have "sys_inv k (booted (deleteProofs (el_ID el) e))"
      using sys_inv_deleteProofs[where y = "booted e" and e = e and i = "el_ID el"] inv by simp
    then show ?thesis using True DeleteProofs_same[OF wf] el
      by (auto simp: restoreElection_def deleteProofs_def runtime_def)
  next
    case False
    obtain e1 el1 where rf: "resetFinalizing now e el = (e1, el1)" by (metis prod.exhaust)
    note F = resetFinalizing_inv[OF inv el new rf]
    have id: "el_ID el1 = el_ID el" using F(5) by auto
    show ?thesis
    proof (cases "runtimeFromStorage k (eng_batchSize e1) (store e1) el1")
      case (Inl er)
      have "restorable k (store e) (el_ID el) (vr_cfg vr) \<Longrightarrow> restorable k (store e1) (el_ID el1) (vr_cfg vr)"
        using F(6)[of "el_ID el"] id by (simp add: restorable_def same_log_def)
      then have "\<not> (newVoteRules k (el_Config el) = Inr vr \<and> restorable k (store e) (el_ID el) (vr_cfg vr))"
        using restored_load[OF F(1), of el1 vr] Inl F(5) False by auto
      then show ?thesis using F False rf Inl by (auto simp: restoreElection_def runtime_def)
    next
      case (Inr rt)
      obtain el2 where el2: "election_at (store e1) (el_ID el1) = Some el2" "el_Config el2 = el_Config el1"
        "el_BatchSize el2 = el_BatchSize el1" "el_Status el2 \<noteq> StatusCanceled" using F(5,7) False by auto
      note R = restored_put[OF F(1) Inr el2]
      moreover have "rebuilt k (store e1) el rt" using R(4) F(5) id by (auto simp: rebuilt_def configured_def)
      ultimately show ?thesis using F False rf Inr id
        by (auto simp: restoreElection_def Let_def runtime_def put_runtime_def)
    qed
  qed
  then show "sys_inv k (booted ?e')" "i \<noteq> el_ID el \<Longrightarrow> election_at (store ?e') i = election_at (store e) i"
    "i \<noteq> el_ID el \<Longrightarrow> runtime ?e' i = runtime e i" "same_log i (store e) (store ?e')"
    "el_Status el \<noteq> StatusCanceled \<Longrightarrow> el_Status el \<noteq> StatusResults \<Longrightarrow> newVoteRules k (el_Config el) = Inr vr \<Longrightarrow>
      restorable k (store e) (el_ID el) (vr_cfg vr) \<Longrightarrow>
      \<exists>rt. runtime ?e' (el_ID el) = Some rt \<and> rebuilt k (store ?e') el rt"
    "\<exists>el2. election_at (store ?e') (el_ID el) = Some el2 \<and>
      (el_Status el2 = el_Status el \<or> el_Status el = StatusFinalizing \<and> el_Status el2 = StatusDecrypting)" by blast+
qed

section \<open>Restoring all of them\<close>

lemma ListElections_distinct:
  assumes wf: "storage_wf s"
  shows "distinct (map el_ID (ListElections s))"
proof -
  have "sorted_wrt (\<lambda>a b. electionKey (el_ID a) < electionKey (el_ID b)) (ListElections s)"
    unfolding ListElections_def by (rule decoded_sorted[OF wf]) (auto simp: namespaces elim!: unElection.elims)
  then have "sorted_wrt (<) (map (\<lambda>el. electionKey (el_ID el)) (ListElections s))" by (simp add: sorted_wrt_map)
  then have "distinct (map (\<lambda>el. electionKey (el_ID el)) (ListElections s))" by (simp add: strict_sorted_iff)
  then show ?thesis by (auto simp: distinct_map inj_on_def)
qed

definition recoverable :: "('v, 'st) sdk \<Rightarrow> 'b storage \<Rightarrow> Election \<Rightarrow> bool" where
  "recoverable k s el \<longleftrightarrow> el_Status el \<noteq> StatusCanceled \<and> el_Status el \<noteq> StatusResults \<and>
     (\<exists>vr. newVoteRules k (el_Config el) = Inr vr \<and> restorable k s (el_ID el) (vr_cfg vr))"

definition recovered :: "('v, 'st) sdk \<Rightarrow> ('b, 'v, 'st) engine \<Rightarrow> Election \<Rightarrow> bool" where
  "recovered k e el \<longleftrightarrow> (\<exists>rt. runtime e (el_ID el) = Some rt \<and> rebuilt k (store e) el rt)"

lemma recoverable_same_log: "same_log (el_ID el) s t \<Longrightarrow> recoverable k t el = recoverable k s el"
  by (simp add: recoverable_def restorable_def same_log_def)

lemma restore_fold:
  assumes "sys_inv k (booted e)" and "distinct (map el_ID els)"
    and "\<And>el. el \<in> set els \<Longrightarrow> election_at (store e) (el_ID el) = Some el \<and> runtime e (el_ID el) = None"
  shows "sys_inv k (booted (fold (restoreElection k now) els e)) \<and>
    (\<forall>i. same_log i (store e) (store (fold (restoreElection k now) els e))) \<and>
    (\<forall>i. i \<notin> el_ID ` set els \<longrightarrow> runtime (fold (restoreElection k now) els e) i = runtime e i) \<and>
    (\<forall>el \<in> set els. recoverable k (store e) el \<longrightarrow> recovered k (fold (restoreElection k now) els e) el)"
  using assms
proof (induction els arbitrary: e)
  case Nil
  then show ?case by (simp add: same_log_refl)
next
  case (Cons el els)
  let ?e = "restoreElection k now el e"
  let ?f = "fold (restoreElection k now) els ?e"
  have el: "election_at (store e) (el_ID el) = Some el" "runtime e (el_ID el) = None" using Cons.prems(3)[of el] by simp_all
  note R = restoreElection_inv[OF Cons.prems(1) el]
  have d: "distinct (map el_ID els)" "el_ID el \<notin> el_ID ` set els" using Cons.prems(2) by simp_all
  have rest: "election_at (store ?e) (el_ID x) = Some x \<and> runtime ?e (el_ID x) = None" if "x \<in> set els" for x
  proof -
    have "el_ID x \<noteq> el_ID el" using that d(2) by (metis imageI)
    then show ?thesis using R(2,3)[of "el_ID x"] Cons.prems(3)[of x] that by simp
  qed
  note IH = Cons.IH[OF R(1) d(1) rest]
  have sl: "same_log i (store e) (store ?f)" for i using same_log_trans[OF R(4)] IH by blast
  have wfe: "storage_wf (store ?e)" and wff: "storage_wf (store ?f)" using sys_inv_wf[OF R(1)] sys_inv_wf[of k "booted ?f"] IH by simp_all
  have first: "recovered k ?f el" if st: "recoverable k (store e) el"
  proof -
    obtain rt where rt: "runtime ?e (el_ID el) = Some rt" "rebuilt k (store ?e) el rt" using R(5) st unfolding recoverable_def by blast
    have "runtime ?f (el_ID el) = runtime ?e (el_ID el)" using IH d(2) by blast
    moreover have "rebuilt k (store ?f) el rt" by (rule rebuilt_same_log[OF rt(2) _ wfe wff]) (use IH in blast)
    ultimately show ?thesis using rt(1) by (simp add: recovered_def)
  qed
  have others: "recovered k ?f x" if "x \<in> set els" "recoverable k (store e) x" for x
    using IH that recoverable_same_log[OF R(4), where el = x and k = k] by blast
  have "runtime ?f i = runtime e i" if "i \<notin> el_ID ` set (el # els)" for i using that IH R(3)[of i] by simp
  then show ?case using IH sl first others by simp
qed

text \<open>\<open>NewScheduler\<close> sets the age of stale reservations, which is no part of the database.\<close>

lemma SetReservationTimeout_same:
  "artifact_at (SetReservationTimeout s d) = artifact_at s" "storage_wf (SetReservationTimeout s d) = storage_wf s"
  "locks (SetReservationTimeout s d) = locks s"
  by (simp_all add: SetReservationTimeout_def artifact_at_def fun_eq_iff storage_wf_def locks_def)

lemma SetReservationTimeout_log: "same_log eid s (SetReservationTimeout s d)"
  by (rule same_log_keys) (simp add: SetReservationTimeout_same)

lemma SetReservationTimeout_ok: "store_ok s \<Longrightarrow> store_ok (SetReservationTimeout s d)"
  using same_log_views(5)[OF SetReservationTimeout_log[where s = s and d = d]]
  by (simp add: store_ok_def SetReservationTimeout_same batch_votes_def)

lemma NewEngine_start:
  fixes k :: "('v, 'st) sdk" and s :: "'b storage"
  assumes so: "store_ok s"
  shows "\<exists>e. NewEngine k now s opts = fold (restoreElection k now) (ListElections (store e)) e \<and> sys_inv k (booted e) \<and>
    runtimes e = Map.empty \<and> store_ok (store e) \<and> artifact_at (store e) = artifact_at s \<and> (\<forall>i. same_log i s (store e))"
proof -
  obtain sc s' where sc: "(case opt_Pool opts of None \<Rightarrow> (None, s)
      | Some _ \<Rightarrow> apfst Some (NewScheduler s (if opt_FoldEvery opts \<le> 0 then defaultFoldEvery else opt_FoldEvery opts)
          (opt_JobTimeout opts) (opt_JobPoll opts))) = (sc, s')" by (metis prod.exhaust)
  then have s': "s' = s \<or> (\<exists>d. s' = SetReservationTimeout s d)" by (auto simp: NewScheduler_def Let_def split: option.splits)
  then have ok: "store_ok s'" "artifact_at s' = artifact_at s" "\<forall>i. same_log i s s'"
    using so SetReservationTimeout_ok SetReservationTimeout_same SetReservationTimeout_log same_log_refl by auto
  define e where "e = restoreWorkers
       \<lparr>store = s',
        eng_batchSize = (if opt_BatchSize opts \<le> 0 then defaultBatchSize else opt_BatchSize opts),
        eng_foldEvery = (if opt_FoldEvery opts \<le> 0 then defaultFoldEvery else opt_FoldEvery opts),
        window = (if opt_BatchTimeWindow opts \<le> 0 then defaultBatchTimeWindow else opt_BatchTimeWindow opts),
        pool = opt_Pool opts, sched = sc,
        draining = {}, finalizing = {}, eng_retries = newRetries, bgStopped = False,
        runtimes = (Map.empty :: string \<rightharpoonup> ('v, 'st) electionRuntime), draws = 0\<rparr>"
  have e: "store e = s'" "runtimes e = Map.empty" "1 \<le> eng_batchSize e"
    by (simp_all add: e_def restoreWorkers_def defaultBatchSize_def split: option.split)
  moreover have "sys_inv k (booted e)" using ok(1) e by (simp add: sys_inv_def flights_ok_def finals_ok_def)
  moreover have "NewEngine k now s opts = fold (restoreElection k now) (ListElections (store e)) e"
    unfolding NewEngine_def Let_def sc by (simp add: restore_def e_def)
  ultimately show ?thesis using ok by auto
qed

lemma NewEngine_inv:
  assumes so: "store_ok s"
  shows "sys_inv k (booted (NewEngine k now s opts))"
    "same_log i s (store (NewEngine k now s opts))"
    "election_at s eid = Some el \<Longrightarrow> recoverable k s el \<Longrightarrow> recovered k (NewEngine k now s opts) el"
proof -
  obtain e where N: "NewEngine k now s opts = fold (restoreElection k now) (ListElections (store e)) e" and inv: "sys_inv k (booted e)"
    and e: "runtimes e = Map.empty" "artifact_at (store e) = artifact_at s" "\<forall>i. same_log i s (store e)" "store_ok (store e)"
    using NewEngine_start[OF so] by blast
  have wf: "storage_wf (store e)" using e(4) by (simp add: store_ok_def)
  have "election_at (store e) (el_ID x) = Some x \<and> runtime e (el_ID x) = None" if "x \<in> set (ListElections (store e))" for x
    using that ListElections_mem[OF wf] e by (simp add: runtime_def)
  note F = restore_fold[OF inv ListElections_distinct[OF wf] this, where now = now]
  show "sys_inv k (booted (NewEngine k now s opts))" "same_log i s (store (NewEngine k now s opts))"
    unfolding N using F e(3) same_log_trans[of i s "store e"] by simp_all
  show "election_at s eid = Some el \<Longrightarrow> recoverable k s el \<Longrightarrow> recovered k (NewEngine k now s opts) el"
    unfolding N using F e(2,3) recoverable_same_log[of el s "store e" k] ListElections_mem[OF wf, of el] election_at_ID[OF wf, of eid el] by simp
qed

lemma New_store_ok:
  assumes "store_ok s"
  shows "store_ok (New (db s) (cbor s) fl)"
proof -
  have wf: "storage_wf s" using assms by (simp add: store_ok_def)
  note N = New_same[OF wf]
  have "batch_votes (New (db s) (cbor s) fl) i sq = batch_votes s i sq" "vote_at (New (db s) (cbor s) fl) i v = vote_at s i v" for i sq v
    using N(2)[of i] by (simp_all add: same_log_def)
  then show ?thesis using assms N(1,3) same_log_views(5)[OF N(2)] by (simp add: store_ok_def)
qed

section \<open>Every reachable state\<close>

lemma sys_step_inv:
  assumes "sys_step k y y'" and "snapshots_restore k" and "sys_inv k y"
  shows "sys_inv k y'"
  using assms
proof (induction rule: sys_step.induct)
  case (Invalid eid sub vr y er)
  then show ?case by (intro sys_inv_release)
next
  case (FoldWorker now y eid w r s)
  then show ?case by (intro sys_inv_move[OF _ FoldWorker(1)]) auto
next
  case (Restart y now fl opts)
  have "store_ok (New (db (store (eng y))) (cbor (store (eng y))) fl)"
    by (rule New_store_ok) (use Restart in \<open>simp add: sys_inv_def\<close>)
  then show ?case by (rule NewEngine_inv(1))
qed (blast intro: sys_inv_Create sys_inv_Begin sys_inv_Refused sys_inv_Finish sys_inv_SetStatus sys_inv_tick_election
  sys_inv_drain_seal sys_inv_drain_publish sys_inv_key_refused sys_inv_key_accepted sys_inv_Finalized sys_inv_Scheduler
  sys_inv_Register sys_inv_Remove sys_inv_Dispatched sys_inv_Stopped sys_inv_Pool)+

lemma New_empty_ok:
  assumes "codec_ok cd"
  shows "store_ok (New [] cd fl)"
proof -
  have "store_ok \<lparr>db = [], cbor = cd, faults = fl, auditSeq = 0, reservationTimeout = 0, processingAddresses = {}, processingVoteIDs = {}\<rparr>"
    using assms by (simp add: store_ok_def storage_wf_def kv_wf_def db_typed_def kv_get_def store_inv_def log_inv_def batches_inv_def
        batch_votes_def pend_def artifact_at_def at_key_def exI[of _ 0])
  from New_store_ok[OF this] show ?thesis by simp
qed

text \<open>The states of a deployment: an engine on an empty database, then any steps.\<close>

inductive reachable :: "('v, 'st) sdk \<Rightarrow> ('b, 'v, 'st) system \<Rightarrow> bool" for k :: "('v, 'st) sdk" where
  start: "codec_ok cd \<Longrightarrow> reachable k (booted (NewEngine k now (New [] cd fl) opts))"
| step: "reachable k y \<Longrightarrow> sys_step k y y' \<Longrightarrow> reachable k y'"

lemma reachable_inv: "reachable k y \<Longrightarrow> snapshots_restore k \<Longrightarrow> sys_inv k y"
  by (induction rule: reachable.induct) (auto intro: NewEngine_inv(1)[OF New_empty_ok] sys_step_inv)

end
