(* ===== verification/Sample_Run.thy ===== *)
theory Sample_Run
  imports System_Restart Sample_Sdk
begin

text \<open>
  A concrete run for the witnesses: an election is created on an empty storage and one vote
  is submitted. The third-party parameter is the one of theory Sample_Sdk with documents
  that are the same for every vote.
\<close>

definition demo_sdk :: "(nat, nat) sdk" where
  "demo_sdk = sample_sdk
     \<lparr>parse_proof := (\<lambda>_. Some \<lparr>pi_a = [''1'', ''2'', ''1''], pi_b = [[''1'', ''2''], [''3'', ''4''], [''1'', ''0'']],
        pi_c = [''5'', ''6'', ''1''], sp_Protocol = [], sp_Curve = []\<rparr>),
      print_proof := (\<lambda>_. Inr ''p''),
      parse_vk := (\<lambda>_. Some \<lparr>vk_Protocol = [], vk_Curve = [], nPublic = 3, vk_alpha_1 = [''1'', ''2'', ''1''],
        vk_beta_2 = [[''1'', ''2''], [''3'', ''4''], [''1'', ''0'']], vk_gamma_2 = [[''1'', ''2''], [''3'', ''4''], [''1'', ''0'']],
        vk_delta_2 = [[''1'', ''2''], [''3'', ''4''], [''1'', ''0'']],
        IC = [[''1'', ''2'', ''1''], [''1'', ''2'', ''1''], [''1'', ''2'', ''1''], [''1'', ''2'', ''1'']]\<rparr>),
      print_vk := (\<lambda>_. Inr ''vk''),
      parse_bundle := (\<lambda>_. Some \<lparr>b_Proof = [], b_PublicInputs = [], b_Sig = [],
        b_Census = \<lparr>cp_Root = [], cp_Leaf = [], cp_Index = 0, cp_Siblings = []\<rparr>\<rparr>),
      print_bundle := (\<lambda>_. Inr ''bundle'')\<rparr>"

lemma demo_snapshots: "snapshots_restore demo_sdk"
  by (simp add: snapshots_restore_def demo_sdk_def sample_sdk_def)

definition demo_election :: Election where
  "demo_election =
     \<lparr>el_ID = ''E'', el_Status = StatusPaused,
      el_Config = \<lparr>cfg_ProcessID = ''1'', cfg_BallotMode = ''1'', cfg_EncX = ''7'', cfg_EncY = ''7'', cfg_CensusOrigin = 1,
        cfg_CensusRoot = ''0'', cfg_VK = ''k''\<rparr>,
      el_BatchSize = 2, el_FoldEvery = 1, el_EndTime = 0, el_CreatedAt = 0, el_UpdatedAt = 0, el_FoldWorker = [],
      el_FinalizeError = []\<rparr>"

definition demo_rules :: "nat voteRules" where
  "demo_rules =
     \<lparr>vr_cfg = \<lparr>ProcessID = 1, BallotModePacked = 1, EncKey = 7, CensusOrigin = 1, CensusRoot = 0, BallotVKHash = 0\<rparr>,
      vr_processID = be_bytes 31 1,
      vr_ballotMode = \<lparr>NumFields = 1, GroupSize = 0, UniqueValues = False, CostExponent = 0, MaxValue = 0, MinValue = 0,
        MaxValueSum = 0, MinValueSum = 0\<rparr>,
      vr_ballotVK = 0\<rparr>"

lemma TrimSpace_digits: "TrimSpace ''1'' = ''1''" "TrimSpace ''7'' = ''7''" "TrimSpace ''0'' = ''0''"
  by (simp_all add: TrimSpace_def spaces_def char_of_def)

lemma demo_hex: "parseHexBig ''1'' = Inr 1" "parseHexBig ''7'' = Inr 7" "parseHexBig ''0'' = Inr 0"
  by (simp_all add: parseHexBig_def TrimSpace_digits TrimPrefix_def SetString16_def fromHexChar_def Let_def)

lemma demo_vk: "parseBallotVK demo_sdk raw = Inr (0, ''vk'')"
  by (simp add: parseBallotVK_def demo_sdk_def sample_sdk_def parseG1_def parseG2_def parseFp_def parseDecimal_def
      decVal_def isDigit_def ballotPublicInputs_def Let_def)

lemma demo_mode: "unpackBallotMode demo_sdk 1 = Inr (vr_ballotMode demo_rules)"
  by (simp add: unpackBallotMode_def bmField_def demo_sdk_def sample_sdk_def demo_rules_def Let_def)

lemma demo_fields:
  "IsMerkle demo_sdk 1" "CheckBigIntInField demo_sdk v = (0 \<le> v)" "ProcessIDLen demo_sdk = 31"
  "BallotVKLeaf demo_sdk raw = Inr 0" "SetPoint demo_sdk x y = nat x" "NewState demo_sdk c = Inr 0" "MaxBatchSize demo_sdk = 128"
  "Snapshot demo_sdk st = Inr (replicate st (CHR 0x00))" "print_bundle demo_sdk b = Inr ''bundle''" "SlotKey demo_sdk p = Inr 5"
  by (simp_all add: demo_sdk_def sample_sdk_def)

lemma demo_chainConfig:
  "chainConfigFromElection demo_sdk ((el_Config demo_election)\<lparr>cfg_VK := v\<rparr>) = Inr (vr_cfg demo_rules)"
  by (simp add: chainConfigFromElection_def encKeyFromRTE_def demo_hex demo_election_def demo_fields demo_rules_def)

lemma demo_newVoteRules: "newVoteRules demo_sdk ((el_Config demo_election)\<lparr>cfg_VK := v\<rparr>) = Inr demo_rules"
proof -
  have c: "CensusRoot (vr_cfg demo_rules) = 0" "ProcessID (vr_cfg demo_rules) = 1" "BallotModePacked (vr_cfg demo_rules) = 1"
    by (simp_all add: demo_rules_def)
  have "cfg_CensusOrigin ((el_Config demo_election)\<lparr>cfg_VK := v\<rparr>) = 1" by (simp add: demo_election_def)
  then show ?thesis
    by (simp add: newVoteRules_def demo_chainConfig checkCensusOrigin_def fillBytes_def demo_fields demo_mode demo_vk c)
      (simp add: demo_rules_def)
qed

definition demo_stored :: Election where
  "demo_stored = demo_election\<lparr>el_Config := (el_Config demo_election)\<lparr>cfg_VK := ''vk''\<rparr>, el_Status := StatusActive,
     el_CreatedAt := 1, el_UpdatedAt := 1\<rparr>"

lemma demo_prepare:
  "prepareElection demo_sdk e demo_election =
     Inr (demo_stored\<lparr>el_CreatedAt := 0, el_UpdatedAt := 0\<rparr>, demo_rules, 0, [])"
proof -
  have "cfg_VK (el_Config demo_election) = ''k''" "el_BatchSize demo_election = 2" "el_FoldEvery demo_election = 1"
    by (simp_all add: demo_election_def)
  then show ?thesis
    by (simp add: prepareElection_def demo_vk demo_newVoteRules demo_fields Let_def minBatchSize_def)
      (simp add: demo_stored_def demo_election_def)
qed

section \<open>The empty engine\<close>

definition demo_engine :: "(artifact, nat, nat) engine" where
  "demo_engine = NewEngine demo_sdk 0 fresh \<lparr>opt_BatchSize = 2, opt_BatchTimeWindow = 5, opt_Pool = None, opt_FoldEvery = 1,
      opt_JobTimeout = 0, opt_JobPoll = 0\<rparr>"

lemma fresh_ok: "store_ok fresh"
  by (simp add: store_ok_def store_inv_def log_inv_def batches_inv_def batch_votes_def pend_def exI[of _ 0])

lemma fresh_elections: "ListElections fresh = []"
  using ListElections_mem[OF fresh_wf] by (metis bind.bind_lzero fresh_at(1) list.set_intros(1) neq_Nil_conv option.distinct(1))

lemma demo_engine_fields:
  "store demo_engine = fresh" "runtimes demo_engine = Map.empty" "eng_batchSize demo_engine = 2" "sched demo_engine = None"
  by (simp_all add: demo_engine_def NewEngine_def restore_def restoreWorkers_def fresh_elections)

section \<open>Creation\<close>

definition demo_created :: "(artifact, nat, nat) engine" where
  "demo_created = snd (engine_CreateElection demo_sdk 1 demo_engine ''admin'' demo_election)"

definition demo_rt :: "(nat, nat) electionRuntime" where
  "demo_rt = \<lparr>rt_id = ''E'', rt_cfg = vr_cfg demo_rules, rt_rules = demo_rules, rt_state = 0, rt_dirty = False, rt_pending = [],
     rt_batchSeq = 0, rt_batchSize = 2\<rparr>"

lemma demo_stored_simps [simp]: "el_ID demo_stored = ''E''" "el_Status demo_stored = StatusActive" "el_BatchSize demo_stored = 2"
  "demo_stored\<lparr>el_CreatedAt := 1, el_UpdatedAt := 1\<rparr> = demo_stored"
  by (simp_all add: demo_stored_def demo_election_def)

lemma demo_CreateElection:
  "\<exists>s. CreateElection 1 fresh (demo_stored\<lparr>el_CreatedAt := 0, el_UpdatedAt := 0\<rparr>) [] = (Inr demo_stored, s) \<and> faults s = []"
  by (simp add: CreateElection_writes Let_def with_value_def commit_writes_result frame_simps prod_eq_iff)

lemma demo_created:
  "storage_wf (store demo_created)" "faults (store demo_created) = []" "sched demo_created = None"
  "artifact_at (store demo_created) (ElectionK eid) = (if eid = ''E'' then Some (AElection demo_stored) else None)"
  "artifact_at (store demo_created) (VoteK eid vid) = None" "artifact_at (store demo_created) (VoteStatusK eid vid) = None"
  "artifact_at (store demo_created) (VoteSeqK eid) = None"
  "runtimes demo_created = [ElectionID_String ''E'' \<mapsto> demo_rt]"
  "engine_CreateElection demo_sdk 1 demo_engine ''admin'' demo_election = (Inr demo_stored, demo_created)"
  "processingVoteIDs (store demo_created) = {}" "processingAddresses (store demo_created) = {}"
  "artifact_at (store demo_created) (BatchK eid sq) = None" "artifact_at (store demo_created) (FoldK eid) = None"
proof -
  obtain s where s: "CreateElection 1 fresh (demo_stored\<lparr>el_CreatedAt := 0, el_UpdatedAt := 0\<rparr>) [] = (Inr demo_stored, s)" "faults s = []"
    using demo_CreateElection by blast
  note C = CreateElection_run[OF fresh_wf s(1)]
  define e where "e = put_runtime demo_rt (demo_engine\<lparr>store := s\<rparr>)"
  have c: "demo_created = audit 1 e ''admin'' ''admin'' ''create_election'' ''E''"
    "engine_CreateElection demo_sdk 1 demo_engine ''admin'' demo_election = (Inr demo_stored, demo_created)"
    using s(1) by (simp_all add: demo_created_def engine_CreateElection_def demo_prepare demo_engine_fields e_def demo_rt_def Let_def)
  have wf: "storage_wf (store e)" using C(1) by (simp add: e_def)
  note A = audit_same[OF wf]
  have at: "artifact_at s = (\<lambda>_. None)(ElectionK ''E'' \<mapsto> AElection demo_stored, SnapshotK ''E'' \<mapsto> ABlob [])"
    using C(4)[OF refl] fresh_at by (simp add: fun_eq_iff)
  show "engine_CreateElection demo_sdk 1 demo_engine ''admin'' demo_election = (Inr demo_stored, demo_created)" by (rule c(2))
  show "storage_wf (store demo_created)" unfolding c(1) by (rule A(1))
  show "faults (store demo_created) = []" using s(2) wf
    by (simp add: c(1) audit_def e_def AppendAudit_writes frame_simps)
  show "sched demo_created = None" "runtimes demo_created = [ElectionID_String ''E'' \<mapsto> demo_rt]"
    by (simp_all add: c(1) e_def put_runtime_def demo_engine_fields demo_rt_def)
  have k: "artifact_at (store demo_created) key = artifact_at s key" if "\<And>a. key \<noteq> AuditK a" for key
    using audit_keeps[OF wf] that by (simp add: c(1) e_def)
  show "artifact_at (store demo_created) (ElectionK eid) = (if eid = ''E'' then Some (AElection demo_stored) else None)"
    "artifact_at (store demo_created) (VoteK eid vid) = None" "artifact_at (store demo_created) (VoteStatusK eid vid) = None"
    "artifact_at (store demo_created) (VoteSeqK eid) = None" "artifact_at (store demo_created) (BatchK eid sq) = None"
    "artifact_at (store demo_created) (FoldK eid) = None" by (simp_all add: k at)
  have "locks (store demo_created) = locks s" using only_store_audit[where e = e and now = 1] by (simp add: c(1) only_store_def e_def)
  then have "locks (store demo_created) = locks fresh" using C(2) by simp
  then show "processingVoteIDs (store demo_created) = {}" "processingAddresses (store demo_created) = {}"
    by (simp_all add: locks_def fresh_def New_def recover_def reservationBasePrefixes_def cleanAllReservations_def
        iterateArtifacts_def kv_scan_def Commit_def)
qed

section \<open>A submission\<close>

definition demo_sub :: VoteSubmission where
  "demo_sub = sample_submission\<lparr>sub_Proof := ''p''\<rparr>"

lemma demo_parseFr: "parseFr demo_sdk zeros32 = Inr 0"
proof -
  have "\<not> prefix ''0x'' zeros32"
    using set_hexEncode[of "be_bytes 32 0"] by (auto simp: zeros32_def prefix_def)
  then have "TrimPrefix zeros32 ''0x'' = zeros32" by (simp add: TrimPrefix_def)
  then show ?thesis by (simp add: parseFr_def zeros32_def be_val_be_bytes demo_fields)
qed

lemma demo_check: "submit_check demo_sdk demo_rules demo_sub = Inr (5, ''bundle'')"
proof -
  have cv: "checkVote demo_sdk demo_rules demo_sub =
      Inr (1, 0, \<lparr>cp_Root = frHex 0, cp_Leaf = frHex 0, cp_Index = 0, cp_Siblings = []\<rparr>)"
    by (simp add: checkVote_def demo_sub_def sample_submission_def checkBallot_def verifyCensusProof_def demo_parseFr AddressLength_def
        be_val_be_bytes demo_rules_def Let_def) (simp add: demo_sdk_def sample_sdk_def)
  have pubs: "parsePublicInputs demo_sdk [''0'', ''0'', ''0''] = Inr [0, 0, 0]"
    by (simp add: parsePublicInputs_def parseDecimal_def demo_sdk_def sample_sdk_def ballotPublicInputs_def decVal_def isDigit_def)
  have pf: "\<exists>p. parseBallotProof demo_sdk raw = Inr (p, ''p'')" for raw
    by (simp add: parseBallotProof_def demo_sdk_def sample_sdk_def parseG1_def parseG2_def parseFp_def parseDecimal_def decVal_def isDigit_def)
  have sg: "parseVoteSig demo_sdk raw = Inr 0" for raw
    by (simp add: parseVoteSig_def demo_sdk_def sample_sdk_def parseHexBig_def TrimSpace_one TrimPrefix_def SetString16_def
        fromHexChar_def fillBytes_def Let_def)
  have "be_val (replicate 20 (CHR 0x00)) = 0" using be_val_replicate_zero[of 20 "[]"] by simp
  then have "\<exists>b. Validate demo_sdk demo_rules demo_sub = Inr b" using pf[of "''p''"] pubs
    by (auto simp: Validate_def cv sg Let_def) (auto simp: demo_sub_def sample_submission_def demo_sdk_def sample_sdk_def)
  then show ?thesis by (auto simp: submit_check_def demo_fields)
qed

definition demo_y1 :: "(artifact, nat, nat) system" where
  "demo_y1 = booted demo_created"

lemma demo_y1_reachable: "reachable demo_sdk demo_y1"
proof -
  have "reachable demo_sdk (booted demo_engine)"
    unfolding demo_engine_def fresh_def by (rule reachable.start[OF plain_codec_ok])
  from reachable.step[OF this sys_step.Create, of 1 "''admin''" demo_election] show ?thesis
    using demo_created(9) by (simp add: demo_y1_def)
qed

definition demo_y2 :: "(artifact, nat, nat) system" where
  "demo_y2 = demo_y1\<lparr>eng := snd (submit_begin demo_created ''E'' demo_sub), flights := [(''E'', demo_sub, demo_rules)]\<rparr>"

lemma demo_begin:
  "submit_begin demo_created ''E'' demo_sub = (Inr demo_rules, demo_created\<lparr>store := relock (store demo_created)
     {addressKey ''E'' (be_val (sub_Address demo_sub))} {sub_VoteID demo_sub}\<rparr>)"
proof -
  have wf1: "storage_wf ((store demo_created)\<lparr>processingVoteIDs := V\<rparr>)" for V
    using demo_created(1) by (simp add: storage_wf_def)
  have at1: "artifact_at ((store demo_created)\<lparr>processingVoteIDs := V\<rparr>) = artifact_at (store demo_created)" for V
    by (simp add: artifact_at_def fun_eq_iff)
  show ?thesis
    by (simp add: submit_begin_def reads[OF demo_created(1)] demo_created runtime_def LockVoteID_def LockAddress_def
        VoteExists_iff[OF wf1] at1 demo_rt_def Let_def)
qed

lemma demo_y2_reachable: "reachable demo_sdk demo_y2"
proof (rule reachable.step[OF demo_y1_reachable])
  have "sys_step demo_sdk demo_y1 (demo_y1\<lparr>eng := snd (submit_begin demo_created ''E'' demo_sub),
      flights := (''E'', demo_sub, demo_rules) # flights demo_y1\<rparr>)"
    by (rule sys_step.Begin) (simp add: demo_y1_def demo_begin)
  then show "sys_step demo_sdk demo_y1 demo_y2" by (simp add: demo_y2_def demo_y1_def)
qed

definition demo_vote :: Vote where
  "demo_vote = (submitted 2 demo_sub 5 ''bundle'')\<lparr>v_Seq := 1, v_SubmittedAt := 2\<rparr>"

definition demo_y3 :: "(artifact, nat, nat) system" where
  "demo_y3 = booted (submit_release ''E'' demo_sub
     (snd (the (submit_finish demo_sdk 2 (eng demo_y2) ''E'' (submitted 2 demo_sub 5 ''bundle'')))))"

lemma demo_finish:
  obtains s where "submit_finish demo_sdk 2 (eng demo_y2) ''E'' (submitted 2 demo_sub 5 ''bundle'') =
      Some (Inr demo_vote, audit 2 (put_runtime (demo_rt\<lparr>rt_pending := [demo_vote]\<rparr>) ((eng demo_y2)\<lparr>store := s\<rparr>)) ''voter'' ''voter'' ''submit_vote'' ''E'')"
    "AddVote 2 (store (eng demo_y2)) ''E'' (submitted 2 demo_sub 5 ''bundle'') = (Inr demo_vote, s)"
    "storage_wf (store (eng demo_y2))" "counter (store (eng demo_y2)) ''E'' = 0"
proof -
  have s2: "store (eng demo_y2) = relock (store demo_created) {addressKey ''E'' (be_val (sub_Address demo_sub))} {sub_VoteID demo_sub}"
    by (simp add: demo_y2_def demo_begin)
  have wf: "storage_wf (store (eng demo_y2))" by (simp add: s2 demo_created)
  have nf: "\<not> next_fault (store (eng demo_y2))" by (simp add: s2 next_fault_def demo_created)
  have c: "counter (store (eng demo_y2)) ''E'' = 0" by (simp add: counter_def s2 demo_created)
  define s where "s = snd (AddVote 2 (store (eng demo_y2)) ''E'' (submitted 2 demo_sub 5 ''bundle''))"
  have av: "AddVote 2 (store (eng demo_y2)) ''E'' (submitted 2 demo_sub 5 ''bundle'') = (Inr demo_vote, s)"
    using writes_succeed(4)[OF wf nf, of 2 "''E''" "submitted 2 demo_sub 5 ''bundle''"]
    by (simp add: s_def prod_eq_iff s2 demo_created demo_vote_def)
  have nb: "nextBatch [demo_vote] 2 = ([demo_vote], [])" by (simp add: nextBatch_def)
  have sf: "sealFullLocked demo_sdk 2 e (demo_rt\<lparr>rt_pending := [demo_vote]\<rparr>) = Some (Inr (), e, demo_rt\<lparr>rt_pending := [demo_vote]\<rparr>)" for e
    unfolding sealFullLocked_def by (subst seal_while.simps) (simp add: nb demo_rt_def)
  have el: "store_Election (store (eng demo_y2)) ''E'' = Inr demo_stored" by (simp add: reads[OF wf]) (simp add: s2 demo_created)
  have rt: "runtime (eng demo_y2) ''E'' = Some demo_rt" by (simp add: demo_y2_def demo_begin runtime_def demo_created)
  have p: "rt_pending demo_rt = []" by (simp add: demo_rt_def)
  have "submit_finish demo_sdk 2 (eng demo_y2) ''E'' (submitted 2 demo_sub 5 ''bundle'') =
      Some (Inr demo_vote, audit 2 (put_runtime (demo_rt\<lparr>rt_pending := [demo_vote]\<rparr>) ((eng demo_y2)\<lparr>store := s\<rparr>)) ''voter'' ''voter'' ''submit_vote'' ''E'')"
    by (simp add: submit_finish_def el rt av p sf del: map_option_eq_Some)
  from that[OF this av wf c] show ?thesis .
qed

lemma demo_y3_reachable: "reachable demo_sdk demo_y3"
proof (rule reachable.step[OF demo_y2_reachable])
  obtain s where F: "submit_finish demo_sdk 2 (eng demo_y2) ''E'' (submitted 2 demo_sub 5 ''bundle'') =
      Some (Inr demo_vote, audit 2 (put_runtime (demo_rt\<lparr>rt_pending := [demo_vote]\<rparr>) ((eng demo_y2)\<lparr>store := s\<rparr>)) ''voter'' ''voter'' ''submit_vote'' ''E'')"
    "counter (store (eng demo_y2)) ''E'' = 0" using demo_finish by metis
  have y2: "flights demo_y2 = [(''E'', demo_sub, demo_rules)]" "finals demo_y2 = {}" by (simp_all add: demo_y2_def demo_y1_def)
  have "sys_step demo_sdk demo_y2 (demo_y2\<lparr>eng := submit_release ''E'' demo_sub (snd (the (submit_finish demo_sdk 2 (eng demo_y2) ''E''
      (submitted 2 demo_sub 5 ''bundle'')))), flights := remove1 (''E'', demo_sub, demo_rules) (flights demo_y2)\<rparr>)"
    by (rule sys_step.Finish[OF _ demo_check, where now = 2 and r = "Inr demo_vote"]) (simp_all add: y2 F)
  moreover have "demo_y2\<lparr>eng := x, flights := remove1 (''E'', demo_sub, demo_rules) (flights demo_y2)\<rparr> = booted x" for x
    by (rule system.equality) (simp_all add: y2)
  ultimately show "sys_step demo_sdk demo_y2 demo_y3" by (simp only: demo_y3_def)
qed

lemma demo_y3:
  "runtime (eng demo_y3) ''E'' = Some (demo_rt\<lparr>rt_pending := [demo_vote]\<rparr>)"
  "election_at (store (eng demo_y3)) ''E'' = Some demo_stored"
  "vote_at (store (eng demo_y3)) ''E'' (v_ID demo_vote) = Some demo_vote"
  "status_at (store (eng demo_y3)) ''E'' (v_ID demo_vote) = Some VoteStatusPending"
proof -
  obtain s where F: "submit_finish demo_sdk 2 (eng demo_y2) ''E'' (submitted 2 demo_sub 5 ''bundle'') =
      Some (Inr demo_vote, audit 2 (put_runtime (demo_rt\<lparr>rt_pending := [demo_vote]\<rparr>) ((eng demo_y2)\<lparr>store := s\<rparr>)) ''voter'' ''voter'' ''submit_vote'' ''E'')"
    and av: "AddVote 2 (store (eng demo_y2)) ''E'' (submitted 2 demo_sub 5 ''bundle'') = (Inr demo_vote, s)"
    and wf: "storage_wf (store (eng demo_y2))" using demo_finish by metis
  define e where "e = put_runtime (demo_rt\<lparr>rt_pending := [demo_vote]\<rparr>) ((eng demo_y2)\<lparr>store := s\<rparr>)"
  have y3: "eng demo_y3 = submit_release ''E'' demo_sub (audit 2 e ''voter'' ''voter'' ''submit_vote'' ''E'')"
    using F by (simp add: demo_y3_def e_def)
  have id: "v_ID (submitted 2 demo_sub 5 ''bundle'') = v_ID demo_vote" by (simp add: demo_vote_def)
  have "s = store_step (OpAddVote 2 ''E'' (submitted 2 demo_sub 5 ''bundle'')) (store (eng demo_y2))"
    using av by (simp add: VoteExists_iff[OF wf]) (simp add: demo_y2_def demo_begin demo_created)
  then have wfs: "storage_wf s" by (simp only: store_step_wf[OF wf])
  note A = AddVote_at[OF wf av, simplified]
  have at: "artifact_at (store (eng demo_y3)) key = artifact_at s key" if "\<And>a. key \<noteq> AuditK a" for key
    using audit_keeps[of e key] that wfs by (simp add: y3 submit_release_relock e_def)
  show "runtime (eng demo_y3) ''E'' = Some (demo_rt\<lparr>rt_pending := [demo_vote]\<rparr>)"
    by (simp add: y3 submit_release_relock runtime_def e_def put_runtime_def demo_rt_def)
  show "vote_at (store (eng demo_y3)) ''E'' (v_ID demo_vote) = Some demo_vote"
    "status_at (store (eng demo_y3)) ''E'' (v_ID demo_vote) = Some VoteStatusPending"
    using A by (simp_all add: at id reads[OF wfs])
  show "election_at (store (eng demo_y3)) ''E'' = Some demo_stored"
    using A by (simp add: at) (simp add: demo_y2_def demo_begin demo_created)
qed

end
