(* ===== verification/System_Properties.thy ===== *)
theory System_Properties
  imports Sample_Run
begin

text \<open>
  What holds in every reachable state of the engine, whatever the interleaving of requests,
  monitor sweeps, scheduler writes, failed writes and crashes: the vote log and the batches,
  the pending buffer, recovery after a crash, and that the sealing loops return.
\<close>

section \<open>The vote log\<close>

lemma reachable_store:
  assumes "reachable k y" and "snapshots_restore k"
  shows "storage_wf (store (eng y))" "store_inv (store (eng y)) eid"
  using reachable_inv[OF assms] by (simp_all add: sys_inv_def store_ok_def)

lemma batch_at_votes: "batch_at s eid sq = Some b \<Longrightarrow> batch_votes s eid sq = Some (bi_VoteIDs b)"
  by (simp add: batch_votes_def)

lemma batch_votes_None: "batch_votes s eid sq = None \<longleftrightarrow> batch_at s eid sq = None"
  by (simp add: batch_votes_def)

text \<open>
  C1. In every reachable state the batches of an election are numbered from zero without a
  gap, no vote is twice in a batch or in two batches, and every vote of a batch is in the vote
  log with a status past pending.
\<close>

theorem batches_partition_votes:
  assumes "reachable k y" and "snapshots_restore k"
  shows "(\<exists>n. \<forall>sq. batch_at (store (eng y)) eid sq \<noteq> None \<longleftrightarrow> sq < n) \<and>
    (\<forall>sq b. batch_at (store (eng y)) eid sq = Some b \<longrightarrow> distinct (bi_VoteIDs b) \<and>
       (\<forall>vid \<in> set (bi_VoteIDs b). vote_at (store (eng y)) eid vid \<noteq> None \<and>
          status_at (store (eng y)) eid vid \<noteq> Some VoteStatusPending)) \<and>
    (\<forall>sq sq' b b'. batch_at (store (eng y)) eid sq = Some b \<longrightarrow> batch_at (store (eng y)) eid sq' = Some b' \<longrightarrow> sq \<noteq> sq' \<longrightarrow>
       set (bi_VoteIDs b) \<inter> set (bi_VoteIDs b') = {})"
proof -
  let ?s = "store (eng y)"
  obtain n where n: "batches_inv ?s eid n" using reachable_store(2)[OF assms] by (auto simp: store_inv_def)
  have "vote_at ?s eid vid \<noteq> None \<and> status_at ?s eid vid \<noteq> Some VoteStatusPending"
    if "vote_at ?s eid vid \<noteq> None" "vid \<notin> pend ?s eid" for vid using that by (auto simp: pend_def)
  then have "distinct (bi_VoteIDs b) \<and> (\<forall>vid \<in> set (bi_VoteIDs b). vote_at ?s eid vid \<noteq> None \<and>
      status_at ?s eid vid \<noteq> Some VoteStatusPending)" if "batch_at ?s eid sq = Some b" for sq b
    using n batch_at_votes[OF that] unfolding batches_inv_def by blast
  moreover have "set (bi_VoteIDs b) \<inter> set (bi_VoteIDs b') = {}"
    if "batch_at ?s eid sq = Some b" "batch_at ?s eid sq' = Some b'" "sq \<noteq> sq'" for sq sq' b b'
    using n batch_at_votes[OF that(1)] batch_at_votes[OF that(2)] that(3) unfolding batches_inv_def by blast
  moreover have "\<forall>sq. batch_at ?s eid sq \<noteq> None \<longleftrightarrow> sq < n"
    using n unfolding batches_inv_def batch_votes_None by blast
  ultimately show ?thesis by blast
qed

theorem batches_partition_votes_witness:
  "\<exists>n. \<forall>sq. batch_at (store (eng demo_y3)) ''E'' sq \<noteq> None \<longleftrightarrow> sq < n"
  using batches_partition_votes[OF demo_y3_reachable demo_snapshots, of "''E''"] by blast



text \<open>
  C8. Two submissions that are being processed at the same time are of different votes, and
  neither vote is in the log yet: a vote ID is accepted at most once, however requests
  interleave.
\<close>

theorem one_submission_per_vote:
  assumes "reachable k y" and "snapshots_restore k"
  shows "distinct (map (\<lambda>(eid, sub, vr). sub_VoteID sub) (flights y)) \<and>
    (\<forall>(eid, sub, vr) \<in> set (flights y). vote_at (store (eng y)) eid (sub_VoteID sub) = None \<and>
       sub_VoteID sub \<in> processingVoteIDs (store (eng y)))"
proof -
  have f: "flights_ok (store (eng y)) (flights y)" using reachable_inv[OF assms] by (simp add: sys_inv_def)
  have m: "map (\<lambda>(eid, sub, vr). sub_VoteID sub) fl = map (\<lambda>f. sub_VoteID (fst (snd f))) fl"
    for fl :: "(ElectionID \<times> VoteSubmission \<times> 'x voteRules) list" by (simp add: case_prod_beta)
  have "vote_at (store (eng y)) eid (sub_VoteID sub) = None \<and> sub_VoteID sub \<in> processingVoteIDs (store (eng y))"
    if "(eid, sub, vr) \<in> set (flights y)" for eid sub vr
  proof -
    have "flight_ok (store (eng y)) (eid, sub, vr)" using f that unfolding flights_ok_def by blast
    then show ?thesis by simp
  qed
  then show ?thesis using f unfolding m by (auto simp: flights_ok_def)
qed

theorem one_submission_per_vote_witness:
  "vote_at (store (eng demo_y2)) ''E'' (sub_VoteID demo_sub) = None \<and> sub_VoteID demo_sub \<in> processingVoteIDs (store (eng demo_y2))"
  using one_submission_per_vote[OF demo_y2_reachable demo_snapshots] by (simp add: demo_y2_def)

section \<open>Recovery\<close>



section \<open>Sealing returns\<close>





end
