(* ===== verification/System_Status.thy ===== *)
theory System_Status
  imports Sample_Run
begin

text \<open>
  The lifecycle of an election as an abstract machine, the diagram of docs/architecture.md,
  and that the engine refines it: whatever step the system takes, the stored status of every
  election moves along an edge of the diagram or stays, and an election is created active.
\<close>

section \<open>The abstract machine\<close>

fun lifecycle :: "Status \<Rightarrow> Status \<Rightarrow> bool" where
  "lifecycle StatusActive st \<longleftrightarrow> st \<in> {StatusPaused, StatusEnded, StatusCanceled}"
| "lifecycle StatusPaused st \<longleftrightarrow> st \<in> {StatusActive, StatusEnded, StatusCanceled}"
| "lifecycle StatusEnded st \<longleftrightarrow> st = StatusDecrypting"
| "lifecycle StatusDecrypting st \<longleftrightarrow> st = StatusFinalizing"
| "lifecycle StatusFinalizing st \<longleftrightarrow> st \<in> {StatusResults, StatusDecrypting}"
| "lifecycle StatusResults _ \<longleftrightarrow> False"
| "lifecycle StatusCanceled _ \<longleftrightarrow> False"
| "lifecycle StatusCreated _ \<longleftrightarrow> False"

fun life_move :: "Status option \<Rightarrow> Status option \<Rightarrow> bool" where
  "life_move None st \<longleftrightarrow> st = None \<or> st = Some StatusActive"
| "life_move (Some a) st \<longleftrightarrow> (\<exists>b. st = Some b \<and> (b = a \<or> lifecycle a b))"

definition statuses :: "'b storage \<Rightarrow> ElectionID \<Rightarrow> Status option" where
  "statuses s eid = map_option el_Status (election_at s eid)"

definition life_step :: "(ElectionID \<Rightarrow> Status option) \<Rightarrow> (ElectionID \<Rightarrow> Status option) \<Rightarrow> bool" where
  "life_step m m' \<longleftrightarrow> (\<forall>eid. life_move (m eid) (m' eid))"

lemma life_move_refl [simp]: "life_move a a"
  by (cases a) auto

lemma life_step_same: "(\<And>eid. election_at t eid = election_at s eid) \<Longrightarrow> life_step (statuses s) (statuses t)"
  by (simp add: life_step_def statuses_def)

lemma life_step_trans_same:
  "(\<And>eid. election_at t eid = election_at s eid) \<Longrightarrow> life_step (statuses t) m \<Longrightarrow> life_step (statuses s) m"
  "(\<And>eid. election_at t eid = election_at s eid) \<Longrightarrow> life_step m (statuses s) \<Longrightarrow> life_step m (statuses t)"
  by (simp_all add: life_step_def statuses_def)

text \<open>An update of one election whose function follows an edge.\<close>

lemma life_step_update:
  assumes wf: "storage_wf s" and run: "UpdateElection now s eid f = (r, t)"
    and f: "\<And>e e'. f e = Inr e' \<Longrightarrow> el_ID e' = el_ID e"
    and edge: "\<And>e e'. election_at s eid = Some e \<Longrightarrow> f e = Inr e' \<Longrightarrow> el_Status e' = el_Status e \<or> lifecycle (el_Status e) (el_Status e')"
  shows "life_step (statuses s) (statuses t)"
proof -
  note U = UpdateElection_same[OF wf run f]
  have "life_move (statuses s i) (statuses t i)" for i
  proof (cases "i = eid \<and> isOk r")
    case True
    then obtain e e' where "election_at s eid = Some e" "f e = Inr e'" "election_at t eid = Some (e'\<lparr>el_UpdatedAt := now\<rparr>)"
      using U(5) by blast
    with edge[of e e'] True show ?thesis by (auto simp: statuses_def)
  next
    case False
    then have "election_at t i = election_at s i" using U(3,4) by auto
    then show ?thesis by (simp add: statuses_def)
  qed
  then show ?thesis by (simp add: life_step_def)
qed

section \<open>The engine's operations\<close>

lemma audit_elections: "storage_wf (store e) \<Longrightarrow> election_at (store (audit now e a b c i)) eid = election_at (store e) eid"
  by (rule audit_same(3))

lemma forgetElection_elections:
  assumes wf: "storage_wf (store e)"
  shows "storage_wf (store (forgetElection i e))" "election_at (store (forgetElection i e)) eid = election_at (store e) eid"
proof -
  define s where "s = fold (\<lambda>v s. snd (SetVoteStatus s i (v_ID v) VoteStatusError)) (ListVotes (store e) i) (store e)"
  have M: "storage_wf s \<and> election_at s eid = election_at (store e) eid"
    using setVotesStatus_moves[OF wf _ _ s_def] ListVotes_mem[OF wf] by simp
  have f: "store (forgetElection i e) = snd (DeleteProofs s i)"
    by (simp add: forgetElection_def sched_Forget_def deleteProofs_def setVotesStatus_def s_def split: option.split)
  show "storage_wf (store (forgetElection i e))" "election_at (store (forgetElection i e)) eid = election_at (store e) eid"
    unfolding f using DeleteProofs_same[of s] M by simp_all
qed

lemma changeStatus_life:
  assumes inv: "sys_inv k y" and rt: "runtime (eng y) eid = Some rt" and restore: "snapshots_restore k"
    and run: "changeStatus k now (eng y) rt subject role to = Some (r, e')"
  shows "life_step (statuses (store (eng y))) (statuses (store e'))"
proof -
  let ?s = "store (eng y)"
  note id = sys_inv_loaded(1)[OF inv rt] and wf = sys_inv_wf[OF inv]
  obtain el where el: "election_at ?s eid = Some el" using sys_inv_loaded[OF inv rt] by (auto simp: loaded_ok_def)
  define cur where "cur = el_Status el"
  have "store_Election ?s (rt_id rt) = Inr el" using el id by (simp add: reads[OF wf])
  from changeStatus_shape[OF this run] consider (same) "e' = eng y"
    | (moved) e1 rt1 ru s e2 where "to \<in> set (case statusChanges cur of None \<Rightarrow> [] | Some tos \<Rightarrow> tos)"
        "settlePending k now (eng y) rt to = Some (e1, rt1)" "UpdateElection now (store e1) eid (moveStatus cur to) = (ru, s)"
        "e2 = put_runtime rt1 (e1\<lparr>store := s\<rparr>)"
        "isl ru \<and> e' = e2 \<or> isOk ru \<and>
           e' = audit now (if to = StatusCanceled then forgetElection eid e2 else e2) subject role (statusActions to) eid"
    unfolding id cur_def by blast
  then show ?thesis
  proof cases
    case same
    then show ?thesis by (simp add: life_step_same)
  next
    case moved
    note S = statusChanges_from[OF moved(1)]
    have lv: "live (finals y) el" using S by (auto simp: live_def cur_def)
    note P = sys_inv_settlePending[OF inv rt restore el lv moved(2)]
    have wf1: "storage_wf (store e1)" using sys_inv_wf[OF P(1)] by simp
    have edge: "lifecycle cur to \<or> to = cur" using moved(1) by (cases cur) auto
    have l: "life_step (statuses (store e1)) (statuses s)"
      by (rule life_step_update[OF wf1 moved(3)]) (use edge in \<open>auto dest!: moveStatus_Inr\<close>)
    have keeps: "\<And>e e'. moveStatus cur to e = Inr e' \<Longrightarrow> el_ID e' = el_ID e" by (auto dest!: moveStatus_Inr)
    have wfs: "storage_wf (store e2)" using UpdateElection_same(1)[OF wf1 moved(3) keeps] by (simp add: moved(4))
    note F = forgetElection_elections[OF wfs]
    have "election_at (store e') i = election_at (store e2) i" for i
      using moved(5) F audit_elections[OF wfs] audit_elections[OF F(1)] by (auto split: if_splits)
    then have "election_at (store e') i = election_at s i" for i by (simp add: moved(4))
    then show ?thesis using life_step_trans_same(2)[OF _ life_step_trans_same(1)[OF P(3) l]] by blast
  qed
qed

text \<open>Sealing and the parts of a submission leave the elections alone.\<close>

lemma seal_elections: "seal_rel k s rt s' rt' \<Longrightarrow> election_at s' eid = election_at s eid"
  by (simp add: seal_rel_def)

lemma endElection_life:
  assumes inv: "sys_inv k y" and rt: "runtime (eng y) eid = Some rt" and restore: "snapshots_restore k"
    and run: "endElection k now rt (eng y) = Some e'"
  shows "life_step (statuses (store (eng y))) (statuses (store e'))"
proof (cases "due now (eng_retries (eng y)) (rt_id rt) taskEnd")
  case False
  with run have "e' = eng y" by (simp add: endElection_def)
  then show ?thesis by (simp add: life_step_same)
next
  case True
  obtain x where c: "changeStatus k now (eng y) rt ''system'' ''system'' StatusEnded = Some x"
    using run True by (auto simp: endElection_def)
  obtain r e1 where x: "x = (r, e1)" by (cases x)
  have "store e' = store e1" using run True c x by (cases r) (auto simp: endElection_def split: if_splits)
  then show ?thesis using changeStatus_life[OF inv rt restore c[unfolded x]] by simp
qed

lemma tick_election_life:
  assumes inv: "sys_inv k y" and rt: "runtime (eng y) eid = Some rt" and restore: "snapshots_restore k"
    and run: "tick_election k now rt (eng y) = Some (e', ds)"
  shows "life_step (statuses (store (eng y))) (statuses (store e'))"
proof -
  note L = sys_inv_loaded[OF inv rt]
  obtain el where el: "election_at (store (eng y)) eid = Some el" using L by (auto simp: loaded_ok_def)
  then have se: "store_Election (store (eng y)) (rt_id rt) = Inr el" using L(1) by (simp add: reads[OF sys_inv_wf[OF inv]])
  consider (over) "endElection k now rt (eng y) = Some e'"
    | (stale) r e1 rt1 where "el_Status el = StatusActive \<or> el_Status el = StatusPaused"
        "sealIfStale k now (eng y) rt = Some (r, e1, rt1)" "store e' = store e1"
    | (same) "store e' = store (eng y)"
    using run se by (auto simp: tick_election_def split: if_splits)
  then show ?thesis
  proof cases
    case over
    then show ?thesis by (rule endElection_life[OF inv rt restore])
  next
    case stale
    then have lv: "live (finals y) el" by (auto simp: live_def)
    have "seal_rel k (store (eng y)) rt (store e1) rt1"
      using sealIfStale_inv[OF sys_inv_live[OF inv rt el lv] restore, of now] stale(2) by auto
    then show ?thesis using stale(3) by (intro life_step_same) (simp add: seal_elections)
  qed (simp add: life_step_same)
qed

lemma Finish_life:
  assumes inv: "sys_inv k y" and restore: "snapshots_restore k" and fl: "(eid, sub, vr) \<in> set (flights y)"
    and room: "counter (store (eng y)) eid + 1 \<noteq> 0"
    and run: "submit_finish k now (eng y) eid (submitted now sub slot payload) = Some (r, e')"
  shows "life_step (statuses (store (eng y))) (statuses (store (submit_release eid sub e')))"
proof -
  have fo: "flights_ok (store (eng y)) (flights y)" using inv by (simp add: sys_inv_def)
  define y1 where "y1 = y\<lparr>flights := []\<rparr>"
  have i1: "sys_inv k y1" using inv by (simp add: y1_def sys_inv_def flights_ok_def)
  have "flight_ok (store (eng y)) (eid, sub, vr)" using fo fl unfolding flights_ok_def by blast
  then have new: "vote_at (store (eng y1)) eid (v_ID (submitted now sub slot payload)) = None" by (simp add: y1_def submitted_def)
  have "election_at (store e') i = election_at (store (eng y1)) i" for i
    by (rule conjunct2[OF sys_inv_submit_finish[OF i1 restore new]]) (use room run in \<open>simp_all add: y1_def\<close>)
  then show ?thesis by (intro life_step_same) (simp add: submit_release_relock y1_def)
qed

section \<open>The end of an election\<close>

lemma finalizeElection_life:
  assumes inv: "sys_inv k y" and fin: "eid \<in> finals y"
  shows "life_step (statuses (store (eng y))) (statuses (store (finalizeElection now (eng y) eid res)))"
proof -
  note wf = sys_inv_wf[OF inv]
  obtain el where el: "election_at (store (eng y)) eid = Some el" "el_Status el = StatusFinalizing"
    using inv fin by (auto simp: sys_inv_def finals_ok_def)
  show ?thesis
  proof (cases res)
    case (Inl er)
    define e2 where "e2 = audit now (eng y) ''system'' ''system'' (''finalize_failed: '' @ gerror_Error er) eid"
    define f where "f = (\<lambda>el. Inr (el\<lparr>el_Status := StatusDecrypting, el_FinalizeError := finalizeSummary er\<rparr>) :: gerror + Election)"
    obtain r s where U: "UpdateElection now (store e2) eid f = (r, s)" by (metis prod.exhaust)
    have wf2: "storage_wf (store e2)" unfolding e2_def by (rule audit_same(1)[OF wf])
    have el2: "election_at (store e2) i = election_at (store (eng y)) i" for i unfolding e2_def by (rule audit_elections[OF wf])
    have "life_step (statuses (store e2)) (statuses s)"
      by (rule life_step_update[OF wf2 U]) (use el el2[of eid] in \<open>auto simp: f_def\<close>)
    moreover have "store (finalizeElection now (eng y) eid res) = s"
      using U Inl by (simp add: finalizeElection_def Let_def e2_def f_def audit_def)
    ultimately show ?thesis using life_step_trans_same(1)[OF el2] by simp
  next
    case (Inr x)
    define e2 where "e2 = setVotesStatus eid VoteStatusSettled ((eng y)\<lparr>finalizing := finalizing (eng y) - {ElectionID_String eid}\<rparr>)"
    have M: "storage_wf (store e2) \<and> election_at (store e2) i = election_at (store (eng y)) i" for i
      using setVotesStatus_moves[OF wf, of VoteStatusSettled "ListVotes (store (eng y)) eid" eid "store e2"] ListVotes_mem[OF wf]
      by (simp add: e2_def setVotesStatus_def)
    obtain r s where U: "SetElectionStatus now (store e2) eid StatusResults = (r, s)" by (metis prod.exhaust)
    then have U': "UpdateElection now (store e2) eid (\<lambda>el. Inr (el\<lparr>el_Status := StatusResults\<rparr>)) = (r, s)" by (simp add: SetElectionStatus_def)
    have l: "life_step (statuses (store e2)) (statuses s)"
      by (rule life_step_update[OF _ U']) (use M el in auto)
    have wfs: "storage_wf s" using UpdateElection_same(1)[OF _ U'] M by auto
    have "store (finalizeElection now (eng y) eid res) = s \<or> store (finalizeElection now (eng y) eid res) = snd (DeleteProofs s eid)"
      using U Inr by (auto simp: finalizeElection_def Let_def e2_def sched_Forget_def deleteProofs_def split: sum.splits option.splits)
    then have "election_at (store (finalizeElection now (eng y) eid res)) i = election_at s i" for i
      using DeleteProofs_same(3)[OF wfs] by auto
    then show ?thesis using l M life_step_trans_same by blast
  qed
qed

section \<open>The other operations\<close>

lemma life_step_audited:
  assumes l: "life_step m (statuses (store e))" and wf: "storage_wf (store e)"
    and e': "store e' = store e \<or> store e' = store (audit now e a b c i)"
  shows "life_step m (statuses (store e'))"
proof (rule life_step_trans_same(2)[OF _ l])
  show "election_at (store e') j = election_at (store e) j" for j using e' audit_elections[OF wf] by auto
qed

lemma drain_publish_life:
  assumes inv: "sys_inv k y" and run: "drain_publish now (eng y) eid = (r, e')"
  shows "life_step (statuses (store (eng y))) (statuses (store e'))"
proof -
  note wf = sys_inv_wf[OF inv]
  obtain ru s where U: "UpdateElection now (store (eng y)) eid (moveStatus StatusEnded StatusDecrypting) = (ru, s)" by (metis prod.exhaust)
  have keeps: "\<And>e e'. moveStatus StatusEnded StatusDecrypting e = Inr e' \<Longrightarrow> el_ID e' = el_ID e" by (auto dest!: moveStatus_Inr)
  have l: "life_step (statuses (store (eng y))) (statuses s)"
    by (rule life_step_update[OF wf U keeps]) (auto dest!: moveStatus_Inr)
  have wfs: "storage_wf (store ((eng y)\<lparr>store := s\<rparr>))" using UpdateElection_same(1)[OF wf U keeps] by simp
  show ?thesis
    by (rule life_step_audited[OF _ wfs]) (use l run U in \<open>auto simp: drain_publish_def split: sum.splits\<close>)
qed

lemma key_life:
  assumes inv: "sys_inv k y" and run: "SubmitDecryptionKey k now (eng y) subject eid key = (r, e')"
  shows "life_step (statuses (store (eng y))) (statuses (store e'))"
proof -
  note wf = sys_inv_wf[OF inv]
  obtain ru s where U: "UpdateElection now (store (eng y)) eid toFinalizing = (ru, s)" by (metis prod.exhaust)
  have keeps: "\<And>e e'. toFinalizing e = Inr e' \<Longrightarrow> el_ID e' = el_ID e" by (auto dest!: toFinalizing_Inr)
  have l: "life_step (statuses (store (eng y))) (statuses s)"
    by (rule life_step_update[OF wf U keeps]) (auto dest!: toFinalizing_Inr)
  have wfs: "storage_wf (store ((eng y)\<lparr>store := s\<rparr>))" using UpdateElection_same(1)[OF wf U keeps] by simp
  have "e' = eng y \<or> store e' = s \<or> store e' = store (audit now ((eng y)\<lparr>store := s\<rparr>) subject ''keywarden'' ''submit_decryption_key'' eid)"
    using SubmitDecryptionKey_shape[OF run] U by auto
  then have "e' = eng y \<or> (\<forall>i. election_at (store e') i = election_at s i)" using audit_elections[OF wfs] by auto
  then show ?thesis using l life_step_trans_same(2)[of "store e'" s] life_step_same[of "store (eng y)" "store (eng y)"] by auto
qed

lemma SetStatus_life:
  assumes inv: "sys_inv k y" and restore: "snapshots_restore k" and run: "SetStatus k now (eng y) subject eid to = Some (r, e')"
  shows "life_step (statuses (store (eng y))) (statuses (store e'))"
proof (cases "\<exists>el rt. store_Election (store (eng y)) eid = Inr el \<and> runtime (eng y) eid = Some rt")
  case True
  then obtain rt where rt: "runtime (eng y) eid = Some rt" and "changeStatus k now (eng y) rt subject ''admin'' to = Some (r, e')"
    using run by (auto simp: SetStatus_def)
  then show ?thesis using changeStatus_life[OF inv rt restore] by blast
next
  case False
  then have "e' = eng y" using run by (auto simp: SetStatus_def split: sum.splits option.splits)
  then show ?thesis by (simp add: life_step_same)
qed

lemma CreateElection_life:
  assumes inv: "sys_inv k y" and run: "engine_CreateElection k now (eng y) subject el = (r, e')"
  shows "life_step (statuses (store (eng y))) (statuses (store e'))"
proof (cases "prepareElection k (eng y) el")
  case (Inl er)
  then have "e' = eng y" using run by (simp add: engine_CreateElection_def)
  then show ?thesis by (simp add: life_step_same)
next
  case (Inr x)
  obtain el' vr st snap where x: "x = (el', vr, st, snap)" by (metis prod_cases4)
  note P = prepareElection_Inr[OF Inr[unfolded x]]
  note wf = sys_inv_wf[OF inv]
  obtain ru s where ce: "CreateElection now (store (eng y)) el' snap = (ru, s)" by (metis prod.exhaust)
  note C = CreateElection_run[OF wf ce]
  have l: "life_step (statuses (store (eng y))) (statuses s)"
  proof (cases ru)
    case (Inl er)
    then show ?thesis using C(3) by (intro life_step_same) simp
  next
    case (Inr stored)
    note D = C(4)[OF Inr]
    have "life_move (statuses (store (eng y)) i) (statuses s i)" for i
      using D P(6) by (cases "i = el_ID el'") (auto simp: statuses_def)
    then show ?thesis by (simp add: life_step_def)
  qed
  define e2 where "e2 rt = put_runtime rt ((eng y)\<lparr>store := s\<rparr>)" for rt
  have e2: "store (e2 rt) = s" for rt by (simp add: e2_def)
  have "\<exists>rt i. store e' = s \<or> e' = audit now (e2 rt) subject ''admin'' ''create_election'' i"
    using run ce Inr x by (cases ru) (auto simp: engine_CreateElection_def e2_def Let_def)
  then obtain rt i where e': "store e' = store (e2 rt) \<or> store e' = store (audit now (e2 rt) subject ''admin'' ''create_election'' i)"
    unfolding e2 by blast
  show ?thesis by (rule life_step_audited[OF _ _ e']) (simp_all add: e2 l C(1))
qed

lemma sched_write_elections:
  assumes "storage_wf s" and "sched_write s op"
  shows "election_at (store_step op s) i = election_at s i"
proof (cases "\<exists>eid vid st. op = OpSetVoteStatus eid vid st")
  case True
  then show ?thesis using store_step_at[OF assms(1), of op] by (auto simp: op_writes_def)
next
  case False
  then show ?thesis by (intro sched_write_same(2)[OF assms]) blast
qed

lemma Scheduler_life:
  assumes inv: "sys_inv k y" and w: "sched_write (store (eng y)) op"
  shows "life_step (statuses (store (eng y))) (statuses (store_step op (store (eng y))))"
  by (intro life_step_same) (rule sched_write_elections[OF sys_inv_wf[OF inv] w])

lemma worker_op_elections:
  assumes "storage_wf s"
  shows "storage_wf (snd (SetWorker now s w))" "election_at (snd (SetWorker now s w)) i = election_at s i"
    "storage_wf (snd (DeleteWorker s a))" "election_at (snd (DeleteWorker s a)) i = election_at s i"
  using store_step_wf[OF assms, of "OpSetWorker now w"] store_step_wf[OF assms, of "OpDeleteWorker a"]
    store_step_at[OF assms, of "OpSetWorker now w"] store_step_at[OF assms, of "OpDeleteWorker a"] by (simp_all add: op_writes_def)

lemma Register_life:
  assumes inv: "sys_inv k y" and run: "RegisterWorker now (eng y) subject address name = (r, e')"
  shows "life_step (statuses (store (eng y))) (statuses (store e'))"
proof (cases "pool (eng y)")
  case None
  with run have "e' = eng y" by (simp add: RegisterWorker_def)
  then show ?thesis by (simp add: life_step_same)
next
  case (Some wm)
  note wf = sys_inv_wf[OF inv]
  obtain w p ru s where sw: "SetWorker now (store (eng y)) w = (ru, s)"
    and e': "e' = (eng y)\<lparr>store := s, pool := p\<rparr> \<or>
      e' = audit now ((eng y)\<lparr>store := s, pool := p\<rparr>) subject ''admin'' (''register_worker:'' @ address) []"
    using run Some by (auto simp: RegisterWorker_def Let_def split: prod.splits sum.splits)
  have s: "s = snd (SetWorker now (store (eng y)) w)" using sw by simp
  define e2 where "e2 = (eng y)\<lparr>store := s, pool := p\<rparr>"
  have e2: "store e2 = s" by (simp add: e2_def)
  have "life_step (statuses (store (eng y))) (statuses (store e2))"
    unfolding e2 s by (rule life_step_same) (rule worker_op_elections[OF wf])
  then show ?thesis
    by (rule life_step_audited) (use e' worker_op_elections(1)[OF wf] in \<open>auto simp: e2 s e2_def\<close>)
qed

lemma Remove_life:
  assumes inv: "sys_inv k y" and run: "engine_RemoveWorker now worder order (eng y) subject workerID = (r, e')"
  shows "life_step (statuses (store (eng y))) (statuses (store e'))"
proof (cases "Option.bind (pool (eng y)) (\<lambda>wm. map_option (\<lambda>h. (wm, h)) (WorkerByID wm worder workerID))")
  case None
  with run have "e' = eng y" by (simp add: engine_RemoveWorker_def)
  then show ?thesis by (simp add: life_step_same)
next
  case (Some x)
  note wf = sys_inv_wf[OF inv]
  obtain wm h where x: "x = (wm, h)" by (cases x)
  define a where "a = w_Address (worker wm h)"
  define s where "s = snd (DeleteWorker (store (eng y)) a)"
  obtain ru where dw: "DeleteWorker (store (eng y)) a = (ru, s)" by (metis prod.collapse s_def)
  define e2 where "e2 = (eng y)\<lparr>store := s, pool := Some (RemoveWorker wm a)\<rparr>"
  have e2: "store e2 = s" by (simp add: e2_def)
  have "life_step (statuses (store (eng y))) (statuses (store e2))"
    unfolding e2 s_def by (rule life_step_same) (rule worker_op_elections[OF wf])
  then show ?thesis
  proof (rule life_step_audited)
    show "storage_wf (store e2)" unfolding e2 s_def by (rule worker_op_elections[OF wf])
    show "store e' = store e2 \<or> store e' = store (audit now e2 subject ''admin'' (''remove_worker:'' @ a) [])"
      using run Some x dw by (auto simp: engine_RemoveWorker_def Let_def a_def e2_def split: sum.splits)
  qed
qed

section \<open>Restart\<close>

definition boot_move :: "Status option \<Rightarrow> Status option \<Rightarrow> bool" where
  "boot_move a b \<longleftrightarrow> b = a \<or> a = Some StatusFinalizing \<and> b = Some StatusDecrypting"

lemma boot_move_life: "boot_move a b \<Longrightarrow> life_move a b"
  by (auto simp: boot_move_def)

lemma boot_move_trans: "boot_move a b \<Longrightarrow> boot_move b c \<Longrightarrow> boot_move a c"
  by (auto simp: boot_move_def)

lemma restoreElection_boot:
  assumes inv: "sys_inv k (booted e)" and el: "election_at (store e) (el_ID el) = Some el" and new: "runtime e (el_ID el) = None"
  shows "boot_move (statuses (store e) i) (statuses (store (restoreElection k now el e)) i)"
proof (cases "i = el_ID el")
  case False
  then show ?thesis using restoreElection_inv(2)[OF inv el new False, of now] by (simp add: statuses_def boot_move_def)
next
  case True
  then show ?thesis using restoreElection_inv(6)[OF inv el new, of now] el by (auto simp: statuses_def boot_move_def)
qed

lemma restore_fold_boot:
  assumes "sys_inv k (booted e)" and "distinct (map el_ID els)"
    and "\<And>el. el \<in> set els \<Longrightarrow> election_at (store e) (el_ID el) = Some el \<and> runtime e (el_ID el) = None"
  shows "boot_move (statuses (store e) i) (statuses (store (fold (restoreElection k now) els e)) i)"
  using assms
proof (induction els arbitrary: e)
  case Nil
  then show ?case by (simp add: boot_move_def)
next
  case (Cons el els)
  let ?e = "restoreElection k now el e"
  have el: "election_at (store e) (el_ID el) = Some el" "runtime e (el_ID el) = None" using Cons.prems(3)[of el] by simp_all
  note R = restoreElection_inv[OF Cons.prems(1) el]
  have rest: "election_at (store ?e) (el_ID x) = Some x \<and> runtime ?e (el_ID x) = None" if "x \<in> set els" for x
  proof -
    have "el_ID x \<noteq> el_ID el" using that Cons.prems(2) by (metis distinct.simps(2) imageI list.simps(9) set_map)
    then show ?thesis using R(2,3)[of "el_ID x"] Cons.prems(3)[of x] that by simp
  qed
  have "boot_move (statuses (store ?e) i) (statuses (store (fold (restoreElection k now) els ?e)) i)"
    by (rule Cons.IH[OF R(1) _ rest]) (use Cons.prems(2) in simp)
  then show ?case using boot_move_trans[OF restoreElection_boot[OF Cons.prems(1) el]] by simp
qed

lemma restart_life:
  assumes so: "store_ok s"
  shows "life_step (statuses s) (statuses (store (NewEngine k now (New (db s) (cbor s) fl) opts)))"
proof -
  define s0 where "s0 = New (db s) (cbor s) fl"
  have wf: "storage_wf s" using so by (simp add: store_ok_def)
  have so0: "store_ok s0" unfolding s0_def by (rule New_store_ok[OF so])
  obtain e where e: "NewEngine k now s0 opts = fold (restoreElection k now) (ListElections (store e)) e" "sys_inv k (booted e)"
    "artifact_at (store e) = artifact_at s0" "runtimes e = Map.empty" "store_ok (store e)" using NewEngine_start[OF so0] by blast
  have wf0: "storage_wf (store e)" using e(5) by (simp add: store_ok_def)
  have same: "statuses (store e) i = statuses s0 i" for i using e(3) by (simp add: statuses_def)
  have "boot_move (statuses s0 i) (statuses (store (NewEngine k now s0 opts)) i)" for i
    using restore_fold_boot[OF e(2) ListElections_distinct[OF wf0], of i now] ListElections_mem[OF wf0] e same by (simp add: runtime_def)
  then have "life_step (statuses s0) (statuses (store (NewEngine k now s0 opts)))" by (simp add: life_step_def boot_move_life)
  then show ?thesis using life_step_trans_same(1)[OF New_same(3)[OF wf]] by (simp add: s0_def)
qed

section \<open>The refinement\<close>

lemma sys_step_life:
  assumes "sys_step k y y'" and restore: "snapshots_restore k" and inv: "sys_inv k y"
  shows "life_step (statuses (store (eng y))) (statuses (store (eng y')))"
  using assms(1)
proof cases
  case (Create now subject el r e')
  then show ?thesis using CreateElection_life[OF inv] by simp
next
  case (Begin eid sub vr e')
  then show ?thesis using submit_begin_Inr[OF sys_inv_wf[OF inv] Begin(2)] by (auto intro!: life_step_same)
next
  case (Refused eid sub er e')
  then show ?thesis using submit_begin_Inl[OF Refused(2)] by (auto intro!: life_step_same)
next
  case (Invalid eid sub vr er)
  then show ?thesis by (auto intro!: life_step_same simp: submit_release_relock)
next
  case (Finish eid sub vr slot payload now r e')
  then show ?thesis using Finish_life[OF inv restore Finish(2) Finish(4,5)] by simp
next
  case (SetStatus now subject eid to r e')
  then show ?thesis using SetStatus_life[OF inv restore SetStatus(2)] by simp
next
  case (Tick eid rt now e' ds)
  then show ?thesis using tick_election_life[OF inv Tick(2) restore Tick(3)] by simp
next
  case (DrainSeal eid rt el now r e')
  then obtain ru e1 rt1 where s: "sealAllLocked k now (eng y) rt = Some (ru, e1, rt1)" "e' = put_runtime rt1 e1"
    by (auto simp: drain_seal_def)
  have "seal_rel k (store (eng y)) rt (store e1) rt1"
    using sealAllLocked_inv[OF sys_inv_live[OF inv DrainSeal(2-4)] restore, of now] s by auto
  then show ?thesis using s(2) DrainSeal(1) by (intro life_step_same) (simp add: seal_elections)
next
  case (DrainPublish now eid r e')
  then show ?thesis using drain_publish_life[OF inv] by simp
next
  case (KeyRefused now subject eid key er e')
  then show ?thesis using key_life[OF inv KeyRefused(2)] by simp
next
  case (KeyAccepted now subject eid key e')
  then show ?thesis using key_life[OF inv KeyAccepted(2)] by simp
next
  case (Finalized eid now res)
  then show ?thesis using finalizeElection_life[OF inv] by simp
next
  case (Scheduler op)
  then show ?thesis using Scheduler_life[OF inv] by simp
next
  case (FoldWorker now eid w r s)
  have "life_step (statuses (store (eng y))) (statuses s)" by (rule life_step_update[OF sys_inv_wf[OF inv] FoldWorker(2)]) auto
  then show ?thesis using FoldWorker(1) by simp
next
  case (Register now subject address name r e')
  then show ?thesis using Register_life[OF inv] by simp
next
  case (Remove now worder order subject workerID r e')
  then show ?thesis using Remove_life[OF inv] by simp
next
  case (Dispatched sc now eid stopping result)
  then show ?thesis by (auto intro!: life_step_same simp: dispatch_round_def split: sum.splits)
next
  case (Audited now subject role action eid)
  then show ?thesis by (intro life_step_same) (simp add: audit_elections[OF sys_inv_wf[OF inv]])
next
  case Stopped
  then show ?thesis by (auto intro!: life_step_same simp: Stop_def)
next
  case (Restart now fl opts)
  have "store_ok (store (eng y))" using inv by (simp add: sys_inv_def)
  from restart_life[OF this, where k = k] show ?thesis by (simp add: Restart)
qed (auto intro: life_step_same)

text \<open>
  C6. The engine refines the lifecycle of docs/architecture.md: in every reachable state, any
  step (a request, a sweep of the monitor, the end of a drain or a finalize, a write of the
  scheduler, a failed write, a crash and restart) moves the stored status of each election
  along an edge of the diagram or leaves it, and stores a new election as active. Canceled and
  results are final.
\<close>

theorem lifecycle_refined:
  assumes "reachable k y" and "snapshots_restore k" and "sys_step k y y'"
  shows "life_step (statuses (store (eng y))) (statuses (store (eng y')))"
  by (rule sys_step_life[OF assms(3,2) reachable_inv[OF assms(1,2)]])

theorem lifecycle_refined_witness:
  "\<exists>y'. sys_step demo_sdk demo_y3 y' \<and> (\<exists>st. statuses (store (eng y')) ''E'' = Some st \<and>
     st \<in> {StatusActive, StatusPaused, StatusEnded, StatusCanceled})"
proof -
  have "statuses (store (eng demo_y3)) ''E'' = Some StatusActive" using demo_y3(2) by (simp add: statuses_def)
  moreover have st: "sys_step demo_sdk demo_y3 (demo_y3\<lparr>eng := Engine_Ops.Stop (eng demo_y3)\<rparr>)" by (rule sys_step.Stopped)
  moreover have "life_move (statuses (store (eng demo_y3)) ''E'') (statuses (store (eng (demo_y3\<lparr>eng := Engine_Ops.Stop (eng demo_y3)\<rparr>))) ''E'')"
    using lifecycle_refined[OF demo_y3_reachable demo_snapshots st] unfolding life_step_def by blast
  ultimately show ?thesis by (metis (no_types, lifting) insert_iff life_move.simps(2) lifecycle.simps(1))
qed

end
