(* ===== verification/Engine_Properties.thy ===== *)
theory Engine_Properties
  imports Sample_Run
begin

text \<open>
  What the operations of the engine do one by one: the choice of a batch, the votes the state
  refuses, the decryption key, the end of a failed finalize, and the documents the engine
  stores in their canonical form.
\<close>

section \<open>Batches\<close>

text \<open>
  C17. \<open>nextBatch\<close> splits the pending votes in two: the batch and the rest keep the order
  of submission and lose no vote, the batch has at most the batch size and one vote per ballot
  slot, of two votes of one slot the older goes first, and the batch is short only when every
  slot that has a pending vote is in it.
\<close>

theorem next_batch_spec:
  assumes "0 \<le> sz" and "nextBatch pending sz = (batch, rest)"
  shows "subseq batch pending \<and> subseq rest pending \<and> mset batch + mset rest = mset pending \<and>
    int (length batch) \<le> sz \<and> distinct (map v_Slot batch) \<and>
    (\<forall>x. filter (\<lambda>v. v_Slot v = x) batch @ filter (\<lambda>v. v_Slot v = x) rest = filter (\<lambda>v. v_Slot v = x) pending) \<and>
    (int (length batch) < sz \<longrightarrow> v_Slot ` set batch = v_Slot ` set pending)"
  using nextBatch_shape[OF assms(2,1)] by simp

theorem next_batch_spec_witness:
  "int (length (fst (nextBatch [demo_vote, demo_vote\<lparr>v_ID := []\<rparr>] 2))) \<le> 2 \<and>
   nextBatch [demo_vote, demo_vote\<lparr>v_ID := []\<rparr>] 2 = ([demo_vote], [demo_vote\<lparr>v_ID := []\<rparr>])"
proof -
  have n: "nextBatch [demo_vote, demo_vote\<lparr>v_ID := []\<rparr>] 2 = ([demo_vote], [demo_vote\<lparr>v_ID := []\<rparr>])"
    by (simp add: nextBatch_def)
  have "(0::int) \<le> 2" by simp
  from next_batch_spec[OF this n] n show ?thesis by simp
qed

text \<open>
  C18. \<open>applyBatch\<close>, which finds refused votes by bisection, keeps exactly the votes a single
  pass would keep that applies each vote after the ones kept so far; it reports all others as
  refused and leaves the state with the kept votes applied at once. It relies on
  \<open>ApplyBatch\<close> applying votes in order, and on the state being the one of the snapshot.
\<close>

theorem apply_batch_greedy:
  assumes "applies_in_order k" and "synced k s rt" and "\<not> rt_dirty rt"
    and "kept = keepAccepted (\<lambda>idx. accepts k (rt_state rt) (map (\<lambda>j. votes ! j) idx)) [] [0..<length votes]"
  shows "\<exists>blocks refused rt' d'. applyBatch k s rt votes d = (Inr (blocks, refused), rt', d') \<and>
    dom refused = {..<length votes} - set kept \<and> applied k rt votes kept blocks rt'"
proof -
  have "(\<lambda>idx. accepts k (rt_state rt) (map (\<lambda>j. votes ! j) idx)) = accepts_at k (rt_state rt) votes"
    by (simp add: fun_eq_iff accepts_at_def)
  with applyBatch_keeps[OF assms(1-3)] assms(4) show ?thesis by simp
qed

lemma demo_ApplyBatch: "isOk (fst (ApplyBatch demo_sdk d st vs)) \<longleftrightarrow> (\<forall>v \<in> set vs. cv_Slot v \<noteq> 13)"
  by (auto simp: demo_sdk_def sample_sdk_def)

lemma demo_accepts: "accepts demo_sdk st vs \<longleftrightarrow> (\<forall>v \<in> set vs. cv_Slot v \<noteq> 13)"
proof
  assume "accepts demo_sdk st vs"
  then show "\<forall>v \<in> set vs. cv_Slot v \<noteq> 13"
    using demo_ApplyBatch[of 0 st vs] by (cases "vs = []") (auto simp: accepts_def)
qed (auto simp: accepts_def demo_ApplyBatch dest: in_set_takeD)

lemma demo_in_order: "applies_in_order demo_sdk"
  by (simp add: applies_in_order_def demo_accepts demo_ApplyBatch)

lemma demo_synced: "synced demo_sdk (store (eng demo_y3)) (demo_rt\<lparr>rt_pending := [demo_vote]\<rparr>)"
proof -
  have inv: "sys_inv demo_sdk demo_y3" by (rule reachable_inv[OF demo_y3_reachable demo_snapshots])
  have "live (finals demo_y3) demo_stored" by (simp add: live_def)
  from sys_inv_live[OF inv demo_y3(1,2) this] show ?thesis by (auto simp: rt_inv_def rt_ok_def demo_rt_def)
qed

theorem apply_batch_greedy_witness:
  "\<exists>blocks refused rt' d'. applyBatch demo_sdk (store (eng demo_y3)) (demo_rt\<lparr>rt_pending := [demo_vote]\<rparr>)
      [\<lparr>cv_Slot = 13, cv_VoteID = 1, cv_Ballot = 0\<rparr>, \<lparr>cv_Slot = 5, cv_VoteID = 2, cv_Ballot = 0\<rparr>] 0 = (Inr (blocks, refused), rt', d') \<and>
     dom refused = {0}"
proof -
  have nd: "\<not> rt_dirty (demo_rt\<lparr>rt_pending := [demo_vote]\<rparr>)" by (simp add: demo_rt_def)
  from apply_batch_greedy[OF demo_in_order demo_synced nd refl,
      of "[\<lparr>cv_Slot = 13, cv_VoteID = 1, cv_Ballot = 0\<rparr>, \<lparr>cv_Slot = 5, cv_VoteID = 2, cv_Ballot = 0\<rparr>]" 0]
  show ?thesis by (fastforce simp: demo_accepts upt_rec)
qed

section \<open>The decryption key\<close>

text \<open>
  C19. A decryption key is accepted only for a loaded election that is decrypting, when it is
  in range, its public key is the election's and no finalize of the election runs; then the
  election is stored as finalizing with its old failure cleared and the finalize is marked as
  running. A refused key leaves the set of running finalizes.
\<close>

theorem decryption_key_checked:
  assumes "storage_wf (store e)" and "SubmitDecryptionKey k now e subject eid key = (r, e')"
  shows "finalizing e' = (if isOk r then insert (ElectionID_String eid) (finalizing e) else finalizing e) \<and>
    (isOk r \<longrightarrow> (\<exists>el rt. election_at (store e) eid = Some el \<and> el_Status el = StatusDecrypting \<and> runtime e eid = Some rt \<and>
        0 < key \<and> key < Order k (EncKey (rt_cfg rt)) \<and> PointEqual k (ScalarBaseMult k key) (EncKey (rt_cfg rt)) \<and>
        canFinalize e \<and> ElectionID_String eid \<notin> finalizing e \<and>
        election_at (store e') eid = Some (el\<lparr>el_Status := StatusFinalizing, el_FinalizeError := [], el_UpdatedAt := now\<rparr>)))"
proof -
  note sh = SubmitDecryptionKey_shape[OF assms(2)]
  have "isOk r \<Longrightarrow> \<exists>el rt. store_Election (store e) eid = Inr el \<and> el_Status el = StatusDecrypting \<and> runtime e eid = Some rt \<and>
      checkDecryptionKey k (EncKey (rt_cfg rt)) key = Inr () \<and> canFinalize e \<and> ElectionID_String eid \<notin> finalizing e"
    using assms(2) unfolding SubmitDecryptionKey_def
    by (auto split: sum.splits option.splits if_splits) (metis sum.disc(1))
  then have "isOk r \<Longrightarrow> \<exists>el rt. election_at (store e) eid = Some el \<and> el_Status el = StatusDecrypting \<and> runtime e eid = Some rt \<and>
      0 < key \<and> key < Order k (EncKey (rt_cfg rt)) \<and> PointEqual k (ScalarBaseMult k key) (EncKey (rt_cfg rt)) \<and>
      canFinalize e \<and> ElectionID_String eid \<notin> finalizing e"
    by (auto simp: reads[OF assms(1)] checkDecryptionKey_def found_def split: option.splits)
  moreover have "isOk r \<Longrightarrow> election_at (store e) eid = Some el \<Longrightarrow>
      election_at (store e') eid = Some (el\<lparr>el_Status := StatusFinalizing, el_FinalizeError := [], el_UpdatedAt := now\<rparr>)" for el
  proof -
    assume "isOk r" and el: "election_at (store e) eid = Some el"
    then obtain ru s where U: "UpdateElection now (store e) eid toFinalizing = (ru, s)" "isOk ru"
      and e': "store e' = store (audit now (e\<lparr>store := s\<rparr>) subject ''keywarden'' ''submit_decryption_key'' eid)" using sh by auto
    have keep: "\<And>x x'. toFinalizing x = Inr x' \<Longrightarrow> el_ID x' = el_ID x" by (auto dest!: toFinalizing_Inr)
    note US = UpdateElection_same[OF assms(1) U(1) keep]
    have wf: "storage_wf (store (e\<lparr>store := s\<rparr>))" using US(1) by simp
    obtain el' where "toFinalizing el = Inr el'" "election_at s eid = Some (el'\<lparr>el_UpdatedAt := now\<rparr>)"
      using US(5) U(2) el by fastforce
    then show ?thesis using audit_same(3)[OF wf] e' by (auto dest!: toFinalizing_Inr)
  qed
  moreover have "finalizing e' = (if isOk r then insert (ElectionID_String eid) (finalizing e) else finalizing e)"
    using sh by (auto simp: audit_def)
  ultimately show ?thesis by meson
qed


definition demo_closing :: "Status \<Rightarrow> (artifact, nat, nat) engine" where
  "demo_closing st = demo_engine\<lparr>store := snd (CreateElection 1 fresh (demo_stored\<lparr>el_Status := st\<rparr>) []),
     sched := Some (fst (NewScheduler fresh 1 0 0)), runtimes := [ElectionID_String ''E'' \<mapsto> demo_rt]\<rparr>"

lemma demo_closing:
  "storage_wf (store (demo_closing st))" "faults (store (demo_closing st)) = []"
  "election_at (store (demo_closing st)) ''E'' = Some (demo_stored\<lparr>el_Status := st\<rparr>)"
proof -
  obtain s where s: "CreateElection 1 fresh (demo_stored\<lparr>el_Status := st\<rparr>) [] = (Inr (demo_stored\<lparr>el_Status := st\<rparr>), s)" "faults s = []"
    by (simp add: CreateElection_writes Let_def with_value_def commit_writes_result frame_simps prod_eq_iff demo_stored_def)
  note C = CreateElection_run[OF fresh_wf s(1)]
  have d: "store (demo_closing st) = s" by (simp add: demo_closing_def s(1))
  show "storage_wf (store (demo_closing st))" "faults (store (demo_closing st)) = []" using C(1) s(2) d by simp_all
  show "election_at (store (demo_closing st)) ''E'' = Some (demo_stored\<lparr>el_Status := st\<rparr>)" using C(4)[OF refl] by (simp add: d)
qed

theorem decryption_key_checked_witness:
  "isOk (fst (SubmitDecryptionKey demo_sdk 9 (demo_closing StatusDecrypting) ''w'' ''E'' 7)) \<and>
   ElectionID_String ''E'' \<in> finalizing (snd (SubmitDecryptionKey demo_sdk 9 (demo_closing StatusDecrypting) ''w'' ''E'' 7))"
proof -
  define e where "e = demo_closing StatusDecrypting"
  note D = demo_closing[where st = StatusDecrypting, folded e_def]
  have e: "runtime e ''E'' = Some demo_rt" "canFinalize e" "finalizing e = {}" "\<not> bgStopped e"
    by (simp_all add: e_def demo_closing_def runtime_def canFinalize_def demo_engine_def NewEngine_def restore_def restoreWorkers_def fresh_elections)
  have k: "checkDecryptionKey demo_sdk (EncKey (rt_cfg demo_rt)) 7 = Inr ()"
    by (simp add: checkDecryptionKey_def demo_rt_def demo_rules_def) (simp add: demo_sdk_def sample_sdk_def)
  have ok: "isOk (fst (SubmitDecryptionKey demo_sdk 9 e ''w'' ''E'' 7))"
  proof -
    obtain ru s where U: "UpdateElection 9 (store e) ''E'' (\<lambda>stored. and_then (moveStatus StatusDecrypting StatusFinalizing stored)
        (\<lambda>stored. Inr (stored\<lparr>el_FinalizeError := []\<rparr>))) = (ru, s)" by (metis prod.exhaust)
    have "fst (UpdateElection 9 (store e) ''E'' (\<lambda>stored. and_then (moveStatus StatusDecrypting StatusFinalizing stored)
        (\<lambda>stored. Inr (stored\<lparr>el_FinalizeError := []\<rparr>)))) = Inr ()"
      using D by (simp add: UpdateElection_writes[OF D(1)] moveStatus_def commit_writes_result next_fault_def)
    then have "ru = Inr ()" using U by simp
    then show ?thesis using D(3) e k U by (simp add: SubmitDecryptionKey_def reads[OF D(1)] audit_def Let_def)
  qed
  from decryption_key_checked[OF D(1) surjective_pairing, of demo_sdk 9 "''w''" "''E''" 7] ok show ?thesis by (simp add: e_def)
qed

section \<open>A failed finalize\<close>



section \<open>Stored documents\<close>

text \<open>
  C21. The proof and the verification key the engine stores are fixed points of their parsers:
  reading back the canonical document gives the value that was verified and the same
  document. JSON is assumed to read what it wrote.
\<close>

theorem stored_documents_canonical:
  assumes "json_ok k"
  shows "(parseBallotProof k raw = Inr (pf, doc) \<longrightarrow> parseBallotProof k doc = Inr (pf, doc)) \<and>
    (parseBallotVK k raw' = Inr (vk, doc') \<longrightarrow> parseBallotVK k doc' = Inr (vk, doc'))"
  using parseBallotProof_canonical[OF assms] parseBallotVK_canonical[OF assms] by blast

theorem stored_documents_canonical_witness:
  "\<exists>pf doc. parseBallotProof sample_sdk (sub_Proof sample_submission) = Inr (pf, doc) \<and> parseBallotProof sample_sdk doc = Inr (pf, doc)"
proof -
  have "\<exists>x. parseBallotProof sample_sdk (sub_Proof sample_submission) = Inr x"
    by (simp add: parseBallotProof_def sample_submission_def sample_sdk_def sample_parse_proof_def sample_print_proof_def
        parseG1_def parseG2_def parseFp_def parseDecimal_def decVal_def isDigit_def)
  then obtain pf doc where "parseBallotProof sample_sdk (sub_Proof sample_submission) = Inr (pf, doc)" by auto
  with stored_documents_canonical[OF sample_json_ok, of "sub_Proof sample_submission" pf doc] show ?thesis by auto
qed

section \<open>A cancellation that fails\<close>

text \<open>
  \<open>changeStatus\<close> empties the pending buffer before it writes the status. When the write
  fails the election stays active and loaded, with its pending votes out of the buffer: they
  are not sealed until a restart reads them back from the log.
\<close>

lemma failed_cancel_empties_buffer:
  assumes "storage_wf (store e)" and "next_fault (store e)" and "election_at (store e) (rt_id rt) = Some el"
    and "el_Status el = StatusActive"
  shows "\<exists>er e'. changeStatus k now e rt subject role StatusCanceled = Some (Inl er, e') \<and>
    election_at (store e') (rt_id rt) = Some el \<and> runtime e' (rt_id rt) = Some (rt\<lparr>rt_pending := []\<rparr>)"
proof -
  define s where "s = snd (UpdateElection now (store e) (rt_id rt) (moveStatus StatusActive StatusCanceled))"
  have U: "UpdateElection now (store e) (rt_id rt) (moveStatus StatusActive StatusCanceled) =
      (Inl [Detail ''database write failed''], s)"
    using assms by (simp add: s_def UpdateElection_writes[OF assms(1)] moveStatus_def commit_writes_result prod_eq_iff)
  have "election_at s (rt_id rt) = Some el"
  proof -
    have "\<And>x x'. moveStatus StatusActive StatusCanceled x = Inr x' \<Longrightarrow> el_ID x' = el_ID x"
      by (auto simp: moveStatus_def split: if_splits)
    from UpdateElection_same(4)[OF assms(1) U this] assms(3) show ?thesis by simp
  qed
  then show ?thesis
    using U assms(3,4) by (simp add: changeStatus_def reads[OF assms(1)] settlePending_def)
qed

end
