(* ===== verification/Acts.thy ===== *)
theory Acts
  imports System
begin

text \<open>
  The scheduler runs for minutes beside the rest of the program, so its methods are actions on
  a world: the system, a count of the accesses to shared state made so far, and the fold chain
  the drive lock protects. Before every access to shared state (\<open>atomic\<close>) the other
  goroutines run; what they do is a parameter indexed by the count, like the clock, the
  context, the order in which Go visits the pool and every answer of a prover. An action that
  never returns is \<open>None\<close>.

  \<open>Client\<close> calls and the rest of the go-sdk used by scheduler.go and finalize.go are fields
  of \<open>env\<close>: a prover is a service, so a call may answer anything each time.
\<close>

section \<open>What the scheduler meets\<close>

datatype JobStatus = JobStatusQueued | JobStatusRunning | JobStatusDone | JobStatusFailed | JobStatusOther string

record Job =
  job_Status :: JobStatus
  job_Error :: "string option"

datatype ImportKind = ImportBatch | ImportFold

record 'v FoldRequest =
  fr_Config :: 'v
  fr_BatchJobs :: "string list"
  fr_FoldVK :: string
  fr_PrevFoldJob :: string

record 'v FinalizeRequest =
  fin_Config :: 'v
  fin_FoldJob :: string
  fin_FoldVK :: string
  fin_Results :: 'v

record Digest =
  d_Mode :: int
  d_StateRootHex :: string
  d_StepCount :: u64
  d_TotalVoters :: u64
  d_TotalOverwrites :: u64
  d_Results :: "u64 list"
  d_ConfigCommitment :: bytes

record PlonkSnark =
  sn_ProgramVK :: bytes
  sn_RootCVadcopFinal :: bytes
  sn_PublicValues :: bytes
  sn_ProofBytes :: bytes

text \<open>A pinned circuit release, when \<open>chain.CircuitRelease.IsSet\<close>.\<close>

record Release =
  rel_AggVK :: string
  rel_BatchVK :: string

record ('b, 'v, 'st) env =
  others :: "nat \<Rightarrow> ('b, 'v, 'st) system \<Rightarrow> ('b, 'v, 'st) system"
  ctx_done :: "nat \<Rightarrow> bool"
  clock :: "nat \<Rightarrow> time"
  visits :: "nat \<Rightarrow> string list"
  ready :: "nat \<Rightarrow> bool"
  GetJob :: "nat \<Rightarrow> string \<Rightarrow> string \<Rightarrow> gerror + Job"
  SubmitProve :: "nat \<Rightarrow> string \<Rightarrow> 'v ProveRequest \<Rightarrow> gerror + string"
  SubmitFold :: "nat \<Rightarrow> string \<Rightarrow> 'v FoldRequest \<Rightarrow> gerror + string"
  SubmitFinalize :: "nat \<Rightarrow> string \<Rightarrow> 'v FinalizeRequest \<Rightarrow> gerror + string"
  ImportStarkAs :: "nat \<Rightarrow> string \<Rightarrow> bytes \<Rightarrow> ImportKind \<Rightarrow> gerror + string"
  FetchStarkInfo :: "nat \<Rightarrow> string \<Rightarrow> string \<Rightarrow> gerror + string"
  FetchStarkRaw :: "nat \<Rightarrow> string \<Rightarrow> string \<Rightarrow> gerror + bytes"
  FetchPublics :: "nat \<Rightarrow> string \<Rightarrow> string \<Rightarrow> gerror + bytes"
  FetchSnark :: "nat \<Rightarrow> string \<Rightarrow> string \<Rightarrow> gerror + PlonkSnark"
  parse_request :: "bytes \<Rightarrow> gerror + 'v ProveRequest"
  CircuitRelease :: "Release option"
  VerifyRelease :: "string \<Rightarrow> string \<Rightarrow> gerror + unit"
  ChainConfig :: "'st \<Rightarrow> 'v"
  ResultsPayload :: "'st \<Rightarrow> int \<Rightarrow> gerror + 'v \<times> u64 list"
  Voters :: "'st \<Rightarrow> u64 \<times> u64"
  StateRoot :: "'st \<Rightarrow> string"
  ParseDigest :: "bytes \<Rightarrow> gerror + Digest"
  ModeFinalize :: int
  VerifyBinding :: "Digest \<Rightarrow> string \<Rightarrow> string \<Rightarrow> gerror + unit"
  VKWords :: "string \<Rightarrow> gerror + 'v"
  ConfigCommitment :: "'st \<Rightarrow> 'v \<Rightarrow> 'v \<Rightarrow> gerror + bytes"

section \<open>Actions\<close>

record ('b, 'v, 'st) world =
  w_sys :: "('b, 'v, 'st) system"
  w_ticks :: nat
  w_fc :: foldChain

type_synonym ('b, 'v, 'st, 'a) act = "('b, 'v, 'st) world \<Rightarrow> ('a \<times> ('b, 'v, 'st) world) option"

definition ret :: "'a \<Rightarrow> ('b, 'v, 'st, 'a) act" where
  "ret x w = Some (x, w)"

definition seq :: "('b, 'v, 'st, 'a) act \<Rightarrow> ('a \<Rightarrow> ('b, 'v, 'st, 'c) act) \<Rightarrow> ('b, 'v, 'st, 'c) act" where
  "seq m f w = (case m w of None \<Rightarrow> None | Some (x, w') \<Rightarrow> f x w')"

text \<open>\<open>if err != nil { return err }\<close> after an action.\<close>

definition andOk ::
  "('b, 'v, 'st, gerror + 'a) act \<Rightarrow> ('a \<Rightarrow> ('b, 'v, 'st, gerror + 'c) act) \<Rightarrow> ('b, 'v, 'st, gerror + 'c) act" where
  "andOk m f = seq m (\<lambda>r. case r of Inl er \<Rightarrow> ret (Inl er) | Inr x \<Rightarrow> f x)"

definition wrapA :: "sentinel \<Rightarrow> ('b, 'v, 'st, gerror + 'a) act \<Rightarrow> ('b, 'v, 'st, gerror + 'a) act" where
  "wrapA d m = seq m (\<lambda>r. ret (wrap d r))"

definition atomic ::
  "('b, 'v, 'st) env \<Rightarrow> (nat \<Rightarrow> ('b, 'v, 'st) world \<Rightarrow> 'a \<times> ('b, 'v, 'st) world) \<Rightarrow> ('b, 'v, 'st, 'a) act" where
  "atomic en f w = Some (f (w_ticks w) (w\<lparr>w_sys := others en (w_ticks w) (w_sys w), w_ticks := w_ticks w + 1\<rparr>))"

abbreviation w_eng :: "('b, 'v, 'st) world \<Rightarrow> ('b, 'v, 'st) engine" where
  "w_eng w \<equiv> eng (w_sys w)"

definition set_eng :: "('b, 'v, 'st) engine \<Rightarrow> ('b, 'v, 'st) world \<Rightarrow> ('b, 'v, 'st) world" where
  "set_eng e w = w\<lparr>w_sys := (w_sys w)\<lparr>eng := e\<rparr>\<rparr>"

text \<open>A read, and an update, of the storage.\<close>

definition read_store :: "('b, 'v, 'st) env \<Rightarrow> ('b storage \<Rightarrow> 'a) \<Rightarrow> ('b, 'v, 'st, 'a) act" where
  "read_store en f = atomic en (\<lambda>_ w. (f (store (w_eng w)), w))"

definition on_store :: "('b, 'v, 'st) env \<Rightarrow> (time \<Rightarrow> 'b storage \<Rightarrow> 'a \<times> 'b storage) \<Rightarrow> ('b, 'v, 'st, 'a) act" where
  "on_store en f = atomic en (\<lambda>n w.
     let r = f (clock en n) (store (w_eng w)) in (fst r, set_eng ((w_eng w)\<lparr>store := snd r\<rparr>) w))"

text \<open>The same for the worker pool, with the clock and the order a \<open>Range\<close> visits it in.\<close>

abbreviation w_pool :: "('b, 'v, 'st) world \<Rightarrow> WorkerManager" where
  "w_pool w \<equiv> the (pool (w_eng w))"

definition read_pool :: "('b, 'v, 'st) env \<Rightarrow> (time \<Rightarrow> string list \<Rightarrow> WorkerManager \<Rightarrow> 'a) \<Rightarrow> ('b, 'v, 'st, 'a) act" where
  "read_pool en f = atomic en (\<lambda>n w. (f (clock en n) (visits en n) (w_pool w), w))"

definition on_pool ::
  "('b, 'v, 'st) env \<Rightarrow> (time \<Rightarrow> string list \<Rightarrow> WorkerManager \<Rightarrow> 'a \<times> WorkerManager) \<Rightarrow> ('b, 'v, 'st, 'a) act" where
  "on_pool en f = atomic en (\<lambda>n w.
     let r = f (clock en n) (visits en n) (w_pool w) in (fst r, set_eng ((w_eng w)\<lparr>pool := Some (snd r)\<rparr>) w))"

text \<open>What the environment answers at this moment: a prover, the clock, the context.\<close>

definition ask :: "('b, 'v, 'st) env \<Rightarrow> (nat \<Rightarrow> 'a) \<Rightarrow> ('b, 'v, 'st, 'a) act" where
  "ask en f = atomic en (\<lambda>n w. (f n, w))"

definition sched_of :: "('b, 'v, 'st) env \<Rightarrow> (scheduler \<Rightarrow> 'a) \<Rightarrow> ('b, 'v, 'st, 'a) act" where
  "sched_of en f = atomic en (\<lambda>_ w. (f (the (sched (w_eng w))), w))"

text \<open>The fold chain is private to the holder of the drive lock.\<close>

definition get_fc :: "(foldChain \<Rightarrow> 'a) \<Rightarrow> ('b, 'v, 'st, 'a) act" where
  "get_fc f w = Some (f (w_fc w), w)"

definition set_fc :: "(foldChain \<Rightarrow> foldChain) \<Rightarrow> ('b, 'v, 'st, unit) act" where
  "set_fc f w = Some ((), w\<lparr>w_fc := f (w_fc w)\<rparr>)"

text \<open>The object a pointer stands for, its update, and new objects.\<close>

definition obj :: "foldChain \<Rightarrow> ptr \<Rightarrow> BatchInput" where
  "obj fc p = fc_objs fc ! p"

definition set_obj :: "ptr \<Rightarrow> (BatchInput \<Rightarrow> BatchInput) \<Rightarrow> ('b, 'v, 'st, unit) act" where
  "set_obj p f = set_fc (\<lambda>fc. fc\<lparr>fc_objs := (fc_objs fc)[p := f (obj fc p)]\<rparr>)"

definition alloc :: "BatchInput list \<Rightarrow> ('b, 'v, 'st, ptr list) act" where
  "alloc bs = seq (get_fc (\<lambda>fc. length (fc_objs fc))) (\<lambda>n.
     seq (set_fc (\<lambda>fc. fc\<lparr>fc_objs := fc_objs fc @ bs\<rparr>)) (\<lambda>_. ret [n ..< n + length bs]))"

text \<open>Monotonicity, for the loops that may not end.\<close>

lemma seq_mono [partial_function_mono]:
  assumes "mono_option (\<lambda>f. m f w)" and "\<And>x w. mono_option (\<lambda>f. g f x w)"
  shows "mono_option (\<lambda>f. seq (m f) (g f) w)"
proof -
  have "mono_option (\<lambda>f. Option.bind (m f w) (\<lambda>(x, w). g f x w))"
    using assms by (intro bind_mono) (auto simp: split_beta intro: assms)
  moreover have "seq (m f) (g f) w = Option.bind (m f w) (\<lambda>(x, w). g f x w)" for f
    by (simp add: seq_def split: option.split prod.split)
  ultimately show ?thesis by (simp only:)
qed

lemma andOk_mono [partial_function_mono]:
  assumes "mono_option (\<lambda>f. m f w)" and "\<And>x w. mono_option (\<lambda>f. g f x w)"
  shows "mono_option (\<lambda>f. andOk (m f) (g f) w)"
  unfolding andOk_def
proof (rule seq_mono, rule assms(1))
  fix r w
  show "mono_option (\<lambda>f. (case r of Inl er \<Rightarrow> ret (Inl er) | Inr x \<Rightarrow> g f x) w)"
    using assms(2) by (cases r) (simp_all add: option.const_mono)
qed

text \<open>A branch between two actions, met before the world it runs in.\<close>

lemma branch_mono [partial_function_mono]:
  assumes "mono_option (\<lambda>f. A f w)" and "mono_option (\<lambda>f. B f w)"
  shows "mono_option (\<lambda>f. (if c then A f else B f) w)"
  using assms by (cases c) simp_all

lemma sum_mono [partial_function_mono]:
  assumes "\<And>a. mono_option (\<lambda>f. A f a w)" and "\<And>b. mono_option (\<lambda>f. B f b w)"
  shows "mono_option (\<lambda>f. (case r of Inl a \<Rightarrow> A f a | Inr b \<Rightarrow> B f b) w)"
  using assms by (cases r) simp_all

lemma option_mono [partial_function_mono]:
  assumes "mono_option (\<lambda>f. A f w)" and "\<And>b. mono_option (\<lambda>f. B f b w)"
  shows "mono_option (\<lambda>f. (case r of None \<Rightarrow> A f | Some b \<Rightarrow> B f b) w)"
  using assms by (cases r) simp_all

lemma let_mono [partial_function_mono]:
  assumes "\<And>x. mono_option (\<lambda>f. A f x w)"
  shows "mono_option (\<lambda>f. (let x = t in A f x) w)"
  using assms by simp

end
