(* ===== verification/Scheduler.thy ===== *)
theory Scheduler
  imports Acts
begin

text \<open>
  The scheduler (src/orchestrator/scheduler.go and scatter.go): the requests to provers with
  their retries, the waits for jobs and workers, the proofs of batches, their import onto the
  fold worker, the folds and the passes that put them together.

  The goroutines of a pass that prove batches run, in this model, when the pass waits for
  them (or at its end); what runs beside them meanwhile is part of the interference every
  access meets. The text of an error is kept only where the source looks at it.
\<close>

section \<open>The fold chain\<close>

definition maxPollErrs :: nat where "maxPollErrs = 5"
definition maxFoldFailures :: int where "maxFoldFailures = 3"

text \<open>\<open>next\<close>: the number of the first batch that is not imported on the pin.\<close>

definition fc_next :: "foldChain \<Rightarrow> u64" where
  "fc_next fc = fc_batchesFolded fc + of_nat (length (fc_pending fc))"

definition wantBatchVK :: "('b, 'v, 'st) env \<Rightarrow> foldChain \<Rightarrow> string" where
  "wantBatchVK en fc = (case CircuitRelease en of Some rel \<Rightarrow> rel_BatchVK rel | None \<Rightarrow> fc_batchVK fc)"

definition wantAggVK :: "('b, 'v, 'st) env \<Rightarrow> foldChain \<Rightarrow> string" where
  "wantAggVK en fc = (case CircuitRelease en of Some rel \<Rightarrow> rel_AggVK rel | None \<Rightarrow> fc_aggVK fc)"

definition pendingSeqs :: "foldChain \<Rightarrow> u64 list" where
  "pendingSeqs fc = map (\<lambda>p. bi_Seq (obj fc p)) (fc_pending fc)"

text \<open>\<open>strings.EqualFold\<close> on ASCII strings; program keys are hexadecimal.\<close>

definition lowerChar :: "char \<Rightarrow> char" where
  "lowerChar c = (if CHR ''A'' \<le> c \<and> c \<le> CHR ''Z'' then char_of (of_char c + (32 :: nat)) else c)"

definition EqualFold :: "string \<Rightarrow> string \<Rightarrow> bool" where
  "EqualFold a b \<longleftrightarrow> map lowerChar a = map lowerChar b"

definition sameVK :: "string \<Rightarrow> string \<Rightarrow> bool" where
  "sameVK a b \<longleftrightarrow> EqualFold (TrimPrefix a ''0x'') (TrimPrefix b ''0x'')"

definition checkpoint :: "ElectionID \<Rightarrow> foldChain \<Rightarrow> FoldCheckpoint" where
  "checkpoint eid fc =
     \<lparr>fcp_ElectionID = eid, fcp_FoldCount = fc_foldCount fc, fcp_LastFoldJob = fc_lastFold fc,
      fcp_FoldWorker = fc_lastFoldOn fc, fcp_StateRoot = fc_stateRoot fc, fcp_BatchesFolded = fc_batchesFolded fc,
      fcp_AggVK = fc_aggVK fc, fcp_BatchVK = fc_batchVK fc, fcp_UpdatedAt = 0, fcp_Version = FoldCheckpointVersion\<rparr>"

definition legacyBatchesFolded :: "'b storage \<Rightarrow> ElectionID \<Rightarrow> u64 \<Rightarrow> int \<Rightarrow> u64" where
  "legacyBatchesFolded s eid foldCount foldEvery =
     min (foldCount * of_int foldEvery) (of_nat (length (filter (\<lambda>b. bi_ImportedID b \<noteq> []) (ListBatchInputs s eid))))"

text \<open>The chain as \<open>chain\<close> loads it from storage.\<close>

definition load_chain :: "scheduler \<Rightarrow> 'b storage \<Rightarrow> ElectionID \<Rightarrow> gerror + foldChain" where
  "load_chain sc s eid =
     (case store_Election s eid of
        Inl er \<Rightarrow> Inl (Detail ''load election'' # er)
      | Inr el \<Rightarrow>
          let fc = \<lparr>fc_pin = el_FoldWorker el, fc_synced = False, fc_resync = False, fc_aggVK = [], fc_batchVK = [],
                fc_lastFold = [], fc_lastFoldOn = [], fc_foldCount = 0, fc_batchesFolded = 0, fc_stateRoot = [],
                fc_pending = [], fc_foldEvery = (if el_FoldEvery el > 0 then el_FoldEvery el else sc_foldEvery sc),
                fc_foldFailures = 0, fc_reproved = False, fc_headSuspect = False, fc_avoid = (\<lambda>_. []), fc_objs = []\<rparr> in
          (case store_FoldCheckpoint s eid of
             Inr cp \<Rightarrow>
               Inr (fc\<lparr>fc_aggVK := fcp_AggVK cp, fc_batchVK := fcp_BatchVK cp, fc_lastFold := fcp_LastFoldJob cp,
                 fc_lastFoldOn := fcp_FoldWorker cp, fc_foldCount := fcp_FoldCount cp,
                 fc_batchesFolded :=
                   (if fcp_Version cp = 0 then legacyBatchesFolded s eid (fcp_FoldCount cp) (fc_foldEvery fc)
                    else fcp_BatchesFolded cp),
                 fc_stateRoot := fcp_StateRoot cp\<rparr>)
           | Inl er \<Rightarrow>
               if errors_Is er ErrNotFound then Inr fc else Inl (Detail ''load fold checkpoint'' # er)))"

text \<open>
  \<open>chain\<close> under \<open>sc.mu\<close>. The chain becomes the one this run works on; \<open>save_chain\<close>
  is the end of the run, when the object the map points to has the values of the run (unless
  \<open>forgetLocked\<close> dropped it from the map).
\<close>

definition sched_chain :: "('b, 'v, 'st) env \<Rightarrow> ElectionID \<Rightarrow> ('b, 'v, 'st, gerror + unit) act" where
  "sched_chain en eid = atomic en (\<lambda>_ w.
     let sc = the (sched (w_eng w)) in
     case chains sc (ElectionID_String eid) of
       Some fc \<Rightarrow> (Inr (), w\<lparr>w_fc := fc\<rparr>)
     | None \<Rightarrow>
         (case load_chain sc (store (w_eng w)) eid of
            Inl er \<Rightarrow> (Inl er, w)
          | Inr fc \<Rightarrow>
              (Inr (), (set_eng ((w_eng w)\<lparr>sched := Some (sc\<lparr>chains := (chains sc)(ElectionID_String eid \<mapsto> fc)\<rparr>)\<rparr>) w)\<lparr>w_fc := fc\<rparr>)))"

definition save_chain :: "('b, 'v, 'st) env \<Rightarrow> ElectionID \<Rightarrow> ('b, 'v, 'st, unit) act" where
  "save_chain en eid = atomic en (\<lambda>_ w.
     let sc = the (sched (w_eng w)) in
     if chains sc (ElectionID_String eid) = None then ((), w)
     else ((), set_eng ((w_eng w)\<lparr>sched := Some (sc\<lparr>chains := (chains sc)(ElectionID_String eid \<mapsto> w_fc w)\<rparr>)\<rparr>) w))"

definition driveLock :: "('b, 'v, 'st) env \<Rightarrow> ElectionID \<Rightarrow> ('b, 'v, 'st, unit) act" where
  "driveLock en eid = atomic en (\<lambda>_ w.
     let sc = the (sched (w_eng w)) in
     ((), set_eng ((w_eng w)\<lparr>sched := Some (sc\<lparr>driveMu := insert (ElectionID_String eid) (driveMu sc)\<rparr>)\<rparr>) w))"

section \<open>Requests, jobs and workers\<close>

definition stopped :: "('b, 'v, 'st) env \<Rightarrow> ElectionID \<Rightarrow> ('b, 'v, 'st, bool) act" where
  "stopped en eid = read_store en (\<lambda>s.
     case store_Election s eid of
       Inl _ \<Rightarrow> True
     | Inr el \<Rightarrow> el_Status el = StatusCanceled \<or> el_Status el = StatusResults)"

text \<open>\<open>w.Address\<close>, and the pool's books on the worker.\<close>

definition address :: "('b, 'v, 'st) env \<Rightarrow> handle \<Rightarrow> ('b, 'v, 'st, string) act" where
  "address en h = read_pool en (\<lambda>_ _ wm. w_Address (worker wm h))"

definition workerResult :: "('b, 'v, 'st) env \<Rightarrow> string \<Rightarrow> bool \<Rightarrow> ('b, 'v, 'st, unit) act" where
  "workerResult en a ok = on_pool en (\<lambda>_ _ wm. ((), WorkerResult wm a ok))"

definition release :: "('b, 'v, 'st) env \<Rightarrow> handle \<Rightarrow> ('b, 'v, 'st, unit) act" where
  "release en h = on_pool en (\<lambda>_ _ wm. ((), Release wm h))"

definition pause :: "('b, 'v, 'st) env \<Rightarrow> ('b, 'v, 'st, gerror + unit) act" where
  "pause en = ask en (\<lambda>n. if ctx_done en n then Inl [ContextCanceled] else Inr ())"

text \<open>\<open>call\<close>: a request with up to three attempts; the first waits for no pause.\<close>

primrec call_loop ::
  "('b, 'v, 'st) env \<Rightarrow> handle \<Rightarrow> (string \<Rightarrow> ('b, 'v, 'st, gerror + 'a) act) \<Rightarrow> nat \<Rightarrow> bool \<Rightarrow> gerror
    \<Rightarrow> ('b, 'v, 'st, gerror + 'a) act" where
  "call_loop en h req 0 first lastErr = ret (Inl (ErrFoldWorker # lastErr))"
| "call_loop en h req (Suc n) first lastErr =
     andOk (if first then ret (Inr ()) else pause en) (\<lambda>_.
     seq (read_pool en (\<lambda>_ _ wm. Has wm h)) (\<lambda>has.
     if \<not> has then ret (Inl [ErrFoldWorker, ErrWorkerRemoved])
     else
       seq (address en h) (\<lambda>a.
       seq (req a) (\<lambda>r.
       case r of
         Inr x \<Rightarrow> ret (Inr x)
       | Inl er \<Rightarrow> seq (workerResult en a False) (\<lambda>_. call_loop en h req n False er)))))"

definition call ::
  "('b, 'v, 'st) env \<Rightarrow> handle \<Rightarrow> (string \<Rightarrow> ('b, 'v, 'st, gerror + 'a) act) \<Rightarrow> ('b, 'v, 'st, gerror + 'a) act" where
  "call en h req = call_loop en h req maxJobAttempts True []"

text \<open>
  What one poll of \<open>waitJob\<close> says: \<open>Inl\<close> the end of the wait, \<open>Inr\<close> the failed polls in
  a row to go on with.
\<close>

definition pollJob :: "nat \<Rightarrow> gerror + Job \<Rightarrow> (gerror + unit) + nat" where
  "pollJob pollErrs r =
     (case r of
        Inl er \<Rightarrow> if pollErrs + 1 \<ge> maxPollErrs then Inl (Inl (Detail ''poll job'' # er)) else Inr (pollErrs + 1)
      | Inr job \<Rightarrow>
          if job_Status job = JobStatusDone then Inl (Inr ())
          else if job_Status job = JobStatusFailed
          then Inl (Inl [ErrJobFailed, Detail (case job_Error job of None \<Rightarrow> [] | Some msg \<Rightarrow> msg)])
          else Inr 0)"

partial_function (option) waitJob_loop ::
  "('b, 'v, 'st) env \<Rightarrow> handle \<Rightarrow> string \<Rightarrow> time \<Rightarrow> nat \<Rightarrow> ('b, 'v, 'st, gerror + unit) act" where
  "waitJob_loop en h jobID deadline pollErrs w =
     seq (read_pool en (\<lambda>_ _ wm. Has wm h)) (\<lambda>has.
     if \<not> has then ret (Inl [ErrWorkerRemoved])
     else
       seq (address en h) (\<lambda>a.
       seq (ask en (\<lambda>n. GetJob en n a jobID)) (\<lambda>r.
       case pollJob pollErrs r of
         Inl res \<Rightarrow> ret res
       | Inr errs \<Rightarrow>
           seq (ask en (clock en)) (\<lambda>now.
           if now > deadline then ret (Inl [Detail ''job did not complete''])
           else
             seq (ask en (ctx_done en)) (\<lambda>c.
             if c then ret (Inl [ContextCanceled])
             else waitJob_loop en h jobID deadline errs))))) w"

definition waitJob :: "('b, 'v, 'st) env \<Rightarrow> handle \<Rightarrow> string \<Rightarrow> ('b, 'v, 'st, gerror + unit) act" where
  "waitJob en h jobID =
     seq (sched_of en sc_timeout) (\<lambda>timeout.
     seq (ask en (clock en)) (\<lambda>now.
     waitJob_loop en h jobID (now + timeout) 0))"

text \<open>\<open>runJob\<close>: one attempt gives the job or its error with the text for the last one.\<close>

definition runOnce ::
  "('b, 'v, 'st) env \<Rightarrow> handle \<Rightarrow> (string \<Rightarrow> ('b, 'v, 'st, gerror + string) act) \<Rightarrow> ('b, 'v, 'st, gerror + string) act" where
  "runOnce en h submit =
     seq (address en h) (\<lambda>a.
     andOk (submit a) (\<lambda>jobID.
     andOk (waitJob en h jobID) (\<lambda>_. ret (Inr jobID))))"

primrec runJob_loop ::
  "('b, 'v, 'st) env \<Rightarrow> handle \<Rightarrow> (string \<Rightarrow> ('b, 'v, 'st, gerror + string) act) \<Rightarrow> nat \<Rightarrow> bool \<Rightarrow> gerror
    \<Rightarrow> ('b, 'v, 'st, gerror + string) act" where
  "runJob_loop en h submit 0 first lastErr = ret (Inl (ErrFoldWorker # lastErr))"
| "runJob_loop en h submit (Suc n) first lastErr =
     andOk (if first then ret (Inr ()) else pause en) (\<lambda>_.
     seq (runOnce en h submit) (\<lambda>r.
     seq (address en h) (\<lambda>a.
     case r of
       Inr jobID \<Rightarrow> seq (workerResult en a True) (\<lambda>_. ret (Inr jobID))
     | Inl er \<Rightarrow>
         seq (ask en (ctx_done en)) (\<lambda>c.
         if c then ret (Inl er)
         else
           seq (workerResult en a False) (\<lambda>_.
           if errors_Is er ErrWorkerRemoved then ret (Inl (ErrFoldWorker # er))
           else runJob_loop en h submit n False er)))))"

definition runJob ::
  "('b, 'v, 'st) env \<Rightarrow> handle \<Rightarrow> (string \<Rightarrow> ('b, 'v, 'st, gerror + string) act) \<Rightarrow> ('b, 'v, 'st, gerror + string) act" where
  "runJob en h submit = runJob_loop en h submit maxJobAttempts True []"

definition runFold :: "('b, 'v, 'st) env \<Rightarrow> handle \<Rightarrow> 'v FoldRequest \<Rightarrow> ('b, 'v, 'st, gerror + string) act" where
  "runFold en h req = runJob en h (\<lambda>a. ask en (\<lambda>n. SubmitFold en n a req))"

text \<open>\<open>claim\<close> with the loop of \<open>WorkerManager.Claim\<close>: one turn of it per access to the pool.\<close>

partial_function (option) claim_loop :: "('b, 'v, 'st) env \<Rightarrow> handle \<Rightarrow> ('b, 'v, 'st, gerror + unit) act" where
  "claim_loop en h w =
     seq (ask en (ctx_done en)) (\<lambda>c.
     seq (on_pool en (\<lambda>_ _ wm. Claim_loop [(\<lambda>wm. wm, c)] wm h)) (\<lambda>r.
     case r of
       Some res \<Rightarrow> ret res
     | None \<Rightarrow> claim_loop en h)) w"

definition claim :: "('b, 'v, 'st) env \<Rightarrow> handle \<Rightarrow> ('b, 'v, 'st, gerror + unit) act" where
  "claim en h =
     seq (on_pool en (\<lambda>_ _ wm. ((), addClaimers 1 h wm))) (\<lambda>_.
     seq (claim_loop en h) (\<lambda>r.
     seq (on_pool en (\<lambda>_ _ wm. ((), addClaimers (- 1) h wm))) (\<lambda>_.
     ret (case r of
            Inl er \<Rightarrow> if errors_Is er ErrWorkerRemoved then Inl (ErrFoldWorker # er) else Inl er
          | Inr _ \<Rightarrow> Inr ()))))"

text \<open>\<open>acquire\<close>: wait for an idle worker. \<open>Acquire\<close> runs as one step, and never loops then.\<close>

definition acquireOnce :: "('b, 'v, 'st) env \<Rightarrow> string list \<Rightarrow> ('b, 'v, 'st, handle option) act" where
  "acquireOnce en exclude = on_pool en (\<lambda>now order wm.
     case Acquire now order exclude wm of Some r \<Rightarrow> r | None \<Rightarrow> (None, wm))"

partial_function (option) acquire ::
  "('b, 'v, 'st) env \<Rightarrow> ElectionID \<Rightarrow> string list \<Rightarrow> ('b, 'v, 'st, gerror + handle) act" where
  "acquire en eid avoid w =
     seq (ask en (ctx_done en)) (\<lambda>c.
     if c then ret (Inl [ContextCanceled])
     else
       seq (stopped en eid) (\<lambda>st.
       if st then ret (Inl [ErrStopped])
       else
         seq (on_pool en (\<lambda>_ _ wm. Freed wm)) (\<lambda>_.
         seq (read_pool en (\<lambda>now order wm. LeastLoaded now wm order avoid)) (\<lambda>other.
         let exclude = (if other = None then [] else avoid) in
         seq (read_pool en (\<lambda>now order wm. LeastLoaded now wm order exclude)) (\<lambda>some.
         if some = None then ret (Inl [ErrNoWorker])
         else
           seq (acquireOnce en exclude) (\<lambda>r.
           case r of
             Some h \<Rightarrow> ret (Inr h)
           | None \<Rightarrow> acquire en eid avoid)))))) w"

section \<open>Proving a batch\<close>

definition checkBatchVK :: "('b, 'v, 'st) env \<Rightarrow> handle \<Rightarrow> string \<Rightarrow> string \<Rightarrow> ('b, 'v, 'st, gerror + unit) act" where
  "checkBatchVK en h jobID want =
     seq (address en h) (\<lambda>a.
     andOk (wrapA (Detail ''stark info'') (ask en (\<lambda>n. FetchStarkInfo en n a jobID))) (\<lambda>vk.
     ret (if want \<noteq> [] \<and> \<not> sameVK vk want then Inl [Detail ''program vk is not the batch vk''] else Inr ())))"

text \<open>\<open>SetBatchInput\<close> of an object, which dates it if it has no date.\<close>

definition saveBatch :: "('b, 'v, 'st) env \<Rightarrow> ptr \<Rightarrow> ('b, 'v, 'st, gerror + unit) act" where
  "saveBatch en p = atomic en (\<lambda>n w.
     let b = obj (w_fc w) p;
         b' = (if bi_SealedAt b = 0 then b\<lparr>bi_SealedAt := clock en n\<rparr> else b);
         r = SetBatchInput (clock en n) (store (w_eng w)) b in
     (fst r, (set_eng ((w_eng w)\<lparr>store := snd r\<rparr>) w)\<lparr>w_fc := (w_fc w)\<lparr>fc_objs := (fc_objs (w_fc w))[p := b']\<rparr>\<rparr>))"

definition proveOn ::
  "('b, 'v, 'st) env \<Rightarrow> ptr \<Rightarrow> handle \<Rightarrow> 'v ProveRequest \<Rightarrow> string \<Rightarrow> ('b, 'v, 'st, gerror + bytes) act" where
  "proveOn en p h req wantVK =
     seq (address en h) (\<lambda>a.
     andOk (wrapA (Detail ''submit'') (ask en (\<lambda>n. SubmitProve en n a req))) (\<lambda>jobID.
     seq (set_obj p (\<lambda>b. b\<lparr>bi_Worker := a, bi_JobID := jobID\<rparr>)) (\<lambda>_.
     seq (saveBatch en p) (\<lambda>_.
     andOk (wrapA (Detail ''job'') (waitJob en h jobID)) (\<lambda>_.
     andOk (wrapA (Detail ''job'') (checkBatchVK en h jobID wantVK)) (\<lambda>_.
     wrapA (Detail ''fetch proof'') (ask en (\<lambda>n. FetchStarkRaw en n a jobID))))))))"

primrec prove_loop ::
  "('b, 'v, 'st) env \<Rightarrow> ElectionID \<Rightarrow> ptr \<Rightarrow> 'v ProveRequest \<Rightarrow> string \<Rightarrow> nat \<Rightarrow> string list \<Rightarrow> gerror option
    \<Rightarrow> ('b, 'v, 'st, gerror + bytes) act" where
  "prove_loop en eid p req wantVK 0 bad lastErr = ret (Inl (case lastErr of None \<Rightarrow> [] | Some er \<Rightarrow> er))"
| "prove_loop en eid p req wantVK (Suc n) bad lastErr =
     seq (acquire en eid bad) (\<lambda>r.
     case r of
       Inl er \<Rightarrow> ret (Inl (case lastErr of None \<Rightarrow> er | Some le \<Rightarrow> le))
     | Inr h \<Rightarrow>
         seq (proveOn en p h req wantVK) (\<lambda>r.
         seq (release en h) (\<lambda>_.
         seq (address en h) (\<lambda>a.
         case r of
           Inr proof \<Rightarrow> seq (workerResult en a True) (\<lambda>_. ret (Inr proof))
         | Inl er \<Rightarrow>
             seq (ask en (ctx_done en)) (\<lambda>c.
             if c then ret (Inl (Detail ''prove'' # er))
             else
               seq (workerResult en a False) (\<lambda>_.
               prove_loop en eid p req wantVK n (bad @ [a]) (Some (Detail ''prove'' # er))))))))"

definition prove ::
  "('b, 'v, 'st) env \<Rightarrow> ElectionID \<Rightarrow> ptr \<Rightarrow> string list \<Rightarrow> string \<Rightarrow> ('b, 'v, 'st, gerror + bytes) act" where
  "prove en eid p avoid wantVK =
     seq (get_fc (\<lambda>fc. parse_request en (bi_ProveRequest (obj fc p)))) (\<lambda>r.
     case r of
       Inl er \<Rightarrow> ret (Inl (Detail ''decode prove request'' # er))
     | Inr req \<Rightarrow> prove_loop en eid p (req\<lparr>pr_Output := ''stark''\<rparr>) wantVK maxJobAttempts avoid None)"

definition reusable :: "('b, 'v, 'st) env \<Rightarrow> ptr \<Rightarrow> string list \<Rightarrow> ('b, 'v, 'st, handle option) act" where
  "reusable en p avoid =
     seq (get_fc (\<lambda>fc. (bi_JobID (obj fc p), bi_Worker (obj fc p)))) (\<lambda>(jobID, wk).
     if jobID = [] \<or> wk \<in> set avoid then ret None
     else
       seq (read_pool en (\<lambda>_ _ wm. GetWorker wm wk)) (\<lambda>r.
       case r of
         None \<Rightarrow> ret None
       | Some h \<Rightarrow> seq (on_pool en (\<lambda>_ _ wm. ((), Hold wm h))) (\<lambda>_. ret (Some h))))"

definition reusedProof ::
  "('b, 'v, 'st) env \<Rightarrow> handle \<Rightarrow> ptr \<Rightarrow> string \<Rightarrow> ('b, 'v, 'st, bytes option) act" where
  "reusedProof en h p wantVK =
     seq (get_fc (\<lambda>fc. bi_JobID (obj fc p))) (\<lambda>jobID.
     seq (address en h) (\<lambda>a.
     seq (ask en (\<lambda>n. GetJob en n a jobID)) (\<lambda>r.
     case r of
       Inl _ \<Rightarrow> ret None
     | Inr job \<Rightarrow>
         if job_Status job \<notin> {JobStatusQueued, JobStatusRunning, JobStatusDone} then ret None
         else
           seq (waitJob en h jobID) (\<lambda>r.
           if isl r then ret None
           else
             seq (checkBatchVK en h jobID wantVK) (\<lambda>r.
             if isl r then ret None
             else
               seq (ask en (\<lambda>n. FetchStarkRaw en n a jobID)) (\<lambda>r.
               ret (case r of Inl _ \<Rightarrow> None | Inr proof \<Rightarrow> Some proof)))))))"

text \<open>The end of \<open>batchProof\<close>: the proof is stored, and dropped again if the election stopped.\<close>

definition keepProof :: "('b, 'v, 'st) env \<Rightarrow> ElectionID \<Rightarrow> u64 \<Rightarrow> bytes \<Rightarrow> ('b, 'v, 'st, gerror + bytes) act" where
  "keepProof en eid sq proof =
     seq (stopped en eid) (\<lambda>st.
     if st then ret (Inr proof)
     else
       andOk (wrapA (Detail ''persist proof'') (on_store en (\<lambda>_ s. SetBatchProof s eid sq proof))) (\<lambda>_.
       seq (stopped en eid) (\<lambda>st.
       seq (if st then on_store en (\<lambda>_ s. DeleteBatchProof s eid sq) else ret (Inr ())) (\<lambda>_.
       ret (Inr proof)))))"

definition batchProof ::
  "('b, 'v, 'st) env \<Rightarrow> ElectionID \<Rightarrow> ptr \<Rightarrow> handle option \<Rightarrow> string list \<Rightarrow> string \<Rightarrow> ('b, 'v, 'st, gerror + bytes) act" where
  "batchProof en eid p held avoid wantVK =
     seq (get_fc (\<lambda>fc. bi_Seq (obj fc p))) (\<lambda>sq.
     seq (read_store en (\<lambda>s. IsBatchReserved s eid sq)) (\<lambda>reserved.
     seq (if reserved then ret (Inr ()) else wrapA (Detail ''reserve'') (on_store en (\<lambda>now s. ReserveBatch now s eid sq))) (\<lambda>r.
     case r of
       Inl er \<Rightarrow>
         seq (case held of None \<Rightarrow> ret () | Some h \<Rightarrow> release en h) (\<lambda>_. ret (Inl er))
     | Inr _ \<Rightarrow>
         seq (case held of
                None \<Rightarrow> ret None
              | Some h \<Rightarrow> seq (reusedProof en h p wantVK) (\<lambda>proof. seq (release en h) (\<lambda>_. ret proof))) (\<lambda>reused.
         seq (case reused of Some proof \<Rightarrow> ret (Inr proof) | None \<Rightarrow> prove en eid p avoid wantVK) (\<lambda>r.
         seq (case r of Inl er \<Rightarrow> ret (Inl er) | Inr proof \<Rightarrow> keepProof en eid sq proof) (\<lambda>r.
         seq (on_store en (\<lambda>_ s. ReleaseBatch s eid sq)) (\<lambda>_.
         ret r)))))))"

end
