(* ===== verification/Fold_Chain.thy ===== *)
theory Fold_Chain
  imports Scheduler
begin

text \<open>
  The work on an election's fold chain (src/orchestrator/scheduler.go, scatter.go and the
  \<open>Finalize\<close> of finalize.go): the choice of the fold worker, the import of proofs onto it,
  the folds, a dispatch pass, and the finalize.
\<close>

section \<open>Imports\<close>

definition importProof ::
  "('b, 'v, 'st) env \<Rightarrow> handle \<Rightarrow> bytes \<Rightarrow> ImportKind \<Rightarrow> ('b, 'v, 'st, gerror + string) act" where
  "importProof en h proof kind = call en h (\<lambda>a. ask en (\<lambda>n. ImportStarkAs en n a proof kind))"

definition dropBatchProof :: "('b, 'v, 'st) env \<Rightarrow> ptr \<Rightarrow> ('b, 'v, 'st, unit) act" where
  "dropBatchProof en p =
     seq (get_fc (\<lambda>fc. obj fc p)) (\<lambda>b.
     seq (if bi_Worker b \<noteq> []
          then set_fc (\<lambda>fc. fc\<lparr>fc_avoid := (fc_avoid fc)(bi_Seq b := fc_avoid fc (bi_Seq b) @ [bi_Worker b])\<rparr>)
          else ret ()) (\<lambda>_.
     seq (set_obj p (\<lambda>b. b\<lparr>bi_Worker := [], bi_JobID := [], bi_ImportedID := [], bi_FoldWorker := []\<rparr>)) (\<lambda>_.
     seq (get_fc (\<lambda>fc. obj fc p)) (\<lambda>b.
     seq (on_store en (\<lambda>_ s. ResetBatch s b)) (\<lambda>_.
     ret ())))))"

definition importBatch ::
  "('b, 'v, 'st) env \<Rightarrow> handle \<Rightarrow> ptr \<Rightarrow> bytes \<Rightarrow> ('b, 'v, 'st, gerror + unit) act" where
  "importBatch en h p proof =
     andOk (importProof en h proof ImportBatch) (\<lambda>jobID.
     andOk (call en h (\<lambda>a. ask en (\<lambda>n. FetchStarkInfo en n a jobID))) (\<lambda>vk.
     seq (get_fc (wantBatchVK en)) (\<lambda>want.
     if want \<noteq> [] \<and> \<not> sameVK vk want
     then seq (dropBatchProof en p) (\<lambda>_. ret (Inl [Detail ''proof has another program vk: dropped'']))
     else
       seq (set_fc (\<lambda>fc. if fc_batchVK fc = [] then fc\<lparr>fc_batchVK := vk\<rparr> else fc)) (\<lambda>_.
       seq (address en h) (\<lambda>a.
       seq (set_obj p (\<lambda>b. b\<lparr>bi_ImportedID := jobID, bi_FoldWorker := a\<rparr>)) (\<lambda>_.
       andOk (wrapA (Detail ''persist batch'') (saveBatch en p)) (\<lambda>_.
       seq (set_fc (\<lambda>fc. fc\<lparr>fc_pending := fc_pending fc @ [p]\<rparr>)) (\<lambda>_.
       ret (Inr ())))))))))"

section \<open>The fold worker\<close>

definition auditA :: "('b, 'v, 'st) env \<Rightarrow> string \<Rightarrow> ElectionID \<Rightarrow> ('b, 'v, 'st, unit) act" where
  "auditA en action eid = atomic en (\<lambda>n w. ((), set_eng (audit (clock en n) (w_eng w) ''system'' ''system'' action eid) w))"

text \<open>The worker that takes over from the pinned one, \<open>cur\<close>, which is lost or failed.\<close>

definition otherWorker :: "('b, 'v, 'st) env \<Rightarrow> string \<Rightarrow> handle option \<Rightarrow> ('b, 'v, 'st, gerror + handle) act" where
  "otherWorker en pin cur =
     seq (read_pool en (\<lambda>now order wm. LeastLoaded now wm order [pin])) (\<lambda>r.
     case r of
       Some h \<Rightarrow> ret (Inr h)
     | None \<Rightarrow>
         (case cur of
            None \<Rightarrow> ret (Inl [ErrNoWorker])
          | Some h \<Rightarrow>
              seq (read_pool en (\<lambda>now _ wm. Banned now wm h)) (\<lambda>banned.
              ret (if banned then Inl [ErrNoWorker] else Inr h))))"

definition moveTo :: "('b, 'v, 'st) env \<Rightarrow> ElectionID \<Rightarrow> string \<Rightarrow> handle \<Rightarrow> ('b, 'v, 'st, gerror + handle) act" where
  "moveTo en eid pin h =
     seq (set_fc (\<lambda>fc. fc\<lparr>fc_synced := False\<rparr>)) (\<lambda>_.
     seq (address en h) (\<lambda>a.
     if a = pin then ret (Inr h)
     else
       andOk (wrapA (Detail ''persist fold worker'')
         (on_store en (\<lambda>now s. UpdateElection now s eid (\<lambda>el. Inr (el\<lparr>el_FoldWorker := a\<rparr>))))) (\<lambda>_.
       seq (if pin = [] then ret () else auditA en (''move_fold_chain:'' @ a) eid) (\<lambda>_.
       seq (set_fc (\<lambda>fc. fc\<lparr>fc_pin := a\<rparr>)) (\<lambda>_.
       ret (Inr h))))))"

definition foldWorker :: "('b, 'v, 'st) env \<Rightarrow> ElectionID \<Rightarrow> ('b, 'v, 'st, gerror + handle) act" where
  "foldWorker en eid =
     seq (get_fc (\<lambda>fc. (fc_pin fc, fc_resync fc))) (\<lambda>(pin, resync).
     seq (read_pool en (\<lambda>_ _ wm. GetWorker wm pin)) (\<lambda>cur.
     seq (case cur of
            None \<Rightarrow> ret True
          | Some h \<Rightarrow> if resync then ret True else read_pool en (\<lambda>now _ wm. Lost now wm h)) (\<lambda>lost.
     if \<not> lost then ret (Inr (the cur))
     else andOk (otherWorker en pin cur) (moveTo en eid pin))))"

text \<open>\<open>sync\<close>: the last fold, then the proved batches above it in order.\<close>

definition syncFold :: "('b, 'v, 'st) env \<Rightarrow> ElectionID \<Rightarrow> handle \<Rightarrow> ('b, 'v, 'st, gerror + unit) act" where
  "syncFold en eid h =
     seq (read_store en (\<lambda>s. store_FoldProof s eid)) (\<lambda>r.
     case r of
       Inl er \<Rightarrow>
         if errors_Is er ErrNotFound
         then seq (set_fc (\<lambda>fc. fc\<lparr>fc_lastFold := [], fc_lastFoldOn := [], fc_stateRoot := [], fc_foldCount := 0,
                fc_batchesFolded := 0\<rparr>)) (\<lambda>_. ret (Inr ()))
         else ret (Inl (Detail ''load fold proof'' # er))
     | Inr proof \<Rightarrow>
         andOk (wrapA (Detail ''import last fold'') (importProof en h proof ImportFold)) (\<lambda>jobID.
         seq (address en h) (\<lambda>a.
         seq (set_fc (\<lambda>fc. fc\<lparr>fc_lastFold := jobID, fc_lastFoldOn := a\<rparr>)) (\<lambda>_.
         seq (get_fc (checkpoint eid)) (\<lambda>cp.
         wrapA (Detail ''persist checkpoint'') (on_store en (\<lambda>now s. SetFoldCheckpoint now s cp)))))))"

primrec sync_loop ::
  "('b, 'v, 'st) env \<Rightarrow> ElectionID \<Rightarrow> handle \<Rightarrow> string \<Rightarrow> bool \<Rightarrow> ptr list \<Rightarrow> ('b, 'v, 'st, gerror + unit) act" where
  "sync_loop en eid h a force [] = ret (Inr ())"
| "sync_loop en eid h a force (p # ps) =
     seq (get_fc (\<lambda>fc. (obj fc p, fc_next fc))) (\<lambda>(b, nxt).
     if bi_Seq b < nxt then sync_loop en eid h a force ps
     else if bi_Seq b \<noteq> nxt then ret (Inl [Detail ''batch missing''])
     else if \<not> force \<and> bi_ImportedID b \<noteq> [] \<and> bi_FoldWorker b = a
     then seq (set_fc (\<lambda>fc. fc\<lparr>fc_pending := fc_pending fc @ [p]\<rparr>)) (\<lambda>_. sync_loop en eid h a force ps)
     else
       seq (read_store en (\<lambda>s. store_BatchProof s eid (bi_Seq b))) (\<lambda>r.
       case r of
         Inl er \<Rightarrow> if errors_Is er ErrNotFound then ret (Inr ()) else ret (Inl (Detail ''load proof of batch'' # er))
       | Inr proof \<Rightarrow>
           andOk (wrapA (Detail ''batch'') (importBatch en h p proof)) (\<lambda>_. sync_loop en eid h a force ps)))"

definition sync :: "('b, 'v, 'st) env \<Rightarrow> ElectionID \<Rightarrow> handle \<Rightarrow> ('b, 'v, 'st, gerror + unit) act" where
  "sync en eid h =
     seq (address en h) (\<lambda>a.
     seq (get_fc (\<lambda>fc. (fc_resync fc, fc_lastFold fc \<noteq> [] \<and> (fc_resync fc \<or> fc_lastFoldOn fc \<noteq> a)))) (\<lambda>(force, move).
     andOk (if move then syncFold en eid h else ret (Inr ())) (\<lambda>_.
     seq (read_store en (\<lambda>s. ListBatchInputs s eid)) (\<lambda>batches.
     seq (alloc batches) (\<lambda>ps.
     seq (set_fc (\<lambda>fc. fc\<lparr>fc_pending := []\<rparr>)) (\<lambda>_.
     andOk (sync_loop en eid h a force ps) (\<lambda>_.
     seq (set_fc (\<lambda>fc. fc\<lparr>fc_synced := True, fc_resync := False\<rparr>)) (\<lambda>_.
     ret (Inr ())))))))))"

text \<open>
  \<open>withFoldWorker\<close>: the operation on the synced fold worker, and once more when the worker
  failed. The number is how many runs are left after this one.
\<close>

definition onFoldWorker ::
  "('b, 'v, 'st) env \<Rightarrow> ElectionID \<Rightarrow> (handle \<Rightarrow> ('b, 'v, 'st, gerror + 'a) act) \<Rightarrow> handle \<Rightarrow> ('b, 'v, 'st, gerror + 'a) act" where
  "onFoldWorker en eid op h =
     seq (get_fc fc_synced) (\<lambda>synced.
     andOk (if synced then ret (Inr ()) else sync en eid h) (\<lambda>_. op h))"

primrec withFoldWorker_loop ::
  "('b, 'v, 'st) env \<Rightarrow> ElectionID \<Rightarrow> (handle \<Rightarrow> ('b, 'v, 'st, gerror + 'a) act) \<Rightarrow> nat \<Rightarrow> ('b, 'v, 'st, gerror + 'a) act" where
  "withFoldWorker_loop en eid op 0 =
     andOk (foldWorker en eid) (\<lambda>h.
     seq (onFoldWorker en eid op h) (\<lambda>r.
     case r of
       Inr x \<Rightarrow> ret (Inr x)
     | Inl er \<Rightarrow>
         if \<not> errors_Is er ErrFoldWorker then ret (Inl er)
         else seq (set_fc (\<lambda>fc. fc\<lparr>fc_resync := True\<rparr>)) (\<lambda>_. ret (Inl er))))"
| "withFoldWorker_loop en eid op (Suc n) =
     andOk (foldWorker en eid) (\<lambda>h.
     seq (onFoldWorker en eid op h) (\<lambda>r.
     case r of
       Inr x \<Rightarrow> ret (Inr x)
     | Inl er \<Rightarrow>
         if \<not> errors_Is er ErrFoldWorker then ret (Inl er)
         else
           seq (set_fc (\<lambda>fc. fc\<lparr>fc_resync := True\<rparr>)) (\<lambda>_.
           seq (ask en (ctx_done en)) (\<lambda>c.
           if c then ret (Inl er) else withFoldWorker_loop en eid op n))))"

definition withFoldWorker ::
  "('b, 'v, 'st) env \<Rightarrow> ElectionID \<Rightarrow> (handle \<Rightarrow> ('b, 'v, 'st, gerror + 'a) act) \<Rightarrow> ('b, 'v, 'st, gerror + 'a) act" where
  "withFoldWorker en eid op = withFoldWorker_loop en eid op 1"

section \<open>Folds\<close>

definition foldVK :: "('b, 'v, 'st) env \<Rightarrow> handle \<Rightarrow> string \<Rightarrow> ('b, 'v, 'st, gerror + string) act" where
  "foldVK en h jobID =
     andOk (call en h (\<lambda>a. ask en (\<lambda>n. FetchStarkInfo en n a jobID))) (\<lambda>vk.
     seq (get_fc (wantAggVK en)) (\<lambda>want.
     if want \<noteq> [] \<and> \<not> sameVK vk want
     then
       seq (address en h) (\<lambda>a.
       seq (workerResult en a False) (\<lambda>_.
       ret (Inl [ErrFoldWorker, Detail ''fold job has another program vk''])))
     else ret (Inr vk)))"

primrec dropBatchProofs :: "('b, 'v, 'st) env \<Rightarrow> ptr list \<Rightarrow> ('b, 'v, 'st, unit) act" where
  "dropBatchProofs en [] = ret ()"
| "dropBatchProofs en (p # ps) = seq (dropBatchProof en p) (\<lambda>_. dropBatchProofs en ps)"

definition foldFailed :: "('b, 'v, 'st) env \<Rightarrow> gerror \<Rightarrow> ('b, 'v, 'st, unit) act" where
  "foldFailed en er =
     seq (set_fc (\<lambda>fc. if errors_Is er ErrJobFailed then fc\<lparr>fc_foldFailures := fc_foldFailures fc + 1\<rparr> else fc)) (\<lambda>_.
     seq (get_fc (\<lambda>fc. (fc_foldFailures fc, fc_reproved fc, fc_pending fc))) (\<lambda>(failures, reproved, pending).
     if failures < maxFoldFailures then ret ()
     else
       seq (set_fc (\<lambda>fc. fc\<lparr>fc_foldFailures := 0\<rparr>)) (\<lambda>_.
       if \<not> reproved
       then
         seq (set_fc (\<lambda>fc. fc\<lparr>fc_reproved := True\<rparr>)) (\<lambda>_.
         seq (dropBatchProofs en pending) (\<lambda>_.
         set_fc (\<lambda>fc. fc\<lparr>fc_pending := []\<rparr>)))
       else set_fc (\<lambda>fc. fc\<lparr>fc_headSuspect := True\<rparr>))))"

text \<open>A fold job that counts against the chain when it fails.\<close>

definition tryFold :: "('b, 'v, 'st) env \<Rightarrow> handle \<Rightarrow> 'v FoldRequest \<Rightarrow> ('b, 'v, 'st, gerror + string) act" where
  "tryFold en h req =
     seq (runFold en h req) (\<lambda>r.
     case r of
       Inr foldID \<Rightarrow> ret (Inr foldID)
     | Inl er \<Rightarrow> seq (foldFailed en er) (\<lambda>_. ret (Inl er)))"

definition bootstrap ::
  "('b, 'v, 'st) env \<Rightarrow> handle \<Rightarrow> 'v \<Rightarrow> string list \<Rightarrow> ('b, 'v, 'st, gerror + unit) act" where
  "bootstrap en h cfg batchJobs =
     seq (get_fc fc_aggVK) (\<lambda>aggVK.
     if aggVK \<noteq> [] then ret (Inr ())
     else
       wrapA (Detail ''bootstrap fold'')
         (andOk (tryFold en h \<lparr>fr_Config = cfg, fr_BatchJobs = take 1 batchJobs, fr_FoldVK = [], fr_PrevFoldJob = []\<rparr>) (\<lambda>bootID.
          andOk (foldVK en h bootID) (\<lambda>vk.
          seq (set_fc (\<lambda>fc. fc\<lparr>fc_aggVK := vk\<rparr>)) (\<lambda>_. ret (Inr ()))))))"

primrec setFolded :: "('b, 'v, 'st) env \<Rightarrow> ElectionID \<Rightarrow> VoteID list \<Rightarrow> ('b, 'v, 'st, unit) act" where
  "setFolded en eid [] = ret ()"
| "setFolded en eid (v # vs) =
     seq (on_store en (\<lambda>_ s. SetVoteStatus s eid v VoteStatusFolded)) (\<lambda>_. setFolded en eid vs)"

text \<open>The end of \<open>fold\<close>: the fold's proof with the new head, in one transaction, then the votes.\<close>

definition commitFold ::
  "('b, 'v, 'st) env \<Rightarrow> ElectionID \<Rightarrow> handle \<Rightarrow> string \<Rightarrow> bytes \<Rightarrow> ('b, 'v, 'st, gerror + unit) act" where
  "commitFold en eid h foldID proof =
     seq (address en h) (\<lambda>a.
     seq (get_fc (\<lambda>fc. ((checkpoint eid fc)
           \<lparr>fcp_FoldCount := fc_foldCount fc + 1, fcp_LastFoldJob := foldID, fcp_FoldWorker := a,
            fcp_BatchesFolded := fc_next fc,
            fcp_StateRoot := bi_NewStateRoot (obj fc (last (fc_pending fc)))\<rparr>,
          pendingSeqs fc, concat (map (\<lambda>p. bi_VoteIDs (obj fc p)) (fc_pending fc))))) (\<lambda>(cp, folded, votes).
     andOk (wrapA (Detail ''persist fold'') (on_store en (\<lambda>now s. CommitFold now s cp proof folded))) (\<lambda>_.
     seq (set_fc (\<lambda>fc. fc\<lparr>fc_lastFold := foldID, fc_lastFoldOn := a, fc_foldCount := fcp_FoldCount cp,
           fc_batchesFolded := fcp_BatchesFolded cp, fc_stateRoot := fcp_StateRoot cp, fc_pending := [],
           fc_foldFailures := 0, fc_reproved := False, fc_headSuspect := False, fc_avoid := (\<lambda>_. [])\<rparr>)) (\<lambda>_.
     seq (setFolded en eid votes) (\<lambda>_.
     ret (Inr ()))))))"

text \<open>\<open>fold\<close> once the worker is claimed.\<close>

definition foldClaimed :: "('b, 'v, 'st) env \<Rightarrow> ElectionID \<Rightarrow> handle \<Rightarrow> 'v \<Rightarrow> ('b, 'v, 'st, gerror + unit) act" where
  "foldClaimed en eid h cfg =
     seq (get_fc (\<lambda>fc. map (\<lambda>p. bi_ImportedID (obj fc p)) (fc_pending fc))) (\<lambda>batchJobs.
     andOk (bootstrap en h cfg batchJobs) (\<lambda>_.
     seq (get_fc (\<lambda>fc. \<lparr>fr_Config = cfg, fr_BatchJobs = batchJobs,
           fr_FoldVK = (if fc_lastFold fc = [] then fc_aggVK fc else []), fr_PrevFoldJob = fc_lastFold fc\<rparr>)) (\<lambda>req.
     andOk (tryFold en h req) (\<lambda>foldID.
     andOk (foldVK en h foldID) (\<lambda>_.
     andOk (call en h (\<lambda>a. ask en (\<lambda>n. FetchStarkRaw en n a foldID))) (\<lambda>proof.
     commitFold en eid h foldID proof))))))"

definition foldPending :: "('b, 'v, 'st) env \<Rightarrow> ElectionID \<Rightarrow> handle \<Rightarrow> ('b, 'v, 'st, gerror + unit) act" where
  "foldPending en eid h =
     seq (get_fc fc_pending) (\<lambda>pending.
     if pending = [] then ret (Inr ())
     else
       seq (stopped en eid) (\<lambda>st.
       if st then ret (Inr ())
       else
         seq (atomic en (\<lambda>_ w. (runtime (w_eng w) eid, w))) (\<lambda>rt.
         case rt of
           None \<Rightarrow> ret (Inr ())
         | Some rt \<Rightarrow>
             andOk (claim en h) (\<lambda>_.
             seq (foldClaimed en eid h (ChainConfig en (rt_state rt))) (\<lambda>r.
             seq (release en h) (\<lambda>_.
             ret r))))))"

section \<open>Scattered proofs\<close>

datatype proveTask = Proved "gerror + bytes" | Proving ptr "handle option" "string list" string

record scatter =
  sct_batches :: "ptr list"
  sct_tasks :: "u64 \<rightharpoonup> proveTask"

definition newScatter :: "ptr list \<Rightarrow> scatter" where
  "newScatter batches = \<lparr>sct_batches = batches, sct_tasks = Map.empty\<rparr>"

definition newTask :: "('b, 'v, 'st) env \<Rightarrow> ElectionID \<Rightarrow> ptr \<Rightarrow> ('b, 'v, 'st, proveTask) act" where
  "newTask en eid p =
     seq (get_fc (\<lambda>fc. bi_Seq (obj fc p))) (\<lambda>sq.
     seq (read_store en (\<lambda>s. store_BatchProof s eid sq)) (\<lambda>r.
     if isl r \<and> errors_Is (projl r) ErrNotFound
     then
       seq (get_fc (\<lambda>fc. (fc_avoid fc sq, wantBatchVK en fc))) (\<lambda>(avoid, wantVK).
       seq (reusable en p avoid) (\<lambda>held.
       ret (Proving p held avoid wantVK)))
     else ret (Proved (wrap (Detail ''load proof'') r))))"

primrec newTasks :: "('b, 'v, 'st) env \<Rightarrow> ElectionID \<Rightarrow> ptr list \<Rightarrow> scatter \<Rightarrow> ('b, 'v, 'st, scatter) act" where
  "newTasks en eid [] s = ret s"
| "newTasks en eid (p # ps) s =
     seq (get_fc (\<lambda>fc. bi_Seq (obj fc p))) (\<lambda>sq.
     if sct_tasks s sq \<noteq> None then newTasks en eid ps s
     else seq (newTask en eid p) (\<lambda>t. newTasks en eid ps (s\<lparr>sct_tasks := (sct_tasks s)(sq \<mapsto> t)\<rparr>)))"

text \<open>Where the window of \<open>start\<close> ends: past the last batch with a job a previous run left.\<close>

definition windowEnd :: "foldChain \<Rightarrow> scatter \<Rightarrow> nat \<Rightarrow> nat \<Rightarrow> nat" where
  "windowEnd fc s i available =
     (let n = length (sct_batches s); e = min (i + max available 1) n in
      List.fold (\<lambda>j e. if sct_tasks s (bi_Seq (obj fc (sct_batches s ! j))) = None \<and> bi_JobID (obj fc (sct_batches s ! j)) \<noteq> []
                       then j + 1 else e) [e ..< n] e)"

definition start :: "('b, 'v, 'st) env \<Rightarrow> ElectionID \<Rightarrow> scatter \<Rightarrow> nat \<Rightarrow> ('b, 'v, 'st, scatter) act" where
  "start en eid s i =
     seq (read_pool en (\<lambda>now order wm. Available now wm order)) (\<lambda>av.
     seq (get_fc (\<lambda>fc. windowEnd fc s i av)) (\<lambda>e.
     newTasks en eid (drop i (take e (sct_batches s))) s))"

partial_function (option) topUp :: "('b, 'v, 'st) env \<Rightarrow> ElectionID \<Rightarrow> scatter \<Rightarrow> ('b, 'v, 'st, scatter) act" where
  "topUp en eid s w =
     seq (get_fc (\<lambda>fc. bi_Seq (obj fc (last (sct_batches s))))) (\<lambda>sq.
     seq (read_store en (\<lambda>st. store_BatchInput st eid (sq + 1))) (\<lambda>r.
     case r of
       Inl _ \<Rightarrow> ret s
     | Inr b \<Rightarrow> seq (alloc [b]) (\<lambda>ps. topUp en eid (s\<lparr>sct_batches := sct_batches s @ ps\<rparr>)))) w"

text \<open>\<open>proof\<close>: \<open>ready\<close> says whether the task is done when it is looked at.\<close>

partial_function (option) proof_wait ::
  "('b, 'v, 'st) env \<Rightarrow> ElectionID \<Rightarrow> u64 \<Rightarrow> nat \<Rightarrow> scatter \<Rightarrow> ('b, 'v, 'st, (gerror + bytes) \<times> scatter) act" where
  "proof_wait en eid sq i s w =
     seq (start en eid s i) (\<lambda>s.
     case sct_tasks s sq of
       None \<Rightarrow> ret (Inl [Detail ''panic: no task''], s)
     | Some t \<Rightarrow>
         (case t of
            Proved r \<Rightarrow> ret (r, s\<lparr>sct_tasks := (sct_tasks s)(sq := None)\<rparr>)
          | Proving p held avoid wantVK \<Rightarrow>
              seq (ask en (ready en)) (\<lambda>rd.
              if rd
              then seq (batchProof en eid p held avoid wantVK) (\<lambda>r. ret (r, s\<lparr>sct_tasks := (sct_tasks s)(sq := None)\<rparr>))
              else seq (topUp en eid s) (proof_wait en eid sq i)))) w"

definition gatherProof ::
  "('b, 'v, 'st) env \<Rightarrow> ElectionID \<Rightarrow> scatter \<Rightarrow> nat \<Rightarrow> ('b, 'v, 'st, (gerror + bytes) \<times> scatter) act" where
  "gatherProof en eid s i =
     seq (get_fc (\<lambda>fc. bi_Seq (obj fc (sct_batches s ! i)))) (\<lambda>sq.
     seq (topUp en eid s) (proof_wait en eid sq i))"

text \<open>\<open>wait\<close>: the proves still running when the pass ends.\<close>

primrec waitTasks :: "('b, 'v, 'st) env \<Rightarrow> ElectionID \<Rightarrow> scatter \<Rightarrow> ptr list \<Rightarrow> ('b, 'v, 'st, unit) act" where
  "waitTasks en eid s [] = ret ()"
| "waitTasks en eid s (q # qs) =
     seq (get_fc (\<lambda>fc. sct_tasks s (bi_Seq (obj fc q)))) (\<lambda>t.
     seq (case t of
            Some (Proving p held avoid wantVK) \<Rightarrow> seq (batchProof en eid p held avoid wantVK) (\<lambda>_. ret ())
          | _ \<Rightarrow> ret ()) (\<lambda>_.
     waitTasks en eid s qs))"

end
