(* ===== verification/Passes.thy ===== *)
theory Passes
  imports Fold_Chain
begin

text \<open>
  A dispatch pass over an election's batches (\<open>advance\<close>, \<open>drive\<close>, \<open>Dispatch\<close> and
  \<open>Drain\<close> of src/orchestrator/scheduler.go) and the finalize of its chain
  (src/orchestrator/finalize.go). The flag \<open>drain\<close> of the source is \<open>all\<close> here.
\<close>

section \<open>A pass\<close>

text \<open>
  One batch of the gather loop. \<open>Inr True\<close>: go on with the next one; \<open>Inr False\<close>: the
  election stopped, which ends the pass without an error.
\<close>

definition gatherBatch ::
  "('b, 'v, 'st) env \<Rightarrow> ElectionID \<Rightarrow> handle \<Rightarrow> scatter \<Rightarrow> nat \<Rightarrow> ('b, 'v, 'st, (gerror + bool) \<times> scatter) act" where
  "gatherBatch en eid h s i =
     (let p = sct_batches s ! i in
      seq (get_fc (\<lambda>fc. int (length (fc_pending fc)) \<ge> fc_foldEvery fc)) (\<lambda>full.
      seq (if full then wrapA (Detail ''fold'') (foldPending en eid h) else ret (Inr ())) (\<lambda>r.
      case r of
        Inl er \<Rightarrow> ret (Inl er, s)
      | Inr _ \<Rightarrow>
          seq (get_fc (\<lambda>fc. (bi_Seq (obj fc p), fc_next fc))) (\<lambda>(sq, nxt).
          if sq < nxt then ret (Inr True, s)
          else if sq \<noteq> nxt then ret (Inl [Detail ''batch missing''], s)
          else
            seq (stopped en eid) (\<lambda>st.
            if st then ret (Inr False, s)
            else
              seq (gatherProof en eid s i) (\<lambda>(r, s).
              seq (stopped en eid) (\<lambda>st.
              if st then ret (Inr False, s)
              else
                (case r of
                   Inl er \<Rightarrow> ret (Inl (Detail ''batch'' # er), s)
                 | Inr proof \<Rightarrow>
                     seq (wrapA (Detail ''batch'') (importBatch en h p proof)) (\<lambda>r.
                     ret (case r of Inl er \<Rightarrow> Inl er | Inr _ \<Rightarrow> Inr True, s))))))))))"

partial_function (option) gather_loop ::
  "('b, 'v, 'st) env \<Rightarrow> ElectionID \<Rightarrow> handle \<Rightarrow> scatter \<Rightarrow> nat \<Rightarrow> ('b, 'v, 'st, (gerror + bool) \<times> scatter) act" where
  "gather_loop en eid h s i w =
     (if \<not> i < length (sct_batches s) then ret (Inr True, s)
      else
        seq (gatherBatch en eid h s i) (\<lambda>r.
        if fst r = Inr True then gather_loop en eid h (snd r) (i + 1) else ret r)) w"

definition gather :: "('b, 'v, 'st) env \<Rightarrow> ElectionID \<Rightarrow> bool \<Rightarrow> ptr list \<Rightarrow> handle \<Rightarrow> ('b, 'v, 'st, gerror + unit) act" where
  "gather en eid all batches h =
     seq (gather_loop en eid h (newScatter batches) 0) (\<lambda>(r, s).
     seq (case r of
            Inl er \<Rightarrow> ret (Inl er)
          | Inr completed \<Rightarrow>
              seq (get_fc (\<lambda>fc. all \<or> int (length (fc_pending fc)) \<ge> fc_foldEvery fc)) (\<lambda>f.
              if completed \<and> f then foldPending en eid h else ret (Inr ()))) (\<lambda>r.
     seq (waitTasks en eid s (sct_batches s)) (\<lambda>_.
     ret r)))"

definition advance :: "('b, 'v, 'st) env \<Rightarrow> ElectionID \<Rightarrow> bool \<Rightarrow> ('b, 'v, 'st, gerror + unit) act" where
  "advance en eid all =
     seq (read_store en (\<lambda>s. ListBatchInputs s eid)) (\<lambda>batches.
     if batches = [] then ret (Inr ())
     else seq (alloc batches) (\<lambda>ps. withFoldWorker en eid (gather en eid all ps)))"

definition drive :: "('b, 'v, 'st) env \<Rightarrow> ElectionID \<Rightarrow> bool \<Rightarrow> ('b, 'v, 'st, gerror + unit) act" where
  "drive en eid all =
     seq (driveLock en eid) (\<lambda>_.
     seq (stopped en eid) (\<lambda>st.
     if st then ret (Inr ())
     else
       andOk (sched_chain en eid) (\<lambda>_.
       seq (advance en eid all) (\<lambda>r.
       seq (save_chain en eid) (\<lambda>_.
       ret r)))))"

definition Dispatch :: "('b, 'v, 'st) env \<Rightarrow> ElectionID \<Rightarrow> ('b, 'v, 'st, gerror + unit) act" where
  "Dispatch en eid = drive en eid False"

definition Drain :: "('b, 'v, 'st) env \<Rightarrow> ElectionID \<Rightarrow> ('b, 'v, 'st, gerror + unit) act" where
  "Drain en eid = drive en eid True"

section \<open>Finalize\<close>

text \<open>The comparison of the digest's results; an index past the digest's array would panic.\<close>

fun checkResults :: "u64 list \<Rightarrow> u64 list \<Rightarrow> gerror + unit" where
  "checkResults [] ds = Inr ()"
| "checkResults (r # rs) [] = Inl [Detail ''panic: index out of range'']"
| "checkResults (r # rs) (d # ds) = (if d \<noteq> r then Inl [Detail ''digest result''] else checkResults rs ds)"

definition verifyFinalDigest ::
  "('b, 'v, 'st) env \<Rightarrow> Digest \<Rightarrow> PlonkSnark \<Rightarrow> 'st \<Rightarrow> u64 \<Rightarrow> string \<Rightarrow> string \<Rightarrow> u64 list \<Rightarrow> gerror + unit" where
  "verifyFinalDigest en d snark state foldCount batchVK aggVK results =
     (let proofVK = ''0x'' @ hexEncode (sn_ProgramVK snark) in
      and_then (require (d_Mode d = ModeFinalize en) [Detail ''finalize digest mode'']) (\<lambda>_.
      and_then (require (d_StateRootHex d = StateRoot en state) [Detail ''digest state root'']) (\<lambda>_.
      and_then (require (d_StepCount d = foldCount) [Detail ''digest step_count'']) (\<lambda>_.
      and_then (require (d_TotalVoters d = fst (Voters en state) \<and> d_TotalOverwrites d = snd (Voters en state))
        [Detail ''digest counts'']) (\<lambda>_.
      and_then (VerifyBinding en d proofVK batchVK) (\<lambda>_.
      and_then (checkResults results (d_Results d)) (\<lambda>_.
      and_then (wrap (Detail ''batch vk words'') (VKWords en batchVK)) (\<lambda>batchWords.
      and_then (wrap (Detail ''agg vk words'') (VKWords en aggVK)) (\<lambda>aggWords.
      and_then (wrap (Detail ''recompute config commitment'') (ConfigCommitment en state batchWords aggWords)) (\<lambda>wantCommit.
      and_then (require (d_ConfigCommitment d = wantCommit) [Detail ''config commitment mismatch'']) (\<lambda>_.
      (case CircuitRelease en of
         None \<Rightarrow> Inr ()
       | Some rel \<Rightarrow>
           and_then (require (EqualFold (TrimPrefix proofVK ''0x'') (TrimPrefix (rel_AggVK rel) ''0x''))
             [Detail ''proof program_vk is not the release agg vk'']) (\<lambda>_.
           VerifyRelease en aggVK batchVK)))))))))))))"

text \<open>\<open>finalizeOn\<close> once the worker is claimed.\<close>

definition finalizeClaimed ::
  "('b, 'v, 'st) env \<Rightarrow> ElectionID \<Rightarrow> handle \<Rightarrow> 'st \<Rightarrow> 'v FinalizeRequest \<Rightarrow> u64 list \<Rightarrow> ('b, 'v, 'st, gerror + Results) act" where
  "finalizeClaimed en eid h state req results =
     andOk (wrapA ErrFinalProofFailed (runJob en h (\<lambda>a. ask en (\<lambda>n. SubmitFinalize en n a req)))) (\<lambda>finID.
     andOk (wrapA ErrFinalProofFailed (call en h (\<lambda>a.
       andOk (ask en (\<lambda>n. FetchPublics en n a finID)) (\<lambda>publics.
       andOk (ask en (\<lambda>n. FetchSnark en n a finID)) (\<lambda>snark.
       ret (Inr (publics, snark))))))) (\<lambda>(publics, snark).
     (case ParseDigest en publics of
        Inl er \<Rightarrow> ret (Inl (ErrFinalProofFailed # Detail ''parse digest'' # er))
      | Inr digest \<Rightarrow>
          seq (get_fc (\<lambda>fc. verifyFinalDigest en digest snark state (fc_foldCount fc) (fc_batchVK fc) (fc_aggVK fc) results)) (\<lambda>v.
          case v of
            Inl er \<Rightarrow> ret (Inl (ErrVerificationFailed # er))
          | Inr _ \<Rightarrow>
              seq (ask en (clock en)) (\<lambda>now.
              ret (Inr \<lparr>res_ElectionID = eid, res_Tally = results,
                res_ProgramVK = ''0x'' @ hexEncode (sn_ProgramVK snark),
                res_RootCVadcopFinal = ''0x'' @ hexEncode (sn_RootCVadcopFinal snark),
                res_PublicValues = ''0x'' @ hexEncode (sn_PublicValues snark),
                res_ProofBytes = ''0x'' @ hexEncode (sn_ProofBytes snark), res_FinalizedAt = now\<rparr>))))))"

definition finalizeOn ::
  "('b, 'v, 'st) env \<Rightarrow> ElectionID \<Rightarrow> 'st \<Rightarrow> 'v \<Rightarrow> u64 list \<Rightarrow> handle \<Rightarrow> ('b, 'v, 'st, gerror + Results) act" where
  "finalizeOn en eid state payload results h =
     seq (get_fc (\<lambda>fc. \<lparr>fin_Config = ChainConfig en state, fin_FoldJob = fc_lastFold fc, fin_FoldVK = fc_aggVK fc,
       fin_Results = payload\<rparr>)) (\<lambda>req.
     andOk (wrapA ErrFinalProofFailed (claim en h)) (\<lambda>_.
     seq (finalizeClaimed en eid h state req results) (\<lambda>r.
     seq (release en h) (\<lambda>_.
     ret r))))"

text \<open>
  \<open>Finalize\<close> with the chain loaded: the last folds, the decryption, the final proof. The
  source keeps a pointer to the runtime, so it reads the current state of a loaded election
  and the last state (\<open>rt\<close>) of one that was unloaded meanwhile.
\<close>

definition finalizeChain ::
  "('b, 'v, 'st) env \<Rightarrow> ElectionID \<Rightarrow> ('v, 'st) electionRuntime \<Rightarrow> int \<Rightarrow> ('b, 'v, 'st, gerror + Results) act" where
  "finalizeChain en eid rt privKey =
     andOk (wrapA ErrFinalFoldFailed (advance en eid True)) (\<lambda>_.
     seq (get_fc fc_lastFold) (\<lambda>lastFold.
     if lastFold = [] then ret (Inl [ErrNothingToFinalize, Detail ''no fold in the chain''])
     else
       seq (atomic en (\<lambda>_ w. (rt_state (case runtime (w_eng w) eid of Some rt' \<Rightarrow> rt' | None \<Rightarrow> rt), w))) (\<lambda>state.
       case ResultsPayload en state privKey of
         Inl er \<Rightarrow> ret (Inl (ErrDecryptionFailed # er))
       | Inr (payload, results) \<Rightarrow>
           andOk (withFoldWorker en eid (finalizeOn en eid state payload results)) (\<lambda>res.
           andOk (wrapA (Detail ''persist results'') (on_store en (\<lambda>now s. SetResults now s res))) (\<lambda>_.
           ret (Inr res))))))"

definition Finalize :: "('b, 'v, 'st) env \<Rightarrow> ElectionID \<Rightarrow> int \<Rightarrow> ('b, 'v, 'st, gerror + Results) act" where
  "Finalize en eid privKey =
     seq (atomic en (\<lambda>_ w. (runtime (w_eng w) eid, w))) (\<lambda>rt.
     case rt of
       None \<Rightarrow> ret (Inl [Detail ''unknown election''])
     | Some rt \<Rightarrow>
         seq (driveLock en eid) (\<lambda>_.
         andOk (sched_chain en eid) (\<lambda>_.
         seq (finalizeChain en eid rt privKey) (\<lambda>r.
         seq (save_chain en eid) (\<lambda>_.
         ret r)))))"

end
