(* ===== verification/Run_Logic.thy ===== *)
theory Run_Logic
  imports Passes
begin

text \<open>
  A small logic for the scheduler's actions. \<open>runs ok rel m Q w\<close>: run from a world \<open>w\<close>
  that satisfies \<open>ok\<close>, the action \<open>m\<close>, if it returns, ends in a world that satisfies it
  too, that \<open>rel\<close> relates to \<open>w\<close> and of which, with the result, \<open>Q\<close> holds. The locale
  \<open>run_logic\<close> asks of \<open>ok\<close> and \<open>rel\<close> what every access to shared state needs; the
  actions that only talk to provers and the worker pool are done once for all invariants.
\<close>

definition runs ::
  "(('b, 'v, 'st) world \<Rightarrow> bool) \<Rightarrow> (('b, 'v, 'st) world \<Rightarrow> ('b, 'v, 'st) world \<Rightarrow> bool) \<Rightarrow> ('b, 'v, 'st, 'a) act
    \<Rightarrow> ('a \<Rightarrow> ('b, 'v, 'st) world \<Rightarrow> bool) \<Rightarrow> ('b, 'v, 'st) world \<Rightarrow> bool" where
  "runs ok rel m Q w \<longleftrightarrow> (ok w \<longrightarrow> (\<forall>r w'. m w = Some (r, w') \<longrightarrow> ok w' \<and> rel w w' \<and> Q r w'))"

lemma seq_Some: "seq m f w = Some (r, w') \<longleftrightarrow> (\<exists>x w1. m w = Some (x, w1) \<and> f x w1 = Some (r, w'))"
  by (auto simp: seq_def split: option.splits)

lemma runs_weaken: "runs ok rel m Q w \<Longrightarrow> (\<And>r w'. Q r w' \<Longrightarrow> R r w') \<Longrightarrow> runs ok rel m R w"
  by (auto simp: runs_def)

lemma runs_if: "(c \<Longrightarrow> runs ok rel A Q w) \<Longrightarrow> (\<not> c \<Longrightarrow> runs ok rel B Q w) \<Longrightarrow> runs ok rel (if c then A else B) Q w"
  by auto

lemma runs_sum:
  "(\<And>a. r = Inl a \<Longrightarrow> runs ok rel (A a) Q w) \<Longrightarrow> (\<And>b. r = Inr b \<Longrightarrow> runs ok rel (B b) Q w) \<Longrightarrow>
   runs ok rel (case r of Inl a \<Rightarrow> A a | Inr b \<Rightarrow> B b) Q w"
  by (cases r) auto

lemma runs_option:
  "(r = None \<Longrightarrow> runs ok rel A Q w) \<Longrightarrow> (\<And>b. r = Some b \<Longrightarrow> runs ok rel (B b) Q w) \<Longrightarrow>
   runs ok rel (case r of None \<Rightarrow> A | Some b \<Rightarrow> B b) Q w"
  by (cases r) auto

lemma runs_prod:
  "(\<And>a b. r = (a, b) \<Longrightarrow> runs ok rel (A a b) Q w) \<Longrightarrow> runs ok rel (case r of (a, b) \<Rightarrow> A a b) Q w"
  by (cases r) auto

lemma runs_let: "(\<And>x. x = t \<Longrightarrow> runs ok rel (A x) Q w) \<Longrightarrow> runs ok rel (let x = t in A x) Q w"
  by simp

lemma runs_ok: "(ok w \<Longrightarrow> runs ok rel m Q w) \<Longrightarrow> runs ok rel m Q w"
  by (simp add: runs_def)

lemma runs_get_fc: "runs ok rel (f (g (w_fc w))) Q w \<Longrightarrow> runs ok rel (seq (get_fc g) f) Q w"
  by (simp add: runs_def seq_Some get_fc_def)

text \<open>The same of one result, as the induction rules of the loops speak of it.\<close>

definition ends ::
  "(('b, 'v, 'st) world \<Rightarrow> bool) \<Rightarrow> (('b, 'v, 'st) world \<Rightarrow> ('b, 'v, 'st) world \<Rightarrow> bool)
    \<Rightarrow> ('a \<Rightarrow> ('b, 'v, 'st) world \<Rightarrow> bool) \<Rightarrow> ('b, 'v, 'st) world \<Rightarrow> 'a \<times> ('b, 'v, 'st) world \<Rightarrow> bool" where
  "ends ok rel Q w y \<longleftrightarrow> (ok w \<longrightarrow> ok (snd y) \<and> rel w (snd y) \<and> Q (fst y) (snd y))"

lemma runs_ends: "seq m f w = Some y \<Longrightarrow> runs ok rel (seq m f) Q w \<Longrightarrow> ends ok rel Q w y"
  by (cases y) (simp add: runs_def ends_def)

lemma ends_runs: "(\<And>y. m w = Some y \<Longrightarrow> ends ok rel Q w y) \<Longrightarrow> runs ok rel m Q w"
  by (fastforce simp: runs_def ends_def)

lemmas runs_splits = runs_if runs_sum runs_option runs_prod runs_let runs_get_fc

locale run_logic =
  fixes en :: "('b, 'v, 'st) env" and ok :: "('b, 'v, 'st) world \<Rightarrow> bool"
    and rel :: "('b, 'v, 'st) world \<Rightarrow> ('b, 'v, 'st) world \<Rightarrow> bool"
  assumes rel_refl: "ok w \<Longrightarrow> rel w w"
    and rel_trans: "rel w w1 \<Longrightarrow> rel w1 w2 \<Longrightarrow> rel w w2"
    and meets_others: "ok w \<Longrightarrow> ok (w\<lparr>w_sys := others en (w_ticks w) (w_sys w), w_ticks := w_ticks w + 1\<rparr>) \<and>
      rel w (w\<lparr>w_sys := others en (w_ticks w) (w_sys w), w_ticks := w_ticks w + 1\<rparr>)"
    and keeps_pool: "ok w \<Longrightarrow> ok (set_eng ((w_eng w)\<lparr>pool := p\<rparr>) w) \<and> rel w (set_eng ((w_eng w)\<lparr>pool := p\<rparr>) w)"
begin

lemma runs_ret: "Q x w \<Longrightarrow> runs ok rel (ret x) Q w"
  by (auto simp: runs_def ret_def rel_refl)

lemma runs_seqI:
  assumes "runs ok rel m P w" and "\<And>r w'. ok w' \<Longrightarrow> rel w w' \<Longrightarrow> P r w' \<Longrightarrow> runs ok rel (f r) Q w'"
  shows "runs ok rel (seq m f) Q w"
  using assms rel_trans unfolding runs_def seq_Some by metis

lemma runs_seq:
  assumes "runs ok rel m (\<lambda>_ _. True) w" and "\<And>r w'. ok w' \<Longrightarrow> rel w w' \<Longrightarrow> runs ok rel (f r) Q w'"
  shows "runs ok rel (seq m f) Q w"
  using assms by (rule runs_seqI)

lemma runs_andOk:
  assumes "runs ok rel m (\<lambda>_ _. True) w" and "\<And>r w'. ok w' \<Longrightarrow> rel w w' \<Longrightarrow> runs ok rel (f r) (\<lambda>_ _. True) w'"
  shows "runs ok rel (andOk m f) (\<lambda>_ _. True) w"
  unfolding andOk_def by (intro runs_seq[OF assms(1)] runs_sum assms(2) runs_ret TrueI)

lemma runs_andOkI:
  assumes "runs ok rel m (\<lambda>r w'. \<forall>x. r = Inr x \<longrightarrow> P x w') w"
    and "\<And>r w'. ok w' \<Longrightarrow> rel w w' \<Longrightarrow> P r w' \<Longrightarrow> runs ok rel (f r) Q w'"
    and "\<And>er w'. Q (Inl er) w'"
  shows "runs ok rel (andOk m f) Q w"
  unfolding andOk_def by (rule runs_seqI[OF assms(1)]) (auto intro!: runs_sum assms(2,3) runs_ret)

lemma runs_wrapA: "runs ok rel m (\<lambda>_ _. True) w \<Longrightarrow> runs ok rel (wrapA d m) (\<lambda>_ _. True) w"
  unfolding wrapA_def by (intro runs_seq runs_ret TrueI)

lemma runs_atomic:
  assumes "\<And>n w1 r w'. ok w1 \<Longrightarrow> rel w w1 \<Longrightarrow> f n w1 = (r, w') \<Longrightarrow> ok w' \<and> rel w1 w' \<and> Q r w'"
  shows "runs ok rel (atomic en f) Q w"
  unfolding runs_def
proof (intro impI allI)
  fix r w'
  let ?w = "w\<lparr>w_sys := others en (w_ticks w) (w_sys w), w_ticks := w_ticks w + 1\<rparr>"
  assume "ok w" "atomic en f w = Some (r, w')"
  then have o: "ok ?w" "rel w ?w" and f: "f (w_ticks w) ?w = (r, w')" using meets_others by (simp_all add: atomic_def)
  from assms[OF o f] rel_trans[OF o(2)] show "ok w' \<and> rel w w' \<and> Q r w'" by blast
qed

lemma runs_read:
  "runs ok rel (read_store en f1) (\<lambda>_ _. True) w" "runs ok rel (read_pool en f2) (\<lambda>_ _. True) w"
  "runs ok rel (ask en f3) (\<lambda>_ _. True) w" "runs ok rel (sched_of en f4) (\<lambda>_ _. True) w"
  "runs ok rel (atomic en (\<lambda>n w. (f5 n w, w))) (\<lambda>_ _. True) w"
  unfolding read_store_def read_pool_def ask_def sched_of_def by (rule runs_atomic; auto simp: rel_refl)+

lemma runs_read_store: "(\<And>w'. ok w' \<Longrightarrow> rel w w' \<Longrightarrow> Q (f (store (w_eng w'))) w') \<Longrightarrow> runs ok rel (read_store en f) Q w"
  unfolding read_store_def by (rule runs_atomic) (auto simp: rel_refl)

lemma runs_pool: "runs ok rel (on_pool en f) (\<lambda>_ _. True) w"
  unfolding on_pool_def by (rule runs_atomic) (auto simp: Let_def keeps_pool)

lemmas runs_base = runs_splits runs_seq runs_andOk runs_wrapA runs_ret runs_read runs_pool TrueI

lemma runs_simple:
  "runs ok rel (stopped en eid) (\<lambda>_ _. True) w" "runs ok rel (address en h) (\<lambda>_ _. True) w"
  "runs ok rel (workerResult en a b) (\<lambda>_ _. True) w" "runs ok rel (release en h) (\<lambda>_ _. True) w"
  "runs ok rel (pause en) (\<lambda>_ _. True) w" "runs ok rel (acquireOnce en ex) (\<lambda>_ _. True) w"
  unfolding stopped_def address_def workerResult_def release_def pause_def acquireOnce_def
  by (intro runs_base)+

lemma runs_call_loop:
  assumes "\<And>a w. runs ok rel (req a) (\<lambda>_ _. True) w"
  shows "runs ok rel (call_loop en h req n first er) (\<lambda>_ _. True) w"
proof (induction n arbitrary: first er w)
  case (Suc n)
  show ?case unfolding call_loop.simps by (intro runs_base runs_simple assms Suc.IH)
qed (simp add: runs_ret)

lemma runs_call: "(\<And>a w. runs ok rel (req a) (\<lambda>_ _. True) w) \<Longrightarrow> runs ok rel (call en h req) (\<lambda>_ _. True) w"
  unfolding call_def by (rule runs_call_loop)

text \<open>The loops: whatever turn of a loop keeps, the loop keeps.\<close>

lemma runs_waitJob_loop: "runs ok rel (waitJob_loop en h j d errs) (\<lambda>_ _. True) w"
proof -
  have "e = en \<longrightarrow> ends ok rel (\<lambda>_ _. True) w y" if "waitJob_loop e h j d errs w = Some y" for e h j d errs w y
  proof (rule waitJob_loop.raw_induct[where P = "\<lambda>e h j d errs w y. e = en \<longrightarrow> ends ok rel (\<lambda>_ _. True) w y", OF _ that], goal_cases)
    case (1 loop e h j d errs w y)
    have IH: "runs ok rel (loop en h j d errs) (\<lambda>_ _. True) w" for h j d errs w using 1(1) by (intro ends_runs) blast
    show ?case
    proof
      assume "e = en"
      from 1(2)[unfolded this] show "ends ok rel (\<lambda>_ _. True) w y" by (rule runs_ends) (intro runs_base runs_simple IH)
    qed
  qed
  then show ?thesis by (intro ends_runs) blast
qed

lemma runs_waitJob: "runs ok rel (waitJob en h j) (\<lambda>_ _. True) w"
  unfolding waitJob_def by (intro runs_base runs_waitJob_loop)

lemma runs_claim_loop: "runs ok rel (claim_loop en h) (\<lambda>_ _. True) w"
proof -
  have "e = en \<longrightarrow> ends ok rel (\<lambda>_ _. True) w y" if "claim_loop e h w = Some y" for e h w y
  proof (rule claim_loop.raw_induct[where P = "\<lambda>e h w y. e = en \<longrightarrow> ends ok rel (\<lambda>_ _. True) w y", OF _ that], goal_cases)
    case (1 loop e h w y)
    have IH: "runs ok rel (loop en h) (\<lambda>_ _. True) w" for h w using 1(1) by (intro ends_runs) blast
    show ?case
    proof
      assume "e = en"
      from 1(2)[unfolded this] show "ends ok rel (\<lambda>_ _. True) w y" by (rule runs_ends) (intro runs_base runs_simple IH)
    qed
  qed
  then show ?thesis by (intro ends_runs) blast
qed

lemma runs_claim: "runs ok rel (claim en h) (\<lambda>_ _. True) w"
  unfolding claim_def by (intro runs_base runs_claim_loop)

lemma runs_acquire: "runs ok rel (acquire en eid avoid) (\<lambda>_ _. True) w"
proof -
  have "e = en \<longrightarrow> ends ok rel (\<lambda>_ _. True) w y" if "acquire e eid avoid w = Some y" for e eid avoid w y
  proof (rule acquire.raw_induct[where P = "\<lambda>e eid avoid w y. e = en \<longrightarrow> ends ok rel (\<lambda>_ _. True) w y", OF _ that], goal_cases)
    case (1 loop e eid avoid w y)
    have IH: "runs ok rel (loop en eid avoid) (\<lambda>_ _. True) w" for eid avoid w using 1(1) by (intro ends_runs) blast
    show ?case
    proof
      assume "e = en"
      from 1(2)[unfolded this] show "ends ok rel (\<lambda>_ _. True) w y" by (rule runs_ends) (intro runs_base runs_simple IH)
    qed
  qed
  then show ?thesis by (intro ends_runs) blast
qed

lemma runs_runOnce:
  "(\<And>a w. runs ok rel (submit a) (\<lambda>_ _. True) w) \<Longrightarrow> runs ok rel (runOnce en h submit) (\<lambda>_ _. True) w"
  unfolding runOnce_def by (intro runs_base runs_simple runs_waitJob)

lemma runs_runJob_loop:
  assumes "\<And>a w. runs ok rel (submit a) (\<lambda>_ _. True) w"
  shows "runs ok rel (runJob_loop en h submit n first er) (\<lambda>_ _. True) w"
proof (induction n arbitrary: first er w)
  case (Suc n)
  show ?case unfolding runJob_loop.simps by (intro runs_base runs_simple runs_runOnce assms Suc.IH)
qed (simp add: runs_ret)

lemma runs_runJob: "(\<And>a w. runs ok rel (submit a) (\<lambda>_ _. True) w) \<Longrightarrow> runs ok rel (runJob en h submit) (\<lambda>_ _. True) w"
  unfolding runJob_def by (rule runs_runJob_loop)

lemma runs_requests:
  "runs ok rel (runFold en h req) (\<lambda>_ _. True) w" "runs ok rel (importProof en h pf kd) (\<lambda>_ _. True) w"
  "runs ok rel (checkBatchVK en h j want) (\<lambda>_ _. True) w" "runs ok rel (foldVK en h j) (\<lambda>_ _. True) w"
  "runs ok rel (reusable en p avoid) (\<lambda>_ _. True) w" "runs ok rel (reusedProof en h p want) (\<lambda>_ _. True) w"
  "runs ok rel (otherWorker en pin cur) (\<lambda>_ _. True) w"
  unfolding runFold_def importProof_def checkBatchVK_def foldVK_def reusable_def reusedProof_def otherWorker_def
  by (intro runs_base runs_simple runs_runJob runs_call runs_waitJob; assumption?)+

end

end
