(* ===== verification/Job_Laws.thy ===== *)
theory Job_Laws
  imports Run_Logic
begin

text \<open>
  The waits and retries of the scheduler: a wait for a job ends, a request to the fold worker
  that fails names the worker as the cause unless the scheduler was stopping, and what
  \<open>withFoldWorker\<close> returns is what its operation returned.
\<close>

section \<open>The wait for a job\<close>

lemma atomic_Some: "atomic en f w = Some (f (w_ticks w) (w\<lparr>w_sys := others en (w_ticks w) (w_sys w), w_ticks := w_ticks w + 1\<rparr>))"
  by (simp add: atomic_def)

lemma waitJob_loop_returns:
  assumes "\<And>n. n0 \<le> n \<Longrightarrow> deadline < clock en n"
  shows "\<exists>y. waitJob_loop en h jobID deadline errs w = Some y"
proof (induction "n0 - w_ticks w" arbitrary: errs w rule: less_induct)
  case less
  show ?case
  proof (cases "deadline < clock en (w_ticks w + 3)")
    case True
    then show ?thesis
      by (subst waitJob_loop.simps)
        (simp add: seq_def read_pool_def address_def ask_def atomic_def ret_def eval_nat_numeral split: sum.split)
  next
    case False
    then have "w_ticks w + 3 < n0" using assms[of "w_ticks w + 3"] by force
    then have "\<exists>y. waitJob_loop en h jobID deadline errs w' = Some y" if "w_ticks w' = w_ticks w + 5" for errs w'
      using less that by simp
    then show ?thesis
      by (subst waitJob_loop.simps)
        (simp add: seq_def read_pool_def address_def ask_def atomic_def ret_def eval_nat_numeral split: sum.split)
  qed
qed

section \<open>Failures of the fold worker\<close>

text \<open>Time only goes forward.\<close>

interpretation ticks: run_logic en "\<lambda>_. True" "\<lambda>w w'. w_ticks w \<le> w_ticks w'" for en :: "('b, 'v, 'st) env"
  by unfold_locales (auto simp: set_eng_def)

definition canceled :: "('b, 'v, 'st) env \<Rightarrow> nat \<Rightarrow> ('b, 'v, 'st) world \<Rightarrow> bool" where
  "canceled en n0 w \<longleftrightarrow> (\<exists>n. n0 \<le> n \<and> n < w_ticks w \<and> ctx_done en n)"

abbreviation fails_named ::
  "('b, 'v, 'st) env \<Rightarrow> nat \<Rightarrow> ('b, 'v, 'st, gerror + 'a) act \<Rightarrow> ('b, 'v, 'st) world \<Rightarrow> bool" where
  "fails_named en n0 m w \<equiv> runs (\<lambda>_. True) (\<lambda>w w'. w_ticks w \<le> w_ticks w') m
     (\<lambda>r w'. \<forall>er. r = Inl er \<longrightarrow> errors_Is er ErrFoldWorker \<or> canceled en n0 w') w"

lemma asked_done: "runs (\<lambda>_. True) (\<lambda>w w'. w_ticks w \<le> w_ticks w') (ask en (ctx_done en)) (\<lambda>c w'. c \<longrightarrow> canceled en (w_ticks w) w') w"
  by (auto simp: runs_def ask_def atomic_def canceled_def)

lemma canceled_mono: "canceled en n0 w \<Longrightarrow> n1 \<le> n0 \<Longrightarrow> w_ticks w \<le> w_ticks w' \<Longrightarrow> canceled en n1 w'"
  unfolding canceled_def using le_trans less_le_trans by blast

lemma paused: "runs (\<lambda>_. True) (\<lambda>w w'. w_ticks w \<le> w_ticks w') (pause en) (\<lambda>r w'. isl r \<longrightarrow> canceled en (w_ticks w) w') w"
  by (auto simp: runs_def pause_def ask_def atomic_def canceled_def)

lemma first_or_pause:
  assumes "n0 \<le> w_ticks w"
  shows "runs (\<lambda>_. True) (\<lambda>w w'. w_ticks w \<le> w_ticks w') (if first then ret (Inr ()) else pause en)
    (\<lambda>r w'. isl r \<longrightarrow> canceled en n0 w') w"
  by (intro runs_if ticks.runs_ret runs_weaken[OF paused]) (use canceled_mono[OF _ assms] in auto)

lemma named_seq:
  assumes "n0 \<le> w_ticks w" and "runs (\<lambda>_. True) (\<lambda>w w'. w_ticks w \<le> w_ticks w') m P w"
    and "\<And>r w'. n0 \<le> w_ticks w' \<Longrightarrow> P r w' \<Longrightarrow> fails_named en n0 (f r) w'"
  shows "fails_named en n0 (seq m f) w"
  by (rule ticks.runs_seqI[OF assms(2)]) (use assms in auto)

lemma named_ret: "errors_Is er ErrFoldWorker \<or> canceled en n0 w \<Longrightarrow> fails_named en n0 (ret (Inl er)) w"
  "fails_named en n0 (ret (Inr x)) w"
  by (auto intro!: ticks.runs_ret)

lemma named_attempt:
  assumes n: "n0 \<le> w_ticks w" and f: "\<And>w'. n0 \<le> w_ticks w' \<Longrightarrow> fails_named en n0 f w'"
  shows "fails_named en n0 (andOk (if first then ret (Inr ()) else pause en) (\<lambda>_. f)) w"
  unfolding andOk_def
proof (rule named_seq[OF n first_or_pause[OF n]], rule runs_sum)
  fix r :: "gerror + unit" and w' er
  assume "isl r \<longrightarrow> canceled en n0 w'" "r = Inl er"
  then show "fails_named en n0 (ret (Inl er)) w'" by (intro named_ret) auto
qed (use f in auto)

lemma call_named:
  assumes "\<And>a w. runs (\<lambda>_. True) (\<lambda>w w'. w_ticks w \<le> w_ticks w') (req a) (\<lambda>_ _. True) w"
  shows "fails_named en (w_ticks w) (call en h req) w"
proof -
  have "fails_named en n0 (call_loop en h req n first er) w" if "n0 \<le> w_ticks w" for n0 n first er w
    using that
  proof (induction n arbitrary: first er w)
    case (Suc n)
    show ?case unfolding call_loop.simps
    proof (rule named_attempt[OF Suc.prems], rule named_seq[OF _ ticks.runs_read(2)], assumption, rule runs_if, goal_cases)
      case (1 w1 has w2)
      show ?case by (rule named_ret) (simp add: errors_Is_def)
    next
      case (2 w1 has w2)
      show ?case
        by (rule named_seq[OF 2(2) ticks.runs_simple(2)], rule named_seq[OF _ assms], assumption, rule runs_sum,
          rule named_seq[OF _ ticks.runs_simple(3)], assumption, rule Suc.IH, assumption, rule named_ret(2))
    qed
  qed (simp add: named_ret)
  then show ?thesis by (simp add: call_def)
qed

lemma runJob_named:
  assumes "\<And>a w. runs (\<lambda>_. True) (\<lambda>w w'. w_ticks w \<le> w_ticks w') (submit a) (\<lambda>_ _. True) w"
  shows "fails_named en (w_ticks w) (runJob en h submit) w"
proof -
  have "fails_named en n0 (runJob_loop en h submit n first er) w" if "n0 \<le> w_ticks w" for n0 n first er w
    using that
  proof (induction n arbitrary: first er w)
    case (Suc n)
    have stop: "fails_named en n0 (seq (ask en (ctx_done en)) (\<lambda>c.
         if c then ret (Inl er)
         else
           seq (workerResult en a False) (\<lambda>_.
           if errors_Is er ErrWorkerRemoved then ret (Inl (ErrFoldWorker # er))
           else runJob_loop en h submit n False er))) w1" if n1: "n0 \<le> w_ticks w1" for er a w1
    proof (rule named_seq[OF n1 asked_done], rule runs_if, goal_cases)
      case (1 c w2)
      then show ?case using canceled_mono[OF _ n1] by (intro named_ret) auto
    next
      case (2 c w2)
      show ?case
        by (rule named_seq[OF 2(1) ticks.runs_simple(3)], rule runs_if, rule named_ret, simp add: errors_Is_def, rule Suc.IH)
    qed
    show ?case unfolding runJob_loop.simps
      by (rule named_attempt[OF Suc.prems], rule named_seq[OF _ ticks.runs_runOnce[OF assms]], assumption,
        rule named_seq[OF _ ticks.runs_simple(2)], assumption, rule runs_sum, rule stop, assumption,
        rule named_seq[OF _ ticks.runs_simple(3)], assumption, rule named_ret(2))
  qed (simp add: named_ret)
  then show ?thesis by (simp add: runJob_def)
qed

section \<open>Successful runs\<close>

lemma ret_Some: "ret x w = Some (r, w') \<longleftrightarrow> r = x \<and> w' = w"
  by (auto simp: ret_def)

lemma andOk_Inr: "andOk m f w = Some (Inr y, w') \<longleftrightarrow> (\<exists>x w1. m w = Some (Inr x, w1) \<and> f x w1 = Some (Inr y, w'))"
  by (simp add: andOk_def seq_Some ret_Some split_sum_ex)

lemma wrapA_Inr: "wrapA d m w = Some (Inr y, w') \<longleftrightarrow> m w = Some (Inr y, w')"
  by (simp add: wrapA_def seq_Some ret_Some wrap_def split_sum_ex)

lemma get_fc_Some: "get_fc g w = Some (r, w') \<longleftrightarrow> r = g (w_fc w) \<and> w' = w"
  by (auto simp: get_fc_def)

lemmas success = seq_Some ret_Some andOk_Inr wrapA_Inr get_fc_Some

lemma withFoldWorker_result:
  assumes "withFoldWorker en eid op w = Some (Inr x, w')"
  shows "\<exists>h w1. op h w1 = Some (Inr x, w')"
proof -
  have on: "\<exists>h w1. op h w1 = Some (Inr x, w')" if "onFoldWorker en eid op h w = Some (Inr x, w')" for h w w'
    using that by (auto simp: onFoldWorker_def success)
  have "\<exists>h w1. op h w1 = Some (Inr x, w')" if "withFoldWorker_loop en eid op n w = Some (Inr x, w')" for n w w'
    using that
  proof (induction n arbitrary: w)
    case 0
    then show ?case using on by (auto simp: success split_sum_ex if_distrib split: if_splits)
  next
    case (Suc n)
    then show ?case using on by (auto simp: success split_sum_ex split: if_splits)
  qed
  then show ?thesis using assms unfolding withFoldWorker_def by blast
qed

end
