(* ===== verification/System_Batches.thy ===== *)
theory System_Batches
  imports System_Restart
begin

text \<open>
  The history the storage keeps of an election only grows: whatever step the system takes, a
  sealed batch keeps its votes and a vote of the log stays as it was submitted.
\<close>

definition kept :: "'b storage \<Rightarrow> 'b storage \<Rightarrow> bool" where
  "kept s t \<longleftrightarrow>
     (\<forall>eid sq vids. batch_votes s eid sq = Some vids \<longrightarrow> batch_votes t eid sq = Some vids) \<and>
     (\<forall>eid vid v. vote_at s eid vid = Some v \<longrightarrow> vote_at t eid vid = Some v)"

lemma kept_refl: "kept s s"
  by (simp add: kept_def)

lemma kept_trans: "kept s t \<Longrightarrow> kept t u \<Longrightarrow> kept s u"
  by (simp add: kept_def)

lemma kept_batch: "kept s t \<Longrightarrow> batch_votes s eid sq = Some vids \<Longrightarrow> batch_votes t eid sq = Some vids"
  by (simp add: kept_def)

lemma kept_log: "(\<And>eid. same_log eid s t) \<Longrightarrow> kept s t"
  by (simp add: kept_def same_log_def)

lemma kept_keys:
  "(\<And>eid sq. artifact_at t (BatchK eid sq) = artifact_at s (BatchK eid sq)) \<Longrightarrow>
   (\<And>eid vid. artifact_at t (VoteK eid vid) = artifact_at s (VoteK eid vid)) \<Longrightarrow> kept s t"
  by (simp add: kept_def batch_votes_def)

lemma kept_seal:
  assumes "seal_rel k s rt s' rt'"
  shows "kept s s'"
  unfolding kept_def
proof (intro conjI allI impI)
  show "batch_votes s' eid sq = Some vids" if "batch_votes s eid sq = Some vids" for eid sq vids
    using assms that by (cases "eid = rt_id rt") (simp_all add: seal_rel_def same_log_def)
  show "vote_at s' eid vid = Some v" if "vote_at s eid vid = Some v" for eid vid v
    using assms that by (simp add: seal_rel_def)
qed

lemma kept_audit: "storage_wf (store e) \<Longrightarrow> kept (store e) (store (audit now e a b c i))"
  using audit_same(2) by (intro kept_log)

lemma kept_setVotesStatus:
  "storage_wf s \<Longrightarrow> storage_wf (fold (\<lambda>v s. snd (SetVoteStatus s eid (v_ID v) st)) vs s) \<and>
     kept s (fold (\<lambda>v s. snd (SetVoteStatus s eid (v_ID v) st)) vs s)"
proof (induction vs arbitrary: s)
  case (Cons v vs)
  define t where "t = store_step (OpSetVoteStatus eid (v_ID v) st) s"
  have "storage_wf t" unfolding t_def by (rule store_step_wf[OF Cons.prems])
  moreover have "kept s t" unfolding t_def using store_step_at[OF Cons.prems, of "OpSetVoteStatus eid (v_ID v) st"]
    by (intro kept_keys) (auto simp: op_writes_def)
  ultimately show ?case using Cons.IH[of t] kept_trans by (auto simp: t_def)
qed (simp add: kept_refl)

lemma kept_UpdateElection:
  assumes "storage_wf s" and "UpdateElection now s eid f = (r, t)" and "\<And>e e'. f e = Inr e' \<Longrightarrow> el_ID e' = el_ID e"
  shows "storage_wf t" "kept s t"
  using UpdateElection_same(1,2)[OF assms] by (auto intro: kept_log)

lemma kept_DeleteProofs: "storage_wf s \<Longrightarrow> kept s (snd (DeleteProofs s eid))"
  using DeleteProofs_same(2) by (intro kept_log)

lemma kept_relock: "artifact_at t = artifact_at s \<Longrightarrow> kept s t"
  by (intro kept_keys) simp_all

section \<open>The operations\<close>

lemma kept_forgetElection:
  assumes "storage_wf (store e)"
  shows "storage_wf (store (forgetElection i e))" "kept (store e) (store (forgetElection i e))"
proof -
  define s where "s = fold (\<lambda>v s. snd (SetVoteStatus s i (v_ID v) VoteStatusError)) (ListVotes (store e) i) (store e)"
  have f: "store (forgetElection i e) = snd (DeleteProofs s i)"
    by (simp add: forgetElection_def sched_Forget_def deleteProofs_def setVotesStatus_def s_def split: option.split)
  have M: "storage_wf s" "kept (store e) s" unfolding s_def using kept_setVotesStatus[OF assms] by blast+
  show "storage_wf (store (forgetElection i e))" "kept (store e) (store (forgetElection i e))"
    unfolding f using DeleteProofs_same(1)[OF M(1)] kept_trans[OF M(2) kept_DeleteProofs[OF M(1)]] by auto
qed

lemma kept_settlePending:
  assumes inv: "sys_inv k y" and rt: "runtime (eng y) eid = Some rt" and restore: "snapshots_restore k"
    and el: "election_at (store (eng y)) eid = Some el" "live (finals y) el"
    and run: "settlePending k now (eng y) rt to = Some (e', rt')"
  shows "kept (store (eng y)) (store e')"
proof (cases "to = StatusEnded")
  case True
  then obtain r where "sealAllLocked k now (eng y) rt = Some (r, e', rt')" using run by (auto simp: settlePending_def)
  then have "seal_rel k (store (eng y)) rt (store e') rt'"
    using sealAllLocked_inv[OF sys_inv_live[OF inv rt el] restore, of now] by auto
  then show ?thesis by (rule kept_seal)
next
  case False
  with run show ?thesis by (auto simp: settlePending_def kept_refl split: if_splits)
qed

lemma kept_changeStatus:
  assumes inv: "sys_inv k y" and rt: "runtime (eng y) eid = Some rt" and restore: "snapshots_restore k"
    and run: "changeStatus k now (eng y) rt subject role to = Some (r, e')"
  shows "kept (store (eng y)) (store e')"
proof -
  let ?s = "store (eng y)"
  note id = sys_inv_loaded(1)[OF inv rt] and wf = sys_inv_wf[OF inv]
  obtain el where el: "election_at ?s eid = Some el" using sys_inv_loaded[OF inv rt] by (auto simp: loaded_ok_def)
  have "store_Election ?s (rt_id rt) = Inr el" using el id by (simp add: reads[OF wf])
  from changeStatus_shape[OF this run] consider (same) "e' = eng y"
    | (moved) e1 rt1 ru s e2 where "to \<in> set (case statusChanges (el_Status el) of None \<Rightarrow> [] | Some tos \<Rightarrow> tos)"
        "settlePending k now (eng y) rt to = Some (e1, rt1)" "UpdateElection now (store e1) eid (moveStatus (el_Status el) to) = (ru, s)"
        "e2 = put_runtime rt1 (e1\<lparr>store := s\<rparr>)"
        "isl ru \<and> e' = e2 \<or> isOk ru \<and>
           e' = audit now (if to = StatusCanceled then forgetElection eid e2 else e2) subject role (statusActions to) eid"
    unfolding id by blast
  then show ?thesis
  proof cases
    case same
    then show ?thesis by (simp add: kept_refl)
  next
    case moved
    have lv: "live (finals y) el" using statusChanges_from[OF moved(1)] by (auto simp: live_def)
    note P = sys_inv_settlePending(1)[OF inv rt restore el lv moved(2)]
    have wf1: "storage_wf (store e1)" using sys_inv_wf[OF P] by simp
    have ids: "\<And>e e'. moveStatus (el_Status el) to e = Inr e' \<Longrightarrow> el_ID e' = el_ID e" by (auto dest!: moveStatus_Inr)
    note U = kept_UpdateElection[OF wf1 moved(3) ids]
    have e2: "store e2 = s" by (simp add: moved(4))
    have wf2: "storage_wf (store e2)" and k2: "kept ?s (store e2)"
      using U kept_trans[OF kept_settlePending[OF inv rt restore el lv moved(2)]] by (simp_all add: e2)
    define e3 where "e3 = (if to = StatusCanceled then forgetElection eid e2 else e2)"
    have e3: "storage_wf (store e3)" "kept ?s (store e3)"
      using kept_forgetElection[OF wf2, of eid] wf2 k2 kept_trans[OF k2] by (auto simp: e3_def)
    show ?thesis using moved(5) k2 kept_trans[OF e3(2) kept_audit[OF e3(1)]] by (auto simp: e3_def)
  qed
qed

lemma kept_AddVote:
  assumes wf: "storage_wf s" and li: "log_inv s eid" and new: "vote_at s eid (v_ID v) = None" and room: "counter s eid + 1 \<noteq> 0"
    and av: "AddVote now s eid v = (Inr v', t)"
  shows "kept s t"
  unfolding kept_def
proof (intro conjI allI impI)
  have "artifact_at t (BatchK i sq) = artifact_at s (BatchK i sq)" for i sq using AddVote_at[OF wf av] by simp
  then show "batch_votes s i sq = Some vids \<Longrightarrow> batch_votes t i sq = Some vids" for i sq vids by (simp add: batch_votes_def)
  show "vote_at t i w = Some x" if "vote_at s i w = Some x" for i w x
  proof (cases "i = eid")
    case True
    then show ?thesis using that new AddVote_inv(7)[OF wf li new room av, of w] by (cases "w = v_ID v") simp_all
  next
    case False
    then show ?thesis using that AddVote_inv(4)[OF wf li new room av False] by (simp add: same_log_def)
  qed
qed

lemma kept_submit_finish:
  assumes inv: "sys_inv k y" and restore: "snapshots_restore k"
    and new: "vote_at (store (eng y)) eid (v_ID v) = None" and nofl: "flights y = []"
    and room: "counter (store (eng y)) eid + 1 \<noteq> 0" and run: "submit_finish k now (eng y) eid v = Some (r, e')"
  shows "kept (store (eng y)) (store e') \<and>
    (\<forall>v'. r = Inr v' \<longrightarrow> (\<exists>sq. v' = v\<lparr>v_Seq := sq, v_SubmittedAt := now\<rparr>) \<and> vote_at (store e') eid (v_ID v) = Some v')"
proof (cases "\<exists>el rt. election_at (store (eng y)) eid = Some el \<and> el_Status el = StatusActive \<and> runtime (eng y) eid = Some rt")
  case False
  note wf = sys_inv_wf[OF inv]
  have "e' = eng y \<and> isl r" using run False
    by (auto simp: submit_finish_def reads[OF wf] found_def split: option.splits if_splits)
  then show ?thesis by (auto simp: kept_refl)
next
  case True
  note wf = sys_inv_wf[OF inv]
  obtain el rt where el: "election_at (store (eng y)) eid = Some el" "el_Status el = StatusActive" and rt: "runtime (eng y) eid = Some rt"
    using True by blast
  obtain ra s where av: "AddVote now (store (eng y)) eid v = (ra, s)" by (metis prod.exhaust)
  show ?thesis
  proof (cases ra)
    case (Inl er)
    have "e' = (eng y)\<lparr>store := s\<rparr> \<and> isl r" using run el rt av Inl by (auto simp: submit_finish_def reads[OF wf])
    moreover have "artifact_at s = artifact_at (store (eng y))" using AddVote_at[OF wf av] Inl by simp
    ultimately show ?thesis by (auto simp: kept_relock)
  next
    case (Inr v')
    let ?e = "(eng y)\<lparr>store := s\<rparr>" and ?rt = "rt\<lparr>rt_pending := rt_pending rt @ [v']\<rparr>"
    have av': "AddVote now (store (eng y)) eid v = (Inr v', s)" using av Inr by simp
    have fresh: "\<And>f. f \<in> set (flights y) \<Longrightarrow> sub_VoteID (fst (snd f)) \<noteq> v_ID v" using nofl by simp
    note i1 = sys_inv_AddVote[OF inv rt el new fresh room av']
    note L = sys_inv_loaded[OF inv rt]
    have rt1: "runtime (eng (y\<lparr>eng := put_runtime ?rt ?e\<rparr>)) eid = Some ?rt" using L(1) by simp
    have li: "log_inv (store (eng y)) eid" using inv by (simp add: sys_inv_def store_ok_def store_inv_def)
    have el1: "election_at (store (eng (y\<lparr>eng := put_runtime ?rt ?e\<rparr>))) eid = Some el"
      using AddVote_inv(5)[OF wf li new room av', of eid] el(1) by simp
    have lv: "live (finals (y\<lparr>eng := put_runtime ?rt ?e\<rparr>)) el" using el(2) by (simp add: live_def)
    have S: "storage_wf (store ?e)" "log_inv (store ?e) (rt_id ?rt)" "rt_inv k (store ?e) ?rt"
      using sys_inv_live[OF i1 rt1 el1 lv] by simp_all
    obtain rs e2 rt2 where sf: "sealFullLocked k now ?e ?rt = Some (rs, e2, rt2)" "seal_rel k (store ?e) ?rt (store e2) rt2"
      using sealFullLocked_inv[OF S restore, of now] by blast
    have e': "e' = audit now (put_runtime rt2 e2) ''voter'' ''voter'' ''submit_vote'' eid" and r: "r = Inr v'"
      using run el rt av' sf(1) by (simp_all add: submit_finish_def reads[OF wf])
    have k1: "kept (store (eng y)) s" by (rule kept_AddVote[OF wf li new room av'])
    have k2: "kept s (store (put_runtime rt2 e2))" using kept_seal[OF sf(2)] by simp
    have wf2: "storage_wf (store (put_runtime rt2 e2))" using sf(2) by (simp add: seal_rel_def)
    have k3: "kept s (store e')" unfolding e' by (rule kept_trans[OF k2 kept_audit[OF wf2]])
    have "vote_at s eid (v_ID v) = Some v'" using AddVote_inv(7)[OF wf li new room av', of "v_ID v"] by simp
    then have "vote_at (store e') eid (v_ID v) = Some v'" using k3 by (simp add: kept_def)
    moreover have "\<exists>sq. v' = v\<lparr>v_Seq := sq, v_SubmittedAt := now\<rparr>" using AddVote_at[OF wf av'] by auto
    ultimately show ?thesis using kept_trans[OF k1 k3] r by simp
  qed
qed


lemma kept_endElection:
  assumes inv: "sys_inv k y" and rt: "runtime (eng y) eid = Some rt" and restore: "snapshots_restore k"
    and run: "endElection k now rt (eng y) = Some e'"
  shows "kept (store (eng y)) (store e')"
proof (cases "due now (eng_retries (eng y)) (rt_id rt) taskEnd")
  case False
  with run show ?thesis by (simp add: endElection_def kept_refl)
next
  case True
  obtain x where c: "changeStatus k now (eng y) rt ''system'' ''system'' StatusEnded = Some x"
    using run True by (auto simp: endElection_def)
  obtain r e1 where x: "x = (r, e1)" by (cases x)
  have "store e' = store e1" using run True c x by (cases r) (auto simp: endElection_def split: if_splits)
  then show ?thesis using kept_changeStatus[OF inv rt restore c[unfolded x]] by simp
qed

lemma kept_tick_election:
  assumes inv: "sys_inv k y" and rt: "runtime (eng y) eid = Some rt" and restore: "snapshots_restore k"
    and run: "tick_election k now rt (eng y) = Some (e', ds)"
  shows "kept (store (eng y)) (store e')"
proof -
  note L = sys_inv_loaded[OF inv rt]
  obtain el where el: "election_at (store (eng y)) eid = Some el" using L by (auto simp: loaded_ok_def)
  then have se: "store_Election (store (eng y)) (rt_id rt) = Inr el" using L(1) by (simp add: reads[OF sys_inv_wf[OF inv]])
  consider (over) "endElection k now rt (eng y) = Some e'"
    | (stale) r e1 rt1 where "el_Status el = StatusActive \<or> el_Status el = StatusPaused"
        "sealIfStale k now (eng y) rt = Some (r, e1, rt1)" "store e' = store e1"
    | (same) "store e' = store (eng y)"
    using run se by (auto simp: tick_election_def split: if_splits)
  then show ?thesis
  proof cases
    case over
    then show ?thesis by (rule kept_endElection[OF inv rt restore])
  next
    case stale
    then have lv: "live (finals y) el" by (auto simp: live_def)
    have "seal_rel k (store (eng y)) rt (store e1) rt1"
      using sealIfStale_inv[OF sys_inv_live[OF inv rt el lv] restore, of now] stale(2) by auto
    then show ?thesis using stale(3) kept_seal by metis
  qed (simp add: kept_refl)
qed

lemma kept_finalizeElection:
  assumes wf: "storage_wf (store e)"
  shows "kept (store e) (store (finalizeElection now e eid res))"
proof (cases res)
  case (Inl er)
  define e2 where "e2 = audit now e ''system'' ''system'' (''finalize_failed: '' @ gerror_Error er) eid"
  define f where "f = (\<lambda>el. Inr (el\<lparr>el_Status := StatusDecrypting, el_FinalizeError := finalizeSummary er\<rparr>) :: gerror + Election)"
  obtain r s where U: "UpdateElection now (store e2) eid f = (r, s)" by (metis prod.exhaust)
  have "storage_wf (store e2)" unfolding e2_def by (rule audit_same(1)[OF wf])
  from kept_UpdateElection(2)[OF this U] have "kept (store e2) s" by (simp add: f_def)
  moreover have "kept (store e) (store e2)" unfolding e2_def by (rule kept_audit[OF wf])
  moreover have "store (finalizeElection now e eid res) = s"
    using U Inl by (simp add: finalizeElection_def Let_def e2_def f_def audit_def)
  ultimately show ?thesis using kept_trans by blast
next
  case (Inr x)
  define t where "t = fold (\<lambda>v s. snd (SetVoteStatus s eid (v_ID v) VoteStatusSettled)) (ListVotes (store e) eid) (store e)"
  have T: "storage_wf t" "kept (store e) t" unfolding t_def using kept_setVotesStatus[OF wf] by blast+
  obtain r s where U: "UpdateElection now t eid (\<lambda>el. Inr (el\<lparr>el_Status := StatusResults\<rparr>)) = (r, s)" by (metis prod.exhaust)
  have ids: "el_ID e' = el_ID e" if "Inr (e\<lparr>el_Status := StatusResults\<rparr>) = (Inr e' :: gerror + Election)" for e e'
    using that by auto
  note K = kept_UpdateElection[OF T(1) U ids]
  have "store (finalizeElection now e eid res) = s \<or> store (finalizeElection now e eid res) = snd (DeleteProofs s eid)"
    using U Inr by (auto simp: finalizeElection_def Let_def t_def setVotesStatus_def SetElectionStatus_def sched_Forget_def deleteProofs_def
        split: sum.splits option.splits)
  then show ?thesis using kept_trans[OF T(2) K(2)] kept_trans[OF _ kept_DeleteProofs[OF K(1)]] by auto
qed

lemma kept_key:
  assumes inv: "sys_inv k y" and run: "SubmitDecryptionKey k now (eng y) subject eid key = (r, e')"
  shows "kept (store (eng y)) (store e')"
proof -
  obtain ru s where U: "UpdateElection now (store (eng y)) eid toFinalizing = (ru, s)" by (metis prod.exhaust)
  have ids: "\<And>e e'. toFinalizing e = Inr e' \<Longrightarrow> el_ID e' = el_ID e" by (auto dest!: toFinalizing_Inr)
  note K = kept_UpdateElection[OF sys_inv_wf[OF inv] U ids]
  have "e' = eng y \<or> store e' = s \<or> store e' = store (audit now ((eng y)\<lparr>store := s\<rparr>) subject ''keywarden'' ''submit_decryption_key'' eid)"
    using SubmitDecryptionKey_shape[OF run] U by auto
  then show ?thesis using K kept_refl kept_trans[OF K(2)] kept_audit[of "(eng y)\<lparr>store := s\<rparr>"] by auto
qed

lemma kept_Create:
  assumes wf: "storage_wf (store e)" and run: "engine_CreateElection k now e subject el = (r, e')"
  shows "kept (store e) (store e')"
proof (cases "prepareElection k e el")
  case (Inl er)
  then show ?thesis using run by (simp add: engine_CreateElection_def kept_refl)
next
  case (Inr x)
  obtain el' vr st snap where x: "x = (el', vr, st, snap)" by (metis prod_cases4)
  obtain ru s where ce: "CreateElection now (store e) el' snap = (ru, s)" by (metis prod.exhaust)
  note C = CreateElection_run[OF wf ce]
  have s: "kept (store e) s"
  proof (cases ru)
    case (Inl er)
    then show ?thesis using C(3) by (intro kept_relock) simp
  next
    case (Inr stored)
    then show ?thesis using C(4)[OF Inr] by (intro kept_keys) simp_all
  qed
  define e2 where "e2 rt = put_runtime rt (e\<lparr>store := s\<rparr>)" for rt
  have e2: "store (e2 rt) = s" for rt by (simp add: e2_def)
  have "\<exists>rt i. store e' = s \<or> e' = audit now (e2 rt) subject ''admin'' ''create_election'' i"
    using run ce Inr x by (cases ru) (auto simp: engine_CreateElection_def e2_def Let_def)
  then obtain rt i where "store e' = s \<or> e' = audit now (e2 rt) subject ''admin'' ''create_election'' i" by blast
  then show ?thesis using s C(1) kept_trans[OF s] kept_audit[of "e2 rt"] by (auto simp: e2)
qed

lemma kept_Scheduler:
  assumes wf: "storage_wf s" and w: "sched_write s op"
  shows "kept s (store_step op s)"
proof (cases "\<exists>eid vid st. op = OpSetVoteStatus eid vid st")
  case True
  then show ?thesis using store_step_at[OF wf, of op] by (intro kept_keys) (auto simp: op_writes_def)
next
  case False
  then show ?thesis by (intro kept_log sched_write_same(1)[OF wf w]) blast
qed

lemma kept_worker_ops:
  assumes "storage_wf s"
  shows "storage_wf (snd (SetWorker now s w))" "kept s (snd (SetWorker now s w))"
    "storage_wf (snd (DeleteWorker s a))" "kept s (snd (DeleteWorker s a))"
  using store_step_wf[OF assms, of "OpSetWorker now w"] store_step_wf[OF assms, of "OpDeleteWorker a"]
    store_step_at[OF assms, of "OpSetWorker now w"] store_step_at[OF assms, of "OpDeleteWorker a"]
  by (auto intro!: kept_keys simp: op_writes_def)

lemma kept_Register:
  assumes wf: "storage_wf (store e)" and run: "RegisterWorker now e subject address name = (r, e')"
  shows "kept (store e) (store e')"
proof (cases "pool e")
  case None
  with run show ?thesis by (simp add: RegisterWorker_def kept_refl)
next
  case (Some wm)
  obtain w p ru s where sw: "SetWorker now (store e) w = (ru, s)"
    and e': "e' = e\<lparr>store := s, pool := p\<rparr> \<or>
      e' = audit now (e\<lparr>store := s, pool := p\<rparr>) subject ''admin'' (''register_worker:'' @ address) []"
    using run Some by (auto simp: RegisterWorker_def Let_def split: prod.splits sum.splits)
  define e2 where "e2 = e\<lparr>store := s, pool := p\<rparr>"
  have e2: "store e2 = s" by (simp add: e2_def)
  have "s = snd (SetWorker now (store e) w)" using sw by simp
  then have "storage_wf (store e2)" "kept (store e) (store e2)" using kept_worker_ops(1,2)[OF wf] by (simp_all add: e2)
  then have "kept (store e) (store (audit now e2 subject ''admin'' (''register_worker:'' @ address) []))"
    using kept_trans kept_audit by blast
  then show ?thesis using e' \<open>kept (store e) (store e2)\<close> by (auto simp: e2_def)
qed

lemma kept_Remove:
  assumes wf: "storage_wf (store e)" and run: "engine_RemoveWorker now worder order e subject workerID = (r, e')"
  shows "kept (store e) (store e')"
proof (cases "Option.bind (pool e) (\<lambda>wm. map_option (\<lambda>h. (wm, h)) (WorkerByID wm worder workerID))")
  case None
  with run show ?thesis by (simp add: engine_RemoveWorker_def kept_refl)
next
  case (Some x)
  obtain wm h where x: "x = (wm, h)" by (cases x)
  define a where "a = w_Address (worker wm h)"
  define s where "s = snd (DeleteWorker (store e) a)"
  obtain ru where dw: "DeleteWorker (store e) a = (ru, s)" by (metis prod.collapse s_def)
  define e2 where "e2 = e\<lparr>store := s, pool := Some (RemoveWorker wm a)\<rparr>"
  have e2: "storage_wf (store e2)" "kept (store e) (store e2)" using kept_worker_ops(3,4)[OF wf] by (simp_all add: e2_def s_def)
  have "store e' = store e2 \<or> store e' = store (audit now e2 subject ''admin'' (''remove_worker:'' @ a) [])"
    using run Some x dw by (auto simp: engine_RemoveWorker_def Let_def a_def e2_def split: sum.splits)
  then show ?thesis using e2 kept_trans[OF e2(2) kept_audit[OF e2(1)]] by auto
qed

lemma kept_Finish:
  assumes inv: "sys_inv k y" and restore: "snapshots_restore k" and fl: "(eid, sub, vr) \<in> set (flights y)"
    and room: "counter (store (eng y)) eid + 1 \<noteq> 0"
    and run: "submit_finish k now (eng y) eid (submitted now sub slot payload) = Some (r, e')"
  shows "kept (store (eng y)) (store (submit_release eid sub e'))"
proof -
  define y1 where "y1 = y\<lparr>flights := []\<rparr>"
  have i1: "sys_inv k y1" using inv by (simp add: y1_def sys_inv_def flights_ok_def)
  have "flight_ok (store (eng y)) (eid, sub, vr)" using inv fl unfolding sys_inv_def flights_ok_def by blast
  then have new: "vote_at (store (eng y1)) eid (v_ID (submitted now sub slot payload)) = None" by (simp add: y1_def submitted_def)
  have "kept (store (eng y1)) (store e')"
    by (rule conjunct1[OF kept_submit_finish[OF i1 restore new]]) (use room run in \<open>simp_all add: y1_def\<close>)
  moreover have "kept (store e') (store (submit_release eid sub e'))" by (rule kept_relock) (simp add: submit_release_relock)
  ultimately show ?thesis using kept_trans by (simp add: y1_def) blast
qed

lemma kept_SetStatus:
  assumes inv: "sys_inv k y" and restore: "snapshots_restore k" and run: "SetStatus k now (eng y) subject eid to = Some (r, e')"
  shows "kept (store (eng y)) (store e')"
proof (cases "\<exists>el rt. store_Election (store (eng y)) eid = Inr el \<and> runtime (eng y) eid = Some rt")
  case True
  then obtain rt where rt: "runtime (eng y) eid = Some rt" and "changeStatus k now (eng y) rt subject ''admin'' to = Some (r, e')"
    using run by (auto simp: SetStatus_def)
  then show ?thesis using kept_changeStatus[OF inv rt restore] by simp
next
  case False
  then have "e' = eng y" using run by (auto simp: SetStatus_def split: sum.splits option.splits)
  then show ?thesis by (simp add: kept_refl)
qed

lemma kept_drain_publish:
  assumes wf: "storage_wf (store e)" and run: "drain_publish now e eid = (r, e')"
  shows "kept (store e) (store e')"
proof -
  obtain ru s where U: "UpdateElection now (store e) eid (moveStatus StatusEnded StatusDecrypting) = (ru, s)" by (metis prod.exhaust)
  have ids: "\<And>e e'. moveStatus StatusEnded StatusDecrypting e = Inr e' \<Longrightarrow> el_ID e' = el_ID e" by (auto dest!: moveStatus_Inr)
  note K = kept_UpdateElection[OF wf U ids]
  show ?thesis using run U K(2) kept_trans[OF K(2)] kept_audit[of "e\<lparr>store := s\<rparr>"] K(1)
    by (auto simp: drain_publish_def split: sum.splits)
qed

section \<open>Every step\<close>

lemma sys_step_kept:
  assumes "sys_step k y y'" and restore: "snapshots_restore k" and inv: "sys_inv k y"
  shows "kept (store (eng y)) (store (eng y'))"
  using assms(1)
proof cases
  case (Create now subject el r e')
  then show ?thesis using kept_Create[OF sys_inv_wf[OF inv]] by simp
next
  case (Begin eid sub vr e')
  then show ?thesis using submit_begin_Inr[OF sys_inv_wf[OF inv] Begin(2)] by (auto intro!: kept_relock)
next
  case (Refused eid sub er e')
  then show ?thesis using submit_begin_Inl[OF Refused(2)] by (auto intro!: kept_relock)
next
  case (Invalid eid sub vr er)
  then show ?thesis by (auto intro!: kept_relock simp: submit_release_relock)
next
  case (Finish eid sub vr slot payload now r e')
  then show ?thesis using kept_Finish[OF inv restore Finish(2) Finish(4,5)] by simp
next
  case (SetStatus now subject eid to r e')
  then show ?thesis using kept_SetStatus[OF inv restore SetStatus(2)] by simp
next
  case (Tick eid rt now e' ds)
  then show ?thesis using kept_tick_election[OF inv Tick(2) restore Tick(3)] by simp
next
  case (DrainSeal eid rt el now r e')
  then obtain ru e1 rt1 where s: "sealAllLocked k now (eng y) rt = Some (ru, e1, rt1)" "e' = put_runtime rt1 e1"
    by (auto simp: drain_seal_def)
  have "seal_rel k (store (eng y)) rt (store e1) rt1"
    using sealAllLocked_inv[OF sys_inv_live[OF inv DrainSeal(2-4)] restore, of now] s by auto
  then show ?thesis using s(2) DrainSeal(1) kept_seal by simp
next
  case (DrainPublish now eid r e')
  then show ?thesis using kept_drain_publish[OF sys_inv_wf[OF inv]] by simp
next
  case (KeyRefused now subject eid key er e')
  then show ?thesis using kept_key[OF inv KeyRefused(2)] by simp
next
  case (KeyAccepted now subject eid key e')
  then show ?thesis using kept_key[OF inv KeyAccepted(2)] by simp
next
  case (Finalized eid now res)
  then show ?thesis using kept_finalizeElection[OF sys_inv_wf[OF inv]] by simp
next
  case (Scheduler op)
  then show ?thesis using kept_Scheduler[OF sys_inv_wf[OF inv]] by simp
next
  case (FoldWorker now eid w r s)
  have "kept (store (eng y)) s" by (rule kept_UpdateElection(2)[OF sys_inv_wf[OF inv] FoldWorker(2)]) auto
  then show ?thesis using FoldWorker(1) by simp
next
  case (Register now subject address name r e')
  then show ?thesis using kept_Register[OF sys_inv_wf[OF inv]] by simp
next
  case (Remove now worder order subject workerID r e')
  then show ?thesis using kept_Remove[OF sys_inv_wf[OF inv]] by simp
next
  case (Dispatched sc now eid stopping result)
  then show ?thesis by (auto intro!: kept_relock simp: dispatch_round_def split: sum.splits)
next
  case (Audited now subject role action eid)
  then show ?thesis using kept_audit[OF sys_inv_wf[OF inv]] by simp
next
  case Stopped
  then show ?thesis by (auto intro!: kept_relock simp: Stop_def)
next
  case (Restart now fl opts)
  have so: "store_ok (store (eng y))" using inv by (simp add: sys_inv_def)
  have "same_log i (store (eng y)) (store (NewEngine k now (New (db (store (eng y))) (cbor (store (eng y))) fl) opts))" for i
    using same_log_trans[OF New_same(2)[OF sys_inv_wf[OF inv]] NewEngine_inv(2)[OF New_store_ok[OF so]]] .
  then show ?thesis unfolding Restart by (simp add: kept_log)
qed (auto intro: kept_refl)

end
