(* ===== verification/Run_Invariant.thy ===== *)
theory Run_Invariant
  imports Run_Logic System_Batches
begin

text \<open>
  What holds during a run of the scheduler, and the actions that keep it. A run is an
  interleaving of the scheduler's own steps (\<open>sched_move\<close>: one write, one change of the
  worker pool or of its own memory) with what the other goroutines do. The invariant
  \<open>pass_ok\<close> is that of the system with: the batches the fold chain holds in memory have
  the votes of the stored ones, which is what makes the scheduler's writes harmless.

  The logic of theory Run\_Logic is used with four relations, which differ in what they say of
  the fold chain: most actions keep the pending batches as they are (\<open>same_order\<close>); a pass
  keeps them numbered without a gap (\<open>ordered\<close>); all keep the objects allocated.
\<close>

section \<open>The scheduler's own steps\<close>

text \<open>Folds are committed in order: the batches of a fold are the ones right below its new head.\<close>

fun in_order :: "store_op \<Rightarrow> bool" where
  "in_order (OpCommitFold now cp pf sqs) =
     (sqs \<noteq> [] \<and> sqs = map (\<lambda>i. fcp_BatchesFolded cp - of_nat (length sqs) + of_nat i) [0 ..< length sqs])"
| "in_order _ = True"

inductive sched_move :: "('b, 'v, 'st) system \<Rightarrow> ('b, 'v, 'st) system \<Rightarrow> bool" where
  Write: "sched_write (store (eng y)) op \<Longrightarrow> in_order op \<Longrightarrow>
    sched_move y (y\<lparr>eng := (eng y)\<lparr>store := store_step op (store (eng y))\<rparr>\<rparr>)"
| Pin: "sched_move y (y\<lparr>eng := (eng y)\<lparr>store :=
    snd (UpdateElection now (store (eng y)) eid (\<lambda>el. Inr (el\<lparr>el_FoldWorker := a\<rparr>)))\<rparr>\<rparr>)"
| Books: "sched_move y (y\<lparr>eng := (eng y)\<lparr>pool := p\<rparr>\<rparr>)"
| Memory: "sched_move y (y\<lparr>eng := (eng y)\<lparr>sched := sc\<rparr>\<rparr>)"
| Audit: "sched_move y (y\<lparr>eng := audit now (eng y) subject role action eid\<rparr>)"

lemma sched_move_step: "sched_move y y' \<Longrightarrow> sys_step k y y'"
proof (induction rule: sched_move.induct)
  case (Pin y now eid a)
  show ?case by (rule sys_step.FoldWorker) (rule prod.collapse[symmetric])
qed (auto intro: sys_step.intros)

definition interleaved :: "('b, 'v, 'st) env \<Rightarrow> ('b, 'v, 'st) system \<Rightarrow> ('b, 'v, 'st) system \<Rightarrow> bool" where
  "interleaved en y y' \<longleftrightarrow> sched_move y y' \<or> (\<exists>n. y' = others en n y)"

section \<open>The invariant of a run\<close>

definition chain_ok :: "'b storage \<Rightarrow> ElectionID \<Rightarrow> foldChain \<Rightarrow> bool" where
  "chain_ok s eid fc \<longleftrightarrow>
     (\<forall>b \<in> set (fc_objs fc). bi_ElectionID b = eid \<and> batch_votes s eid (bi_Seq b) = Some (bi_VoteIDs b)) \<and>
     (\<forall>p \<in> set (fc_pending fc). p < length (fc_objs fc))"

text \<open>The pending batches are numbered from the number of folded ones on.\<close>

definition in_seq :: "foldChain \<Rightarrow> bool" where
  "in_seq fc \<longleftrightarrow> pendingSeqs fc = map (\<lambda>i. fc_batchesFolded fc + of_nat i) [0 ..< length (fc_pending fc)]"

definition chains_ok :: "ElectionID \<Rightarrow> ('b, 'v, 'st) system \<Rightarrow> bool" where
  "chains_ok eid y \<longleftrightarrow>
     (\<exists>sc. sched (eng y) = Some sc \<and>
        (\<forall>fc. chains sc (ElectionID_String eid) = Some fc \<longrightarrow> chain_ok (store (eng y)) eid fc \<and> in_seq fc))"

text \<open>What the other goroutines may do: steps of the system that leave the chain to the holder of its lock.\<close>

definition rely :: "('v, 'st) sdk \<Rightarrow> ElectionID \<Rightarrow> ('b, 'v, 'st) env \<Rightarrow> bool" where
  "rely k eid en \<longleftrightarrow> snapshots_restore k \<and>
     (\<forall>n y. sys_inv k y \<longrightarrow> chains_ok eid y \<longrightarrow> (sys_step k)\<^sup>*\<^sup>* y (others en n y) \<and> chains_ok eid (others en n y))"

definition pass_ok :: "('v, 'st) sdk \<Rightarrow> ElectionID \<Rightarrow> ('b, 'v, 'st) env \<Rightarrow> ('b, 'v, 'st) world \<Rightarrow> bool" where
  "pass_ok k eid en w \<longleftrightarrow> rely k eid en \<and> sys_inv k (w_sys w) \<and> chains_ok eid (w_sys w) \<and>
     chain_ok (store (w_eng w)) eid (w_fc w)"

definition pass_rel :: "('v, 'st) sdk \<Rightarrow> ('b, 'v, 'st) env \<Rightarrow> ('b, 'v, 'st) world \<Rightarrow> ('b, 'v, 'st) world \<Rightarrow> bool" where
  "pass_rel k en w w' \<longleftrightarrow>
     (sys_step k)\<^sup>*\<^sup>* (w_sys w) (w_sys w') \<and> (interleaved en)\<^sup>*\<^sup>* (w_sys w) (w_sys w') \<and>
     kept (store (w_eng w)) (store (w_eng w'))"

definition chain_rel ::
  "(foldChain \<Rightarrow> foldChain \<Rightarrow> bool) \<Rightarrow> ('v, 'st) sdk \<Rightarrow> ('b, 'v, 'st) env \<Rightarrow> ('b, 'v, 'st) world \<Rightarrow> ('b, 'v, 'st) world \<Rightarrow> bool" where
  "chain_rel R k en w w' \<longleftrightarrow> pass_rel k en w w' \<and> R (w_fc w) (w_fc w')"

definition grows :: "foldChain \<Rightarrow> foldChain \<Rightarrow> bool" where
  "grows fc fc' \<longleftrightarrow> length (fc_objs fc) \<le> length (fc_objs fc') \<and>
     (\<forall>p < length (fc_objs fc). bi_Seq (fc_objs fc' ! p) = bi_Seq (fc_objs fc ! p))"

definition ordered :: "foldChain \<Rightarrow> foldChain \<Rightarrow> bool" where
  "ordered fc fc' \<longleftrightarrow> grows fc fc' \<and> (in_seq fc \<longrightarrow> in_seq fc')"

definition same_order :: "foldChain \<Rightarrow> foldChain \<Rightarrow> bool" where
  "same_order fc fc' \<longleftrightarrow> grows fc fc' \<and> fc_pending fc' = fc_pending fc \<and> fc_batchesFolded fc' = fc_batchesFolded fc \<and>
     (\<forall>p < length (fc_objs fc). bi_Seq (obj fc' p) = bi_Seq (obj fc p))"

abbreviation quiet_rel :: "('v, 'st) sdk \<Rightarrow> ('b, 'v, 'st) env \<Rightarrow> ('b, 'v, 'st) world \<Rightarrow> ('b, 'v, 'st) world \<Rightarrow> bool" where
  "quiet_rel \<equiv> chain_rel same_order"

lemma chain_ok_kept: "kept s t \<Longrightarrow> chain_ok s eid fc \<Longrightarrow> chain_ok t eid fc"
  by (auto simp: chain_ok_def dest: kept_batch)

lemma chains_ok_kept:
  "kept (store (eng y)) (store (eng y')) \<Longrightarrow> sched (eng y') = sched (eng y) \<Longrightarrow> chains_ok eid y \<Longrightarrow> chains_ok eid y'"
  unfolding chains_ok_def by (metis chain_ok_kept)

lemma steps_kept:
  assumes "(sys_step k)\<^sup>*\<^sup>* y y'" and "snapshots_restore k" and "sys_inv k y"
  shows "sys_inv k y' \<and> kept (store (eng y)) (store (eng y'))"
  using assms(1)
proof (induction rule: rtranclp_induct)
  case (step u v)
  then show ?case using sys_step_kept[OF step(2) assms(2)] sys_step_inv[OF step(2) assms(2)] kept_trans by blast
qed (simp add: assms kept_refl)

lemma pass_rel_refl: "pass_rel k en w w"
  by (simp add: pass_rel_def kept_refl)

lemma pass_rel_trans: "pass_rel k en w w1 \<Longrightarrow> pass_rel k en w1 w2 \<Longrightarrow> pass_rel k en w w2"
  unfolding pass_rel_def by (blast intro: rtranclp_trans kept_trans)

lemma same_order_refl: "same_order fc fc"
  by (simp add: same_order_def grows_def)

lemma same_order_trans: "same_order a b \<Longrightarrow> same_order b c \<Longrightarrow> same_order a c"
  by (simp add: same_order_def grows_def)

lemma same_order_pending: "same_order a b \<Longrightarrow> chain_ok s eid a \<Longrightarrow> pendingSeqs b = pendingSeqs a"
  by (auto simp: same_order_def chain_ok_def pendingSeqs_def)

lemma same_order_ordered: "same_order a b \<Longrightarrow> chain_ok s eid a \<Longrightarrow> ordered a b"
  using same_order_pending[of a b] by (auto simp: ordered_def in_seq_def same_order_def)

lemma quiet_rel_trans: "quiet_rel k en w w1 \<Longrightarrow> quiet_rel k en w1 w2 \<Longrightarrow> quiet_rel k en w w2"
  unfolding chain_rel_def using pass_rel_trans same_order_trans by blast

lemma pass_others:
  fixes w :: "('b, 'v, 'st) world"
  assumes "pass_ok k eid en w"
  defines "w' \<equiv> w\<lparr>w_sys := others en (w_ticks w) (w_sys w), w_ticks := w_ticks w + 1\<rparr>"
  shows "pass_ok k eid en w'" "pass_rel k en w w'"
proof -
  let ?y = "others en (w_ticks w) (w_sys w)"
  have s: "(sys_step k)\<^sup>*\<^sup>* (w_sys w) ?y" and c: "chains_ok eid ?y" and r: "snapshots_restore k" "sys_inv k (w_sys w)"
    using assms(1) by (auto simp: pass_ok_def rely_def)
  note K = steps_kept[OF s r]
  show "pass_ok k eid en w'" using assms(1) K c chain_ok_kept by (auto simp: pass_ok_def w'_def)
  have "(interleaved en)\<^sup>*\<^sup>* (w_sys w) ?y" by (rule r_into_rtranclp) (auto simp: interleaved_def)
  then show "pass_rel k en w w'" using s K by (simp add: pass_rel_def w'_def)
qed

text \<open>A step of the scheduler, with what it does to the chain in the same region of code.\<close>

lemma pass_move:
  assumes ok: "pass_ok k eid en w" and m: "sched_move (w_sys w) y"
    and c: "kept (store (w_eng w)) (store (eng y)) \<Longrightarrow> chains_ok eid y"
    and fc: "kept (store (w_eng w)) (store (eng y)) \<Longrightarrow> chain_ok (store (eng y)) eid fc"
  shows "pass_ok k eid en (w\<lparr>w_sys := y, w_fc := fc\<rparr>)" "pass_rel k en w (w\<lparr>w_sys := y, w_fc := fc\<rparr>)"
proof -
  have r: "snapshots_restore k" "sys_inv k (w_sys w)" using ok by (auto simp: pass_ok_def rely_def)
  have s: "sys_step k (w_sys w) y" by (rule sched_move_step[OF m])
  note K = steps_kept[OF r_into_rtranclp[of "sys_step k", OF s] r]
  show "pass_ok k eid en (w\<lparr>w_sys := y, w_fc := fc\<rparr>)" using ok K c fc by (simp add: pass_ok_def)
  show "pass_rel k en w (w\<lparr>w_sys := y, w_fc := fc\<rparr>)" using s m K by (auto simp: pass_rel_def interleaved_def)
qed

lemma pass_move_store:
  assumes ok: "pass_ok k eid en w" and m: "sched_move (w_sys w) y" and "sched (eng y) = sched (w_eng w)"
  shows "pass_ok k eid en (w\<lparr>w_sys := y\<rparr>)" "quiet_rel k en w (w\<lparr>w_sys := y\<rparr>)"
proof -
  have c: "chains_ok eid (w_sys w)" and f: "chain_ok (store (w_eng w)) eid (w_fc w)" using ok by (auto simp: pass_ok_def)
  have "w\<lparr>w_sys := y, w_fc := w_fc w\<rparr> = w\<lparr>w_sys := y\<rparr>" by simp
  then show "pass_ok k eid en (w\<lparr>w_sys := y\<rparr>)" "quiet_rel k en w (w\<lparr>w_sys := y\<rparr>)"
    using pass_move[OF ok m chains_ok_kept[OF _ assms(3) c] chain_ok_kept[OF _ f]] by (simp_all add: chain_rel_def same_order_refl)
qed

lemma set_eng_sys: "set_eng e w = w\<lparr>w_sys := (w_sys w)\<lparr>eng := e\<rparr>\<rparr>"
  by (simp add: set_eng_def)

lemma pass_pool:
  assumes "pass_ok k eid en w"
  shows "pass_ok k eid en (set_eng ((w_eng w)\<lparr>pool := p\<rparr>) w)" "quiet_rel k en w (set_eng ((w_eng w)\<lparr>pool := p\<rparr>) w)"
  unfolding set_eng_sys by (rule pass_move_store[OF assms Books]; simp)+

lemma chain_logic:
  assumes "\<And>fc. R fc fc" and "\<And>a b c. R a b \<Longrightarrow> R b c \<Longrightarrow> R a c"
  shows "run_logic en (pass_ok k eid en) (chain_rel R k en)"
proof
  fix w assume ok: "pass_ok k eid en w"
  show "chain_rel R k en w w" by (simp add: chain_rel_def pass_rel_refl assms)
  show "pass_ok k eid en (w\<lparr>w_sys := others en (w_ticks w) (w_sys w), w_ticks := w_ticks w + 1\<rparr>) \<and>
      chain_rel R k en w (w\<lparr>w_sys := others en (w_ticks w) (w_sys w), w_ticks := w_ticks w + 1\<rparr>)"
    using pass_others[OF ok] by (simp add: chain_rel_def assms)
  show "pass_ok k eid en (set_eng (w_eng w\<lparr>pool := p\<rparr>) w) \<and> chain_rel R k en w (set_eng (w_eng w\<lparr>pool := p\<rparr>) w)" for p
    using pass_pool[OF ok] by (simp add: chain_rel_def assms set_eng_sys)
qed (auto simp: chain_rel_def intro: pass_rel_trans assms)

interpretation pass: run_logic en "pass_ok k eid en" "chain_rel same_order k en"
  for k :: "('v, 'st) sdk" and eid :: ElectionID and en :: "('b, 'v, 'st) env"
  by (rule chain_logic) (auto intro: same_order_refl same_order_trans)

interpretation fifo: run_logic en "pass_ok k eid en" "chain_rel ordered k en"
  for k :: "('v, 'st) sdk" and eid :: ElectionID and en :: "('b, 'v, 'st) env"
  by (rule chain_logic) (auto simp: ordered_def grows_def)

interpretation heap: run_logic en "pass_ok k eid en" "chain_rel grows k en"
  for k :: "('v, 'st) sdk" and eid :: ElectionID and en :: "('b, 'v, 'st) env"
  by (rule chain_logic) (auto simp: grows_def)

interpretation drive: run_logic en "pass_ok k eid en" "chain_rel (\<lambda>_ _. True) k en"
  for k :: "('v, 'st) sdk" and eid :: ElectionID and en :: "('b, 'v, 'st) env"
  by (rule chain_logic) auto

section \<open>What each action needs\<close>

abbreviation passes ::
  "('v, 'st) sdk \<Rightarrow> ElectionID \<Rightarrow> ('b, 'v, 'st) env \<Rightarrow> ('b, 'v, 'st, 'a) act \<Rightarrow> ('a \<Rightarrow> ('b, 'v, 'st) world \<Rightarrow> bool)
    \<Rightarrow> ('b, 'v, 'st) world \<Rightarrow> bool" where
  "passes k eid en \<equiv> runs (pass_ok k eid en) (quiet_rel k en)"

abbreviation safe ::
  "('v, 'st) sdk \<Rightarrow> ElectionID \<Rightarrow> ('b, 'v, 'st) env \<Rightarrow> ('b, 'v, 'st, 'a) act \<Rightarrow> ('b, 'v, 'st) world \<Rightarrow> bool" where
  "safe k eid en m w \<equiv> passes k eid en m (\<lambda>_ _. True) w"

definition ptr_in :: "('b, 'v, 'st) world \<Rightarrow> ptr \<Rightarrow> bool" where
  "ptr_in w p \<longleftrightarrow> p < length (fc_objs (w_fc w))"

lemma ptr_stays: "ptr_in w p \<Longrightarrow> quiet_rel k en w w' \<Longrightarrow> ptr_in w' p"
  by (simp add: ptr_in_def chain_rel_def same_order_def grows_def)

lemma ptr_obj:
  assumes "pass_ok k eid en w" and "ptr_in w p"
  shows "bi_ElectionID (obj (w_fc w) p) = eid"
    "batch_votes (store (w_eng w)) eid (bi_Seq (obj (w_fc w) p)) = Some (bi_VoteIDs (obj (w_fc w) p))"
  using assms nth_mem[of p "fc_objs (w_fc w)"] by (auto simp: pass_ok_def chain_ok_def ptr_in_def obj_def)

lemma heap_kept: "chain_rel R k en w w' \<Longrightarrow> kept (store (w_eng w)) (store (w_eng w'))"
  by (simp add: chain_rel_def pass_rel_def)

text \<open>A storage operation that the system lists among the scheduler's writes.\<close>

lemma pass_on_store:
  assumes "\<And>now s. snd (f now s) = store_step (op now) s"
    and "\<And>now w'. pass_ok k eid en w' \<Longrightarrow> quiet_rel k en w w' \<Longrightarrow> sched_write (store (w_eng w')) (op now) \<and> in_order (op now)"
  shows "safe k eid en (on_store en f) w"
  unfolding on_store_def
proof (rule pass.runs_atomic)
  fix n w1 r w'
  assume ok: "pass_ok k eid en w1" and h: "quiet_rel k en w w1"
    and run: "(let r = f (clock en n) (store (w_eng w1)) in (fst r, set_eng ((w_eng w1)\<lparr>store := snd r\<rparr>) w1)) = (r, w')"
  then have w': "w' = w1\<lparr>w_sys := (w_sys w1)\<lparr>eng := (w_eng w1)\<lparr>store := store_step (op (clock en n)) (store (w_eng w1))\<rparr>\<rparr>\<rparr>"
    by (simp add: Let_def set_eng_sys assms(1))
  show "pass_ok k eid en w' \<and> quiet_rel k en w1 w' \<and> True"
    unfolding w' using pass_move_store[OF ok Write] assms(2)[OF ok h] by simp
qed

lemma chain_set_fc:
  assumes "chain_ok (store (w_eng w)) eid (w_fc w) \<Longrightarrow> chain_ok (store (w_eng w)) eid (f (w_fc w))"
    and "pass_ok k eid en w \<Longrightarrow> R (w_fc w) (f (w_fc w))" and "Q () (w\<lparr>w_fc := f (w_fc w)\<rparr>)"
  shows "runs (pass_ok k eid en) (chain_rel R k en) (set_fc f) Q w"
  using assms by (auto simp: runs_def set_fc_def pass_ok_def chain_rel_def pass_rel_def kept_refl)

text \<open>An update of the chain's own fields.\<close>

lemma pass_set_fields:
  "(\<And>fc. fc_objs (f fc) = fc_objs fc \<and> fc_pending (f fc) = fc_pending fc \<and> fc_batchesFolded (f fc) = fc_batchesFolded fc) \<Longrightarrow>
   safe k eid en (set_fc f) w"
  by (rule chain_set_fc) (auto simp: chain_ok_def same_order_def grows_def obj_def)

lemma same_order_obj: "bi_Seq b = bi_Seq (obj fc p) \<Longrightarrow> same_order fc (fc\<lparr>fc_objs := (fc_objs fc)[p := b]\<rparr>)"
  unfolding same_order_def grows_def obj_def by simp (metis nth_list_update_eq nth_list_update_neq)

lemma pass_set_obj:
  assumes "\<And>b. bi_ElectionID (f b) = bi_ElectionID b \<and> bi_Seq (f b) = bi_Seq b \<and> bi_VoteIDs (f b) = bi_VoteIDs b"
  shows "safe k eid en (set_obj p f) w"
proof (cases "p < length (fc_objs (w_fc w))")
  case True
  then have "obj (w_fc w) p \<in> set (fc_objs (w_fc w))" by (simp add: obj_def)
  then show ?thesis unfolding set_obj_def using assms
    by (intro chain_set_fc same_order_obj) (auto simp: chain_ok_def dest!: set_update_subset_insert[THEN subsetD])
qed (simp add: set_obj_def, rule chain_set_fc, auto simp: list_update_beyond same_order_refl)

lemma pass_alloc_objs:
  assumes "\<And>b. b \<in> set bs \<Longrightarrow> bi_ElectionID b = eid \<and> batch_votes (store (w_eng w)) eid (bi_Seq b) = Some (bi_VoteIDs b)"
  shows "passes k eid en (alloc bs) (\<lambda>ps w'. (\<forall>p \<in> set ps. ptr_in w' p) \<and> map (obj (w_fc w')) ps = bs) w"
proof -
  have "map (obj (fc\<lparr>fc_objs := fc_objs fc @ bs\<rparr>)) [length (fc_objs fc) ..< length (fc_objs fc) + length bs] = bs" for fc
    by (rule nth_equalityI) (simp_all add: obj_def)
  then show ?thesis using assms
    by (auto simp: alloc_def runs_def seq_Some get_fc_def set_fc_def ret_def pass_ok_def chain_rel_def pass_rel_def
      same_order_def grows_def obj_def nth_append kept_refl chain_ok_def ptr_in_def)
qed

lemma pass_alloc:
  assumes "\<And>b. b \<in> set bs \<Longrightarrow> bi_ElectionID b = eid \<and> batch_votes (store (w_eng w)) eid (bi_Seq b) = Some (bi_VoteIDs b)"
  shows "passes k eid en (alloc bs) (\<lambda>ps w'. \<forall>p \<in> set ps. ptr_in w' p) w"
  by (rule runs_weaken[OF pass_alloc_objs[OF assms]]) auto

lemma stored_batch:
  assumes "pass_ok k eid en w"
  shows "b \<in> set (ListBatchInputs (store (w_eng w)) eid) \<Longrightarrow>
      bi_ElectionID b = eid \<and> batch_votes (store (w_eng w)) eid (bi_Seq b) = Some (bi_VoteIDs b)"
    "store_BatchInput (store (w_eng w)) eid sq = Inr b \<Longrightarrow>
      bi_ElectionID b = eid \<and> batch_votes (store (w_eng w)) eid (bi_Seq b) = Some (bi_VoteIDs b)"
proof -
  have wf: "storage_wf (store (w_eng w))" using assms sys_inv_wf[of k "w_sys w"] by (simp add: pass_ok_def)
  have at: "bi_ElectionID b = eid \<and> batch_votes (store (w_eng w)) eid (bi_Seq b) = Some (bi_VoteIDs b)"
    if b: "batch_at (store (w_eng w)) eid sq = Some b" for sq
    using batch_at_ID[OF wf b] b by (simp add: batch_votes_def)
  show "b \<in> set (ListBatchInputs (store (w_eng w)) eid) \<Longrightarrow>
      bi_ElectionID b = eid \<and> batch_votes (store (w_eng w)) eid (bi_Seq b) = Some (bi_VoteIDs b)"
    using at ListBatchInputs_mem[OF wf] by blast
  assume "store_BatchInput (store (w_eng w)) eid sq = Inr b"
  then have "batch_at (store (w_eng w)) eid sq = Some b" by (simp add: reads(4)[OF wf] found_def split: option.splits)
  then show "bi_ElectionID b = eid \<and> batch_votes (store (w_eng w)) eid (bi_Seq b) = Some (bi_VoteIDs b)" by (rule at)
qed

abbreviation loaded_from :: "('b, 'v, 'st) world \<Rightarrow> ElectionID \<Rightarrow> BatchInput list \<Rightarrow> bool" where
  "loaded_from w eid bs \<equiv>
     \<forall>b \<in> set bs. bi_ElectionID b = eid \<and> batch_votes (store (w_eng w)) eid (bi_Seq b) = Some (bi_VoteIDs b)"

lemma pass_list: "passes k eid en (read_store en (\<lambda>s. ListBatchInputs s eid)) (\<lambda>bs w'. loaded_from w' eid bs) w"
  by (rule pass.runs_read_store) (use stored_batch(1) in blast)

lemma pass_list_all:
  "passes k eid en (read_store en (\<lambda>s. ListBatchInputs s eid))
    (\<lambda>bs w'. loaded_from w' eid bs \<and> bi_Seq ` set bs = {sq. batch_votes (store (w_eng w')) eid sq \<noteq> None}) w"
proof (rule pass.runs_read_store)
  fix w1 assume ok: "pass_ok k eid en w1"
  let ?s = "store (w_eng w1)"
  have wf: "storage_wf ?s" using ok sys_inv_wf[of k "w_sys w1"] by (simp add: pass_ok_def)
  have "batch_votes ?s eid sq \<noteq> None \<longleftrightarrow> sq \<in> bi_Seq ` set (ListBatchInputs ?s eid)" for sq
  proof
    assume "batch_votes ?s eid sq \<noteq> None"
    then obtain b where b: "batch_at ?s eid sq = Some b" by (auto simp: batch_votes_def)
    then have "bi_Seq b = sq" using batch_at_ID[OF wf b] by simp
    with b show "sq \<in> bi_Seq ` set (ListBatchInputs ?s eid)" by (auto simp: ListBatchInputs_mem[OF wf] image_iff intro!: exI[of _ b])
  qed (auto simp: ListBatchInputs_mem[OF wf] batch_votes_def)
  then show "loaded_from w1 eid (ListBatchInputs ?s eid) \<and>
      bi_Seq ` set (ListBatchInputs ?s eid) = {sq. batch_votes ?s eid sq \<noteq> None}"
    using stored_batch(1)[OF ok] by auto
qed

section \<open>Proofs of batches\<close>

lemma safe_saveBatch:
  assumes p: "ptr_in w p"
  shows "safe k eid en (saveBatch en p) w"
  unfolding saveBatch_def
proof (rule pass.runs_atomic)
  fix n w1 r w'
  assume ok: "pass_ok k eid en w1" and h: "quiet_rel k en w w1"
  let ?b = "obj (w_fc w1) p"
  let ?b' = "if bi_SealedAt ?b = 0 then ?b\<lparr>bi_SealedAt := clock en n\<rparr> else ?b"
  let ?y = "(w_sys w1)\<lparr>eng := (w_eng w1)\<lparr>store := store_step (OpSetBatchInput (clock en n) ?b) (store (w_eng w1))\<rparr>\<rparr>"
  let ?fc = "(w_fc w1)\<lparr>fc_objs := (fc_objs (w_fc w1))[p := ?b']\<rparr>"
  assume "(let b = ?b; b' = (if bi_SealedAt b = 0 then b\<lparr>bi_SealedAt := clock en n\<rparr> else b);
         r = SetBatchInput (clock en n) (store (w_eng w1)) b in
     (fst r, (set_eng ((w_eng w1)\<lparr>store := snd r\<rparr>) w1)\<lparr>w_fc := (w_fc w1)\<lparr>fc_objs := (fc_objs (w_fc w1))[p := b']\<rparr>\<rparr>)) = (r, w')"
  then have w': "w' = w1\<lparr>w_sys := ?y, w_fc := ?fc\<rparr>" by (auto simp: Let_def set_eng_sys)
  note b = ptr_obj[OF ok ptr_stays[OF p h]]
  have m: "sched_move (w_sys w1) ?y" by (rule Write) (simp_all add: b)
  have cs: "chains_ok eid (w_sys w1)" and c: "chain_ok (store (w_eng w1)) eid (w_fc w1)" using ok by (auto simp: pass_ok_def)
  have fc: "chain_ok t eid ?fc" if "kept (store (w_eng w1)) t" for t
    using chain_ok_kept[OF that c] b kept_batch[OF that b(2)]
    by (auto simp: chain_ok_def dest!: set_update_subset_insert[THEN subsetD])
  show "pass_ok k eid en w' \<and> quiet_rel k en w1 w' \<and> True"
    using pass_move[OF ok m chains_ok_kept[OF _ _ cs] fc] same_order_obj[of ?b' "w_fc w1" p] by (simp add: w' chain_rel_def)
qed

lemmas act_intros = pass.runs_base pass.runs_simple pass.runs_requests pass.runs_waitJob pass.runs_acquire pass.runs_claim
  pass.runs_call pass.runs_runJob

lemma safe_dropBatchProof:
  assumes p: "ptr_in w p"
  shows "safe k eid en (dropBatchProof en p) w"
  unfolding dropBatchProof_def
proof (intro act_intros pass_set_obj pass_set_fields)
  fix r1 w1 r2 w2
  assume h: "quiet_rel k en w w1" "quiet_rel k en w1 w2" and ok: "pass_ok k eid en w2"
  note b = ptr_obj[OF ok ptr_stays[OF ptr_stays[OF p h(1)] h(2)]]
  show "safe k eid en (on_store en (\<lambda>_ s. ResetBatch s (obj (w_fc w2) p))) w2"
    by (rule pass_on_store[where op = "\<lambda>_. OpResetBatch (obj (w_fc w2) p)"]) (simp_all add: b(1) kept_batch[OF heap_kept b(2)])
qed simp_all

text \<open>The writes that are harmless whatever they write.\<close>

lemma safe_writes:
  "safe k eid en (on_store en (\<lambda>_ s. SetBatchProof s i sq pf)) w"
  "safe k eid en (on_store en (\<lambda>_ s. DeleteBatchProof s i sq)) w"
  "safe k eid en (on_store en (\<lambda>now s. ReserveBatch now s i sq)) w"
  "safe k eid en (on_store en (\<lambda>_ s. ReleaseBatch s i sq)) w"
  "safe k eid en (on_store en (\<lambda>now s. SetFoldCheckpoint now s cp)) w"
  "safe k eid en (on_store en (\<lambda>now s. SetResults now s res)) w"
  by (rule pass_on_store[where op = "\<lambda>_. OpSetBatchProof i sq pf"] pass_on_store[where op = "\<lambda>_. OpDeleteBatchProof i sq"]
      pass_on_store[where op = "\<lambda>now. OpReserveBatch now i sq"] pass_on_store[where op = "\<lambda>_. OpReleaseBatch i sq"]
      pass_on_store[where op = "\<lambda>now. OpSetFoldCheckpoint now cp"]
      pass_on_store[where op = "\<lambda>now. OpSetResults now res"]; simp; fail)+

lemma safe_proveOn: "ptr_in w p \<Longrightarrow> safe k eid en (proveOn en p h req vk) w"
  unfolding proveOn_def by (intro act_intros pass_set_obj safe_saveBatch; (simp; fail | meson ptr_stays))

lemma safe_prove_loop: "ptr_in w p \<Longrightarrow> safe k eid en (prove_loop en eid p req vk n bad er) w"
proof (induction n arbitrary: bad er w)
  case 0
  show ?case unfolding prove_loop.simps by (intro act_intros)
next
  case (Suc n)
  then show ?case unfolding prove_loop.simps by (intro act_intros safe_proveOn Suc.IH; (simp; fail | meson ptr_stays))
qed

lemma safe_prove: "ptr_in w p \<Longrightarrow> safe k eid en (prove en eid p avoid vk) w"
  unfolding prove_def by (intro act_intros safe_prove_loop)

lemma safe_keepProof: "safe k eid en (keepProof en eid sq pf) w"
  unfolding keepProof_def by (intro act_intros safe_writes)

lemma safe_batchProof: "ptr_in w p \<Longrightarrow> safe k eid en (batchProof en eid p held avoid vk) w"
  unfolding batchProof_def by (intro act_intros safe_writes safe_prove safe_keepProof; (simp; fail | meson ptr_stays))

section \<open>The fold worker's pin and the audit trail\<close>

lemma safe_auditA: "safe k eid en (auditA en action i) w"
  unfolding auditA_def
proof (rule pass.runs_atomic)
  fix n w1 r w'
  assume ok: "pass_ok k eid en w1"
    and "((), set_eng (audit (clock en n) (w_eng w1) ''system'' ''system'' action i) w1) = (r, w')"
  then have w': "w' = w1\<lparr>w_sys := (w_sys w1)\<lparr>eng := audit (clock en n) (w_eng w1) ''system'' ''system'' action i\<rparr>\<rparr>"
    by (simp add: set_eng_sys)
  show "pass_ok k eid en w' \<and> quiet_rel k en w1 w' \<and> True"
    unfolding w' using pass_move_store[OF ok Audit] by simp
qed

lemma safe_pin: "safe k eid en (on_store en (\<lambda>now s. UpdateElection now s i (\<lambda>el. Inr (el\<lparr>el_FoldWorker := a\<rparr>)))) w"
  unfolding on_store_def
proof (rule pass.runs_atomic)
  fix n w1 r w'
  assume ok: "pass_ok k eid en w1"
  let ?u = "UpdateElection (clock en n) (store (w_eng w1)) i (\<lambda>el. Inr (el\<lparr>el_FoldWorker := a\<rparr>))"
  assume "(let r = ?u in (fst r, set_eng ((w_eng w1)\<lparr>store := snd r\<rparr>) w1)) = (r, w')"
  then have w': "w' = w1\<lparr>w_sys := (w_sys w1)\<lparr>eng := (w_eng w1)\<lparr>store := snd ?u\<rparr>\<rparr>\<rparr>" by (simp add: Let_def set_eng_sys)
  show "pass_ok k eid en w' \<and> quiet_rel k en w1 w' \<and> True"
    unfolding w' using pass_move_store[OF ok Pin] by simp
qed

section \<open>Scattered proofs\<close>

fun task_in :: "('b, 'v, 'st) world \<Rightarrow> proveTask \<Rightarrow> bool" where
  "task_in w (Proving p _ _ _) = ptr_in w p"
| "task_in w (Proved _) = True"

definition sct_in :: "('b, 'v, 'st) world \<Rightarrow> scatter \<Rightarrow> bool" where
  "sct_in w s \<longleftrightarrow> (\<forall>p \<in> set (sct_batches s). ptr_in w p) \<and> (\<forall>sq t. sct_tasks s sq = Some t \<longrightarrow> task_in w t)"

lemma task_stays: "task_in w t \<Longrightarrow> quiet_rel k en w w' \<Longrightarrow> task_in w' t"
  by (cases t) (auto intro: ptr_stays)

lemma sct_stays: "sct_in w s \<Longrightarrow> quiet_rel k en w w' \<Longrightarrow> sct_in w' s"
  unfolding sct_in_def by (meson ptr_stays task_stays)

lemma sct_put: "sct_in w s \<Longrightarrow> task_in w t \<Longrightarrow> sct_in w (s\<lparr>sct_tasks := (sct_tasks s)(sq \<mapsto> t)\<rparr>)"
  by (auto simp: sct_in_def)

lemma sct_drop: "sct_in w s \<Longrightarrow> sct_in w (s\<lparr>sct_tasks := (sct_tasks s)(sq := None)\<rparr>)"
  by (auto simp: sct_in_def split: if_splits)

lemma newTask_in: "ptr_in w p \<Longrightarrow> passes k eid en (newTask en eid p) (\<lambda>t w'. task_in w' t) w"
  unfolding newTask_def by (intro act_intros; simp; meson ptr_stays)

lemma newTasks_in:
  "(\<And>p. p \<in> set ps \<Longrightarrow> ptr_in w p) \<Longrightarrow> sct_in w s \<Longrightarrow> passes k eid en (newTasks en eid ps s) (\<lambda>s' w'. sct_in w' s') w"
proof (induction ps arbitrary: w s)
  case Nil
  then show ?case by (simp add: pass.runs_ret)
next
  case (Cons p ps)
  have p: "ptr_in w p" "\<And>q. q \<in> set ps \<Longrightarrow> ptr_in w q" using Cons.prems(1) by auto
  show ?case unfolding newTasks.simps
  proof (intro runs_get_fc runs_if)
    show "passes k eid en (newTasks en eid ps s) (\<lambda>s' w'. sct_in w' s') w" by (rule Cons.IH[OF p(2) Cons.prems(2)])
    show "passes k eid en (seq (newTask en eid p) (\<lambda>t. newTasks en eid ps
        (s\<lparr>sct_tasks := (sct_tasks s)(bi_Seq (obj (w_fc w) p) \<mapsto> t)\<rparr>))) (\<lambda>s' w'. sct_in w' s') w"
      by (rule pass.runs_seqI[OF newTask_in[OF p(1)]], rule Cons.IH)
        (auto intro: ptr_stays[OF p(2)] sct_put sct_stays[OF Cons.prems(2)])
  qed
qed

lemma start_in: "sct_in w s \<Longrightarrow> passes k eid en (start en eid s i) (\<lambda>s' w'. sct_in w' s') w"
  unfolding start_def
proof (intro runs_get_fc pass.runs_seq act_intros)
  fix av w1 assume s: "sct_in w s" and h: "quiet_rel k en w w1"
  note s1 = sct_stays[OF s h]
  show "passes k eid en (newTasks en eid (drop i (take (windowEnd (w_fc w1) s i av) (sct_batches s))) s) (\<lambda>s' w'. sct_in w' s') w1"
    using s1 by (intro newTasks_in[OF _ s1]) (auto simp: sct_in_def dest!: in_set_dropD in_set_takeD)
qed

abbreviation scatters :: "('v, 'st) sdk \<Rightarrow> ElectionID \<Rightarrow> ('b, 'v, 'st) env \<Rightarrow> ('b, 'v, 'st, scatter) act \<Rightarrow> ('b, 'v, 'st) world \<Rightarrow> bool" where
  "scatters k eid en m w \<equiv> passes k eid en m (\<lambda>s' w'. sct_in w' s') w"

abbreviation gathers ::
  "('v, 'st) sdk \<Rightarrow> ElectionID \<Rightarrow> ('b, 'v, 'st) env \<Rightarrow> ('b, 'v, 'st, 'a \<times> scatter) act \<Rightarrow> ('b, 'v, 'st) world \<Rightarrow> bool" where
  "gathers k eid en m w \<equiv> passes k eid en m (\<lambda>r w'. sct_in w' (snd r)) w"

lemma sct_append: "sct_in w s \<Longrightarrow> \<forall>p \<in> set ps. ptr_in w p \<Longrightarrow> sct_in w (s\<lparr>sct_batches := sct_batches s @ ps\<rparr>)"
  by (auto simp: sct_in_def)

lemma topUp_in:
  fixes en :: "('b, 'v, 'st) env"
  assumes "sct_in w s"
  shows "scatters k eid en (topUp en eid s) w"
proof -
  let ?P = "\<lambda>e i s (w :: ('b, 'v, 'st) world) y. e = en \<longrightarrow> i = eid \<longrightarrow> sct_in w s \<longrightarrow>
    ends (pass_ok k eid en) (quiet_rel k en) (\<lambda>s' w'. sct_in w' s') w y"
  have "?P e i s w y" if "topUp e i s w = Some y" for e i s w y
  proof (rule topUp.raw_induct[where P = ?P, OF _ that], goal_cases)
    case (1 loop e i s w y)
    have IH: "scatters k eid en (loop en eid s) w" if "sct_in w s" for s w using 1(1) that by (intro ends_runs) blast
    show ?case
    proof (intro impI)
      assume e: "e = en" "i = eid" and s: "sct_in w s"
      have next_batch: "scatters k eid en (seq (alloc [b]) (\<lambda>ps. loop en eid (s\<lparr>sct_batches := sct_batches s @ ps\<rparr>))) w1"
        if "quiet_rel k en w w1" "bi_ElectionID b = eid \<and> batch_votes (store (w_eng w1)) eid (bi_Seq b) = Some (bi_VoteIDs b)" for b w1
        by (rule pass.runs_seqI[OF pass_alloc], use that in simp, rule IH)
          (intro sct_append sct_stays[OF sct_stays[OF s that(1)]])
      show "ends (pass_ok k eid en) (quiet_rel k en) (\<lambda>s' w'. sct_in w' s') w y"
        by (rule runs_ends[OF 1(2)[unfolded e]], intro runs_get_fc pass.runs_seqI[OF pass.runs_read_store[where Q = "\<lambda>r w'.
          \<forall>b. r = Inr b \<longrightarrow> bi_ElectionID b = eid \<and> batch_votes (store (w_eng w')) eid (bi_Seq b) = Some (bi_VoteIDs b)"]] runs_sum
          pass.runs_ret next_batch) (use stored_batch(2) sct_stays[OF s] in blast)+
    qed
  qed
  then show ?thesis using assms by (intro ends_runs) blast
qed

lemma proof_wait_in:
  fixes en :: "('b, 'v, 'st) env"
  assumes "sct_in w s"
  shows "gathers k eid en (proof_wait en eid sq n s) w"
proof -
  let ?P = "\<lambda>e i sq n s (w :: ('b, 'v, 'st) world) y. e = en \<longrightarrow> i = eid \<longrightarrow> sct_in w s \<longrightarrow>
    ends (pass_ok k eid en) (quiet_rel k en) (\<lambda>r w'. sct_in w' (snd r)) w y"
  have "?P e i sq n s w y" if "proof_wait e i sq n s w = Some y" for e i sq n s w y
  proof (rule proof_wait.raw_induct[where P = ?P, OF _ that], goal_cases)
    case (1 loop e i sq n s w y)
    have IH: "gathers k eid en (loop en eid sq n s) w" if "sct_in w s" for sq n s w using 1(1) that by (intro ends_runs) blast
    show ?case
    proof (intro impI)
      assume e: "e = en" "i = eid" and s: "sct_in w s"
      have task: "ptr_in w1 p" if "sct_in w1 s1" "sct_tasks s1 sq = Some (Proving p held avoid vk)" for w1 s1 p held avoid vk
        using that unfolding sct_in_def by fastforce
      have turn: "gathers k eid en (seq (ask en (ready en)) (\<lambda>rd.
              if rd
              then seq (batchProof en eid p held avoid vk) (\<lambda>r. ret (r, s1\<lparr>sct_tasks := (sct_tasks s1)(sq := None)\<rparr>))
              else seq (topUp en eid s1) (loop en eid sq n))) w1"
        if s1: "sct_in w1 s1" "sct_tasks s1 sq = Some (Proving p held avoid vk)" for s1 w1 p held avoid vk
      proof (rule pass.runs_seq[OF pass.runs_read(3)], rule runs_if)
        fix rd w2 assume h: "quiet_rel k en w1 w2"
        note s2 = sct_stays[OF s1(1) h]
        show "gathers k eid en (seq (batchProof en eid p held avoid vk)
            (\<lambda>r. ret (r, s1\<lparr>sct_tasks := (sct_tasks s1)(sq := None)\<rparr>))) w2"
          by (rule pass.runs_seq[OF safe_batchProof[OF task[OF s2 s1(2)]]], rule pass.runs_ret)
            (simp add: sct_drop sct_stays[OF s2])
        show "gathers k eid en (seq (topUp en eid s1) (loop en eid sq n)) w2"
          by (rule pass.runs_seqI[OF topUp_in[OF s2] IH])
      qed
      show "ends (pass_ok k eid en) (quiet_rel k en) (\<lambda>r w'. sct_in w' (snd r)) w y"
      proof (rule runs_ends[OF 1(2)[unfolded e]], rule pass.runs_seqI[OF start_in[OF s]], rule runs_option)
        fix s1 t and w1 :: "('b, 'v, 'st) world" assume s1: "sct_in w1 s1" and t: "sct_tasks s1 sq = Some t"
        show "gathers k eid en (case t of Proved r \<Rightarrow> ret (r, s1\<lparr>sct_tasks := (sct_tasks s1)(sq := None)\<rparr>)
            | Proving p held avoid vk \<Rightarrow> seq (ask en (ready en)) (\<lambda>rd.
              if rd
              then seq (batchProof en eid p held avoid vk) (\<lambda>r. ret (r, s1\<lparr>sct_tasks := (sct_tasks s1)(sq := None)\<rparr>))
              else seq (topUp en eid s1) (loop en eid sq n))) w1"
          using sct_drop[OF s1] turn[OF s1] t by (cases t) (simp_all add: pass.runs_ret)
      qed (simp add: pass.runs_ret)
    qed
  qed
  then show ?thesis using assms by (intro ends_runs) blast
qed

lemma gatherProof_in: "sct_in w s \<Longrightarrow> gathers k eid en (gatherProof en eid s i) w"
  unfolding gatherProof_def by (rule runs_get_fc, rule pass.runs_seqI[OF topUp_in proof_wait_in])

lemma safe_waitTasks: "sct_in w s \<Longrightarrow> safe k eid en (waitTasks en eid s qs) w"
proof (induction qs arbitrary: w)
  case Nil
  show ?case unfolding waitTasks.simps by (intro act_intros)
next
  case (Cons q qs)
  show ?case unfolding waitTasks.simps
  proof (intro runs_get_fc pass.runs_seq)
    show "safe k eid en (case sct_tasks s (bi_Seq (obj (w_fc w) q)) of None \<Rightarrow> ret ()
        | Some (Proved _) \<Rightarrow> ret ()
        | Some (Proving p held avoid vk) \<Rightarrow> seq (batchProof en eid p held avoid vk) (\<lambda>_. ret ())) w"
      using Cons.prems by (auto simp: sct_in_def pass.runs_ret split: option.split proveTask.split intro!: pass.runs_seq safe_batchProof)
        (metis task_in.simps(1))
    show "safe k eid en (waitTasks en eid s qs) w1" if "quiet_rel k en w w1" for w1
      by (rule Cons.IH[OF sct_stays[OF Cons.prems that]])
  qed
qed

end
