(* ===== verification/Scheduler_Steps.thy ===== *)
theory Scheduler_Steps
  imports Run_Invariant
begin

text \<open>
  The code of the scheduler makes no step that the system of theory System does not list: a
  run of \<open>Dispatch\<close>, \<open>Drain\<close> or \<open>Finalize\<close> is an interleaving of scheduler steps and what
  the other goroutines do, so the invariant of the system holds whenever it looks, and every
  fold it commits continues the chain where the one before ended.
\<close>

section \<open>Runs that keep the order of the pending batches\<close>

abbreviation order_rel :: "('v, 'st) sdk \<Rightarrow> ('b, 'v, 'st) env \<Rightarrow> ('b, 'v, 'st) world \<Rightarrow> ('b, 'v, 'st) world \<Rightarrow> bool" where
  "order_rel \<equiv> chain_rel ordered"

abbreviation orders ::
  "('v, 'st) sdk \<Rightarrow> ElectionID \<Rightarrow> ('b, 'v, 'st) env \<Rightarrow> ('b, 'v, 'st, 'a) act \<Rightarrow> ('a \<Rightarrow> ('b, 'v, 'st) world \<Rightarrow> bool)
    \<Rightarrow> ('b, 'v, 'st) world \<Rightarrow> bool" where
  "orders k eid en \<equiv> runs (pass_ok k eid en) (order_rel k en)"

abbreviation sound ::
  "('v, 'st) sdk \<Rightarrow> ElectionID \<Rightarrow> ('b, 'v, 'st) env \<Rightarrow> ('b, 'v, 'st, 'a) act \<Rightarrow> ('b, 'v, 'st) world \<Rightarrow> bool" where
  "sound k eid en m w \<equiv> orders k eid en m (\<lambda>_ _. True) w"

abbreviation seq_in :: "('b, 'v, 'st) world \<Rightarrow> bool" where
  "seq_in w \<equiv> in_seq (w_fc w)"

lemma runs_rel:
  assumes "runs (pass_ok k eid en) (chain_rel R k en) m Q w"
    and "\<And>r w'. pass_ok k eid en w \<Longrightarrow> pass_ok k eid en w' \<Longrightarrow> chain_rel R k en w w' \<Longrightarrow> Q r w' \<Longrightarrow>
      R' (w_fc w) (w_fc w') \<and> Q' r w'"
  shows "runs (pass_ok k eid en) (chain_rel R' k en) m Q' w"
  using assms by (auto simp: runs_def chain_rel_def)

lemma quiet_order: "pass_ok k eid en w \<Longrightarrow> quiet_rel k en w w' \<Longrightarrow> order_rel k en w w'"
  using same_order_ordered by (auto simp: chain_rel_def pass_ok_def)

lemma quiet_orders: "passes k eid en m Q w \<Longrightarrow> orders k eid en m Q w"
  by (erule runs_rel) (auto dest: quiet_order simp: chain_rel_def)

lemma mixed_seqI:
  assumes "passes k eid en m P w"
    and "\<And>r w'. pass_ok k eid en w \<Longrightarrow> pass_ok k eid en w' \<Longrightarrow> quiet_rel k en w w' \<Longrightarrow> P r w' \<Longrightarrow> orders k eid en (f r) Q w'"
  shows "orders k eid en (seq m f) Q w"
proof (rule fifo.runs_seqI)
  show "orders k eid en m (\<lambda>r w'. pass_ok k eid en w \<and> quiet_rel k en w w' \<and> P r w') w"
    using assms(1) by (rule runs_rel) (auto dest: quiet_order simp: chain_rel_def)
qed (use assms(2) in blast)

lemma mixed_seq:
  assumes "safe k eid en m w"
    and "\<And>r w'. pass_ok k eid en w \<Longrightarrow> pass_ok k eid en w' \<Longrightarrow> quiet_rel k en w w' \<Longrightarrow> orders k eid en (f r) Q w'"
  shows "orders k eid en (seq m f) Q w"
  using assms by (rule mixed_seqI)

lemma mixed_andOkI:
  assumes "safe k eid en m w"
    and "\<And>r w'. pass_ok k eid en w \<Longrightarrow> pass_ok k eid en w' \<Longrightarrow> quiet_rel k en w w' \<Longrightarrow> orders k eid en (f r) Q w'"
    and "\<And>er w'. Q (Inl er) w'"
  shows "orders k eid en (andOk m f) Q w"
  unfolding andOk_def by (rule mixed_seq[OF assms(1)]) (auto intro!: runs_sum assms(2,3) fifo.runs_ret)

lemmas mixed_andOk = mixed_andOkI[where Q = "\<lambda>_ _. True", OF _ _ TrueI]

lemmas mixed_intros = runs_splits mixed_seq mixed_andOk fifo.runs_ret TrueI

lemma ptr_order: "ptr_in w p \<Longrightarrow> order_rel k en w w' \<Longrightarrow> ptr_in w' p"
  by (simp add: ptr_in_def chain_rel_def ordered_def grows_def)

lemma seq_order: "seq_in w \<Longrightarrow> order_rel k en w w' \<Longrightarrow> seq_in w'"
  by (simp add: chain_rel_def ordered_def)

text \<open>The batch that comes next.\<close>

definition comes_next :: "('b, 'v, 'st) world \<Rightarrow> ptr \<Rightarrow> bool" where
  "comes_next w p \<longleftrightarrow> ptr_in w p \<and> bi_Seq (obj (w_fc w) p) = fc_next (w_fc w)"

lemma next_stays: "comes_next w p \<Longrightarrow> quiet_rel k en w w' \<Longrightarrow> comes_next w' p"
  by (auto simp: comes_next_def ptr_in_def chain_rel_def same_order_def grows_def fc_next_def)

lemma next_ptr: "comes_next w p \<Longrightarrow> ptr_in w p"
  by (simp add: comes_next_def)

text \<open>The number of the first batch that is not imported yet.\<close>

abbreviation head :: "('b, 'v, 'st) world \<Rightarrow> u64" where
  "head w \<equiv> fc_next (w_fc w)"

lemma quiet_head: "quiet_rel k en w w' \<Longrightarrow> head w' = head w"
  by (simp add: chain_rel_def same_order_def fc_next_def)

lemma ord_push:
  "comes_next w p \<Longrightarrow> orders k eid en (set_fc (\<lambda>fc. fc\<lparr>fc_pending := fc_pending fc @ [p]\<rparr>)) (\<lambda>_ w'. head w' = head w + 1) w"
  by (rule chain_set_fc)
    (auto simp: comes_next_def chain_ok_def ptr_in_def ordered_def grows_def in_seq_def pendingSeqs_def obj_def fc_next_def)

lemma push_seq:
  assumes "comes_next w p" and "\<And>w'. order_rel k en w w' \<Longrightarrow> head w' = head w + 1 \<Longrightarrow> orders k eid en (f ()) Q w'"
  shows "orders k eid en (seq (set_fc (\<lambda>fc. fc\<lparr>fc_pending := fc_pending fc @ [p]\<rparr>)) f) Q w"
  by (rule fifo.runs_seqI[OF ord_push[OF assms(1)]]) (simp add: assms(2))

lemma import_head:
  "comes_next w p \<Longrightarrow> orders k eid en (importBatch en h p pf) (\<lambda>r w'. isOk r \<longrightarrow> head w' = head w + 1) w"
  unfolding importBatch_def
  by (intro push_seq mixed_andOkI mixed_intros fifo.runs_ret act_intros safe_dropBatchProof pass_set_obj pass_set_fields safe_saveBatch;
      ((simp; fail) | ((drule quiet_head)+, simp; fail) | meson next_stays next_ptr))

lemmas ord_importBatch = runs_weaken[OF import_head TrueI]

lemma ord_sync_loop: "(\<And>p. p \<in> set ps \<Longrightarrow> ptr_in w p) \<Longrightarrow> sound k eid en (sync_loop en eid h a force ps) w"
proof (induction ps arbitrary: w)
  case Nil
  show ?case unfolding sync_loop.simps by (intro mixed_intros)
next
  case (Cons p ps)
  have p: "ptr_in w p" and ps: "\<And>q. q \<in> set ps \<Longrightarrow> ptr_in w q" using Cons.prems by auto
  have go: "sound k eid en (sync_loop en eid h a force ps) w1" if "order_rel k en w w1" for w1
    using Cons.IH ptr_order[OF ps that] by blast
  have self: "order_rel k en w w" by (simp add: chain_rel_def pass_rel_refl ordered_def grows_def)
  show ?case
  proof (cases "bi_Seq (obj (w_fc w) p) = fc_next (w_fc w)")
    case True
    then have n: "comes_next w p" using p by (simp add: comes_next_def)
    have im: "sound k eid en (andOk (wrapA (Detail ''batch'') (importBatch en h p pf)) (\<lambda>_. sync_loop en eid h a force ps)) w1"
      if h: "pass_ok k eid en w" "quiet_rel k en w w1" for pf w1
      using fifo.rel_trans[OF quiet_order[OF h]]
      by (intro fifo.runs_andOk fifo.runs_wrapA ord_importBatch next_stays[OF n h(2)] go)
    show ?thesis unfolding sync_loop.simps
      by (rule runs_get_fc, simp only: prod.case True less_irrefl if_False not_True_eq_False simp_thms)
        (intro push_seq[OF n] go mixed_intros pass.runs_read im; assumption)
  next
    case False
    then show ?thesis unfolding sync_loop.simps using go[OF self]
      by (intro mixed_intros) auto
  qed
qed

section \<open>The fold worker\<close>

lemma safe_foldWorker: "safe k eid en (foldWorker en eid) w"
  unfolding foldWorker_def moveTo_def by (intro act_intros safe_pin safe_auditA pass_set_fields; simp)

text \<open>
  \<open>sync\<close> may reset the number of folded batches while it still lists the old pending ones;
  it lists them anew right after, so the order is restored by its end.
\<close>

abbreviation resets ::
  "('v, 'st) sdk \<Rightarrow> ElectionID \<Rightarrow> ('b, 'v, 'st) env \<Rightarrow> ('b, 'v, 'st, 'a) act \<Rightarrow> ('a \<Rightarrow> ('b, 'v, 'st) world \<Rightarrow> bool)
    \<Rightarrow> ('b, 'v, 'st) world \<Rightarrow> bool" where
  "resets k eid en \<equiv> runs (pass_ok k eid en) (chain_rel grows k en)"

lemma resets_seqI:
  assumes "passes k eid en m P w"
    and "\<And>r w'. pass_ok k eid en w' \<Longrightarrow> order_rel k en w w' \<Longrightarrow> P r w' \<Longrightarrow> resets k eid en (f r) Q w'"
  shows "resets k eid en (seq m f) Q w"
proof (rule heap.runs_seqI)
  show "resets k eid en m (\<lambda>r w'. order_rel k en w w' \<and> P r w') w"
    using assms(1) by (rule runs_rel) (auto dest: quiet_order simp: chain_rel_def ordered_def)
qed (use assms(2) in blast)

lemma orders_resets: "orders k eid en m Q w \<Longrightarrow> (\<And>r w'. order_rel k en w w' \<Longrightarrow> Q r w' \<Longrightarrow> Q' r w') \<Longrightarrow> resets k eid en m Q' w"
  by (erule runs_rel) (auto simp: chain_rel_def ordered_def)

lemma resets_orders: "resets k eid en m (\<lambda>_ w'. seq_in w \<longrightarrow> seq_in w') w \<Longrightarrow> sound k eid en m w"
  by (erule runs_rel) (auto simp: chain_rel_def ordered_def)

lemma resets_syncFold: "resets k eid en (syncFold en eid h) (\<lambda>r w'. isl r \<longrightarrow> seq_in w \<longrightarrow> seq_in w') w"
  unfolding syncFold_def
proof (rule resets_seqI[OF pass.runs_read(1)], rule runs_sum)
  fix r w1 er
  assume o: "order_rel k en w w1"
  show "resets k eid en (if errors_Is er ErrNotFound
         then seq (set_fc (\<lambda>fc. fc\<lparr>fc_lastFold := [], fc_lastFoldOn := [], fc_stateRoot := [], fc_foldCount := 0,
                fc_batchesFolded := 0\<rparr>)) (\<lambda>_. ret (Inr ()))
         else ret (Inl (Detail ''load fold proof'' # er))) (\<lambda>r w'. isl r \<longrightarrow> seq_in w \<longrightarrow> seq_in w') w1"
    by (intro runs_if heap.runs_seq chain_set_fc heap.runs_ret)
      (auto simp: chain_ok_def grows_def intro: seq_order[OF _ o])
next
  fix r w1 pf
  assume o: "order_rel k en w w1"
  have "safe k eid en (andOk (wrapA (Detail ''import last fold'') (importProof en h pf ImportFold)) (\<lambda>jobID.
         seq (address en h) (\<lambda>a.
         seq (set_fc (\<lambda>fc. fc\<lparr>fc_lastFold := jobID, fc_lastFoldOn := a\<rparr>)) (\<lambda>_.
         seq (get_fc (checkpoint eid)) (\<lambda>cp.
         wrapA (Detail ''persist checkpoint'') (on_store en (\<lambda>now s. SetFoldCheckpoint now s cp))))))) w1"
    by (intro act_intros safe_writes pass_set_fields; simp)
  then show "resets k eid en (andOk (wrapA (Detail ''import last fold'') (importProof en h pf ImportFold)) (\<lambda>jobID.
         seq (address en h) (\<lambda>a.
         seq (set_fc (\<lambda>fc. fc\<lparr>fc_lastFold := jobID, fc_lastFoldOn := a\<rparr>)) (\<lambda>_.
         seq (get_fc (checkpoint eid)) (\<lambda>cp.
         wrapA (Detail ''persist checkpoint'') (on_store en (\<lambda>now s. SetFoldCheckpoint now s cp)))))))
        (\<lambda>r w'. isl r \<longrightarrow> seq_in w \<longrightarrow> seq_in w') w1"
    by (rule orders_resets[OF quiet_orders]) (meson o seq_order)
qed

text \<open>The end of \<open>sync\<close>, from where it lists the batches.\<close>

lemma resets_relist:
  fixes en :: "('b, 'v, 'st) env"
  shows "resets k eid en (seq (read_store en (\<lambda>s. ListBatchInputs s eid)) (\<lambda>batches.
     seq (alloc batches) (\<lambda>ps.
     seq (set_fc (\<lambda>fc. fc\<lparr>fc_pending := []\<rparr>)) (\<lambda>_.
     andOk (sync_loop en eid h a force ps) (\<lambda>_.
     seq (set_fc (\<lambda>fc. fc\<lparr>fc_synced := True, fc_resync := False\<rparr>)) (\<lambda>_.
     ret (Inr ()))))))) (\<lambda>_ w'. seq_in w') w"
proof (rule resets_seqI[OF pass_list], rule resets_seqI[OF pass_alloc], blast)
  fix bs and ps :: "ptr list" and w1 w2 :: "('b, 'v, 'st) world"
  assume ps: "\<forall>p \<in> set ps. ptr_in w2 p"
  show "resets k eid en (seq (set_fc (\<lambda>fc. fc\<lparr>fc_pending := []\<rparr>)) (\<lambda>_.
     andOk (sync_loop en eid h a force ps) (\<lambda>_.
     seq (set_fc (\<lambda>fc. fc\<lparr>fc_synced := True, fc_resync := False\<rparr>)) (\<lambda>_.
     ret (Inr ()))))) (\<lambda>_ w'. seq_in w') w2"
  proof (rule heap.runs_seqI[where P = "\<lambda>_ w'. seq_in w' \<and> (\<forall>p \<in> set ps. ptr_in w' p)"])
    show "resets k eid en (set_fc (\<lambda>fc. fc\<lparr>fc_pending := []\<rparr>)) (\<lambda>_ w'. seq_in w' \<and> (\<forall>p \<in> set ps. ptr_in w' p)) w2"
      by (rule chain_set_fc) (use ps in \<open>auto simp: chain_ok_def grows_def in_seq_def pendingSeqs_def ptr_in_def\<close>)
    fix u and w3 :: "('b, 'v, 'st) world" assume w3: "seq_in w3 \<and> (\<forall>p \<in> set ps. ptr_in w3 p)"
    have "sound k eid en (andOk (sync_loop en eid h a force ps) (\<lambda>_.
       seq (set_fc (\<lambda>fc. fc\<lparr>fc_synced := True, fc_resync := False\<rparr>)) (\<lambda>_. ret (Inr ())))) w3"
      using w3 by (intro fifo.runs_andOk ord_sync_loop mixed_intros pass_set_fields) auto
    then show "resets k eid en (andOk (sync_loop en eid h a force ps) (\<lambda>_.
       seq (set_fc (\<lambda>fc. fc\<lparr>fc_synced := True, fc_resync := False\<rparr>)) (\<lambda>_. ret (Inr ())))) (\<lambda>_ w'. seq_in w') w3"
      by (rule orders_resets) (use w3 seq_order in blast)
  qed
qed

lemma ord_sync: "sound k eid en (sync en eid h) w"
proof (rule resets_orders, unfold sync_def, rule resets_seqI[OF pass.runs_simple(2)], intro runs_get_fc runs_prod)
  fix a w1 force move
  assume o: "order_rel k en w w1"
  show "resets k eid en (andOk (if move then syncFold en eid h else ret (Inr ())) (\<lambda>_.
     seq (read_store en (\<lambda>s. ListBatchInputs s eid)) (\<lambda>batches.
     seq (alloc batches) (\<lambda>ps.
     seq (set_fc (\<lambda>fc. fc\<lparr>fc_pending := []\<rparr>)) (\<lambda>_.
     andOk (sync_loop en eid h a force ps) (\<lambda>_.
     seq (set_fc (\<lambda>fc. fc\<lparr>fc_synced := True, fc_resync := False\<rparr>)) (\<lambda>_.
     ret (Inr ())))))))) (\<lambda>_ w'. seq_in w \<longrightarrow> seq_in w') w1"
    unfolding andOk_def[of "if move then syncFold en eid h else ret (Inr ())"]
  proof (rule heap.runs_seqI[where P = "\<lambda>r w'. isl r \<longrightarrow> seq_in w1 \<longrightarrow> seq_in w'"], goal_cases)
    case 1
    show ?case by (intro runs_if resets_syncFold heap.runs_ret) simp
  next
    case (2 r w2)
    then show ?case using seq_order[OF _ o]
      by (intro runs_sum heap.runs_ret runs_weaken[OF resets_relist]) auto
  qed
qed

lemma ord_withFoldWorker:
  assumes op: "\<And>h w'. order_rel k en w w' \<Longrightarrow> orders k eid en (op h) (\<lambda>r w'. \<forall>x. r = Inr x \<longrightarrow> Q x w') w'"
  shows "orders k eid en (withFoldWorker en eid op) (\<lambda>r w'. \<forall>x. r = Inr x \<longrightarrow> Q x w') w"
proof -
  note trans = fifo.rel_trans
  let ?Q = "\<lambda>r w'. \<forall>x. r = Inr x \<longrightarrow> Q x w'"
  have on: "orders k eid en (onFoldWorker en eid op h) ?Q w1" if "order_rel k en w w1" for h w1
    unfolding onFoldWorker_def
    by (intro runs_splits fifo.runs_andOkI[where P = "\<lambda>_ _. True"] op; (simp add: fifo.runs_ret runs_weaken[OF ord_sync]; fail)?)
      (meson that trans)+
  have mark: "sound k eid en (set_fc (\<lambda>fc. fc\<lparr>fc_resync := True\<rparr>)) w1" for w1
    by (rule quiet_orders[OF pass_set_fields]) simp
  have turn: "orders k eid en (andOk (foldWorker en eid) (\<lambda>h. seq (onFoldWorker en eid op h) (\<lambda>r. case r of
      Inr x \<Rightarrow> ret (Inr x) | Inl er \<Rightarrow> again er))) ?Q w1"
    if "order_rel k en w w1" "\<And>er w2. order_rel k en w w2 \<Longrightarrow> orders k eid en (again er) ?Q w2" for again w1
  proof (rule fifo.runs_andOkI[where P = "\<lambda>_ _. True"])
    show "orders k eid en (foldWorker en eid) (\<lambda>r w'. \<forall>x. r = Inr x \<longrightarrow> True) w1" using quiet_orders[OF safe_foldWorker] by simp
    fix h w2 assume o: "order_rel k en w1 w2"
    note o2 = trans[OF that(1) o]
    show "orders k eid en (seq (onFoldWorker en eid op h) (\<lambda>r. case r of Inr x \<Rightarrow> ret (Inr x) | Inl er \<Rightarrow> again er)) ?Q w2"
      by (rule fifo.runs_seqI[OF on[OF o2]], rule runs_sum) (use that(2) trans[OF o2] in \<open>auto intro!: fifo.runs_ret\<close>)
  qed simp
  have "orders k eid en (withFoldWorker_loop en eid op n) ?Q w1" if "order_rel k en w w1" for n w1
    using that
  proof (induction n arbitrary: w1)
    case 0
    then show ?case unfolding withFoldWorker_loop.simps
      by (intro turn runs_if fifo.runs_seq[OF mark] fifo.runs_ret) auto
  next
    case (Suc n)
    show ?case unfolding withFoldWorker_loop.simps
      by (intro turn runs_if fifo.runs_seq[OF mark] fifo.runs_seq[OF fifo.runs_read(3)] fifo.runs_ret Suc.IH) (auto intro: Suc.prems trans)
  qed
  moreover have "order_rel k en w w" by (simp add: chain_rel_def pass_rel_refl ordered_def grows_def)
  ultimately show ?thesis unfolding withFoldWorker_def by blast
qed

section \<open>Folds\<close>

text \<open>An election that is loaded and neither canceled nor finished, and one that stays so.\<close>

definition going :: "ElectionID \<Rightarrow> ('b, 'v, 'st) system \<Rightarrow> bool" where
  "going eid y \<longleftrightarrow> storage_wf (store (eng y)) \<and> runtime (eng y) eid \<noteq> None \<and>
     (\<exists>el. election_at (store (eng y)) eid = Some el \<and> el_Status el \<notin> {StatusCanceled, StatusResults})"

definition stays :: "('v, 'st) sdk \<Rightarrow> ElectionID \<Rightarrow> ('b, 'v, 'st) env \<Rightarrow> ('b, 'v, 'st) world \<Rightarrow> bool" where
  "stays k eid en w \<longleftrightarrow> (\<forall>w1. pass_rel k en w w1 \<longrightarrow> going eid (w_sys w1))"

lemma stays_later: "stays k eid en w \<Longrightarrow> chain_rel R k en w w1 \<Longrightarrow> stays k eid en w1"
  unfolding stays_def chain_rel_def using pass_rel_trans by blast

lemma not_stopped: "passes k eid en (stopped en eid) (\<lambda>st _. stays k eid en w \<longrightarrow> \<not> st) w"
  unfolding stopped_def
proof (rule pass.runs_read_store, rule impI)
  fix w1 assume "stays k eid en w" "quiet_rel k en w w1"
  then have g: "going eid (w_sys w1)" by (simp add: stays_def chain_rel_def)
  then have "storage_wf (store (w_eng w1))" by (simp add: going_def)
  then show "\<not> (case store_Election (store (w_eng w1)) eid of Inl _ \<Rightarrow> True
      | Inr el \<Rightarrow> el_Status el = StatusCanceled \<or> el_Status el = StatusResults)"
    using g by (auto simp: going_def reads found_def)
qed

lemma still_loaded:
  "passes k eid en (atomic en (\<lambda>_ w. (runtime (w_eng w) eid, w))) (\<lambda>rt _. stays k eid en w \<longrightarrow> rt \<noteq> None) w"
  by (rule pass.runs_atomic) (auto simp: stays_def chain_rel_def going_def pass_rel_refl same_order_refl)

definition folded_to :: "u64 \<Rightarrow> ('b, 'v, 'st) world \<Rightarrow> bool" where
  "folded_to n w \<longleftrightarrow> fc_pending (w_fc w) = [] \<and> fc_batchesFolded (w_fc w) = n"

lemma folded_head: "folded_to n w \<Longrightarrow> head w = n"
  by (simp add: folded_to_def fc_next_def)

lemma folded_quiet: "folded_to n w \<Longrightarrow> quiet_rel k en w w' \<Longrightarrow> folded_to n w'"
  by (simp add: folded_to_def chain_rel_def same_order_def)

lemma pending_in: "pass_ok k eid en w \<Longrightarrow> p \<in> set (fc_pending (w_fc w)) \<Longrightarrow> ptr_in w p"
  by (simp add: pass_ok_def chain_ok_def ptr_in_def)

lemma safe_dropBatchProofs: "(\<And>p. p \<in> set ps \<Longrightarrow> ptr_in w p) \<Longrightarrow> safe k eid en (dropBatchProofs en ps) w"
proof (induction ps arbitrary: w)
  case Nil
  show ?case unfolding dropBatchProofs.simps by (intro act_intros)
next
  case (Cons p ps)
  have "ptr_in w p" "\<And>q. q \<in> set ps \<Longrightarrow> ptr_in w q" using Cons.prems by auto
  then show ?case unfolding dropBatchProofs.simps
    by (intro act_intros safe_dropBatchProof Cons.IH; (simp; fail | meson ptr_stays))
qed

lemma ord_foldFailed: "sound k eid en (foldFailed en er) w"
proof -
  have clear: "sound k eid en (set_fc (\<lambda>fc. fc\<lparr>fc_pending := []\<rparr>)) w1" for w1
    by (rule chain_set_fc) (simp_all add: chain_ok_def ordered_def grows_def in_seq_def pendingSeqs_def)
  show ?thesis unfolding foldFailed_def
    by (intro clear mixed_intros quiet_orders[OF pass_set_fields] safe_dropBatchProofs pass_set_fields;
        (simp; fail | (clarsimp, meson pending_in ptr_stays)))
qed

text \<open>A fold that succeeds leaves the pending batches as they are until it is committed.\<close>

abbreviation tries ::
  "('v, 'st) sdk \<Rightarrow> ElectionID \<Rightarrow> ('b, 'v, 'st) env \<Rightarrow> ('b, 'v, 'st, gerror + 'a) act \<Rightarrow> ('b, 'v, 'st) world \<Rightarrow> bool" where
  "tries k eid en m w \<equiv> orders k eid en m (\<lambda>r w'. \<forall>x. r = Inr x \<longrightarrow> quiet_rel k en w w') w"

lemma quiet_tries: "safe k eid en m w \<Longrightarrow> tries k eid en m w"
  by (erule runs_rel) (auto dest: quiet_order simp: chain_rel_def)

lemma tries_andOk:
  assumes "tries k eid en m w" and "\<And>r w'. pass_ok k eid en w' \<Longrightarrow> quiet_rel k en w w' \<Longrightarrow> tries k eid en (f r) w'"
  shows "tries k eid en (andOk m f) w"
proof (rule fifo.runs_andOkI[OF assms(1)])
  show "orders k eid en (f r) (\<lambda>r w'. \<forall>x. r = Inr x \<longrightarrow> quiet_rel k en w w') w1"
    if "pass_ok k eid en w1" "quiet_rel k en w w1" for r w1
    using assms(2)[OF that] by (rule runs_weaken) (use quiet_rel_trans[OF that(2)] in blast)
qed simp

lemma tries_then:
  assumes "tries k eid en m w"
    and "\<And>r w'. pass_ok k eid en w \<Longrightarrow> pass_ok k eid en w' \<Longrightarrow> quiet_rel k en w w' \<Longrightarrow> orders k eid en (f r) Q w'"
    and "\<And>er w'. Q (Inl er) w'"
  shows "orders k eid en (andOk m f) Q w"
  by (rule runs_ok, rule fifo.runs_andOkI[OF assms(1)]) (auto intro: assms(2,3))

lemma tries_tryFold: "tries k eid en (tryFold en h req) w"
  unfolding tryFold_def
proof (rule mixed_seqI[OF pass.runs_requests(1)], rule runs_sum)
  fix r w1 er
  show "orders k eid en (seq (foldFailed en er) (\<lambda>_. ret (Inl er))) (\<lambda>r w'. \<forall>x. r = Inr x \<longrightarrow> quiet_rel k en w w') w1"
    by (rule fifo.runs_seq[OF ord_foldFailed]) (simp add: fifo.runs_ret)
  fix foldID assume "quiet_rel k en w w1"
  then show "orders k eid en (ret (Inr foldID)) (\<lambda>r w'. \<forall>x. r = Inr x \<longrightarrow> quiet_rel k en w w') w1"
    by (simp add: fifo.runs_ret)
qed

lemma tries_wrapA: "tries k eid en m w \<Longrightarrow> tries k eid en (wrapA d m) w"
  unfolding wrapA_def by (erule fifo.runs_seqI) (auto intro!: fifo.runs_ret simp: wrap_def split: sum.splits)

lemma tries_bootstrap: "tries k eid en (bootstrap en h cfg js) w"
proof -
  have "tries k eid en (andOk (tryFold en h req) (\<lambda>bootID.
      andOk (foldVK en h bootID) (\<lambda>vk.
      seq (set_fc (\<lambda>fc. fc\<lparr>fc_aggVK := vk\<rparr>)) (\<lambda>_. ret (Inr ()))))) w" for req
    by (rule tries_andOk[OF tries_tryFold], rule quiet_tries) (intro act_intros pass_set_fields; simp)
  then show ?thesis unfolding bootstrap_def
    by (intro runs_get_fc runs_if tries_wrapA quiet_tries[OF pass.runs_ret] TrueI)
qed

text \<open>Only votes of sealed batches are marked folded.\<close>

definition sealed_votes :: "'b storage \<Rightarrow> ElectionID \<Rightarrow> VoteID list \<Rightarrow> bool" where
  "sealed_votes s eid vids \<longleftrightarrow> (\<forall>v \<in> set vids. \<exists>sq vs. batch_votes s eid sq = Some vs \<and> v \<in> set vs)"

lemma sealed_votes_kept: "sealed_votes s eid vids \<Longrightarrow> kept s t \<Longrightarrow> sealed_votes t eid vids"
  unfolding sealed_votes_def by (meson kept_batch)

lemma safe_setFolded: "sealed_votes (store (w_eng w)) eid vids \<Longrightarrow> safe k eid en (setFolded en eid vids) w"
proof (induction vids arbitrary: w)
  case Nil
  show ?case unfolding setFolded.simps by (intro act_intros)
next
  case (Cons v vids)
  show ?case unfolding setFolded.simps
  proof (intro act_intros)
    show "safe k eid en (on_store en (\<lambda>_ s. SetVoteStatus s eid v VoteStatusFolded)) w"
      using sealed_votes_kept[OF Cons.prems heap_kept]
      by (intro pass_on_store[where op = "\<lambda>_. OpSetVoteStatus eid v VoteStatusFolded"]) (auto simp: sealed_votes_def)
    fix w1 assume h: "quiet_rel k en w w1"
    show "safe k eid en (setFolded en eid vids) w1"
      using sealed_votes_kept[OF Cons.prems heap_kept[OF h]] by (intro Cons.IH) (simp add: sealed_votes_def)
  qed
qed

lemma sealed_pending:
  "pass_ok k eid en w \<Longrightarrow>
   sealed_votes (store (w_eng w)) eid (concat (map (\<lambda>p. bi_VoteIDs (obj (w_fc w) p)) (fc_pending (w_fc w))))"
  using pending_in[of k eid en w] ptr_obj(2)[of k eid en w] unfolding sealed_votes_def by fastforce

lemma sealed_later:
  "pass_ok k eid en w \<Longrightarrow> chain_rel R k en w w1 \<Longrightarrow> chain_rel S k en w1 w2 \<Longrightarrow>
   sealed_votes (store (w_eng w2)) eid (concat (map (\<lambda>p. bi_VoteIDs (obj (w_fc w) p)) (fc_pending (w_fc w))))"
  by (rule sealed_votes_kept[OF sealed_votes_kept[OF sealed_pending heap_kept] heap_kept])

text \<open>The commit: the batches it folds are the pending ones, which are in order.\<close>

definition foldable :: "('b, 'v, 'st) world \<Rightarrow> bool" where
  "foldable w \<longleftrightarrow> seq_in w \<and> fc_pending (w_fc w) \<noteq> []"

lemma foldable_stays: "foldable w \<Longrightarrow> pass_ok k eid en w \<Longrightarrow> quiet_rel k en w w' \<Longrightarrow> foldable w'"
  using seq_order[OF _ quiet_order] by (fastforce simp: foldable_def chain_rel_def same_order_def)

lemma safe_commit:
  assumes "foldable w" and "fcp_BatchesFolded cp = fc_next (w_fc w)"
  shows "safe k eid en (on_store en (\<lambda>now s. CommitFold now s cp pf (pendingSeqs (w_fc w)))) w"
proof (rule pass_on_store[where op = "\<lambda>now. OpCommitFold now cp pf (pendingSeqs (w_fc w))"], simp)
  fix now and w' :: "('a, 'b, 'c) world"
  have "length (pendingSeqs (w_fc w)) = length (fc_pending (w_fc w))" by (simp add: pendingSeqs_def)
  then show "sched_write (store (w_eng w')) (OpCommitFold now cp pf (pendingSeqs (w_fc w))) \<and>
      in_order (OpCommitFold now cp pf (pendingSeqs (w_fc w)))"
    using assms by (auto simp: foldable_def in_seq_def fc_next_def)
qed

lemma commit_head:
  assumes w: "foldable w" and n: "head w = n"
  shows "orders k eid en (commitFold en eid h foldID pf) (\<lambda>r w'. isOk r \<longrightarrow> folded_to n w') w"
proof -
  define cp where "cp a w1 = (checkpoint eid (w_fc w1))\<lparr>fcp_FoldCount := fc_foldCount (w_fc w1) + 1, fcp_LastFoldJob := foldID,
    fcp_FoldWorker := a, fcp_BatchesFolded := head w1, fcp_StateRoot := bi_NewStateRoot (obj (w_fc w1) (last (fc_pending (w_fc w1))))\<rparr>"
    for a and w1 :: "('a, 'b, 'c) world"
  have reset: "orders k eid en (set_fc (\<lambda>fc. fc\<lparr>fc_lastFold := foldID, fc_lastFoldOn := a, fc_foldCount := n,
           fc_batchesFolded := m, fc_stateRoot := x, fc_pending := [],
           fc_foldFailures := 0, fc_reproved := False, fc_headSuspect := False, fc_avoid := (\<lambda>_. [])\<rparr>)) (\<lambda>_ w'. folded_to m w') w1" for a n m x w1
    by (rule chain_set_fc) (simp_all add: chain_ok_def ordered_def grows_def in_seq_def pendingSeqs_def folded_to_def)
  show ?thesis unfolding commitFold_def
  proof (rule mixed_seq[OF pass.runs_simple(2)], rule runs_get_fc, unfold prod.case, fold cp_def, rule mixed_andOkI)
    fix a w1 assume w1: "pass_ok k eid en w" "pass_ok k eid en w1" "quiet_rel k en w w1"
    show "safe k eid en (wrapA (Detail ''persist fold'') (on_store en (\<lambda>now s. CommitFold now s (cp a w1) pf (pendingSeqs (w_fc w1))))) w1"
      by (rule pass.runs_wrapA[OF safe_commit[OF foldable_stays[OF w w1(1,3)]]]) (simp add: cp_def)
    fix r w2 assume w2: "quiet_rel k en w1 w2"
    show "orders k eid en (seq (set_fc (\<lambda>fc. fc\<lparr>fc_lastFold := foldID, fc_lastFoldOn := a, fc_foldCount := fcp_FoldCount (cp a w1),
           fc_batchesFolded := fcp_BatchesFolded (cp a w1), fc_stateRoot := fcp_StateRoot (cp a w1), fc_pending := [],
           fc_foldFailures := 0, fc_reproved := False, fc_headSuspect := False, fc_avoid := (\<lambda>_. [])\<rparr>)) (\<lambda>_.
         seq (setFolded en eid (concat (map (\<lambda>p. bi_VoteIDs (obj (w_fc w1) p)) (fc_pending (w_fc w1))))) (\<lambda>_.
         ret (Inr ())))) (\<lambda>r w'. isOk r \<longrightarrow> folded_to n w') w2"
    proof (rule fifo.runs_seqI[OF reset], rule mixed_seq[OF safe_setFolded], goal_cases)
      case (1 u w3)
      show ?case by (rule sealed_later[OF w1(2) w2 1(2)])
    next
      case (2 u w3 v w4)
      then show ?case using folded_quiet quiet_head[OF w1(3)] n by (intro fifo.runs_ret) (auto simp: cp_def)
    qed
  qed simp
qed

lemma claimed_head:
  assumes "foldable w" and "head w = n"
  shows "orders k eid en (foldClaimed en eid h cfg) (\<lambda>r w'. isOk r \<longrightarrow> folded_to n w') w"
proof -
  define from_n where "from_n = (\<lambda>w :: ('a, 'b, 'c) world. foldable w \<and> head w = n)"
  have on: "from_n w2" if "from_n w1" "pass_ok k eid en w1" "quiet_rel k en w1 w2" for w1 w2
    using that foldable_stays quiet_head by (fastforce simp: from_n_def)
  have commit: "orders k eid en (commitFold en eid h foldID pf) (\<lambda>r w'. isOk r \<longrightarrow> folded_to n w') w1" if "from_n w1" for foldID pf w1
    using that by (simp add: from_n_def commit_head)
  have later: "orders k eid en (andOk (foldVK en h foldID) (\<lambda>_.
      andOk (call en h (\<lambda>a. ask en (\<lambda>n. FetchStarkRaw en n a foldID))) (\<lambda>pf. commitFold en eid h foldID pf)))
      (\<lambda>r w'. isOk r \<longrightarrow> folded_to n w') w1" if "from_n w1" for foldID w1
    by (intro mixed_andOkI act_intros commit) ((meson that on) | simp)+
  have "from_n w" using assms by (simp add: from_n_def)
  then show ?thesis unfolding foldClaimed_def
    by (intro runs_get_fc tries_then[OF tries_bootstrap] tries_then[OF tries_tryFold] later) ((meson on) | simp)+
qed

lemma fold_head:
  assumes w: "seq_in w"
  shows "orders k eid en (foldPending en eid h)
    (\<lambda>r w'. isOk r \<longrightarrow> head w' = head w \<and> (stays k eid en w \<longrightarrow> folded_to (head w) w')) w" (is "orders k eid en _ ?Q w")
proof (cases "fc_pending (w_fc w) = []")
  case True
  then show ?thesis unfolding foldPending_def
    by (intro runs_get_fc) (simp add: fifo.runs_ret folded_to_def fc_next_def)
next
  case False
  then have fw: "foldable w" using w by (simp add: foldable_def)
  have fold: "orders k eid en (andOk (claim en h) (\<lambda>_. seq (foldClaimed en eid h cfg) (\<lambda>r. seq (release en h) (\<lambda>_. ret r)))) ?Q w1"
    if w1: "foldable w1" "head w1 = head w" for cfg w1
  proof (rule mixed_andOkI[OF pass.runs_claim], rule fifo.runs_seqI[OF claimed_head[where n = "head w"]], goal_cases)
    case (3 r w2 r' w3)
    show ?case by (rule mixed_seq[OF pass.runs_simple(4)], rule fifo.runs_ret) (use 3 folded_quiet folded_head in blast)
  qed (use w1 foldable_stays in \<open>auto dest: quiet_head\<close>)
  show ?thesis unfolding foldPending_def
  proof (rule runs_get_fc, subst if_not_P[OF False], rule mixed_seqI[OF not_stopped], rule runs_if,
      goal_cases)
    case (1 st w1)
    then show ?case using quiet_head[of k en w w1] by (intro fifo.runs_ret) auto
  next
    case w1: (2 st w1)
    show ?case
    proof (rule mixed_seqI[OF still_loaded], rule runs_option, goal_cases)
      case (1 rt w2)
      then show ?case using w1 stays_later[of k eid en w same_order w1] by (intro fifo.runs_ret) (auto dest!: quiet_head)
    next
      case (2 rt w2 x)
      have q: "foldable w2 \<and> head w2 = head w"
        using 2 w1 foldable_stays[OF fw, of k eid en w1] foldable_stays[of w1 k eid en w2] by (auto dest!: quiet_head)
      then show ?case by (simp add: fold)
    qed
  qed
qed

lemmas ord_foldPending = runs_weaken[OF fold_head TrueI]

text \<open>The list of batches only grows while a pass waits for proofs, in whatever world it runs.\<close>

interpretation any: run_logic en "\<lambda>_. True" "\<lambda>_ _. True"
  for en :: "('b, 'v, 'st) env"
  by unfold_locales auto

abbreviation always :: "('b, 'v, 'st, 'a) act \<Rightarrow> ('a \<Rightarrow> bool) \<Rightarrow> ('b, 'v, 'st) world \<Rightarrow> bool" where
  "always m P w \<equiv> runs (\<lambda>_. True) (\<lambda>_ _. True) m (\<lambda>r _. P r) w"

lemma always_True: "always m (\<lambda>_. True) w"
  by (simp add: runs_def)

lemma newTasks_batches: "always (newTasks en eid ps s) (\<lambda>s'. sct_batches s' = sct_batches s) w"
proof (induction ps arbitrary: s w)
  case (Cons p ps)
  show ?case unfolding newTasks.simps
    by (intro runs_splits any.runs_seq always_True Cons.IH runs_weaken[OF Cons.IH]) simp
qed (simp add: any.runs_ret)

lemma start_batches: "always (start en eid s i) (\<lambda>s'. sct_batches s' = sct_batches s) w"
  unfolding start_def by (intro any.runs_seq runs_splits always_True newTasks_batches)

lemma topUp_batches: "always (topUp en eid s) (\<lambda>s'. prefix (sct_batches s) (sct_batches s')) w"
proof (rule ends_runs)
  let ?P = "\<lambda>e i s w. ends (\<lambda>_. True) (\<lambda>_ _. True) (\<lambda>s' _. prefix (sct_batches s) (sct_batches s')) w"
  fix y assume run: "topUp en eid s w = Some y"
  show "?P en eid s w y"
  proof (rule topUp.raw_induct[where P = ?P, OF _ run], goal_cases)
    case (1 loop en eid s w y)
    have IH: "always (loop en eid s) (\<lambda>s'. prefix (sct_batches s) (sct_batches s')) w" for s w using 1(1) by (intro ends_runs)
    show ?case
      by (rule runs_ends[OF 1(2)], intro runs_splits any.runs_seq always_True any.runs_ret runs_weaken[OF IH])
        (auto dest: append_prefixD)
  qed
qed

lemma proof_wait_batches: "always (proof_wait en eid sq i s) (\<lambda>r. prefix (sct_batches s) (sct_batches (snd r))) w"
proof (rule ends_runs)
  let ?P = "\<lambda>e j sq i s w. ends (\<lambda>_. True) (\<lambda>_ _. True) (\<lambda>r _. prefix (sct_batches s) (sct_batches (snd r))) w"
  fix y assume run: "proof_wait en eid sq i s w = Some y"
  show "?P en eid sq i s w y"
  proof (rule proof_wait.raw_induct[where P = ?P, OF _ run], goal_cases)
    case (1 loop en eid sq i s w y)
    have IH: "always (loop en eid sq i s) (\<lambda>r. prefix (sct_batches s) (sct_batches (snd r))) w" for s w using 1(1) by (intro ends_runs)
    have more: "always (seq (topUp en eid s1) (loop en eid sq i)) (\<lambda>r. prefix (sct_batches s) (sct_batches (snd r))) w1"
      if "sct_batches s1 = sct_batches s" for s1 w1
      by (rule any.runs_seqI[OF topUp_batches], rule runs_weaken[OF IH]) (use that prefix_order.trans in auto)
    show ?case
    proof (rule runs_ends[OF 1(2)], rule any.runs_seqI[OF start_batches], rule runs_option, goal_cases)
      case (2 s1 w1 t)
      then show ?case
        by (cases t) (auto intro!: any.runs_ret runs_if any.runs_seq always_True more)
    qed (simp add: any.runs_ret)
  qed
qed

lemma gatherProof_batches: "always (gatherProof en eid s i) (\<lambda>r. prefix (sct_batches s) (sct_batches (snd r))) w"
  unfolding gatherProof_def
  by (rule runs_get_fc, rule any.runs_seqI[OF topUp_batches], rule runs_weaken[OF proof_wait_batches]) (rule prefix_order.trans)

lemma runs_always: "runs ok rel m Q w \<Longrightarrow> always m P w \<Longrightarrow> runs ok rel m (\<lambda>r w'. Q r w' \<and> P r) w"
  by (auto simp: runs_def)

section \<open>A pass\<close>

abbreviation collects ::
  "('v, 'st) sdk \<Rightarrow> ElectionID \<Rightarrow> ('b, 'v, 'st) env \<Rightarrow> ('b, 'v, 'st, 'a \<times> scatter) act \<Rightarrow> ('b, 'v, 'st) world \<Rightarrow> bool" where
  "collects k eid en m w \<equiv> orders k eid en m (\<lambda>r w'. sct_in w' (snd r)) w"

lemma sct_order: "sct_in w s \<Longrightarrow> order_rel k en w w' \<Longrightarrow> sct_in w' s"
proof -
  assume s: "sct_in w s" and o: "order_rel k en w w'"
  have "task_in w t \<Longrightarrow> task_in w' t" for t using ptr_order[OF _ o] by (cases t) auto
  then show ?thesis using s ptr_order[OF _ o] unfolding sct_in_def by blast
qed

text \<open>
  What a turn or all turns of the gather loop leave: the batches \<open>ps\<close> are below the head of
  the chain, unless the election stopped.
\<close>

definition collected ::
  "('v, 'st) sdk \<Rightarrow> ElectionID \<Rightarrow> ('b, 'v, 'st) env \<Rightarrow> scatter \<Rightarrow> ptr set \<Rightarrow> ('b, 'v, 'st) world \<Rightarrow> (gerror + bool) \<times> scatter
    \<Rightarrow> ('b, 'v, 'st) world \<Rightarrow> bool" where
  "collected k eid en s ps w r w' \<longleftrightarrow> sct_in w' (snd r) \<and> prefix (sct_batches s) (sct_batches (snd r)) \<and>
     (\<forall>b. fst r = Inr b \<longrightarrow> (stays k eid en w \<longrightarrow> b) \<and>
       (b \<longrightarrow> head w \<le> head w' \<and> (\<forall>p \<in> ps. bi_Seq (obj (w_fc w') p) < head w')))"

lemma head_room:
  assumes ok: "pass_ok k eid en w" and p: "comes_next w p"
  shows "head w < head w + 1"
proof -
  have "batch_votes (store (w_eng w)) eid (head w) \<noteq> None" using ptr_obj(2)[OF ok next_ptr[OF p]] p by (simp add: comes_next_def)
  moreover have "store_inv (store (w_eng w)) eid" using ok by (simp add: pass_ok_def sys_inv_def store_ok_def)
  ultimately obtain n where "head w < n" by (auto simp: store_inv_def batches_inv_def)
  then have "unat (head w) + 1 < 2 ^ 64" using unsigned_less[of n, where 'a = nat] by (simp add: word_less_nat_alt)
  then show ?thesis by (simp add: word_less_nat_alt unat_word_ariths)
qed

lemma seq_stays: "ptr_in w p \<Longrightarrow> order_rel k en w w' \<Longrightarrow> bi_Seq (obj (w_fc w') p) = bi_Seq (obj (w_fc w) p)"
  by (simp add: ptr_in_def chain_rel_def ordered_def grows_def obj_def)

lemma quiet_seq: "ptr_in w p \<Longrightarrow> quiet_rel k en w w' \<Longrightarrow> bi_Seq (obj (w_fc w') p) = bi_Seq (obj (w_fc w) p)"
  by (simp add: ptr_in_def chain_rel_def same_order_def grows_def)

lemma importing:
  assumes s: "sct_in w s" and p: "comes_next w p"
  shows "orders k eid en (seq (wrapA d (importBatch en h p pf)) (\<lambda>r. ret (case r of Inl er \<Rightarrow> Inl er | Inr _ \<Rightarrow> Inr True, s)))
    (collected k eid en s {p} w) w"
proof (rule runs_ok, rule fifo.runs_seqI[where P = "\<lambda>r w'. isOk r \<longrightarrow> head w' = head w + 1"])
  show "orders k eid en (wrapA d (importBatch en h p pf)) (\<lambda>r w'. isOk r \<longrightarrow> head w' = head w + 1) w"
    unfolding wrapA_def by (rule fifo.runs_seqI[OF import_head[OF p]], rule fifo.runs_ret) (auto simp: wrap_def split: sum.splits)
  fix r :: "gerror + unit" and w1 :: "('a, 'b, 'c) world"
  assume ok: "pass_ok k eid en w" and o: "order_rel k en w w1" and r: "isOk r \<longrightarrow> head w1 = head w + 1"
  have "bi_Seq (obj (w_fc w1) p) = head w" using seq_stays[OF next_ptr[OF p] o] p by (simp add: comes_next_def)
  then have "collected k eid en s {p} w (case r of Inl er \<Rightarrow> Inl er | Inr _ \<Rightarrow> Inr True, s) w1"
    using head_room[OF ok p] r sct_order[OF s o] by (cases r) (auto simp: collected_def)
  then show "orders k eid en (ret (case r of Inl er \<Rightarrow> Inl er | Inr _ \<Rightarrow> Inr True, s)) (collected k eid en s {p} w) w1"
    by (rule fifo.runs_ret)
qed

lemma collected_from:
  assumes "collected k eid en s1 ps w1 r w'" and "prefix (sct_batches s) (sct_batches s1)" and "chain_rel R k en w w1" and "head w \<le> head w1"
  shows "collected k eid en s ps w r w'"
  using assms stays_later[OF _ assms(3)] unfolding collected_def by (meson order.trans prefix_order.trans)

lemma collected_ret:
  assumes "sct_in w1 s" and "\<And>b. x = Inr b \<Longrightarrow> (stays k eid en w \<longrightarrow> b) \<and> (b \<longrightarrow> head w \<le> head w1 \<and> (\<forall>p \<in> ps. bi_Seq (obj (w_fc w1) p) < head w1))"
  shows "orders k eid en (ret (x, s)) (collected k eid en s ps w) w1"
  by (rule fifo.runs_ret) (use assms in \<open>auto simp: collected_def\<close>)

text \<open>A turn from where the batch comes next, and from the proof on.\<close>

lemma gathered:
  assumes s: "sct_in w s" and p: "comes_next w p"
  shows "orders k eid en (seq (stopped en eid) (\<lambda>st.
    if st then ret (Inr False, s)
    else
      (case r of
         Inl er \<Rightarrow> ret (Inl (Detail ''batch'' # er), s)
       | Inr pf \<Rightarrow>
           seq (wrapA (Detail ''batch'') (importBatch en h p pf)) (\<lambda>r.
           ret (case r of Inl er \<Rightarrow> Inl er | Inr _ \<Rightarrow> Inr True, s))))) (collected k eid en s {p} w) w"
proof (rule mixed_seqI[OF not_stopped], intro runs_if runs_sum, goal_cases)
  case (3 st w1 pf)
  show ?case
    by (rule runs_weaken[OF importing[OF sct_stays[OF s 3(3)] next_stays[OF p 3(3)]]], erule collected_from[OF _ _ 3(3)])
      (simp_all add: quiet_head[OF 3(3)])
qed (auto intro!: collected_ret intro: sct_stays[OF s])

lemma gathering:
  assumes s: "sct_in w s" and p: "comes_next w p"
  shows "orders k eid en (seq (stopped en eid) (\<lambda>st.
      if st then ret (Inr False, s)
      else
        seq (gatherProof en eid s i) (\<lambda>(r, s).
        seq (stopped en eid) (\<lambda>st.
        if st then ret (Inr False, s)
        else
          (case r of
             Inl er \<Rightarrow> ret (Inl (Detail ''batch'' # er), s)
           | Inr pf \<Rightarrow>
               seq (wrapA (Detail ''batch'') (importBatch en h p pf)) (\<lambda>r.
               ret (case r of Inl er \<Rightarrow> Inl er | Inr _ \<Rightarrow> Inr True, s))))))) (collected k eid en s {p} w) w"
proof (rule mixed_seqI[OF not_stopped], intro runs_if, goal_cases)
  case (2 st w1)
  note q = 2(3)
  show ?case
  proof (rule mixed_seqI[OF runs_always[OF gatherProof_in[OF sct_stays[OF s q]] gatherProof_batches]], rule runs_prod, goal_cases)
    case (1 r w2 x s1)
    note q' = quiet_rel_trans[OF q 1(3)]
    show ?case
      by (rule runs_weaken[OF gathered[OF _ next_stays[OF p q']]], use 1(4,5) in simp, erule collected_from[OF _ _ q'])
        (use 1(4,5) in \<open>simp_all add: quiet_head[OF q']\<close>)
  qed
qed (auto intro!: collected_ret intro: sct_stays[OF s])

lemma collects_gatherBatch:
  assumes s: "sct_in w s" and i: "i < length (sct_batches s)" and w: "seq_in w"
  shows "orders k eid en (gatherBatch en eid h s i) (collected k eid en s {sct_batches s ! i} w) w"
proof -
  define p where "p = sct_batches s ! i"
  have p: "ptr_in w p" using s i by (simp add: sct_in_def p_def)
  have first: "orders k eid en (if full then wrapA d (foldPending en eid h) else ret (Inr ())) (\<lambda>r w'. isOk r \<longrightarrow> head w' = head w) w" for full d
    unfolding wrapA_def
    by (intro runs_if fifo.runs_ret, rule fifo.runs_seqI[OF fold_head[OF w]], rule fifo.runs_ret) (auto simp: wrap_def split: sum.splits)
  show ?thesis unfolding gatherBatch_def Let_def p_def[symmetric]
  proof (rule runs_get_fc, rule fifo.runs_seqI[OF first], intro runs_sum runs_get_fc runs_prod runs_if, goal_cases)
    case (4 r w1 u sq nxt)
    then have "comes_next w1 p" using ptr_order[OF p 4(2)] by (simp add: comes_next_def)
    from gathering[OF sct_order[OF s 4(2)] this] show ?case
      by (rule runs_weaken) (erule collected_from[OF _ _ 4(2)]; use 4 in simp)
  qed (auto intro!: collected_ret intro: sct_order[OF s])
qed

abbreviation from_on :: "nat \<Rightarrow> scatter \<Rightarrow> ptr set" where
  "from_on n s \<equiv> set (drop n (sct_batches s))"

lemma collected_step:
  assumes first: "collected k eid en s {sct_batches s ! n} w (Inr True, s1) w1" and n: "n < length (sct_batches s)" and s: "sct_in w1 s"
    and o: "chain_rel ordered k en w w1" and o1: "order_rel k en w1 w'" and rest: "collected k eid en s1 (from_on (n + 1) s1) w1 r w'"
  shows "collected k eid en s (from_on n s) w r w'"
proof -
  let ?p = "sct_batches s ! n"
  have f: "head w \<le> head w1" "bi_Seq (obj (w_fc w1) ?p) < head w1" "prefix (sct_batches s) (sct_batches s1)"
    using first by (auto simp: collected_def)
  note c = collected_from[OF rest f(3) o f(1)]
  have "ptr_in w1 ?p" using s n by (simp add: sct_in_def)
  then have p: "bi_Seq (obj (w_fc w') ?p) < head w'" if "head w1 \<le> head w'"
    using f(2) that seq_stays[OF _ o1] by (metis order.strict_trans2)
  obtain ys where ys: "sct_batches s1 = sct_batches s @ ys" using f(3) by (auto simp: prefix_def)
  have sub: "from_on n s \<subseteq> insert ?p (from_on (n + 1) s1)"
    unfolding Cons_nth_drop_Suc[OF n, symmetric] by (auto simp: ys)
  have "\<forall>q \<in> from_on n s. bi_Seq (obj (w_fc w') q) < head w'" if "fst r = Inr True"
    using rest that p sub by (auto simp: collected_def)
  then show ?thesis using c by (auto simp: collected_def)
qed

lemma collects_gather_loop:
  fixes en :: "('b, 'v, 'st) env"
  assumes "sct_in w s" and "seq_in w"
  shows "orders k eid en (gather_loop en eid h s n) (collected k eid en s (from_on n s) w) w"
proof -
  let ?P = "\<lambda>e i h s n (w :: ('b, 'v, 'st) world) y. e = en \<longrightarrow> i = eid \<longrightarrow> sct_in w s \<longrightarrow> seq_in w \<longrightarrow>
    ends (pass_ok k eid en) (order_rel k en) (collected k eid en s (from_on n s) w) w y"
  have "?P e i h s n w y" if "gather_loop e i h s n w = Some y" for e i h s n w y
  proof (rule gather_loop.raw_induct[where P = ?P, OF _ that], goal_cases)
    case (1 loop e i h s n w y)
    have IH: "orders k eid en (loop en eid h s n) (collected k eid en s (from_on n s) w) w" if "sct_in w s" "seq_in w" for s n h w
      using 1(1) that by (intro ends_runs) blast
    show ?case
    proof (intro impI)
      assume e: "e = en" "i = eid" and s: "sct_in w s" and q: "seq_in w"
      have "orders k eid en (if \<not> n < length (sct_batches s) then ret (Inr True, s)
          else seq (gatherBatch en eid h s n) (\<lambda>r. if fst r = Inr True then loop en eid h (snd r) (n + 1) else ret r))
          (collected k eid en s (from_on n s) w) w"
      proof (rule runs_if)
        assume n: "\<not> \<not> n < length (sct_batches s)"
        show "orders k eid en (seq (gatherBatch en eid h s n) (\<lambda>r. if fst r = Inr True then loop en eid h (snd r) (n + 1) else ret r))
          (collected k eid en s (from_on n s) w) w"
        proof (rule fifo.runs_seqI[OF collects_gatherBatch[OF s _ q]], use n in simp, rule runs_if, goal_cases)
          case (1 r w1)
          then obtain s1 where r: "r = (Inr True, s1)" by (cases r) auto
          have s1: "sct_in w1 s1" and c: "collected k eid en s {sct_batches s ! n} w (Inr True, s1) w1" using 1(3) by (simp_all add: r collected_def)
          have "orders k eid en (loop en eid h s1 (n + 1)) (\<lambda>r w'. order_rel k en w1 w' \<and> collected k eid en s1 (from_on (n + 1) s1) w1 r w') w1"
            using IH[OF s1 seq_order[OF q 1(2)]] by (simp add: runs_def)
          then show ?case unfolding r snd_conv
            by (rule runs_weaken) (use collected_step[OF c _ sct_order[OF s 1(2)] 1(2)] n in auto)
        next
          case (2 r w1)
          then show ?case by (intro fifo.runs_ret) (auto simp: collected_def)
        qed
      qed (auto intro!: collected_ret s)
      then show "ends (pass_ok k eid en) (order_rel k en) (collected k eid en s (from_on n s) w) w y"
        using 1(2)[unfolded e] by (cases y) (simp add: runs_def ends_def)
    qed
  qed
  then show ?thesis using assms by (intro ends_runs) blast
qed

text \<open>A pass that folds everything leaves nothing pending, and the batches below the head.\<close>

abbreviation emptied :: "('v, 'st) sdk \<Rightarrow> ElectionID \<Rightarrow> ('b, 'v, 'st) env \<Rightarrow> bool \<Rightarrow> ('b, 'v, 'st) world \<Rightarrow> u64 set \<Rightarrow> ('b, 'v, 'st) world \<Rightarrow> bool" where
  "emptied k eid en all w sqs w' \<equiv> all \<longrightarrow> stays k eid en w \<longrightarrow>
     fc_pending (w_fc w') = [] \<and> (\<forall>sq \<in> sqs. sq < fc_batchesFolded (w_fc w'))"

lemma ord_gather:
  assumes ps: "\<And>p. p \<in> set ps \<Longrightarrow> ptr_in w p" and q: "seq_in w"
  shows "orders k eid en (gather en eid all ps h)
    (\<lambda>r w'. \<forall>x. r = Inr x \<longrightarrow> emptied k eid en all w ((\<lambda>p. bi_Seq (obj (w_fc w) p)) ` set ps) w') w"
proof -
  let ?sqs = "(\<lambda>p. bi_Seq (obj (w_fc w) p)) ` set ps"
  have s: "sct_in w (newScatter ps)" using ps by (simp add: sct_in_def newScatter_def)
  show ?thesis unfolding gather_def
  proof (rule fifo.runs_seqI[OF collects_gather_loop[OF s q]], rule runs_prod, goal_cases)
    case (1 r w1 x s1)
    have s1: "sct_in w1 s1" using 1(3,4) by (simp add: collected_def)
    have below: "\<forall>sq \<in> ?sqs. sq < head w1" if "x = Inr True"
      using 1(3,4) that seq_stays[OF ps 1(2)] by (auto simp: collected_def newScatter_def)
    have going: "c" if "x = Inr c" "stays k eid en w" for c using 1(3,4) that by (simp add: collected_def)
    have fold: "orders k eid en (case x of
            Inl er \<Rightarrow> ret (Inl er)
          | Inr completed \<Rightarrow>
              seq (get_fc (\<lambda>fc. all \<or> int (length (fc_pending fc)) \<ge> fc_foldEvery fc)) (\<lambda>f.
              if completed \<and> f then foldPending en eid h else ret (Inr ())))
        (\<lambda>r w'. isOk r \<longrightarrow> emptied k eid en all w ?sqs w') w1"
    proof (intro runs_sum runs_get_fc runs_if, goal_cases)
      case (2 c)
      show ?case by (rule runs_weaken[OF fold_head[OF seq_order[OF q 1(2)]]])
        (use 2 below stays_later[OF _ 1(2)] in \<open>auto simp: folded_to_def\<close>)
    qed (use going in \<open>auto intro!: fifo.runs_ret\<close>)
    show ?case
    proof (rule fifo.runs_seqI[OF fold], rule mixed_seq[OF safe_waitTasks], goal_cases)
      case (1 r w2)
      then show ?case using sct_order[OF s1] by blast
    next
      case (2 r w2 u w3)
      have "fc_pending (w_fc w3) = fc_pending (w_fc w2)" "fc_batchesFolded (w_fc w3) = fc_batchesFolded (w_fc w2)"
        using 2(6) by (simp_all add: chain_rel_def same_order_def)
      then show ?case using 2 by (intro fifo.runs_ret) auto
    qed
  qed
qed

abbreviation sealed_seqs :: "ElectionID \<Rightarrow> ('b, 'v, 'st) world \<Rightarrow> u64 set" where
  "sealed_seqs eid w \<equiv> {sq. batch_votes (store (w_eng w)) eid sq \<noteq> None}"

lemma sealed_seqs_kept: "chain_rel R k en w w' \<Longrightarrow> sealed_seqs eid w \<subseteq> sealed_seqs eid w'"
  using kept_batch[OF heap_kept] by fastforce

lemma ord_advance:
  assumes q: "seq_in w"
  shows "orders k eid en (advance en eid all) (\<lambda>r w'. \<forall>x. r = Inr x \<longrightarrow> emptied k eid en all w (sealed_seqs eid w) w') w"
  unfolding advance_def
proof (rule mixed_seqI[OF pass_list_all], rule runs_if, goal_cases)
  case (1 bs w1)
  then have none: "sealed_seqs eid w1 = {}" by auto
  have "fc_pending (w_fc w1) = []"
  proof (rule ccontr)
    assume "fc_pending (w_fc w1) \<noteq> []"
    then have "ptr_in w1 (hd (fc_pending (w_fc w1)))" by (intro pending_in[OF 1(2)]) simp
    from ptr_obj(2)[OF 1(2) this] none show False by auto
  qed
  moreover have "sealed_seqs eid w = {}" using none sealed_seqs_kept[OF 1(3), of eid] by simp
  ultimately show ?case by (intro fifo.runs_ret) simp
next
  case bs: (2 bs w1)
  show ?case
  proof (rule mixed_seqI[OF pass_alloc_objs], use bs in blast, goal_cases)
    case (1 ps w2)
    have o: "order_rel k en w w2" using fifo.rel_trans[OF quiet_order[OF bs(1,3)] quiet_order[OF bs(2) 1(3)]] .
    have sqs: "(\<lambda>p. bi_Seq (obj (w_fc w2) p)) ` set ps = sealed_seqs eid w1"
      using 1(4) bs(4) by (metis image_image list.set_map)
    have pass: "orders k eid en (gather en eid all ps h) (\<lambda>r w'. \<forall>x. r = Inr x \<longrightarrow> emptied k eid en all w (sealed_seqs eid w) w') w3"
      if o3: "order_rel k en w2 w3" for h w3
    proof (rule runs_weaken[OF ord_gather])
      show "seq_in w3" using seq_order[OF seq_order[OF q o] o3] .
      have same: "bi_Seq (obj (w_fc w3) p) = bi_Seq (obj (w_fc w2) p)" if "p \<in> set ps" for p
        using 1(4) that by (intro seq_stays[OF _ o3]) simp
      have all: "(\<lambda>p. bi_Seq (obj (w_fc w3) p)) ` set ps = sealed_seqs eid w1" unfolding sqs[symmetric] by (rule image_cong[OF refl same])
      note sub = sealed_seqs_kept[OF bs(3), of eid] and st = stays_later[OF _ fifo.rel_trans[OF o o3]]
      fix r w' assume e: "\<forall>x. r = Inr x \<longrightarrow> emptied k eid en all w3 ((\<lambda>p. bi_Seq (obj (w_fc w3) p)) ` set ps) w'"
      show "\<forall>x. r = Inr x \<longrightarrow> emptied k eid en all w (sealed_seqs eid w) w'"
      proof (intro allI impI)
        fix x assume "r = Inr x" "all" "stays k eid en w"
        with e st have "fc_pending (w_fc w') = [] \<and> (\<forall>sq \<in> sealed_seqs eid w1. sq < fc_batchesFolded (w_fc w'))" unfolding all by simp
        then show "fc_pending (w_fc w') = [] \<and> (\<forall>sq \<in> sealed_seqs eid w. sq < fc_batchesFolded (w_fc w'))" using sub by blast
      qed
    qed (use 1(4) ptr_order[OF _ o3] in blast)
    show ?case by (rule ord_withFoldWorker) (rule pass)
  qed
qed

section \<open>A run\<close>

abbreviation driven ::
  "('v, 'st) sdk \<Rightarrow> ElectionID \<Rightarrow> ('b, 'v, 'st) env \<Rightarrow> ('b, 'v, 'st, 'a) act \<Rightarrow> ('a \<Rightarrow> ('b, 'v, 'st) world \<Rightarrow> bool)
    \<Rightarrow> ('b, 'v, 'st) world \<Rightarrow> bool" where
  "driven k eid en \<equiv> runs (pass_ok k eid en) (chain_rel (\<lambda>_ _. True) k en)"

lemma driven_order: "orders k eid en m Q w \<Longrightarrow> driven k eid en m (\<lambda>r w'. Q r w' \<and> (seq_in w \<longrightarrow> seq_in w')) w"
  by (erule runs_rel) (auto simp: chain_rel_def ordered_def)

lemma pass_sched:
  assumes ok: "pass_ok k eid en w" and fc: "chain_ok (store (w_eng w)) eid fc"
    and sc: "\<And>fc. chains sc (ElectionID_String eid) = Some fc \<Longrightarrow> chain_ok (store (w_eng w)) eid fc \<and> in_seq fc"
  defines "w' \<equiv> (set_eng ((w_eng w)\<lparr>sched := Some sc\<rparr>) w)\<lparr>w_fc := fc\<rparr>"
  shows "pass_ok k eid en w'" "pass_rel k en w w'"
proof -
  let ?y = "(w_sys w)\<lparr>eng := (w_eng w)\<lparr>sched := Some sc\<rparr>\<rparr>"
  have "chains_ok eid ?y" using sc by (simp add: chains_ok_def)
  then show "pass_ok k eid en w'" "pass_rel k en w w'"
    using pass_move[OF ok Memory, where sc1 = "Some sc" and fc = fc] fc by (simp_all add: w'_def set_eng_sys)
qed

lemma load_chain_empty:
  "load_chain sc s eid = Inr fc \<Longrightarrow> chain_ok t eid fc \<and> in_seq fc"
  by (auto simp: load_chain_def Let_def chain_ok_def in_seq_def pendingSeqs_def split: sum.splits if_splits)

lemma chains_okD:
  assumes "pass_ok k eid en w"
  obtains sc where "sched (w_eng w) = Some sc" and "chain_ok (store (w_eng w)) eid (w_fc w)"
    "\<And>fc. chains sc (ElectionID_String eid) = Some fc \<Longrightarrow> chain_ok (store (w_eng w)) eid fc \<and> in_seq fc"
  using assms by (auto simp: pass_ok_def chains_ok_def)

lemma ord_driveLock: "sound k eid en (driveLock en i) w"
  unfolding driveLock_def
proof (rule fifo.runs_atomic, goal_cases)
  case (1 n w1 r w')
  obtain sc where sc: "sched (w_eng w1) = Some sc" and fc: "chain_ok (store (w_eng w1)) eid (w_fc w1)"
    and c: "\<And>fc. chains sc (ElectionID_String eid) = Some fc \<Longrightarrow> chain_ok (store (w_eng w1)) eid fc \<and> in_seq fc"
    by (rule chains_okD[OF 1(1)]) blast
  show ?case using pass_sched[OF 1(1) fc, of "sc\<lparr>driveMu := insert (ElectionID_String i) (driveMu sc)\<rparr>"] c 1(3) sc
    by (auto simp: Let_def set_eng_sys chain_rel_def ordered_def grows_def)
qed

text \<open>The chain of the run is the one the scheduler remembers, unless it forgot the election.\<close>

definition saved :: "ElectionID \<Rightarrow> ('b, 'v, 'st) world \<Rightarrow> bool" where
  "saved eid w \<longleftrightarrow> (\<forall>sc fc. sched (w_eng w) = Some sc \<longrightarrow> chains sc (ElectionID_String eid) = Some fc \<longrightarrow> fc = w_fc w)"

lemma ord_save_chain:
  assumes q: "seq_in w"
  shows "orders k eid en (save_chain en eid) (\<lambda>_ w'. w_fc w' = w_fc w \<and> saved eid w') w"
proof -
  have "sound k eid en (save_chain en eid) w"
    unfolding save_chain_def
  proof (rule fifo.runs_atomic, goal_cases)
    case (1 n w1 r w')
    obtain sc where sc: "sched (w_eng w1) = Some sc" and fc: "chain_ok (store (w_eng w1)) eid (w_fc w1)"
      by (rule chains_okD[OF 1(1)]) blast
    show ?case
      using pass_sched[OF 1(1) fc, of "sc\<lparr>chains := (chains sc)(ElectionID_String eid \<mapsto> w_fc w1)\<rparr>"] fc 1 sc seq_order[OF q 1(2)]
      by (auto simp: Let_def set_eng_sys pass_rel_refl chain_rel_def ordered_def grows_def split: if_splits)
  qed
  moreover have "save_chain en eid w = Some (r, w') \<Longrightarrow> w_fc w' = w_fc w \<and> saved eid w'" for r w'
    by (auto simp: save_chain_def atomic_def Let_def set_eng_sys saved_def split: if_splits)
  ultimately show ?thesis by (auto simp: runs_def)
qed

lemma driven_sched_chain: "driven k eid en (sched_chain en eid) (\<lambda>r w'. \<forall>x. r = Inr x \<longrightarrow> seq_in w') w"
  unfolding sched_chain_def
proof (rule drive.runs_atomic, goal_cases)
  case (1 n w1 r w')
  obtain sc where sc: "sched (w_eng w1) = Some sc"
    and c: "\<And>fc. chains sc (ElectionID_String eid) = Some fc \<Longrightarrow> chain_ok (store (w_eng w1)) eid fc \<and> in_seq fc"
    by (rule chains_okD[OF 1(1)]) blast
  show ?case
  proof (cases "chains sc (ElectionID_String eid)")
    case (Some fc)
    then have w': "r = Inr ()" "w' = w1\<lparr>w_fc := fc\<rparr>" using 1(3) sc by (auto simp: Let_def)
    show ?thesis using c[OF Some] 1(1) by (simp add: w' pass_ok_def chain_rel_def pass_rel_def kept_refl)
  next
    case None
    show ?thesis
    proof (cases "load_chain sc (store (w_eng w1)) eid")
      case (Inl er)
      then show ?thesis using 1 sc None by (auto simp: Let_def chain_rel_def pass_rel_refl)
    next
      case (Inr fc)
      note fc = load_chain_empty[OF Inr]
      then show ?thesis
        using pass_sched[OF 1(1) fc[THEN conjunct1], of "sc\<lparr>chains := (chains sc)(ElectionID_String eid \<mapsto> fc)\<rparr>"] 1(3) sc None Inr
        by (auto simp: Let_def chain_rel_def)
    qed
  qed
qed

text \<open>What \<open>drive\<close> and \<open>Finalize\<close> do once they have the chain.\<close>

lemma driven_work:
  fixes en :: "('b, 'v, 'st) env"
  assumes work: "\<And>w1. seq_in w1 \<Longrightarrow> chain_rel (\<lambda>_ _. True) k en w w1 \<Longrightarrow> orders k eid en work (\<lambda>r w'. \<forall>x. r = Inr x \<longrightarrow> Q (w_fc w')) w1"
  shows "driven k eid en (andOk (sched_chain en eid) (\<lambda>_. seq work (\<lambda>r. seq (save_chain en eid) (\<lambda>_. ret r))))
    (\<lambda>r w'. \<forall>x. r = Inr x \<longrightarrow> Q (w_fc w') \<and> saved eid w') w"
proof (rule drive.runs_andOkI[OF driven_sched_chain])
  fix u and w1 :: "('b, 'v, 'st) world" assume q: "seq_in w1" and o: "chain_rel (\<lambda>_ _. True) k en w w1"
  have "orders k eid en (seq work (\<lambda>r. seq (save_chain en eid) (\<lambda>_. ret r))) (\<lambda>r w'. \<forall>x. r = Inr x \<longrightarrow> Q (w_fc w') \<and> saved eid w') w1"
    by (rule fifo.runs_seqI[OF work[OF q o]], rule fifo.runs_seqI[OF ord_save_chain]) (use q seq_order in \<open>auto intro!: fifo.runs_ret\<close>)
  then show "driven k eid en (seq work (\<lambda>r. seq (save_chain en eid) (\<lambda>_. ret r))) (\<lambda>r w'. \<forall>x. r = Inr x \<longrightarrow> Q (w_fc w') \<and> saved eid w') w1"
    by (rule runs_rel) simp
qed simp

lemma emptied_later:
  assumes "chain_rel R k en w w1" and "emptied k eid en all w1 (sealed_seqs eid w1) w'"
  shows "emptied k eid en all w (sealed_seqs eid w) w'"
  using assms(2) stays_later[OF _ assms(1)] sealed_seqs_kept[OF assms(1), of eid] by blast

lemma drive_empties:
  "driven k eid en (drive en eid all)
    (\<lambda>r w'. \<forall>x. r = Inr x \<longrightarrow> stays k eid en w \<longrightarrow> emptied k eid en all w (sealed_seqs eid w) w' \<and> saved eid w') w"
  (is "driven k eid en _ ?Q w")
  unfolding drive_def
proof (rule drive.runs_seqI[OF driven_order[OF ord_driveLock]], rule drive.runs_seqI[where P = "\<lambda>st w2. stays k eid en w \<longrightarrow> \<not> st"], goal_cases)
  case (1 u w1)
  show ?case by (rule runs_rel[OF not_stopped]) (use stays_later[OF _ 1(2)] in simp)
next
  case (2 u w1 st w2)
  note r2 = drive.rel_trans[OF 2(2,5)]
  show ?case
  proof (rule runs_if)
    show "driven k eid en (ret (Inr ())) ?Q w2" if st using that 2(6) by (intro drive.runs_ret) simp
    have "driven k eid en (andOk (sched_chain en eid) (\<lambda>_. seq (advance en eid all) (\<lambda>r. seq (save_chain en eid) (\<lambda>_. ret r))))
        (\<lambda>r w'. \<forall>x. r = Inr x \<longrightarrow> emptied k eid en all w (sealed_seqs eid w) w' \<and> saved eid w') w2"
    proof (rule driven_work[where Q = "\<lambda>fc. all \<longrightarrow> stays k eid en w \<longrightarrow>
        fc_pending fc = [] \<and> (\<forall>sq \<in> sealed_seqs eid w. sq < fc_batchesFolded fc)"])
      fix w3 assume w3: "seq_in w3" "chain_rel (\<lambda>_ _. True) k en w2 w3"
      show "orders k eid en (advance en eid all) (\<lambda>r w'. \<forall>x. r = Inr x \<longrightarrow> emptied k eid en all w (sealed_seqs eid w) w') w3"
        by (rule runs_weaken[OF ord_advance[OF w3(1)]]) (use emptied_later[OF drive.rel_trans[OF r2 w3(2)]] in blast)
    qed
    then show "driven k eid en (andOk (sched_chain en eid) (\<lambda>_. seq (advance en eid all) (\<lambda>r. seq (save_chain en eid) (\<lambda>_. ret r)))) ?Q w2"
      by (rule runs_weaken) blast
  qed
qed

lemmas driven_drive = runs_weaken[OF drive_empties TrueI]

lemma safe_finalizeOn: "safe k eid en (finalizeOn en i state payload results h) w"
  unfolding finalizeOn_def finalizeClaimed_def by (intro act_intros)

lemma ord_finalizeChain: "seq_in w \<Longrightarrow> sound k eid en (finalizeChain en eid rt key) w"
  unfolding finalizeChain_def
  by (intro fifo.runs_base runs_weaken[OF ord_advance] runs_weaken[OF ord_withFoldWorker[where Q = "\<lambda>_ _. True"]]
      runs_weaken[OF quiet_orders[OF safe_finalizeOn]] quiet_orders[OF safe_writes(6)]; (assumption | simp)?)

lemma driven_Finalize: "driven k eid en (Finalize en eid key) (\<lambda>_ _. True) w"
  unfolding Finalize_def
proof (rule drive.runs_seq[OF drive.runs_read(5)], intro runs_option drive.runs_ret TrueI, rule drive.runs_seq, goal_cases)
  case (1 rt w1 x)
  show ?case by (rule runs_weaken[OF driven_order[OF ord_driveLock]]) simp
next
  case (2 rt w1 x u w2)
  show ?case by (rule runs_weaken[OF driven_work[where Q = "\<lambda>_. True"]]) (simp_all add: ord_finalizeChain)
qed

end
