(* ===== verification/Finalize_Laws.thy ===== *)
theory Finalize_Laws
  imports Job_Laws Scheduler_Steps
begin

text \<open>
  What a successful \<open>Finalize\<close> has checked (src/orchestrator/finalize.go): the digest of the
  final proof agrees with the state the engine holds of the election, result by result.
\<close>

definition verified ::
  "('b, 'v, 'st) env \<Rightarrow> 'st \<Rightarrow> int \<Rightarrow> Results \<Rightarrow> bool" where
  "verified en state key res \<longleftrightarrow>
     (\<exists>payload digest batchVK aggVK batchWords aggWords.
        ResultsPayload en state key = Inr (payload, res_Tally res) \<and>
        d_Mode digest = ModeFinalize en \<and> d_StateRootHex digest = StateRoot en state \<and>
        (d_TotalVoters digest, d_TotalOverwrites digest) = Voters en state \<and>
        take (length (res_Tally res)) (d_Results digest) = res_Tally res \<and>
        VerifyBinding en digest (res_ProgramVK res) batchVK = Inr () \<and>
        VKWords en batchVK = Inr batchWords \<and> VKWords en aggVK = Inr aggWords \<and>
        ConfigCommitment en state batchWords aggWords = Inr (d_ConfigCommitment digest) \<and>
        (\<forall>rel. CircuitRelease en = Some rel \<longrightarrow> sameVK (res_ProgramVK res) (rel_AggVK rel) \<and> VerifyRelease en aggVK batchVK = Inr ()))"

lemma checkResults_take: "checkResults rs ds = Inr () \<Longrightarrow> take (length rs) ds = rs"
  by (induction rs ds rule: checkResults.induct) (auto split: if_splits)

lemma verifyFinalDigest_ok:
  assumes v: "verifyFinalDigest en d snark state n batchVK aggVK (res_Tally res) = Inr ()"
    and vk: "res_ProgramVK res = ''0x'' @ hexEncode (sn_ProgramVK snark)"
    and rp: "ResultsPayload en state key = Inr (payload, res_Tally res)"
  shows "verified en state key res"
proof -
  from v obtain batchWords aggWords where
    "d_Mode d = ModeFinalize en" "d_StateRootHex d = StateRoot en state"
    "(d_TotalVoters d, d_TotalOverwrites d) = Voters en state" "checkResults (res_Tally res) (d_Results d) = Inr ()"
    "VerifyBinding en d (res_ProgramVK res) batchVK = Inr ()"
    "VKWords en batchVK = Inr batchWords" "VKWords en aggVK = Inr aggWords"
    "ConfigCommitment en state batchWords aggWords = Inr (d_ConfigCommitment d)"
    "\<forall>rel. CircuitRelease en = Some rel \<longrightarrow> sameVK (res_ProgramVK res) (rel_AggVK rel) \<and> VerifyRelease en aggVK batchVK = Inr ()"
    unfolding verifyFinalDigest_def vk
    by (auto simp: Let_def sameVK_def prod_eq_iff require_def split: if_splits option.splits)
  with rp checkResults_take show ?thesis unfolding verified_def by blast
qed

lemma finalizeClaimed_ok:
  assumes "finalizeClaimed en eid h state req results w = Some (Inr res, w')"
    and rp: "ResultsPayload en state key = Inr (payload, results)"
  shows "verified en state key res \<and> res_ElectionID res = eid"
proof -
  from assms(1) obtain publics snark w1 where
    r: "(case ParseDigest en publics of Inl er \<Rightarrow> ret (Inl (ErrFinalProofFailed # Detail ''parse digest'' # er))
      | Inr digest \<Rightarrow>
          seq (get_fc (\<lambda>fc. verifyFinalDigest en digest snark state (fc_foldCount fc) (fc_batchVK fc) (fc_aggVK fc) results)) (\<lambda>v.
          case v of
            Inl er \<Rightarrow> ret (Inl (ErrVerificationFailed # er))
          | Inr _ \<Rightarrow>
              seq (ask en (clock en)) (\<lambda>now.
              ret (Inr \<lparr>res_ElectionID = eid, res_Tally = results,
                res_ProgramVK = ''0x'' @ hexEncode (sn_ProgramVK snark),
                res_RootCVadcopFinal = ''0x'' @ hexEncode (sn_RootCVadcopFinal snark),
                res_PublicValues = ''0x'' @ hexEncode (sn_PublicValues snark),
                res_ProofBytes = ''0x'' @ hexEncode (sn_ProofBytes snark), res_FinalizedAt = now\<rparr>)))) w1 = Some (Inr res, w')"
    unfolding finalizeClaimed_def andOk_Inr by auto
  then obtain digest where d: "ParseDigest en publics = Inr digest" by (cases "ParseDigest en publics") (simp_all add: ret_Some)
  let ?v = "verifyFinalDigest en digest snark state (fc_foldCount (w_fc w1)) (fc_batchVK (w_fc w1)) (fc_aggVK (w_fc w1)) results"
  have v: "?v = Inr ()" using r by (cases ?v) (simp_all add: d seq_Some get_fc_Some ret_Some)
  then have "res_ProgramVK res = ''0x'' @ hexEncode (sn_ProgramVK snark)" "res_Tally res = results" "res_ElectionID res = eid"
    using r by (auto simp: d seq_Some get_fc_Some ret_Some)
  then show ?thesis using verifyFinalDigest_ok v rp by metis
qed

lemma finalizeOn_ok:
  assumes "finalizeOn en eid state payload results h w = Some (Inr res, w')"
    and rp: "ResultsPayload en state key = Inr (payload, results)"
  shows "verified en state key res \<and> res_ElectionID res = eid"
  using assms(1) finalizeClaimed_ok[OF _ rp] by (auto simp: finalizeOn_def success)

section \<open>The state of a loaded election during a run\<close>

lemma sched_move_runtime: "sched_move y y' \<Longrightarrow> runtime (eng y') eid = runtime (eng y) eid"
  by (induction rule: sched_move.induct) (auto simp: runtime_def)

lemma interleaved_runtime:
  assumes "(interleaved en)\<^sup>*\<^sup>* y y'" and "\<And>n y. runtime (eng (others en n y)) eid = runtime (eng y) eid"
  shows "runtime (eng y') eid = runtime (eng y) eid"
  using assms(1)
  by (induction rule: rtranclp_induct) (auto simp: interleaved_def assms(2) sched_move_runtime)

end
