(* ===== verification/Sample_Pass.thy ===== *)
theory Sample_Pass
  imports Finalize_Laws Sample_Run
begin

text \<open>
  A concrete run for the witnesses of the scheduler: the election of theory Sample\_Run, one
  worker that holds the fold chain, and a prover whose jobs are done at once. The others do
  nothing.
\<close>

text \<open>A run starts with no chain in its hands; \<open>sched_chain\<close> gets it.\<close>

definition no_chain :: foldChain where
  "no_chain = \<lparr>fc_pin = [], fc_synced = False, fc_resync = False, fc_aggVK = [], fc_batchVK = [], fc_lastFold = [],
     fc_lastFoldOn = [], fc_foldCount = 0, fc_batchesFolded = 0, fc_stateRoot = [], fc_pending = [], fc_foldEvery = 1,
     fc_foldFailures = 0, fc_reproved = False, fc_headSuspect = False, fc_avoid = (\<lambda>_. []), fc_objs = []\<rparr>"

definition begin_run :: "('b, 'v, 'st) system \<Rightarrow> nat \<Rightarrow> ('b, 'v, 'st) world" where
  "begin_run y n = \<lparr>w_sys = y, w_ticks = n, w_fc = no_chain\<rparr>"

definition demo_env :: "(artifact, nat, nat) env" where
  "demo_env =
     \<lparr>others = (\<lambda>_ y. y), ctx_done = (\<lambda>_. False), clock = int, visits = (\<lambda>_. [''w'']), ready = (\<lambda>_. True),
      GetJob = (\<lambda>_ _ _. Inr \<lparr>job_Status = JobStatusDone, job_Error = None\<rparr>),
      SubmitProve = (\<lambda>_ _ _. Inr ''p''), SubmitFold = (\<lambda>_ _ _. Inl []), SubmitFinalize = (\<lambda>_ _ _. Inr ''j''),
      ImportStarkAs = (\<lambda>_ _ _ _. Inr ''i''), FetchStarkInfo = (\<lambda>_ _ _. Inr ''vk''), FetchStarkRaw = (\<lambda>_ _ _. Inr ''proof''),
      FetchPublics = (\<lambda>_ _ _. Inr []),
      FetchSnark = (\<lambda>_ _ _. Inr \<lparr>sn_ProgramVK = [], sn_RootCVadcopFinal = [], sn_PublicValues = [], sn_ProofBytes = []\<rparr>),
      parse_request = (\<lambda>_. Inl []), CircuitRelease = None, VerifyRelease = (\<lambda>_ _. Inr ()), ChainConfig = (\<lambda>_. 0),
      ResultsPayload = (\<lambda>_ _. Inr (0, [3])), Voters = (\<lambda>_. (0, 0)), StateRoot = (\<lambda>_. []),
      ParseDigest = (\<lambda>_. Inr \<lparr>d_Mode = 2, d_StateRootHex = [], d_StepCount = 1, d_TotalVoters = 0, d_TotalOverwrites = 0,
        d_Results = [3, 0], d_ConfigCommitment = []\<rparr>),
      ModeFinalize = 2, VerifyBinding = (\<lambda>_ _ _. Inr ()), VKWords = (\<lambda>_. Inr 0), ConfigCommitment = (\<lambda>_ _ _. Inr [])\<rparr>"

definition demo_chain :: foldChain where
  "demo_chain = no_chain\<lparr>fc_pin := ''w'', fc_synced := True, fc_lastFold := ''f'', fc_lastFoldOn := ''w'', fc_foldCount := 1\<rparr>"

definition demo_worker :: Worker where
  "demo_worker = \<lparr>w_ID = [], w_Address = ''w'', w_Name = [], consecutiveFails = 0, bannedUntilNanos = 0, successCount = 0,
     failedCount = 0, queueLen = 0, healthy = True, missedPolls = 0, jobs = 0, claimers = 0\<rparr>"

definition demo_pool :: WorkerManager where
  "demo_pool = (NewWorkerManager None [])\<lparr>wheap := [demo_worker], workers := [''w'' \<mapsto> 0]\<rparr>"

definition demo_scheduler :: scheduler where
  "demo_scheduler = \<lparr>sc_timeout = 1000, sc_poll = 1, sc_foldEvery = 1, sc_stopped = False, dispatchers = Map.empty,
     chains = [ElectionID_String ''E'' \<mapsto> demo_chain], driveMu = {}\<rparr>"

definition demo_y4 :: "(artifact, nat, nat) system" where
  "demo_y4 = booted (demo_created\<lparr>pool := Some demo_pool, sched := Some demo_scheduler\<rparr>)"

lemma demo_y4_reachable: "reachable demo_sdk demo_y4"
proof -
  have "sys_step demo_sdk demo_y1 (demo_y1\<lparr>eng := (eng demo_y1)\<lparr>pool := Some demo_pool\<rparr>\<rparr>)" by (rule sys_step.Pool)
  from reachable.step[OF reachable.step[OF demo_y1_reachable this] sys_step.Chains[where sc = "Some demo_scheduler"]]
  show ?thesis by (simp add: demo_y1_def demo_y4_def)
qed

lemma demo_rely: "rely demo_sdk ''E'' demo_env"
  by (simp add: rely_def demo_snapshots demo_env_def)

lemma demo_chains: "chains_ok ''E'' demo_y4"
  by (simp add: chains_ok_def demo_y4_def demo_scheduler_def chain_ok_def demo_chain_def no_chain_def in_seq_def pendingSeqs_def)

section \<open>The run\<close>

definition demo_w :: "nat \<Rightarrow> foldChain \<Rightarrow> scheduler \<Rightarrow> WorkerManager \<Rightarrow> (artifact, nat, nat) world" where
  "demo_w n fc sc wm = \<lparr>w_sys = booted (demo_created\<lparr>pool := Some wm, sched := Some sc\<rparr>), w_ticks = n, w_fc = fc\<rparr>"

lemma demo_acts:
  "read_pool demo_env f (demo_w n fc sc wm) = Some (f (int n) [''w''] wm, demo_w (n + 1) fc sc wm)"
  "on_pool demo_env g (demo_w n fc sc wm) = Some (fst (g (int n) [''w''] wm), demo_w (n + 1) fc sc (snd (g (int n) [''w''] wm)))"
  "ask demo_env q (demo_w n fc sc wm) = Some (q n, demo_w (n + 1) fc sc wm)"
  "sched_of demo_env t (demo_w n fc sc wm) = Some (t sc, demo_w (n + 1) fc sc wm)"
  "read_store demo_env u (demo_w n fc sc wm) = Some (u (store demo_created), demo_w (n + 1) fc sc wm)"
  "get_fc v (demo_w n fc sc wm) = Some (v fc, demo_w n fc sc wm)"
  "ret x (demo_w n fc sc wm) = Some (x, demo_w n fc sc wm)"
  by (simp_all add: read_pool_def on_pool_def ask_def sched_of_def read_store_def get_fc_def ret_def atomic_def demo_env_def demo_w_def
      Let_def set_eng_def)

lemma demo_ok:
  "m w = Some (Inr x, w') \<Longrightarrow> andOk m f w = f x w'" "m w = Some (Inr x, w') \<Longrightarrow> wrapA d m w = Some (Inr x, w')"
  by (simp_all add: andOk_def wrapA_def seq_def ret_def)

lemma demo_env_simps:
  "ctx_done demo_env n = False" "clock demo_env n = int n"
  "GetJob demo_env n a j = Inr \<lparr>job_Status = JobStatusDone, job_Error = None\<rparr>" "SubmitFinalize demo_env n a fr = Inr ''j''"
  "FetchPublics demo_env n a j = Inr []"
  "FetchSnark demo_env n a j = Inr \<lparr>sn_ProgramVK = [], sn_RootCVadcopFinal = [], sn_PublicValues = [], sn_ProofBytes = []\<rparr>"
  "ResultsPayload demo_env st key = Inr (0, [3])"
  by (simp_all add: demo_env_def)

lemmas demo_run = seq_def demo_acts demo_env_simps andOk_def wrapA_def

lemma demo_waitJob:
  assumes "Has wm h"
  shows "waitJob demo_env h j (demo_w n fc sc wm) = Some (Inr (), demo_w (n + 5) fc sc wm)"
proof -
  have "waitJob_loop demo_env h j d e (demo_w n fc sc wm) = Some (Inr (), demo_w (n + 3) fc sc wm)" for d e n
    by (subst waitJob_loop.simps) (simp add: demo_run assms address_def pollJob_def eval_nat_numeral)
  then show ?thesis by (simp add: waitJob_def demo_run add.commute)
qed

definition demo_busy :: WorkerManager where
  "demo_busy = demo_pool\<lparr>wheap := [demo_worker\<lparr>jobs := 1\<rparr>], freed := Some 0, chans := 1\<rparr>"

lemma demo_claim: "claim demo_env 0 (demo_w n fc sc demo_pool) = Some (Inr (), demo_w (n + 4) fc sc demo_busy)"
proof -
  have "claim_loop demo_env 0 (demo_w n fc sc (addClaimers 1 0 demo_pool)) = Some (Inr (), demo_w (n + 2) fc sc (addClaimers 1 0 demo_busy))" for n
    by (subst claim_loop.simps, simp add: demo_run)
      (simp add: demo_run demo_busy_def demo_pool_def demo_worker_def NewWorkerManager_def addClaimers_def upd_def Freed_def
        Has_def GetWorker_def cas_jobs_def Let_def)
  moreover have "addClaimers (- 1) 0 (addClaimers 1 0 demo_busy) = demo_busy"
    by (simp add: addClaimers_def upd_def demo_busy_def demo_pool_def demo_worker_def NewWorkerManager_def)
  ultimately show ?thesis by (simp add: claim_def demo_run eval_nat_numeral)
qed

lemma demo_Has: "Has demo_busy 0" "Has demo_pool 0" "w_Address (worker demo_busy 0) = ''w''" "w_Address (worker demo_pool 0) = ''w''"
  by (simp_all add: Has_def GetWorker_def demo_busy_def demo_pool_def demo_worker_def)

definition demo_done :: WorkerManager where
  "demo_done = demo_pool\<lparr>wheap := [demo_worker\<lparr>jobs := 1, successCount := 1\<rparr>], freed := Some 0, chans := 1\<rparr>"

lemma demo_done: "Has demo_done 0" "w_Address (worker demo_done 0) = ''w''" "WorkerResult demo_busy ''w'' True = demo_done"
  by (simp_all add: Has_def GetWorker_def WorkerResult_def demo_done_def demo_busy_def demo_pool_def demo_worker_def upd_def)

lemma demo_runJob:
  "runJob demo_env 0 (\<lambda>a. ask demo_env (\<lambda>n. SubmitFinalize demo_env n a fr)) (demo_w n fc sc demo_busy) =
     Some (Inr ''j'', demo_w (n + 9) fc sc demo_done)"
  by (simp add: runJob_def maxJobAttempts_def eval_nat_numeral)
    (simp add: runOnce_def address_def demo_run demo_waitJob demo_Has workerResult_def demo_done eval_nat_numeral)

lemma demo_call:
  "call demo_env 0 (\<lambda>a. andOk (ask demo_env (\<lambda>n. FetchPublics demo_env n a j)) (\<lambda>publics.
      andOk (ask demo_env (\<lambda>n. FetchSnark demo_env n a j)) (\<lambda>snark. ret (Inr (publics, snark))))) (demo_w n fc sc demo_done) =
     Some (Inr ([], \<lparr>sn_ProgramVK = [], sn_RootCVadcopFinal = [], sn_PublicValues = [], sn_ProofBytes = []\<rparr>),
       demo_w (n + 4) fc sc demo_done)"
  by (simp add: call_def maxJobAttempts_def eval_nat_numeral) (simp add: address_def demo_run demo_done eval_nat_numeral)

definition demo_results :: "nat \<Rightarrow> Results" where
  "demo_results n = \<lparr>res_ElectionID = ''E'', res_Tally = [3], res_ProgramVK = ''0x'', res_RootCVadcopFinal = ''0x'',
     res_PublicValues = ''0x'', res_ProofBytes = ''0x'', res_FinalizedAt = int n\<rparr>"

lemma demo_finalizeOn:
  "finalizeOn demo_env ''E'' st 0 [3] 0 (demo_w n demo_chain sc demo_pool) =
     Some (Inr (demo_results (n + 17)), demo_w (n + 19) demo_chain sc (Release demo_done 0))"
proof -
  have v: "verifyFinalDigest demo_env \<lparr>d_Mode = 2, d_StateRootHex = [], d_StepCount = 1, d_TotalVoters = 0, d_TotalOverwrites = 0,
      d_Results = [3, 0], d_ConfigCommitment = []\<rparr> snark st (fc_foldCount demo_chain) b a [3] = Inr ()" for snark b a
    by (simp add: demo_env_def demo_chain_def no_chain_def verifyFinalDigest_def Let_def)
  have p: "ParseDigest demo_env x = Inr \<lparr>d_Mode = 2, d_StateRootHex = [], d_StepCount = 1, d_TotalVoters = 0, d_TotalOverwrites = 0,
      d_Results = [3, 0], d_ConfigCommitment = []\<rparr>" for x
    by (simp add: demo_env_def)
  show ?thesis
    by (simp add: finalizeOn_def finalizeClaimed_def seq_def demo_ok demo_acts demo_claim demo_runJob demo_call release_def p v)
      (simp add: demo_results_def demo_env_simps hexEncode_def add.commute)
qed

lemma demo_onWorker:
  "withFoldWorker demo_env ''E'' (finalizeOn demo_env ''E'' st 0 [3]) (demo_w n demo_chain sc demo_pool) =
     Some (Inr (demo_results (n + 19)), demo_w (n + 21) demo_chain sc (Release demo_done 0))"
proof -
  have w: "GetWorker demo_pool ''w'' = Some 0" "\<not> Lost now demo_pool 0" for now
    by (simp_all add: GetWorker_def Lost_def demo_pool_def demo_worker_def Has_def IsBanned_def NewWorkerManager_def DefaultWorkerBanRules_def)
  have fc: "fc_pin demo_chain = ''w''" "fc_resync demo_chain = False" "fc_synced demo_chain"
    by (simp_all add: demo_chain_def no_chain_def)
  have "foldWorker demo_env ''E'' (demo_w n demo_chain sc demo_pool) = Some (Inr 0, demo_w (n + 2) demo_chain sc demo_pool)"
    by (simp add: foldWorker_def demo_run w fc)
  then show ?thesis by (simp add: withFoldWorker_def demo_ok onFoldWorker_def seq_def demo_acts fc demo_finalizeOn add.commute)
qed

definition demo_locked :: scheduler where
  "demo_locked = demo_scheduler\<lparr>driveMu := {ElectionID_String ''E''}\<rparr>"

lemma demo_pass:
  "begin_run demo_y4 0 = demo_w 0 no_chain demo_scheduler demo_pool"
  "driveLock demo_env ''E'' (demo_w n fc demo_scheduler wm) = Some ((), demo_w (n + 1) fc demo_locked wm)"
  "sched_chain demo_env ''E'' (demo_w n fc demo_locked wm) = Some (Inr (), demo_w (n + 1) demo_chain demo_locked wm)"
  "advance demo_env ''E'' True (demo_w n fc demo_locked wm) = Some (Inr (), demo_w (n + 1) fc demo_locked wm)"
  "\<exists>w'. save_chain demo_env ''E'' w = Some ((), w')"
proof -
  show "begin_run demo_y4 0 = demo_w 0 no_chain demo_scheduler demo_pool" by (simp add: begin_run_def demo_y4_def demo_w_def)
  show "driveLock demo_env ''E'' (demo_w n fc demo_scheduler wm) = Some ((), demo_w (n + 1) fc demo_locked wm)"
    by (simp add: driveLock_def atomic_def demo_w_def demo_env_def set_eng_def demo_locked_def demo_scheduler_def Let_def)
  show "sched_chain demo_env ''E'' (demo_w n fc demo_locked wm) = Some (Inr (), demo_w (n + 1) demo_chain demo_locked wm)"
    by (simp add: sched_chain_def atomic_def demo_w_def demo_env_def demo_locked_def demo_scheduler_def Let_def)
  have "ListBatchInputs (store demo_created) ''E'' = []"
    using ListBatchInputs_mem[OF demo_created(1), of _ "''E''"] demo_created(12) by (cases "ListBatchInputs (store demo_created) ''E''") auto
  then show "advance demo_env ''E'' True (demo_w n fc demo_locked wm) = Some (Inr (), demo_w (n + 1) fc demo_locked wm)"
    by (simp add: advance_def demo_run)
  show "\<exists>w'. save_chain demo_env ''E'' w = Some ((), w')" by (simp add: save_chain_def atomic_def prod_eq_iff)
qed

lemma demo_Finalize: "\<exists>res w'. Finalize demo_env ''E'' key (begin_run demo_y4 0) = Some (Inr res, w')"
proof -
  have rt: "runtime (w_eng (demo_w n fc s wm)) ''E'' = Some demo_rt" for n fc s wm
    by (simp add: demo_w_def runtime_def demo_created)
  have at: "atomic demo_env (\<lambda>_ w. (f w, w)) (demo_w n fc s wm) = Some (f (demo_w (n + 1) fc s wm), demo_w (n + 1) fc s wm)" for f n fc s wm
    by (simp add: atomic_def demo_w_def demo_env_def)
  have "fst (SetResults now (store demo_created) r) = Inr ()" for now r
    using demo_created(2) by (simp add: other_writes[OF demo_created(1)] commit_writes_result next_fault_def)
  then have res: "\<exists>w'. on_store demo_env (\<lambda>now s. SetResults now s r) (demo_w n fc sc wm) = Some (Inr (), w')" for r n fc sc wm
    by (simp add: on_store_def atomic_def demo_w_def demo_env_def Let_def)
  have lf: "fc_lastFold demo_chain \<noteq> []" by (simp add: demo_chain_def)
  have "\<exists>r w'. finalizeChain demo_env ''E'' demo_rt key (demo_w n demo_chain demo_locked demo_pool) = Some (Inr r, w')" for n
    using res[of "demo_results (n + 2 + 19)" "n + 2 + 21" demo_chain demo_locked "Release demo_done 0"]
    by (auto simp: finalizeChain_def demo_ok demo_pass seq_def demo_acts lf at rt demo_env_simps demo_onWorker ret_def split: option.splits)
  then obtain r w1 where f: "finalizeChain demo_env ''E'' demo_rt key (demo_w (Suc (Suc (Suc 0))) demo_chain demo_locked demo_pool) = Some (Inr r, w1)"
    by blast
  obtain w2 where "save_chain demo_env ''E'' w1 = Some ((), w2)" using demo_pass(5) by blast
  with f show ?thesis by (simp add: demo_pass Finalize_def seq_def at rt demo_ok ret_def)
qed

lemma demo_Drain: "\<exists>w'. Drain demo_env ''E'' (begin_run demo_y4 0) = Some (Inr (), w')"
proof -
  have st: "stopped demo_env ''E'' (demo_w n fc sc wm) = Some (False, demo_w (n + 1) fc sc wm)" for n fc sc wm
    by (simp add: stopped_def demo_acts reads[OF demo_created(1)] found_def demo_created)
  obtain w2 where "save_chain demo_env ''E'' (demo_w (Suc (Suc (Suc (Suc 0)))) demo_chain demo_locked demo_pool) = Some ((), w2)" using demo_pass(5) by blast
  then show ?thesis by (simp add: Drain_def drive_def demo_pass seq_def st demo_ok ret_def)
qed

end
