(* ===== verification/Drain_Laws.thy ===== *)
theory Drain_Laws
  imports Finalize_Laws System_Status
begin

text \<open>
  When an election stays loaded and neither canceled nor finished during a run of the
  scheduler: the scheduler's own steps never stop it, so it is enough that the other goroutines
  do not.
\<close>

lemma sched_move_going: "sched_move y y' \<Longrightarrow> going eid y \<Longrightarrow> going eid y'"
proof (induction rule: sched_move.induct)
  case (Write y op)
  then show ?case using sched_write_elections store_step_wf by (fastforce simp: going_def runtime_def)
next
  case (Pin y now i a)
  then have wf: "storage_wf (store (eng y))" by (simp add: going_def)
  obtain r s where u: "UpdateElection now (store (eng y)) i (\<lambda>el. Inr (el\<lparr>el_FoldWorker := a\<rparr>)) = (r, s)" by (metis prod.exhaust)
  note U = UpdateElection_same[OF wf u]
  show ?case using Pin U u by (cases "eid = i"; cases "isOk r") (auto simp: going_def runtime_def)
next
  case (Audit y now subject role action i)
  then show ?case using audit_elections[of "eng y"] audit_same(1)[of "eng y"] by (auto simp: going_def runtime_def)
qed (auto simp: going_def runtime_def)

lemma staysI:
  assumes "going eid (w_sys w)" and "\<And>n y. going eid y \<Longrightarrow> going eid (others en n y)"
  shows "stays k eid en w"
proof -
  have "(interleaved en)\<^sup>*\<^sup>* (w_sys w) y \<Longrightarrow> going eid y" for y
    by (induction rule: rtranclp_induct) (use assms sched_move_going in \<open>auto simp: interleaved_def\<close>)
  then show ?thesis by (simp add: stays_def pass_rel_def)
qed

end
