(* ===== verification/Scheduler_Properties.thy ===== *)
theory Scheduler_Properties
  imports Sample_Pass Drain_Laws
begin

text \<open>
  The properties of the scheduler (src/orchestrator/scheduler.go, scatter.go and finalize.go),
  with a concrete run for the witnesses: a finalize of a chain that is on its worker.
\<close>

lemma begin_ok: "reachable k y \<Longrightarrow> rely k eid en \<Longrightarrow> chains_ok eid y \<Longrightarrow> pass_ok k eid en (begin_run y n)"
  using reachable_inv[of k y] by (simp add: pass_ok_def begin_run_def no_chain_def chain_ok_def rely_def)

lemma steps_reachable: "(sys_step k)\<^sup>*\<^sup>* y y' \<Longrightarrow> reachable k y \<Longrightarrow> reachable k y'"
  by (induction rule: rtranclp_induct) (auto intro: reachable.step)

lemma driven_end:
  assumes "driven k eid en m Q w" and "m w = Some (r, w')" and "pass_ok k eid en w"
  shows "pass_ok k eid en w'" "pass_rel k en w w'" "Q r w'"
  using assms by (auto simp: runs_def chain_rel_def)

section \<open>The properties\<close>

text \<open>
  C3. Whatever the other goroutines do beside it, a run of \<open>Dispatch\<close>, \<open>Drain\<close> or
  \<open>Finalize\<close> only makes steps of the system: it is an interleaving of what the others do with
  single scheduler steps, in which every fold is committed with the batches right below its new
  head, in order. So it ends in a reachable state, with the sealed batches and the votes as they
  were and the fold chain it keeps in order.
\<close>

theorem scheduler_runs_are_steps:
  assumes "reachable k y" and "rely k eid en" and "chains_ok eid y"
    and run: "(\<exists>r. Dispatch en eid (begin_run y n) = Some (r, w')) \<or> (\<exists>r. Drain en eid (begin_run y n) = Some (r, w')) \<or>
      (\<exists>r. Finalize en eid key (begin_run y n) = Some (r, w'))"
  shows "(interleaved en)\<^sup>*\<^sup>* y (w_sys w') \<and> reachable k (w_sys w') \<and> kept (store (eng y)) (store (w_eng w')) \<and>
    chains_ok eid (w_sys w')"
proof -
  let ?w = "begin_run y n"
  note ok = begin_ok[OF assms(1-3), of n]
  have "pass_ok k eid en w' \<and> pass_rel k en ?w w'"
    using run driven_end[OF driven_drive _ ok] driven_end[OF driven_Finalize _ ok] unfolding Dispatch_def Drain_def by blast
  moreover have "w_sys ?w = y" by (simp add: begin_run_def)
  ultimately show ?thesis using steps_reachable[OF _ assms(1)] by (simp add: pass_rel_def pass_ok_def)
qed

theorem scheduler_runs_are_steps_witness:
  "\<exists>w'. (interleaved demo_env)\<^sup>*\<^sup>* demo_y4 (w_sys w') \<and> reachable demo_sdk (w_sys w') \<and>
     kept (store (eng demo_y4)) (store (w_eng w')) \<and> chains_ok ''E'' (w_sys w')"
proof -
  obtain res w' where "Finalize demo_env ''E'' 0 (begin_run demo_y4 0) = Some (Inr res, w')" using demo_Finalize by blast
  then show ?thesis using scheduler_runs_are_steps[OF demo_y4_reachable demo_rely demo_chains, where n = 0 and w' = w' and key = 0] by blast
qed



text \<open>
  C5. A drain that returns without an error has folded everything: if the election stays loaded
  and is neither canceled nor finished meanwhile, then whatever else the other goroutines do,
  nothing is left pending in the chain, every batch that was sealed when the drain began is
  below its number of folded batches, and this is the chain the scheduler goes on with.
\<close>

theorem drain_folds_everything:
  assumes "reachable k y" and "rely k eid en" and "chains_ok eid y"
    and others: "\<And>n y. going eid y \<Longrightarrow> going eid (others en n y)" and going: "going eid y"
    and run: "Drain en eid (begin_run y n) = Some (Inr (), w')"
  shows "fc_pending (w_fc w') = [] \<and>
    (\<forall>sq b. store_BatchInput (store (eng y)) eid sq = Inr b \<longrightarrow> sq < fc_batchesFolded (w_fc w')) \<and>
    (\<forall>sc fc. sched (w_eng w') = Some sc \<longrightarrow> chains sc (ElectionID_String eid) = Some fc \<longrightarrow> fc = w_fc w')"
proof -
  let ?w = "begin_run y n"
  have wf: "storage_wf (store (eng y))" using going by (simp add: going_def)
  have "stays k eid en ?w" using going others by (intro staysI) (simp_all add: begin_run_def)
  with driven_end(3)[OF drive_empties run[unfolded Drain_def] begin_ok[OF assms(1-3)]]
  have "fc_pending (w_fc w') = [] \<and> (\<forall>sq \<in> sealed_seqs eid ?w. sq < fc_batchesFolded (w_fc w')) \<and> saved eid w'" by simp
  moreover have "sq \<in> sealed_seqs eid ?w" if "store_BatchInput (store (eng y)) eid sq = Inr b" for sq b
    using that by (simp add: begin_run_def reads(4)[OF wf] found_def batch_votes_def split: option.splits)
  ultimately show ?thesis by (auto simp: saved_def)
qed

theorem drain_folds_everything_witness:
  "\<exists>w'. Drain demo_env ''E'' (begin_run demo_y4 0) = Some (Inr (), w') \<and> fc_pending (w_fc w') = [] \<and>
     (\<forall>sc fc. sched (w_eng w') = Some sc \<longrightarrow> chains sc (ElectionID_String ''E'') = Some fc \<longrightarrow> fc = w_fc w')"
proof -
  obtain w' where d: "Drain demo_env ''E'' (begin_run demo_y4 0) = Some (Inr (), w')" using demo_Drain by blast
  have "going ''E'' demo_y4" by (simp add: going_def demo_y4_def runtime_def demo_created)
  from drain_folds_everything[OF demo_y4_reachable demo_rely demo_chains _ this d] d show ?thesis
    by (auto simp: demo_env_def)
qed

text \<open>
  C15. A wait for a prover's job always ends: once the clock has passed the deadline, the next
  poll returns.
\<close>

theorem waitJob_returns:
  assumes "\<And>t. \<exists>n0. \<forall>n \<ge> n0. t < clock en n"
  shows "\<exists>r w'. waitJob en h jobID w = Some (r, w')"
proof -
  have "\<exists>y. waitJob_loop en h jobID deadline errs w = Some y" for deadline errs w
    using assms waitJob_loop_returns by blast
  then show ?thesis by (auto simp: waitJob_def seq_def sched_of_def ask_def atomic_def)
qed

theorem waitJob_returns_witness: "\<exists>r w'. waitJob demo_env 0 ''j'' (begin_run demo_y4 0) = Some (r, w')"
proof (rule waitJob_returns)
  have "t < clock demo_env n" if "nat t + 1 \<le> n" for t n using that by (simp add: demo_env_simps)
  then show "\<exists>n0. \<forall>n \<ge> n0. t < clock demo_env n" for t by blast
qed

text \<open>
  C16. A fold job or an import that fails on the fold worker after all attempts is reported as
  a failure of that worker, which makes \<open>withFoldWorker\<close> move the chain, unless the scheduler was
  stopped meanwhile.
\<close>

theorem fold_failure_names_worker:
  assumes "runFold en h req w = Some (Inl er, w') \<or> importProof en h pf kind w = Some (Inl er, w')"
  shows "errors_Is er ErrFoldWorker \<or> (\<exists>n. w_ticks w \<le> n \<and> n < w_ticks w' \<and> ctx_done en n)"
proof -
  have "fails_named en (w_ticks w) (runFold en h req) w" "fails_named en (w_ticks w) (importProof en h pf kind) w"
    unfolding runFold_def importProof_def by (intro runJob_named call_named ticks.runs_read)+
  with assms show ?thesis by (auto simp: runs_def canceled_def)
qed

theorem fold_failure_names_worker_witness:
  "\<exists>er w'. runFold demo_env 0 \<lparr>fr_Config = 0, fr_BatchJobs = [''i''], fr_FoldVK = [], fr_PrevFoldJob = []\<rparr> (begin_run demo_y4 0) =
     Some (Inl er, w') \<and> errors_Is er ErrFoldWorker"
proof -
  let ?req = "\<lparr>fr_Config = 0, fr_BatchJobs = [''i''], fr_FoldVK = [], fr_PrevFoldJob = []\<rparr>"
  have b: "begin_run demo_y4 0 = demo_w 0 no_chain demo_scheduler demo_pool" by (simp add: begin_run_def demo_y4_def demo_w_def)
  have f: "SubmitFold demo_env n a r = Inl []" for n a r by (simp add: demo_env_def)
  obtain er w' where "runFold demo_env 0 ?req (begin_run demo_y4 0) = Some (Inl er, w')"
    by (simp add: b runFold_def runJob_def maxJobAttempts_def eval_nat_numeral runOnce_def pause_def address_def workerResult_def demo_run f)
  then show ?thesis using fold_failure_names_worker[of demo_env 0 ?req "begin_run demo_y4 0" er w'] by (auto simp: demo_env_simps)
qed

end
