(* ===== verification/Http.thy ===== *)
theory Http
  imports Scheduler
begin

text \<open>
  The HTTP layer of package \<open>api\<close> below its handlers: the response writer with the log
  lines of a request (src/api/middleware.go), the error type and its codes (errors.go,
  errors_definition.go), the request and response bodies (helpers.go, types.go) and the two
  middlewares the source defines, request logging and JWT authentication.

  The record \<open>net\<close> holds what the source calls of other packages and of the JSON and URL
  packages: chi's route search, \<open>jwt.ParseWithClaims\<close>, \<open>url.Parse\<close>, the decoders of the
  request bodies and the encoder of the responses. A request body is a reader: the bytes that
  arrive and whether reading fails after them.
\<close>

section \<open>Documents (types.go)\<close>

record ElectionCreateRequest =
  cr_ProcessID :: string
  cr_BallotMode :: string
  cr_EncX :: string
  cr_EncY :: string
  cr_CensusOrigin :: u64
  cr_CensusRoot :: string
  cr_VK :: bytes
  cr_BatchSize :: int
  cr_FoldEvery :: int
  cr_EndTime :: time

record ElectionResponse =
  er_ID :: string
  er_Status :: string
  er_BatchSize :: int
  er_FoldEvery :: int
  er_EndTime :: time
  er_CreatedAt :: time
  er_FoldWorker :: string
  er_FinalizeError :: string

record ResultsResponse =
  rr_ElectionID :: string
  rr_Tally :: "u64 list"
  rr_ProgramVK :: string
  rr_RootCVadcopFinal :: string
  rr_PublicValues :: string
  rr_ProofBytes :: string

record InfoResponse =
  in_Version :: string
  in_BatchSize :: int
  in_FoldEvery :: int
  in_Workers :: int
  in_Elections :: int

record WorkerRegisterRequest =
  wq_Address :: string
  wq_Name :: string

text \<open>The values the handlers encode, one constructor per response type.\<close>

datatype document =
    DError string nat
  | DInfo InfoResponse
  | DElection ElectionResponse
  | DElections "ElectionResponse list"
  | DReceipt string string
  | DVoteStatus string string u64
  | DEncrypted string "string list"
  | DResults ResultsResponse
  | DWorkers "WorkerInfo list"
  | DWorker WorkerInfo

section \<open>Parameters\<close>

type_synonym reader = "bytes \<times> bool"

datatype JwtMethod = SigningMethodHMAC | OtherMethod string

datatype claim = CString string | CNumber int | COther

type_synonym claims = "string \<rightharpoonup> claim"

record net =
  Find :: "string \<Rightarrow> string \<Rightarrow> string"
  URLParam :: "string \<Rightarrow> string \<Rightarrow> string \<Rightarrow> string"
  NoRoute :: "string \<Rightarrow> string \<Rightarrow> nat \<times> string"
  ParseWithClaims :: "time \<Rightarrow> (JwtMethod \<Rightarrow> gerror + bytes) \<Rightarrow> string \<Rightarrow> gerror + (bool \<times> claims)"
  VerifyExpiresAt :: "claims \<Rightarrow> int \<Rightarrow> bool \<Rightarrow> bool"
  url_Parse :: "string \<Rightarrow> (string \<times> string) option"
  decode_create :: "reader \<Rightarrow> gerror + ElectionCreateRequest"
  decode_status :: "reader \<Rightarrow> gerror + string"
  decode_vote :: "reader \<Rightarrow> gerror + VoteSubmission"
  decode_key :: "reader \<Rightarrow> gerror + string"
  decode_worker :: "reader \<Rightarrow> gerror + WorkerRegisterRequest"
  marshal :: "document \<Rightarrow> gerror + string"

text \<open>
  What the source relies on of the JWT package: a token it calls valid is signed with a key the
  key function returned for the token's method (\<open>issued\<close> says which tokens are signed for
  which claims), and a required expiry that verifies is a number past the time given.
\<close>

definition jwt_ok :: "net \<Rightarrow> (JwtMethod \<Rightarrow> bytes \<Rightarrow> string \<Rightarrow> claims \<Rightarrow> bool) \<Rightarrow> bool" where
  "jwt_ok n issued \<longleftrightarrow>
     (\<forall>t keyFor raw c. ParseWithClaims n t keyFor raw = Inr (True, c) \<longrightarrow>
        (\<exists>method key. keyFor method = Inr key \<and> issued method key raw c)) \<and>
     (\<forall>c now. VerifyExpiresAt n c now True \<longrightarrow> (\<exists>ex. c ''exp'' = Some (CNumber ex) \<and> now < ex))"

section \<open>Requests and responses\<close>

record request =
  rq_Method :: string
  rq_URL :: string
  rq_Path :: string
  rq_RawPath :: string
  rq_Authorization :: string
  rq_ContentLength :: int
  rq_Body :: reader

text \<open>\<open>io.LimitReader\<close>: reading fails only when it does so below the limit.\<close>

definition LimitReader :: "reader \<Rightarrow> nat \<Rightarrow> reader" where
  "LimitReader r n = (take n (fst r), snd r \<and> length (fst r) < n)"

datatype logline =
    LRequest string string string
  | LResponse string string nat
  | LErrorResponse string nat nat
  | LBody nat string
  | LWarn gerror
  | LFail gerror

text \<open>
  The writer a handler gets: what the client receives (status 0 before a status is sent), the
  \<open>responseWriter\<close> around it when the logging middleware put one there (its status code and
  whether the route is redacted), whether the connection is lost, and the lines logged so far.
\<close>

record writer =
  w_Status :: nat
  w_Type :: string
  w_Sent :: string
  w_wrapped :: "(nat \<times> bool) option"
  w_broken :: bool
  w_log :: "logline list"

definition logline :: "logline \<Rightarrow> writer \<Rightarrow> writer" where
  "logline l w = w\<lparr>w_log := w_log w @ [l]\<rparr>"

definition sendStatus :: "nat \<Rightarrow> writer \<Rightarrow> writer" where
  "sendStatus code w = (if w_Status w = 0 then w\<lparr>w_Status := code\<rparr> else w)"

definition setType :: "string \<Rightarrow> writer \<Rightarrow> writer" where
  "setType ty w = (if w_Status w = 0 then w\<lparr>w_Type := ty\<rparr> else w)"

definition noteStatus :: "nat \<Rightarrow> writer \<Rightarrow> writer" where
  "noteStatus code w =
     (case w_wrapped w of
        None \<Rightarrow> w
      | Some (st, redacted) \<Rightarrow> if st = 0 then w\<lparr>w_wrapped := Some (code, redacted)\<rparr> else w)"

definition WriteHeader :: "nat \<Rightarrow> writer \<Rightarrow> writer" where
  "WriteHeader code w = sendStatus code (noteStatus code w)"

definition Write :: "string \<Rightarrow> writer \<Rightarrow> (gerror + unit) \<times> writer" where
  "Write b w =
     (let w1 = sendStatus 200 (noteStatus 200 w) in
      if w_broken w1 then (Inl [Detail ''connection lost''], w1)
      else (Inr (), w1\<lparr>w_Sent := w_Sent w1 @ b\<rparr>))"

definition responseLogged :: "writer \<Rightarrow> bool" where
  "responseLogged w \<longleftrightarrow> (case w_wrapped w of None \<Rightarrow> False | Some (_, redacted) \<Rightarrow> \<not> redacted)"

text \<open>\<open>http.Error\<close> of the standard library, which sets its own content type.\<close>

definition http_Error :: "string \<Rightarrow> nat \<Rightarrow> writer \<Rightarrow> writer" where
  "http_Error msg code w =
     snd (Write (msg @ [CHR 0x0A]) (WriteHeader code (setType ''text/plain; charset=utf-8'' w)))"

section \<open>Errors (errors.go, errors\_definition.go)\<close>

record apiError =
  ae_Err :: gerror
  ae_Code :: nat
  ae_HTTPstatus :: nat

definition With :: "apiError \<Rightarrow> string \<Rightarrow> apiError" where
  "With e s = e\<lparr>ae_Err := ae_Err e @ [Detail s]\<rparr>"

definition WithErr :: "apiError \<Rightarrow> gerror \<Rightarrow> apiError" where
  "WithErr e er = e\<lparr>ae_Err := ae_Err e @ [Detail (gerror_Error er)]\<rparr>"

definition MarshalJSON :: "apiError \<Rightarrow> document" where
  "MarshalJSON e = DError (if ae_Err e = [] then ''(empty)'' else gerror_Error (ae_Err e)) (ae_Code e)"

definition Error_Write :: "net \<Rightarrow> apiError \<Rightarrow> writer \<Rightarrow> writer" where
  "Error_Write n e w =
     (case marshal n (MarshalJSON e) of
        Inl er \<Rightarrow> http_Error ''marshal failed'' 500 (logline (LWarn er) w)
      | Inr msg \<Rightarrow>
          let w1 = (if responseLogged w
                    then logline (LErrorResponse (gerror_Error (ae_Err e)) (ae_Code e) (ae_HTTPstatus e)) w else w) in
          http_Error msg (ae_HTTPstatus e) (setType ''application/json'' w1))"

definition apiErr :: "nat \<Rightarrow> nat \<Rightarrow> string \<Rightarrow> apiError" where
  "apiErr code status msg = \<lparr>ae_Err = [Detail msg], ae_Code = code, ae_HTTPstatus = status\<rparr>"

definition api_ErrMalformedBody :: apiError where "api_ErrMalformedBody = apiErr 40002 400 ''malformed JSON body''"
definition api_ErrMalformedParam :: apiError where "api_ErrMalformedParam = apiErr 40003 400 ''malformed parameter''"
definition api_ErrUnauthorized :: apiError where "api_ErrUnauthorized = apiErr 40004 403 ''unauthorized''"
definition api_ErrInvalidToken :: apiError where "api_ErrInvalidToken = apiErr 40005 401 ''invalid or expired token''"
definition api_ErrElectionNotFound :: apiError where "api_ErrElectionNotFound = apiErr 40006 404 ''election not found''"
definition api_ErrElectionExists :: apiError where "api_ErrElectionExists = apiErr 40007 409 ''election already exists''"
definition api_ErrElectionNotAcceptingVotes :: apiError where
  "api_ErrElectionNotAcceptingVotes = apiErr 40008 400 ''election is not accepting votes''"
definition api_ErrInvalidBallotProof :: apiError where "api_ErrInvalidBallotProof = apiErr 40009 400 ''invalid ballot proof''"
definition api_ErrInvalidSignature :: apiError where "api_ErrInvalidSignature = apiErr 40010 400 ''invalid signature''"
definition api_ErrInvalidCensusProof :: apiError where "api_ErrInvalidCensusProof = apiErr 40011 400 ''invalid census proof''"
definition api_ErrVoteAlreadySubmitted :: apiError where "api_ErrVoteAlreadySubmitted = apiErr 40012 409 ''vote already submitted''"
definition api_ErrVoteNotFound :: apiError where "api_ErrVoteNotFound = apiErr 40013 404 ''vote not found''"
definition api_ErrResultsNotReady :: apiError where "api_ErrResultsNotReady = apiErr 40014 409 ''results not ready''"
definition api_ErrWorkerNotFound :: apiError where "api_ErrWorkerNotFound = apiErr 40015 404 ''worker not found''"
definition api_ErrMalformedWorkerInfo :: apiError where "api_ErrMalformedWorkerInfo = apiErr 40016 400 ''malformed worker info''"
definition api_ErrInvalidStatusTransition :: apiError where
  "api_ErrInvalidStatusTransition = apiErr 40017 409 ''invalid election status transition''"
definition api_ErrInvalidDecryptionKey :: apiError where "api_ErrInvalidDecryptionKey = apiErr 40018 400 ''invalid decryption key''"
definition api_ErrMarshalingServerJSONFailed :: apiError where
  "api_ErrMarshalingServerJSONFailed = apiErr 50001 500 ''marshaling (server-side) JSON failed''"
definition api_ErrGenericInternalServerError :: apiError where
  "api_ErrGenericInternalServerError = apiErr 50002 500 ''internal server error''"

lemmas api_errors = api_ErrMalformedBody_def api_ErrMalformedParam_def api_ErrUnauthorized_def api_ErrInvalidToken_def
  api_ErrElectionNotFound_def api_ErrElectionExists_def api_ErrElectionNotAcceptingVotes_def api_ErrInvalidBallotProof_def
  api_ErrInvalidSignature_def api_ErrInvalidCensusProof_def api_ErrVoteAlreadySubmitted_def api_ErrVoteNotFound_def
  api_ErrResultsNotReady_def api_ErrWorkerNotFound_def api_ErrMalformedWorkerInfo_def api_ErrInvalidStatusTransition_def
  api_ErrInvalidDecryptionKey_def api_ErrMarshalingServerJSONFailed_def api_ErrGenericInternalServerError_def apiErr_def

section \<open>Helpers (helpers.go)\<close>

definition maxRequestBody :: nat where
  "maxRequestBody = 2 ^ 20"

definition engineErrors :: "(sentinel \<times> apiError) list" where
  "engineErrors =
     [(ErrElectionNotFound, api_ErrElectionNotFound),
      (ErrNotAcceptingVotes, api_ErrElectionNotAcceptingVotes),
      (ErrVoteAlreadySubmitted, api_ErrVoteAlreadySubmitted),
      (ErrInvalidBallotProof, api_ErrInvalidBallotProof),
      (ErrInvalidSignature, api_ErrInvalidSignature),
      (ErrInvalidCensusProof, api_ErrInvalidCensusProof),
      (ErrMalformedVote, api_ErrMalformedBody),
      (ErrInvalidTransition, api_ErrInvalidStatusTransition),
      (ErrInvalidDecryptionKey, api_ErrInvalidDecryptionKey),
      (ErrWorkerNotFound, api_ErrWorkerNotFound)]"

definition engineError :: "gerror \<Rightarrow> apiError" where
  "engineError er =
     (case find (\<lambda>m. errors_Is er (fst m)) engineErrors of
        Some m \<Rightarrow> (snd m)\<lparr>ae_Err := er\<rparr>
      | None \<Rightarrow> WithErr api_ErrGenericInternalServerError er)"

definition httpReadJSON :: "request \<Rightarrow> (reader \<Rightarrow> gerror + 'a) \<Rightarrow> gerror + 'a" where
  "httpReadJSON rq decode = decode (LimitReader (rq_Body rq) maxRequestBody)"

text \<open>The path the router matches.\<close>

definition routePath :: "request \<Rightarrow> string" where
  "routePath rq = (if rq_RawPath rq = [] then rq_Path rq else rq_RawPath rq)"

definition urlParam :: "net \<Rightarrow> request \<Rightarrow> string \<Rightarrow> string" where
  "urlParam n rq name = URLParam n (Find n (rq_Method rq) (routePath rq)) (routePath rq) name"

definition idFromURL :: "net \<Rightarrow> string \<Rightarrow> request \<Rightarrow> gerror + bytes" where
  "idFromURL n name rq =
     (case hexDecode (TrimPrefix (urlParam n rq name) ''0x'') of
        None \<Rightarrow> Inl [Detail ''encoding/hex'']
      | Some b \<Rightarrow> Inr b)"

definition electionIDFromURL :: "net \<Rightarrow> request \<Rightarrow> gerror + ElectionID" where
  "electionIDFromURL n = idFromURL n ''id''"

definition voteIDFromURL :: "net \<Rightarrow> request \<Rightarrow> gerror + VoteID" where
  "voteIDFromURL n = idFromURL n ''voteID''"

definition withoutQuotes :: "string \<Rightarrow> string" where
  "withoutQuotes s = filter (\<lambda>c. c \<noteq> CHR 0x22) s"

definition httpWriteJSONStatus :: "net \<Rightarrow> nat \<Rightarrow> document \<Rightarrow> writer \<Rightarrow> writer" where
  "httpWriteJSONStatus n status data w =
     (case marshal n data of
        Inl er \<Rightarrow> Error_Write n (WithErr api_ErrMarshalingServerJSONFailed er) w
      | Inr jdata \<Rightarrow>
          (case Write jdata (WriteHeader status (setType ''application/json'' w)) of
             (Inl er, w1) \<Rightarrow> logline (LWarn er) w1
           | (Inr _, w1) \<Rightarrow>
               (case Write [CHR 0x0A] w1 of
                  (Inl er, w2) \<Rightarrow> logline (LWarn er) w2
                | (Inr _, w2) \<Rightarrow>
                    if responseLogged w2 then logline (LBody (length jdata) (withoutQuotes jdata)) w2 else w2)))"

definition httpWriteJSON :: "net \<Rightarrow> document \<Rightarrow> writer \<Rightarrow> writer" where
  "httpWriteJSON n = httpWriteJSONStatus n 200"

definition httpWriteOK :: "writer \<Rightarrow> writer" where
  "httpWriteOK w =
     (case Write [CHR 0x0A] (WriteHeader 200 w) of (Inl er, w1) \<Rightarrow> logline (LWarn er) w1 | (Inr _, w1) \<Rightarrow> w1)"

section \<open>Middleware (middleware.go)\<close>

text \<open>
  The process around a request: whether API logging is disabled, the log level, the time it
  arrives and the time its handler runs, and the orders in which Go ranges over the maps of
  workers and of elections.
\<close>

record process =
  DisabledLogging :: bool
  log_Level :: string
  arrival :: time
  now_of :: time
  worker_order :: "string list"
  election_order :: "string list"

type_synonym ('b, 'v, 'st) conn = "('b, 'v, 'st) engine \<times> writer"

text \<open>
  A handler gets the request, the subject in its context and the engine with the writer;
  \<open>None\<close> is a call of the engine that does not return.
\<close>

type_synonym ('b, 'v, 'st) handler = "request \<Rightarrow> string \<Rightarrow> ('b, 'v, 'st) conn \<Rightarrow> ('b, 'v, 'st) conn option"

text \<open>\<open>jsonRegex\<close>: white space, then a bracket or a brace.\<close>

definition jsonStart :: "string \<Rightarrow> bool" where
  "jsonStart s = (case dropWhile (\<lambda>c. c \<in> {CHR 0x09, CHR 0x0A, CHR 0x0C, CHR 0x0D, CHR '' ''}) s of
     [] \<Rightarrow> False | c # _ \<Rightarrow> c = CHR ''['' \<or> c = CHR ''{'')"

definition loggedBody :: "nat \<Rightarrow> string \<Rightarrow> string" where
  "loggedBody maxBodyLog bodyBytes =
     (if jsonStart bodyBytes
      then withoutQuotes (if length bodyBytes > maxBodyLog then take maxBodyLog bodyBytes @ ''...'' else bodyBytes)
      else [])"

definition loggedCall ::
  "bool \<Rightarrow> string \<Rightarrow> ('b, 'v, 'st) handler \<Rightarrow> ('b, 'v, 'st) handler" where
  "loggedCall redact bodyStr nxt rq subject c =
     map_option (\<lambda>(e, w).
         let st = (case w_wrapped w of None \<Rightarrow> 0 | Some (st, _) \<Rightarrow> st) in
         (e, (logline (LResponse (rq_Method rq) (rq_URL rq) st) w)\<lparr>w_wrapped := w_wrapped (snd c)\<rparr>))
       (nxt rq subject
         (fst c, (logline (LRequest (rq_Method rq) (rq_URL rq) bodyStr) ((snd c)\<lparr>w_wrapped := Some (0, redact)\<rparr>))))"

definition loggingMiddleware ::
  "process \<Rightarrow> nat \<Rightarrow> (request \<Rightarrow> bool) \<Rightarrow> ('b, 'v, 'st) handler \<Rightarrow> ('b, 'v, 'st) handler" where
  "loggingMiddleware m maxBodyLog redacted nxt rq subject c =
     (if DisabledLogging m \<or> log_Level m \<noteq> ''debug'' then nxt rq subject c
      else if redacted rq then loggedCall True ''(redacted)'' nxt rq subject c
      else if rq_ContentLength rq > 0 then
        (case LimitReader (rq_Body rq) (maxBodyLog + 1) of
           (bodyBytes, True) \<Rightarrow>
             Some (fst c, http_Error ''unable to read request body'' 500 (logline (LFail [Detail ''read'']) (snd c)))
         | (bodyBytes, False) \<Rightarrow> loggedCall False (loggedBody maxBodyLog bodyBytes) nxt rq subject c)
      else loggedCall False [] nxt rq subject c)"

definition bearerToken :: "request \<Rightarrow> string" where
  "bearerToken rq =
     (let h = rq_Authorization rq; scheme = takeWhile (\<lambda>c. c \<noteq> CHR '' '') h in
      if h = [] \<or> scheme = h \<or> \<not> EqualFold scheme ''Bearer'' then []
      else TrimSpace (drop (length scheme + 1) h))"

text \<open>The key function of \<open>jwtAuth\<close>: only HMAC tokens get the secret.\<close>

definition jwtKey :: "bytes \<Rightarrow> JwtMethod \<Rightarrow> gerror + bytes" where
  "jwtKey secret method =
     (case method of SigningMethodHMAC \<Rightarrow> Inr secret | _ \<Rightarrow> Inl [Detail ''signature is invalid''])"

definition claimString :: "claims \<Rightarrow> string \<Rightarrow> string" where
  "claimString c name = (case c name of Some (CString s) \<Rightarrow> s | _ \<Rightarrow> [])"

definition jwtAuth ::
  "net \<Rightarrow> process \<Rightarrow> bytes \<Rightarrow> string list \<Rightarrow> ('b, 'v, 'st) handler \<Rightarrow> ('b, 'v, 'st) handler" where
  "jwtAuth n m secret allowedRoles nxt rq subject c =
     (let refuse = (\<lambda>er. Some (fst c, Error_Write n er (snd c))); raw = bearerToken rq in
      if raw = [] then refuse (With api_ErrInvalidToken ''missing bearer token'')
      else (case ParseWithClaims n (arrival m) (jwtKey secret) raw of
        Inl _ \<Rightarrow> refuse api_ErrInvalidToken
      | Inr (valid, claims) \<Rightarrow>
          if \<not> valid then refuse api_ErrInvalidToken
          else if \<not> VerifyExpiresAt n claims (Unix (arrival m)) True
          then refuse (With api_ErrInvalidToken ''the token must carry an exp claim'')
          else if claimString claims ''role'' \<notin> set allowedRoles
          then refuse (With api_ErrUnauthorized (''role '' @ claimString claims ''role'' @ '' not permitted''))
          else nxt rq (claimString claims ''sub'') c))"

end
