(* ===== verification/Api.thy ===== *)
theory Api
  imports Http
begin

text \<open>
  The handlers of package \<open>api\<close> (elections.go, votes.go, results.go, workers.go, api.go),
  the route table of \<open>registerHandlers\<close> with the roles of its routes, and a request's way
  through the logging middleware, the router, the authentication and its handler. The other
  middlewares of \<open>initRouter\<close> (CORS, recovery, throttling, timeout) are library code that
  answers a request itself or lets it through; the model is of a request they let through.
  \<open>a.pool\<close> is the engine's pool, as src/service wires them.
\<close>

record API =
  jwtSecret :: bytes
  api_batchSize :: int
  api_foldEvery :: int

record api_Config =
  ac_JWTSecret :: bytes
  ac_Engine :: bool
  ac_BatchSize :: int
  ac_FoldEvery :: int

text \<open>\<open>New\<close> up to the start of the server; \<open>ac_Engine\<close> tells whether an engine is given.\<close>

definition api_New :: "api_Config option \<Rightarrow> gerror + API" where
  "api_New conf =
     (case conf of
        None \<Rightarrow> Inl [Detail ''missing API configuration'']
      | Some c \<Rightarrow>
          and_then (require (ac_Engine c) [Detail ''missing engine instance'']) (\<lambda>_.
          and_then (require (ac_JWTSecret c \<noteq> []) [Detail ''missing JWT secret'']) (\<lambda>_.
          Inr \<lparr>jwtSecret = ac_JWTSecret c, api_batchSize = ac_BatchSize c, api_foldEvery = ac_FoldEvery c\<rparr>)))"

section \<open>Routes (routes.go)\<close>

definition RoleAdmin :: string where "RoleAdmin = ''admin''"
definition RoleKeywarden :: string where "RoleKeywarden = ''keywarden''"

definition PingEndpoint :: string where "PingEndpoint = ''/ping''"
definition InfoEndpoint :: string where "InfoEndpoint = ''/info''"
definition ElectionsEndpoint :: string where "ElectionsEndpoint = ''/elections''"
definition ElectionEndpoint :: string where "ElectionEndpoint = ''/elections/{id}''"
definition ElectionStatusEndpoint :: string where "ElectionStatusEndpoint = ''/elections/{id}/status''"
definition VotesEndpoint :: string where "VotesEndpoint = ''/elections/{id}/votes''"
definition VoteEndpoint :: string where "VoteEndpoint = ''/elections/{id}/votes/{voteID}''"
definition EncryptedResultsEndpoint :: string where "EncryptedResultsEndpoint = ''/elections/{id}/encrypted-results''"
definition DecryptionKeyEndpoint :: string where "DecryptionKeyEndpoint = ''/elections/{id}/decryption-key''"
definition ResultsEndpoint :: string where "ResultsEndpoint = ''/elections/{id}/results''"
definition WorkersEndpoint :: string where "WorkersEndpoint = ''/workers''"
definition WorkerRegisterEndpoint :: string where "WorkerRegisterEndpoint = ''/workers/register''"
definition WorkerEndpoint :: string where "WorkerEndpoint = ''/workers/{workerID}''"

lemmas endpoint_defs = PingEndpoint_def InfoEndpoint_def ElectionsEndpoint_def ElectionEndpoint_def ElectionStatusEndpoint_def
  VotesEndpoint_def VoteEndpoint_def EncryptedResultsEndpoint_def DecryptionKeyEndpoint_def ResultsEndpoint_def
  WorkersEndpoint_def WorkerRegisterEndpoint_def WorkerEndpoint_def

definition LogRedactedRoutes :: "string list" where
  "LogRedactedRoutes = [''POST '' @ DecryptionKeyEndpoint]"

definition redactedRoute :: "net \<Rightarrow> request \<Rightarrow> bool" where
  "redactedRoute n rq \<longleftrightarrow>
     (let pattern = Find n (rq_Method rq) (routePath rq) in
      pattern = [] \<or> rq_Method rq @ '' '' @ pattern \<in> set LogRedactedRoutes)"

section \<open>Elections (elections.go)\<close>

definition electionResponse :: "Election \<Rightarrow> ElectionResponse" where
  "electionResponse el =
     \<lparr>er_ID = ElectionID_String (el_ID el), er_Status = Status_String (el_Status el), er_BatchSize = el_BatchSize el,
      er_FoldEvery = el_FoldEvery el, er_EndTime = el_EndTime el, er_CreatedAt = el_CreatedAt el,
      er_FoldWorker = el_FoldWorker el, er_FinalizeError = el_FinalizeError el\<rparr>"

text \<open>The answer of a handler that changed an election: the election as it is now.\<close>

definition writeElection ::
  "net \<Rightarrow> nat \<Rightarrow> ElectionID \<Rightarrow> ('b, 'v, 'st) engine \<Rightarrow> writer \<Rightarrow> ('b, 'v, 'st) conn" where
  "writeElection n status eid e w =
     (case engine_Election e eid of
        Inl er \<Rightarrow> (e, Error_Write n (WithErr api_ErrGenericInternalServerError er) w)
      | Inr el \<Rightarrow> (e, httpWriteJSONStatus n status (DElection (electionResponse el)) w))"

text \<open>The election a creation request describes.\<close>

definition requested :: "ElectionID \<Rightarrow> ElectionCreateRequest \<Rightarrow> Election" where
  "requested eid req =
     \<lparr>el_ID = eid, el_Status = StatusCreated,
      el_Config = \<lparr>cfg_ProcessID = cr_ProcessID req, cfg_BallotMode = cr_BallotMode req, cfg_EncX = cr_EncX req,
        cfg_EncY = cr_EncY req, cfg_CensusOrigin = cr_CensusOrigin req, cfg_CensusRoot = cr_CensusRoot req, cfg_VK = cr_VK req\<rparr>,
      el_BatchSize = cr_BatchSize req, el_FoldEvery = cr_FoldEvery req, el_EndTime = cr_EndTime req,
      el_CreatedAt = 0, el_UpdatedAt = 0, el_FoldWorker = [], el_FinalizeError = []\<rparr>"

definition createElection :: "('v, 'st) sdk \<Rightarrow> net \<Rightarrow> process \<Rightarrow> ('b, 'v, 'st) handler" where
  "createElection k n m rq subject c =
     (case c of (e, w) \<Rightarrow>
      Some (case httpReadJSON rq (decode_create n) of
        Inl er \<Rightarrow> (e, Error_Write n (WithErr api_ErrMalformedBody er) w)
      | Inr req \<Rightarrow>
          (case hexDecode (TrimPrefix (cr_ProcessID req) ''0x'') of
             None \<Rightarrow> (e, Error_Write n (With api_ErrMalformedParam ''processID must be non-empty hex'') w)
           | Some eid \<Rightarrow>
               if eid = [] then (e, Error_Write n (With api_ErrMalformedParam ''processID must be non-empty hex'') w)
               else (case engine_CreateElection k (now_of m) e subject (requested eid req) of
                 (Inl er, e1) \<Rightarrow>
                   (e1, Error_Write n (WithErr (if errors_Is er ErrKeyAlreadyExists then api_ErrElectionExists
                                                else api_ErrMalformedParam) er) w)
               | (Inr _, e1) \<Rightarrow> writeElection n 200 eid e1 w))))"

definition listElections :: "net \<Rightarrow> ('b, 'v, 'st) handler" where
  "listElections n rq subject c =
     (case c of (e, w) \<Rightarrow> Some (e, httpWriteJSON n (DElections (map electionResponse (engine_ListElections e))) w))"

definition getElection :: "net \<Rightarrow> ('b, 'v, 'st) handler" where
  "getElection n rq subject c =
     (case c of (e, w) \<Rightarrow>
      Some (case electionIDFromURL n rq of
        Inl er \<Rightarrow> (e, Error_Write n (WithErr api_ErrMalformedParam er) w)
      | Inr eid \<Rightarrow>
          (case engine_Election e eid of
             Inl er \<Rightarrow> (e, Error_Write n (WithErr api_ErrElectionNotFound er) w)
           | Inr el \<Rightarrow> (e, httpWriteJSON n (DElection (electionResponse el)) w))))"

definition settableStatuses :: "string \<rightharpoonup> Status" where
  "settableStatuses =
     map_of (map (\<lambda>st. (Status_String st, st)) [StatusActive, StatusPaused, StatusEnded, StatusCanceled])"

definition setElectionStatus :: "('v, 'st) sdk \<Rightarrow> net \<Rightarrow> process \<Rightarrow> ('b, 'v, 'st) handler" where
  "setElectionStatus k n m rq subject c =
     (case c of (e, w) \<Rightarrow>
      (case electionIDFromURL n rq of
         Inl er \<Rightarrow> Some (e, Error_Write n (WithErr api_ErrMalformedParam er) w)
       | Inr eid \<Rightarrow>
           (case httpReadJSON rq (decode_status n) of
              Inl er \<Rightarrow> Some (e, Error_Write n (WithErr api_ErrMalformedBody er) w)
            | Inr name \<Rightarrow>
                (case settableStatuses name of
                   None \<Rightarrow> Some (e, Error_Write n (With api_ErrMalformedParam
                       (''status must be active, paused, ended or canceled, got '' @ name)) w)
                 | Some status \<Rightarrow>
                     map_option (\<lambda>(r, e1).
                         (case r of
                            Inl er \<Rightarrow> (e1, Error_Write n (engineError er) w)
                          | Inr _ \<Rightarrow> writeElection n 200 eid e1 w))
                       (SetStatus k (now_of m) e subject eid status)))))"

section \<open>Votes (votes.go)\<close>

definition newVote :: "('v, 'st) sdk \<Rightarrow> net \<Rightarrow> process \<Rightarrow> ('b, 'v, 'st) handler" where
  "newVote k n m rq subject c =
     (case c of (e, w) \<Rightarrow>
      (case electionIDFromURL n rq of
         Inl er \<Rightarrow> Some (e, Error_Write n (WithErr api_ErrMalformedParam er) w)
       | Inr eid \<Rightarrow>
           (case httpReadJSON rq (decode_vote n) of
              Inl er \<Rightarrow> Some (e, Error_Write n (WithErr api_ErrMalformedBody er) w)
            | Inr sub \<Rightarrow>
                map_option (\<lambda>(r, e1).
                    (case r of
                       Inl er \<Rightarrow> (e1, Error_Write n (engineError er) w)
                     | Inr v \<Rightarrow> (e1, httpWriteJSON n (DReceipt (VoteID_String (v_ID v)) ''accepted'') w)))
                  (SubmitVote k (now_of m) e eid sub))))"

definition getVote :: "net \<Rightarrow> ('b, 'v, 'st) handler" where
  "getVote n rq subject c =
     (case c of (e, w) \<Rightarrow>
      Some (case electionIDFromURL n rq of
        Inl er \<Rightarrow> (e, Error_Write n (WithErr api_ErrMalformedParam er) w)
      | Inr eid \<Rightarrow>
          (case voteIDFromURL n rq of
             Inl er \<Rightarrow> (e, Error_Write n (WithErr api_ErrMalformedParam er) w)
           | Inr vid \<Rightarrow>
               (case VoteRecord e eid vid of
                  Inl er \<Rightarrow> (e, Error_Write n (WithErr api_ErrVoteNotFound er) w)
                | Inr (v, st) \<Rightarrow>
                    (e, httpWriteJSON n (DVoteStatus (VoteID_String (v_ID v)) (VoteStatus_String st) (v_Seq v)) w)))))"

section \<open>Results (results.go)\<close>

definition encryptedResults :: "('v, 'st) sdk \<Rightarrow> net \<Rightarrow> ('b, 'v, 'st) handler" where
  "encryptedResults k n rq subject c =
     (case c of (e, w) \<Rightarrow>
      Some (case electionIDFromURL n rq of
        Inl er \<Rightarrow> (e, Error_Write n (WithErr api_ErrMalformedParam er) w)
      | Inr eid \<Rightarrow>
          (case EncryptedResults k e eid of
             Inl er \<Rightarrow> (e, Error_Write n (WithErr api_ErrResultsNotReady er) w)
           | Inr ct \<Rightarrow> (e, httpWriteJSON n (DEncrypted (ElectionID_String eid) ct) w))))"

definition decryptionKey :: "('v, 'st) sdk \<Rightarrow> net \<Rightarrow> process \<Rightarrow> ('b, 'v, 'st) handler" where
  "decryptionKey k n m rq subject c =
     (case c of (e, w) \<Rightarrow>
      Some (case electionIDFromURL n rq of
        Inl er \<Rightarrow> (e, Error_Write n (WithErr api_ErrMalformedParam er) w)
      | Inr eid \<Rightarrow>
          (case httpReadJSON rq (decode_key n) of
             Inl er \<Rightarrow> (e, Error_Write n (WithErr api_ErrMalformedBody er) w)
           | Inr hex \<Rightarrow>
               (case SetString16 (TrimPrefix hex ''0x'') of
                  None \<Rightarrow> (e, Error_Write n (With api_ErrMalformedParam ''key must be 0x big-endian hex'') w)
                | Some key \<Rightarrow>
                    (case SubmitDecryptionKey k (now_of m) e subject eid key of
                       (Inl er, e1) \<Rightarrow> (e1, Error_Write n (engineError er) w)
                     | (Inr _, e1) \<Rightarrow> writeElection n 202 eid e1 w)))))"

definition resultsResponse :: "Results \<Rightarrow> ResultsResponse" where
  "resultsResponse res =
     \<lparr>rr_ElectionID = ElectionID_String (res_ElectionID res), rr_Tally = res_Tally res, rr_ProgramVK = res_ProgramVK res,
      rr_RootCVadcopFinal = res_RootCVadcopFinal res, rr_PublicValues = res_PublicValues res, rr_ProofBytes = res_ProofBytes res\<rparr>"

definition api_results :: "net \<Rightarrow> ('b, 'v, 'st) handler" where
  "api_results n rq subject c =
     (case c of (e, w) \<Rightarrow>
      Some (case electionIDFromURL n rq of
        Inl er \<Rightarrow> (e, Error_Write n (WithErr api_ErrMalformedParam er) w)
      | Inr eid \<Rightarrow>
          (case engine_Results e eid of
             Inl er \<Rightarrow> (e, Error_Write n (WithErr api_ErrResultsNotReady er) w)
           | Inr res \<Rightarrow> (e, httpWriteJSON n (DResults (resultsResponse res)) w))))"

section \<open>Workers (workers.go)\<close>

definition listWorkers :: "net \<Rightarrow> process \<Rightarrow> ('b, 'v, 'st) handler" where
  "listWorkers n m rq subject c =
     (case c of (e, w) \<Rightarrow>
      Some (e, httpWriteJSON n (DWorkers (case pool e of
          None \<Rightarrow> [] | Some wm \<Rightarrow> ListWorkerStats (now_of m) wm (worker_order m))) w))"

definition registerWorker :: "net \<Rightarrow> process \<Rightarrow> ('b, 'v, 'st) handler" where
  "registerWorker n m rq subject c =
     (case c of (e, w) \<Rightarrow>
      Some (if pool e = None
        then (e, Error_Write n (With api_ErrGenericInternalServerError ''no worker pool configured'') w)
        else (case httpReadJSON rq (decode_worker n) of
          Inl er \<Rightarrow> (e, Error_Write n (WithErr api_ErrMalformedBody er) w)
        | Inr req \<Rightarrow>
            if wq_Address req = [] then (e, Error_Write n (With api_ErrMalformedWorkerInfo ''missing worker address'') w)
            else if (case url_Parse n (wq_Address req) of
                       None \<Rightarrow> True
                     | Some (scheme, host) \<Rightarrow> scheme \<noteq> ''http'' \<and> scheme \<noteq> ''https'' \<or> host = [])
            then (e, Error_Write n (With api_ErrMalformedWorkerInfo ''worker address must be an http(s) URL'') w)
            else (case RegisterWorker (now_of m) e subject (wq_Address req) (wq_Name req) of
              (Inl er, e1) \<Rightarrow> (e1, Error_Write n (WithErr api_ErrGenericInternalServerError er) w)
            | (Inr h, e1) \<Rightarrow>
                (e1, httpWriteJSON n (DWorker (Info (now_of m) DefaultWorkerBanRules (worker (the (pool e1)) h))) w)))))"

definition removeWorker :: "net \<Rightarrow> process \<Rightarrow> ('b, 'v, 'st) handler" where
  "removeWorker n m rq subject c =
     (case c of (e, w) \<Rightarrow>
      Some (if pool e = None then (e, Error_Write n api_ErrWorkerNotFound w)
        else (case engine_RemoveWorker (now_of m) (worker_order m) (election_order m) e subject (urlParam n rq ''workerID'') of
          (Inl er, e1) \<Rightarrow> (e1, Error_Write n (engineError er) w)
        | (Inr _, e1) \<Rightarrow> (e1, httpWriteOK w))))"

section \<open>The server (api.go)\<close>

definition Version :: string where "Version = ''devel''"

definition info :: "net \<Rightarrow> process \<Rightarrow> API \<Rightarrow> ('b, 'v, 'st) handler" where
  "info n m a rq subject c =
     (case c of (e, w) \<Rightarrow>
      Some (e, httpWriteJSON n (DInfo
        \<lparr>in_Version = Version, in_BatchSize = api_batchSize a, in_FoldEvery = api_foldEvery a,
         in_Workers = (case pool e of None \<Rightarrow> 0 | Some wm \<Rightarrow> int (length (ListWorkerStats (now_of m) wm (worker_order m)))),
         in_Elections = int (length (engine_ListElections e))\<rparr>) w))"

definition ping :: "('b, 'v, 'st) handler" where
  "ping rq subject c = (case c of (e, w) \<Rightarrow> Some (e, httpWriteOK w))"

text \<open>Every route: method, pattern, the role it needs if any, handler.\<close>

definition registerHandlers ::
  "('v, 'st) sdk \<Rightarrow> net \<Rightarrow> process \<Rightarrow> API \<Rightarrow> ((string \<times> string) \<times> string option \<times> ('b, 'v, 'st) handler) list" where
  "registerHandlers k n m a =
     [((''GET'', PingEndpoint), None, ping),
      ((''GET'', InfoEndpoint), None, info n m a),
      ((''POST'', ElectionsEndpoint), Some RoleAdmin, createElection k n m),
      ((''GET'', ElectionsEndpoint), None, listElections n),
      ((''GET'', ElectionEndpoint), None, getElection n),
      ((''POST'', ElectionStatusEndpoint), Some RoleAdmin, setElectionStatus k n m),
      ((''POST'', VotesEndpoint), None, newVote k n m),
      ((''GET'', VoteEndpoint), None, getVote n),
      ((''GET'', EncryptedResultsEndpoint), Some RoleKeywarden, encryptedResults k n),
      ((''POST'', DecryptionKeyEndpoint), Some RoleKeywarden, decryptionKey k n m),
      ((''GET'', ResultsEndpoint), None, api_results n),
      ((''GET'', WorkersEndpoint), None, listWorkers n m),
      ((''POST'', WorkerRegisterEndpoint), Some RoleAdmin, registerWorker n m),
      ((''DELETE'', WorkerEndpoint), Some RoleAdmin, removeWorker n m)]"

definition routeHTTP :: "('v, 'st) sdk \<Rightarrow> net \<Rightarrow> process \<Rightarrow> API \<Rightarrow> ('b, 'v, 'st) handler" where
  "routeHTTP k n m a rq subject c =
     (case map_of (registerHandlers k n m a) (rq_Method rq, Find n (rq_Method rq) (routePath rq)) of
        None \<Rightarrow>
          (case (c, NoRoute n (rq_Method rq) (routePath rq)) of
             ((e, w), (status, body)) \<Rightarrow> Some (e, snd (Write body (WriteHeader status w))))
      | Some (None, h) \<Rightarrow> h rq subject c
      | Some (Some role, h) \<Rightarrow> jwtAuth n m (jwtSecret a) [role] h rq subject c)"

definition maxRequestBodyLog :: nat where "maxRequestBodyLog = 512"

definition serve :: "('v, 'st) sdk \<Rightarrow> net \<Rightarrow> process \<Rightarrow> API \<Rightarrow> request \<Rightarrow> ('b, 'v, 'st) conn \<Rightarrow> ('b, 'v, 'st) conn option" where
  "serve k n m a rq c = loggingMiddleware m maxRequestBodyLog (redactedRoute n) (routeHTTP k n m a) rq [] c"

end
