(* ===== verification/Keywarden.thy ===== *)
theory Keywarden
  imports Api
begin

text \<open>
  The client side of the key exchange (src/keywarden/client.go): fetching the ciphertext, the
  election and the results, posting the decryption key and waiting for the results. The record
  \<open>transport\<close> holds what the client calls: the n-th HTTP exchange of a run, the validity of a
  URL, JSON, and the clock before that exchange.
\<close>

section \<open>Data\<close>

record ElectionView =
  ke_ID :: string
  ke_Status :: string
  ke_FinalizeError :: string

record Client =
  baseURL :: string
  token :: string

record http_request =
  hr_Method :: string
  hr_URL :: string
  hr_Authorization :: string
  hr_Type :: string
  hr_Body :: string

record http_response =
  StatusCode :: nat
  resp_Body :: string

record transport =
  validURL :: "string \<Rightarrow> bool"
  Do :: "nat \<Rightarrow> http_request \<Rightarrow> gerror + http_response"
  read_election :: "string \<Rightarrow> gerror + ElectionView"
  read_encrypted :: "string \<Rightarrow> gerror + (string \<times> string list)"
  read_results :: "string \<Rightarrow> gerror + ResultsResponse"
  print_key :: "string \<Rightarrow> gerror + string"
  kw_clock :: "nat \<Rightarrow> time"

definition StatusFinalizing_name :: string where "StatusFinalizing_name = ''finalizing''"
definition StatusResults_name :: string where "StatusResults_name = ''results''"
definition kw_maxPollErrs :: nat where "kw_maxPollErrs = 5"

section \<open>Requests\<close>

definition NewClient :: "string \<Rightarrow> string \<Rightarrow> Client" where
  "NewClient url tok = \<lparr>baseURL = url, token = tok\<rparr>"

definition auth :: "Client \<Rightarrow> http_request \<Rightarrow> http_request" where
  "auth c req = (if token c \<noteq> [] then req\<lparr>hr_Authorization := ''Bearer '' @ token c\<rparr> else req)"

definition httpErr :: "string \<Rightarrow> http_response \<Rightarrow> gerror" where
  "httpErr op resp =
     [Detail (op @ '': status '' @ decString (StatusCode resp) @ '': '' @ TrimSpace (take 512 (resp_Body resp)))]"

definition get :: "transport \<Rightarrow> Client \<Rightarrow> string \<Rightarrow> string \<Rightarrow> (string \<Rightarrow> gerror + 'a) \<Rightarrow> nat \<Rightarrow> gerror + 'a" where
  "get tr c path op decode n =
     (if \<not> validURL tr (baseURL c @ path) then Inl [Detail ''invalid URL'']
      else (case Do tr n (auth c \<lparr>hr_Method = ''GET'', hr_URL = baseURL c @ path, hr_Authorization = [], hr_Type = [], hr_Body = []\<rparr>) of
        Inl er \<Rightarrow> Inl er
      | Inr resp \<Rightarrow>
          if StatusCode resp \<noteq> 200 then Inl (httpErr op resp)
          else wrap (Detail (''decode '' @ op)) (decode (resp_Body resp))))"

definition kw_EncryptedResults :: "transport \<Rightarrow> Client \<Rightarrow> string \<Rightarrow> nat \<Rightarrow> gerror + (string \<times> string list)" where
  "kw_EncryptedResults tr c eid = get tr c (''/elections/'' @ eid @ ''/encrypted-results'') ''encrypted-results'' (read_encrypted tr)"

definition kw_Election :: "transport \<Rightarrow> Client \<Rightarrow> string \<Rightarrow> nat \<Rightarrow> gerror + ElectionView" where
  "kw_Election tr c eid = get tr c (''/elections/'' @ eid) ''election'' (read_election tr)"

definition kw_Results :: "transport \<Rightarrow> Client \<Rightarrow> string \<Rightarrow> nat \<Rightarrow> gerror + ResultsResponse" where
  "kw_Results tr c eid = get tr c (''/elections/'' @ eid @ ''/results'') ''results'' (read_results tr)"

text \<open>\<open>big.Int.Text(16)\<close>.\<close>

fun hexString :: "nat \<Rightarrow> string" where
  "hexString n = (if n < 16 then [hexDigit n] else hexString (n div 16) @ [hexDigit (n mod 16)])"

declare hexString.simps [simp del]

definition Text16 :: "int \<Rightarrow> string" where
  "Text16 z = (if z < 0 then CHR ''-'' # hexString (nat (- z)) else hexString (nat z))"

definition keyRequest :: "transport \<Rightarrow> Client \<Rightarrow> string \<Rightarrow> int \<Rightarrow> gerror + http_request" where
  "keyRequest tr c eid key =
     and_then (print_key tr (''0x'' @ Text16 key)) (\<lambda>body.
     (let url = baseURL c @ ''/elections/'' @ eid @ ''/decryption-key'' in
      and_then (require (validURL tr url) [Detail ''invalid URL'']) (\<lambda>_.
      Inr (auth c \<lparr>hr_Method = ''POST'', hr_URL = url, hr_Authorization = [], hr_Type = ''application/json'', hr_Body = body\<rparr>))))"

definition kw_SubmitDecryptionKey :: "transport \<Rightarrow> Client \<Rightarrow> string \<Rightarrow> int \<Rightarrow> nat \<Rightarrow> gerror + unit" where
  "kw_SubmitDecryptionKey tr c eid key n =
     and_then (keyRequest tr c eid key) (\<lambda>req.
     and_then (Do tr n req) (\<lambda>resp.
     require (StatusCode resp = 202) (httpErr ''decryption-key'' resp)))"

section \<open>Waiting\<close>

text \<open>
  One round of \<open>WaitForResults\<close> at exchange \<open>n\<close>: the answer it returns, or the number of failed
  polls to go on with. A round takes two exchanges at most.
\<close>

definition waitRound :: "transport \<Rightarrow> Client \<Rightarrow> string \<Rightarrow> nat \<Rightarrow> nat \<Rightarrow> (gerror + ResultsResponse) + nat" where
  "waitRound tr c eid pollErrs n =
     (case kw_Election tr c eid n of
        Inl er \<Rightarrow> if pollErrs + 1 \<ge> kw_maxPollErrs then Inl (Inl er) else Inr (pollErrs + 1)
      | Inr el \<Rightarrow>
          if ke_Status el = StatusResults_name then Inl (kw_Results tr c eid (n + 1))
          else if ke_FinalizeError el \<noteq> [] then Inl (Inl [Detail (''finalize failed: '' @ ke_FinalizeError el)])
          else if ke_Status el \<noteq> StatusFinalizing_name
          then Inl (Inl [Detail (''election is '' @ ke_Status el @ '', not finalizing'')])
          else Inr 0)"

partial_function (option) waitLoop ::
  "transport \<Rightarrow> Client \<Rightarrow> string \<Rightarrow> duration \<Rightarrow> time \<Rightarrow> nat \<Rightarrow> nat \<Rightarrow> (gerror + ResultsResponse) option" where
  "waitLoop tr c eid interval deadline pollErrs n =
     (case waitRound tr c eid pollErrs n of
        Inl r \<Rightarrow> Some r
      | Inr errs \<Rightarrow>
          if kw_clock tr (n + 1) + interval > deadline then Some (Inl [Detail (''no results for election '' @ eid)])
          else waitLoop tr c eid interval deadline errs (n + 1))"

definition WaitForResults ::
  "transport \<Rightarrow> Client \<Rightarrow> string \<Rightarrow> duration \<Rightarrow> duration \<Rightarrow> nat \<Rightarrow> (gerror + ResultsResponse) option" where
  "WaitForResults tr c eid interval timeout n = waitLoop tr c eid interval (kw_clock tr n + timeout) 0 n"

section \<open>The key over the wire\<close>

lemma fromHexChar_hexDigit: "n < 16 \<Longrightarrow> fromHexChar (hexDigit n) = Some n"
  using hexDigit_cases[of n] by simp

lemma hexVal_append: "hexVal a (s @ t) = (case hexVal a s of None \<Rightarrow> None | Some b \<Rightarrow> hexVal b t)"
  by (induction s arbitrary: a) (auto split: option.splits)

lemma hexVal_hexString: "hexVal 0 (hexString n) = Some n"
proof (induction n rule: hexString.induct)
  case (1 n)
  show ?case
  proof (cases "n < 16")
    case True
    then show ?thesis by (simp add: hexString.simps[of n] fromHexChar_hexDigit)
  next
    case False
    then show ?thesis using 1 by (simp add: hexString.simps[of n] hexVal_append fromHexChar_hexDigit)
  qed
qed

lemma hexString_not_Nil [simp]: "hexString n \<noteq> []"
  by (subst hexString.simps) simp

lemma hexString_start: "hd (hexString n) \<noteq> CHR ''-'' \<and> hd (hexString n) \<noteq> CHR ''+''"
  using hexVal_hexString[of n] by (cases "hexString n") (auto simp: fromHexChar_def split: option.splits)

lemma SetString16_Text16: "SetString16 (TrimPrefix (''0x'' @ Text16 key) ''0x'') = Some key"
proof -
  have t: "TrimPrefix (''0x'' @ Text16 key) ''0x'' = Text16 key" by (simp add: TrimPrefix_def)
  show ?thesis
  proof (cases "key < 0")
    case True
    then show ?thesis unfolding t by (simp add: Text16_def SetString16_def hexVal_hexString)
  next
    case False
    obtain c s where cs: "hexString (nat key) = c # s" by (cases "hexString (nat key)") auto
    then have "c \<noteq> CHR ''-''" "c \<noteq> CHR ''+''" using hexString_start[of "nat key"] by simp_all
    then show ?thesis unfolding t using False hexVal_hexString[of "nat key"] by (simp add: Text16_def SetString16_def cs del: hexVal.simps)
  qed
qed

section \<open>Waiting ends\<close>

lemma waitLoop_returns:
  assumes "\<exists>n0. \<forall>n \<ge> n0. deadline < kw_clock tr n + interval"
  shows "\<exists>r. waitLoop tr c eid interval deadline errs n = Some r"
proof -
  obtain n0 where n0: "\<And>n. n0 \<le> n \<Longrightarrow> deadline < kw_clock tr n + interval" using assms by blast
  show ?thesis
  proof (induction "n0 - n" arbitrary: n errs rule: less_induct)
    case less
    show ?case
    proof (cases "n0 \<le> n + 1")
      case True
      then have "deadline < kw_clock tr (n + 1) + interval" using n0 by simp
      then show ?thesis by (subst waitLoop.simps) (auto split: sum.splits)
    next
      case False
      then have "n0 - (n + 1) < n0 - n" by simp
      from less[OF this] show ?thesis by (subst waitLoop.simps) (auto split: sum.splits)
    qed
  qed
qed

definition got_results :: "transport \<Rightarrow> Client \<Rightarrow> string \<Rightarrow> nat \<Rightarrow> gerror + ResultsResponse \<Rightarrow> bool" where
  "got_results tr c eid n r \<longleftrightarrow>
     (\<forall>res. r = Inr res \<longrightarrow> (\<exists>i el. n \<le> i \<and> kw_Election tr c eid i = Inr el \<and> ke_Status el = StatusResults_name \<and>
        kw_Results tr c eid (i + 1) = Inr res))"

lemma waitRound_finished: "waitRound tr c eid errs n = Inl r \<Longrightarrow> got_results tr c eid n r"
  by (auto simp: waitRound_def got_results_def split: sum.splits if_splits)

lemma waitLoop_finished:
  assumes "waitLoop tr c eid interval deadline errs n = Some r"
  shows "got_results tr c eid n r"
proof (rule waitLoop.raw_induct[where P = "\<lambda>tr c eid interval deadline errs n r. got_results tr c eid n r", OF _ assms])
  fix f :: "transport \<Rightarrow> Client \<Rightarrow> string \<Rightarrow> duration \<Rightarrow> time \<Rightarrow> nat \<Rightarrow> nat \<Rightarrow> (gerror + ResultsResponse) option"
  fix tr c eid interval deadline errs n r
  assume IH: "\<And>tr c eid interval deadline errs n r. f tr c eid interval deadline errs n = Some r \<Longrightarrow> got_results tr c eid n r"
    and run: "(case waitRound tr c eid errs n of Inl r \<Rightarrow> Some r
        | Inr errs \<Rightarrow> if kw_clock tr (n + 1) + interval > deadline then Some (Inl [Detail (''no results for election '' @ eid)])
            else f tr c eid interval deadline errs (n + 1)) = Some r"
  show "got_results tr c eid n r"
  proof (cases "waitRound tr c eid errs n")
    case (Inl r1)
    then show ?thesis using run waitRound_finished by simp
  next
    case (Inr errs')
    have "got_results tr c eid n r" if "f tr c eid interval deadline errs' (n + 1) = Some r"
      using IH[OF that] add_leD1[of n 1] unfolding got_results_def by blast
    then show ?thesis using run Inr by (auto simp: got_results_def split: if_splits)
  qed
qed

end
