(* ===== verification/Paths.thy ===== *)
theory Paths
  imports Bytes
begin

text \<open>
  The functions of the standard packages \<open>path\<close> and, with the separator of Unix, \<open>path/filepath\<close>
  the program calls: \<open>Clean\<close>, \<open>Join\<close>, \<open>Base\<close> and \<open>Dir\<close>.
\<close>

fun path_split :: "string \<Rightarrow> string list" where
  "path_split [] = [[]]"
| "path_split (c # s) =
     (if c = CHR ''/'' then [] # path_split s
      else (case path_split s of [] \<Rightarrow> [[c]] | x # xs \<Rightarrow> (c # x) # xs))"

fun path_join :: "string list \<Rightarrow> string" where
  "path_join [] = []"
| "path_join [x] = x"
| "path_join (x # xs) = x @ CHR ''/'' # path_join xs"

definition clean_step :: "bool \<Rightarrow> string \<Rightarrow> string list \<Rightarrow> string list" where
  "clean_step rooted x out =
     (if x = [] \<or> x = ''.'' then out
      else if x = ''..'' then
        (if out \<noteq> [] \<and> hd out \<noteq> ''..'' then tl out else if rooted then out else x # out)
      else x # out)"

definition Clean :: "string \<Rightarrow> string" where
  "Clean path =
     (if path = [] then ''.''
      else (let rooted = (hd path = CHR ''/'');
                out = path_join (rev (fold (clean_step rooted) (path_split path) [])) in
            if rooted then CHR ''/'' # out else if out = [] then ''.'' else out))"

definition Join :: "string list \<Rightarrow> string" where
  "Join elem = (let xs = dropWhile (\<lambda>x. x = []) elem in if xs = [] then [] else Clean (path_join xs))"

definition Base :: "string \<Rightarrow> string" where
  "Base path =
     (if path = [] then ''.''
      else (let s = rev (dropWhile (\<lambda>c. c = CHR ''/'') (rev path)) in
            if s = [] then ''/'' else last (path_split s)))"

definition Dir :: "string \<Rightarrow> string" where
  "Dir path = Clean (rev (dropWhile (\<lambda>c. c \<noteq> CHR ''/'') (rev path)))"

lemma path_parts:
  "Base ''/src/api/helpers.go'' = ''helpers.go''" "Dir ''/src/api/helpers.go'' = ''/src/api''" "Base ''/src/api/'' = ''api''"
  "Dir ''helpers.go'' = ''.''" "Base [] = ''.''" "Base ''//'' = ''/''" "Clean ''/a/../../b/./c//'' = ''/b/c''"
  by (simp_all add: Base_def Dir_def Clean_def clean_step_def Let_def)

end
