(* ===== verification/Logging.thy ===== *)
theory Logging
  imports Paths
begin

text \<open>
  Package \<open>log\<close> (src/log/log.go): the writers \<open>Init\<close> puts together, the global logger with its
  level and hooks, and the functions that send an event.

  The record \<open>loglib\<close> holds what the package calls of zerolog, and the formatting of \<open>fmt\<close>: a
  logger is of an arbitrary type \<open>'lg\<close>, of which zerolog tells the level, the hooks and whether
  an event is enabled or ends the process. \<open>loglib_ok\<close> is what its documentation promises of
  them. The state \<open>logging\<close> holds the variables of the package, the variables of zerolog \<open>Init\<close>
  sets, the files it opened, the events sent and the timers started.
\<close>

section \<open>zerolog and fmt\<close>

datatype any = Str string | Num int | Dur duration

record event =
  ev_Level :: int
  ev_Fields :: "(string \<times> any) list"
  ev_Err :: "gerror option"
  ev_SkipFrame :: "int option"
  ev_Msg :: string

text \<open>The writers: those of \<open>os\<close>, those a caller passes, and the structs built around them.\<close>

datatype logWriter =
    Stdout | Stderr | TestWriter | LogFile string | OtherWriter nat
  | ConsoleWriter (cw_Out: logWriter) (cw_TimeFormat: string) (cw_NoColor: bool)
  | errorLevelWriter logWriter
  | invalidCharChecker
  | MultiLevelWriter "logWriter list"

record 'lg loglib =
  DebugLevel :: int
  InfoLevel :: int
  WarnLevel :: int
  ErrorLevel :: int
  FatalLevel :: int
  TimeFormatUnixMs :: string
  zl_New :: "logWriter \<Rightarrow> 'lg"
  WithTimestamp :: "'lg \<Rightarrow> 'lg"
  WithCaller :: "'lg \<Rightarrow> 'lg"
  zl_Level :: "'lg \<Rightarrow> int \<Rightarrow> 'lg"
  GetLevel :: "'lg \<Rightarrow> int"
  zl_Hook :: "'lg \<Rightarrow> nat \<Rightarrow> 'lg"
  zl_hooks :: "'lg \<Rightarrow> nat list"
  zl_enabled :: "'lg \<Rightarrow> int \<Rightarrow> bool"
  zl_exits :: "int \<Rightarrow> bool"
  Sprint :: "any list \<Rightarrow> string"
  Sprintf :: "string \<Rightarrow> any list \<Rightarrow> string"
  Stack :: string

definition loglib_ok :: "'lg loglib \<Rightarrow> bool" where
  "loglib_ok zl \<longleftrightarrow>
     DebugLevel zl < InfoLevel zl \<and> InfoLevel zl < WarnLevel zl \<and> WarnLevel zl < ErrorLevel zl \<and> ErrorLevel zl < FatalLevel zl \<and>
     (\<forall>lg l. GetLevel zl (zl_Level zl lg l) = l) \<and> (\<forall>lg h. GetLevel zl (zl_Hook zl lg h) = GetLevel zl lg) \<and>
     (\<forall>lg h. zl_hooks zl (zl_Hook zl lg h) = zl_hooks zl lg @ [h]) \<and> (\<forall>lg l. zl_hooks zl (zl_Level zl lg l) = zl_hooks zl lg) \<and>
     (\<forall>lg. zl_hooks zl (WithTimestamp zl lg) = zl_hooks zl lg) \<and> (\<forall>lg. zl_hooks zl (WithCaller zl lg) = zl_hooks zl lg) \<and>
     (\<forall>w. zl_hooks zl (zl_New zl w) = []) \<and> (\<forall>lg l. zl_enabled zl lg l \<longleftrightarrow> GetLevel zl lg \<le> l) \<and>
     (\<forall>l. zl_exits zl l \<longleftrightarrow> l = FatalLevel zl)"

section \<open>The package's state\<close>

definition LogLevelDebug :: string where "LogLevelDebug = ''debug''"
definition LogLevelInfo :: string where "LogLevelInfo = ''info''"
definition LogLevelWarn :: string where "LogLevelWarn = ''warn''"
definition LogLevelError :: string where "LogLevelError = ''error''"
definition RFC3339Milli :: string where "RFC3339Milli = ''2006-01-02T15:04:05.000Z07:00''"
definition logTestWriterName :: string where "logTestWriterName = ''log_test_writer''"

lemmas log_names = LogLevelDebug_def LogLevelInfo_def LogLevelWarn_def LogLevelError_def logTestWriterName_def

datatype log_panic =
    CannotCreateOutput gerror
  | InvalidLevelName string
  | InvalidLevel int
  | InvalidChars bytes
  | NotWriteLevel
  | Unreachable

text \<open>A handler is a number the caller of \<open>EnablePanicOnErrorWithHandler\<close> knows it by; \<open>None\<close> is the default, which panics.\<close>

record panicOnErrorHook =
  TestName :: string
  Delay :: duration
  Handler :: "nat option"
  once :: bool

datatype timer = AfterFunc duration "nat option" string

record 'lg logging =
  logger :: 'lg
  panicOnInvalidChars :: bool
  openFiles :: "string list"
  testTime :: bool
  TimeFieldFormat :: string
  CallerSkipFrameCount :: int
  CallerMarshalFunc :: "(string \<Rightarrow> nat \<Rightarrow> string) option"
  hook_objs :: "panicOnErrorHook list"
  timers :: "timer list"
  sent :: "event list"
  exited :: bool

definition getLogger :: "'lg logging \<Rightarrow> 'lg" where
  "getLogger st = logger st"

definition setLogger :: "'lg \<Rightarrow> 'lg logging \<Rightarrow> 'lg logging" where
  "setLogger lg st = st\<lparr>logger := lg\<rparr>"

section \<open>Hooks\<close>

definition hook_Run :: "'lg loglib \<Rightarrow> int \<Rightarrow> string \<Rightarrow> nat \<Rightarrow> 'lg logging \<Rightarrow> 'lg logging" where
  "hook_Run zl level msg h st =
     (let hk = hook_objs st ! h in
      if level \<ge> ErrorLevel zl then
        (let panicMsg = ''ERROR found in logs during test '' @ TestName hk @ '': '' @ msg in
         if once hk then st
         else (let delay = (if Delay hk \<le> 0 then second else Delay hk) in
               st\<lparr>hook_objs := (hook_objs st)[h := hk\<lparr>once := True\<rparr>], timers := timers st @ [AfterFunc delay (Handler hk) panicMsg]\<rparr>))
      else st)"

text \<open>An event at the end of its chain of calls: zerolog drops it when its level is below the logger's, runs the hooks of the logger and writes it.\<close>

definition send :: "'lg loglib \<Rightarrow> 'lg \<Rightarrow> event \<Rightarrow> 'lg logging \<Rightarrow> 'lg logging" where
  "send zl lg ev st =
     (let st1 = (if zl_enabled zl lg (ev_Level ev)
                 then (fold (hook_Run zl (ev_Level ev) (ev_Msg ev)) (zl_hooks zl lg) st)\<lparr>sent := sent st @ [ev]\<rparr> else st) in
      st1\<lparr>exited := exited st1 \<or> zl_exits zl (ev_Level ev)\<rparr>)"

definition EnablePanicOnErrorWithHandler :: "'lg loglib \<Rightarrow> string \<Rightarrow> duration \<Rightarrow> nat option \<Rightarrow> 'lg logging \<Rightarrow> 'lg \<times> 'lg logging" where
  "EnablePanicOnErrorWithHandler zl testName delay handler st =
     (let previousLogger = getLogger st;
          st1 = st\<lparr>hook_objs := hook_objs st @ [\<lparr>TestName = testName, Delay = delay, Handler = handler, once = False\<rparr>]\<rparr> in
      (previousLogger, setLogger (zl_Hook zl previousLogger (length (hook_objs st))) st1))"

definition EnablePanicOnError :: "'lg loglib \<Rightarrow> string \<Rightarrow> 'lg logging \<Rightarrow> 'lg \<times> 'lg logging" where
  "EnablePanicOnError zl testName = EnablePanicOnErrorWithHandler zl testName second None"

definition RestoreLogger :: "'lg \<Rightarrow> 'lg logging \<Rightarrow> 'lg logging" where
  "RestoreLogger previousLogger = setLogger previousLogger"

section \<open>Writers of the package\<close>

definition errorLevelWriter_Write :: "bytes \<Rightarrow> log_panic + nat" where
  "errorLevelWriter_Write p = Inl NotWriteLevel"

definition WriteLevel :: "'lg loglib \<Rightarrow> (bytes \<Rightarrow> 's \<Rightarrow> (gerror + nat) \<times> 's) \<Rightarrow> int \<Rightarrow> bytes \<Rightarrow> 's \<Rightarrow> (gerror + nat) \<times> 's" where
  "WriteLevel zl writer level p st = (if level < WarnLevel zl then (Inr (length p), st) else writer p st)"

text \<open>
  \<open>bytes.ContainsRune(p, U+FFFD)\<close>: for this rune the search stops at its encoding and at any
  byte that starts no valid UTF-8 sequence.
\<close>

definition cont :: "nat \<Rightarrow> bool" where
  "cont b \<longleftrightarrow> 0x80 \<le> b \<and> b \<le> 0xBF"

definition second3 :: "nat \<Rightarrow> nat \<Rightarrow> bool" where
  "second3 a b \<longleftrightarrow> 0xE0 \<le> a \<and> a \<le> 0xEF \<and> cont b \<and> (a = 0xE0 \<longrightarrow> 0xA0 \<le> b) \<and> (a = 0xED \<longrightarrow> b \<le> 0x9F)"

definition second4 :: "nat \<Rightarrow> nat \<Rightarrow> bool" where
  "second4 a b \<longleftrightarrow> 0xF0 \<le> a \<and> a \<le> 0xF4 \<and> cont b \<and> (a = 0xF0 \<longrightarrow> 0x90 \<le> b) \<and> (a = 0xF4 \<longrightarrow> b \<le> 0x8F)"

fun runeLen :: "nat list \<Rightarrow> nat option" where
  "runeLen (a # b # c # d # _) =
     (if a < 0x80 then Some 1
      else if 0xC2 \<le> a \<and> a \<le> 0xDF \<and> cont b then Some 2
      else if second3 a b \<and> cont c then (if [a, b, c] = [0xEF, 0xBF, 0xBD] then None else Some 3)
      else if second4 a b \<and> cont c \<and> cont d then Some 4 else None)"
| "runeLen [a, b, c] =
     (if a < 0x80 then Some 1
      else if 0xC2 \<le> a \<and> a \<le> 0xDF \<and> cont b then Some 2
      else if second3 a b \<and> cont c then (if [a, b, c] = [0xEF, 0xBF, 0xBD] then None else Some 3) else None)"
| "runeLen [a, b] = (if a < 0x80 then Some 1 else if 0xC2 \<le> a \<and> a \<le> 0xDF \<and> cont b then Some 2 else None)"
| "runeLen [a] = (if a < 0x80 then Some 1 else None)"
| "runeLen [] = None"

fun containsRuneError :: "nat list \<Rightarrow> bool" where
  "containsRuneError [] = False"
| "containsRuneError (a # s) =
     (case runeLen (a # s) of None \<Rightarrow> True | Some n \<Rightarrow> containsRuneError (drop (n - 1) s))"

definition invalidCharChecker_Write :: "bytes \<Rightarrow> log_panic + nat" where
  "invalidCharChecker_Write p = (if containsRuneError (map of_char p) then Inl (InvalidChars p) else Inr (length p))"

section \<open>Init\<close>

text \<open>
  The writer \<open>Init\<close> logs to, or the panic when the file cannot be opened; \<open>OpenFile\<close> is what opening the file returns.
\<close>

definition log_output :: "(string \<Rightarrow> gerror + unit) \<Rightarrow> string \<Rightarrow> log_panic + logWriter list \<times> logWriter" where
  "log_output OpenFile output =
     (if output = ''stdout'' then Inr ([], Stdout)
      else if output = ''stderr'' then Inr ([], Stderr)
      else if output = logTestWriterName then Inr ([], TestWriter)
      else (case OpenFile output of
        Inl er \<Rightarrow> Inl (CannotCreateOutput er)
      | Inr _ \<Rightarrow> if suffix ''.json'' output then Inr ([LogFile output], Stdout) else Inr ([], LogFile output)))"

definition log_writer :: "bool \<Rightarrow> logWriter list \<times> logWriter \<Rightarrow> logWriter option \<Rightarrow> logWriter" where
  "log_writer checkChars outs errorOutput =
     (let out = ConsoleWriter (snd outs) RFC3339Milli False;
          outputs = fst outs @ [out]
            @ (case errorOutput of None \<Rightarrow> [] | Some w \<Rightarrow> [errorLevelWriter (ConsoleWriter w RFC3339Milli True)])
            @ (if checkChars then [ConsoleWriter invalidCharChecker [] False] else []) in
      if length outputs > 1 then MultiLevelWriter outputs else out)"

definition log_levelOf :: "'lg loglib \<Rightarrow> string \<Rightarrow> int option" where
  "log_levelOf zl level =
     (if level = LogLevelDebug then Some (DebugLevel zl)
      else if level = LogLevelInfo then Some (InfoLevel zl)
      else if level = LogLevelWarn then Some (WarnLevel zl)
      else if level = LogLevelError then Some (ErrorLevel zl)
      else None)"

definition log_Msg :: "'lg loglib \<Rightarrow> 'lg \<Rightarrow> int \<Rightarrow> (string \<times> any) list \<Rightarrow> string \<Rightarrow> 'lg logging \<Rightarrow> 'lg logging" where
  "log_Msg zl lg level kvs msg =
     send zl lg \<lparr>ev_Level = level, ev_Fields = kvs, ev_Err = None, ev_SkipFrame = None, ev_Msg = msg\<rparr>"

text \<open>The caller of a line, as directory, file and line number.\<close>

definition callerMarshal :: "string \<Rightarrow> nat \<Rightarrow> string" where
  "callerMarshal filename line = Base (Dir filename) @ ''/'' @ Base filename @ '':'' @ decString line"

definition Init ::
  "'lg loglib \<Rightarrow> (string \<Rightarrow> gerror + unit) \<Rightarrow> string \<Rightarrow> string \<Rightarrow> logWriter option \<Rightarrow> 'lg logging \<Rightarrow> (log_panic + unit) \<times> 'lg logging" where
  "Init zl OpenFile level output errorOutput st =
     (case log_output OpenFile output of
        Inl p \<Rightarrow> (Inl p, st)
      | Inr outs \<Rightarrow>
          (let st1 = (if output \<in> {''stdout'', ''stderr'', logTestWriterName} then st else st\<lparr>openFiles := openFiles st @ [output]\<rparr>);
               lg = WithTimestamp zl (zl_New zl (log_writer (panicOnInvalidChars st) outs errorOutput));
               st2 = (if output = logTestWriterName then st1\<lparr>testTime := True\<rparr> else st1);
               st3 = st2\<lparr>TimeFieldFormat := TimeFormatUnixMs zl\<rparr>;
               lg1 = WithCaller zl lg;
               st4 = st3\<lparr>CallerSkipFrameCount := 3, CallerMarshalFunc := Some callerMarshal\<rparr> in
           (case log_levelOf zl level of
              None \<Rightarrow> (Inl (InvalidLevelName level), st4)
            | Some l \<Rightarrow>
                (let lg2 = zl_Level zl lg1 l in
                 (Inr (), log_Msg zl lg2 (InfoLevel zl) []
                    (Sprintf zl ''logger construction succeeded at level %s with output %s'' [Str level, Str output]) (setLogger lg2 st4))))))"

text \<open>\<open>init\<close>, with the value of \<open>LOG_LEVEL\<close>: the empty string when it is not set.\<close>

definition package_init :: "'lg loglib \<Rightarrow> (string \<Rightarrow> gerror + unit) \<Rightarrow> string \<Rightarrow> 'lg logging \<Rightarrow> (log_panic + unit) \<times> 'lg logging" where
  "package_init zl OpenFile env = Init zl OpenFile (if env = [] then ''error'' else env) ''stderr'' None"

definition current_Level :: "'lg loglib \<Rightarrow> 'lg logging \<Rightarrow> log_panic + string" where
  "current_Level zl st =
     (let level = GetLevel zl (getLogger st) in
      if level = DebugLevel zl then Inr LogLevelDebug
      else if level = InfoLevel zl then Inr LogLevelInfo
      else if level = WarnLevel zl then Inr LogLevelWarn
      else if level = ErrorLevel zl then Inr LogLevelError
      else Inl (InvalidLevel level))"

section \<open>Log lines\<close>

definition log_Debug :: "'lg loglib \<Rightarrow> any list \<Rightarrow> 'lg logging \<Rightarrow> 'lg logging" where
  "log_Debug zl args st =
     (let lg = getLogger st in
      if GetLevel zl lg > DebugLevel zl then st else log_Msg zl lg (DebugLevel zl) [] (Sprint zl args) st)"

definition log_Info :: "'lg loglib \<Rightarrow> any list \<Rightarrow> 'lg logging \<Rightarrow> 'lg logging" where
  "log_Info zl args st = log_Msg zl (getLogger st) (InfoLevel zl) [] (Sprint zl args) st"

definition log_Monitor :: "'lg loglib \<Rightarrow> string \<Rightarrow> (string \<times> any) list \<Rightarrow> 'lg logging \<Rightarrow> 'lg logging" where
  "log_Monitor zl msg args st =
     send zl (getLogger st) \<lparr>ev_Level = InfoLevel zl, ev_Fields = args, ev_Err = None, ev_SkipFrame = Some 100, ev_Msg = msg\<rparr> st"

definition log_Warn :: "'lg loglib \<Rightarrow> any list \<Rightarrow> 'lg logging \<Rightarrow> 'lg logging" where
  "log_Warn zl args st = log_Msg zl (getLogger st) (WarnLevel zl) [] (Sprint zl args) st"

definition log_Error :: "'lg loglib \<Rightarrow> any list \<Rightarrow> 'lg logging \<Rightarrow> 'lg logging" where
  "log_Error zl args st = log_Msg zl (getLogger st) (ErrorLevel zl) [] (Sprint zl args) st"

definition log_Fatal :: "'lg loglib \<Rightarrow> any list \<Rightarrow> 'lg logging \<Rightarrow> (log_panic + unit) \<times> 'lg logging" where
  "log_Fatal zl args st =
     (let st1 = log_Msg zl (getLogger st) (FatalLevel zl) [] (Sprint zl args @ [CHR 0x0A] @ Stack zl) st in
      (if exited st1 then Inr () else Inl Unreachable, st1))"

definition log_Debugf :: "'lg loglib \<Rightarrow> string \<Rightarrow> any list \<Rightarrow> 'lg logging \<Rightarrow> 'lg logging" where
  "log_Debugf zl template args st = log_Msg zl (getLogger st) (DebugLevel zl) [] (Sprintf zl template args) st"

definition log_Infof :: "'lg loglib \<Rightarrow> string \<Rightarrow> any list \<Rightarrow> 'lg logging \<Rightarrow> 'lg logging" where
  "log_Infof zl template args st = log_Msg zl (getLogger st) (InfoLevel zl) [] (Sprintf zl template args) st"

definition log_Warnf :: "'lg loglib \<Rightarrow> string \<Rightarrow> any list \<Rightarrow> 'lg logging \<Rightarrow> 'lg logging" where
  "log_Warnf zl template args st = log_Msg zl (getLogger st) (WarnLevel zl) [] (Sprintf zl template args) st"

definition log_Errorf :: "'lg loglib \<Rightarrow> string \<Rightarrow> any list \<Rightarrow> 'lg logging \<Rightarrow> 'lg logging" where
  "log_Errorf zl template args st = log_Msg zl (getLogger st) (ErrorLevel zl) [] (Sprintf zl template args) st"

definition log_Fatalf :: "'lg loglib \<Rightarrow> string \<Rightarrow> any list \<Rightarrow> 'lg logging \<Rightarrow> 'lg logging" where
  "log_Fatalf zl template args st =
     log_Msg zl (getLogger st) (FatalLevel zl) [] (Sprintf zl (template @ [CHR 0x0A] @ Stack zl) args) st"

definition log_Debugw :: "'lg loglib \<Rightarrow> string \<Rightarrow> (string \<times> any) list \<Rightarrow> 'lg logging \<Rightarrow> 'lg logging" where
  "log_Debugw zl msg keyvalues st = log_Msg zl (getLogger st) (DebugLevel zl) keyvalues msg st"

definition log_Infow :: "'lg loglib \<Rightarrow> string \<Rightarrow> (string \<times> any) list \<Rightarrow> 'lg logging \<Rightarrow> 'lg logging" where
  "log_Infow zl msg keyvalues st = log_Msg zl (getLogger st) (InfoLevel zl) keyvalues msg st"

definition log_Warnw :: "'lg loglib \<Rightarrow> string \<Rightarrow> (string \<times> any) list \<Rightarrow> 'lg logging \<Rightarrow> 'lg logging" where
  "log_Warnw zl msg keyvalues st = log_Msg zl (getLogger st) (WarnLevel zl) keyvalues msg st"

definition log_Errorw :: "'lg loglib \<Rightarrow> gerror \<Rightarrow> string \<Rightarrow> 'lg logging \<Rightarrow> 'lg logging" where
  "log_Errorw zl er msg st =
     send zl (getLogger st) \<lparr>ev_Level = ErrorLevel zl, ev_Fields = [], ev_Err = Some er, ev_SkipFrame = None, ev_Msg = msg\<rparr> st"

end
