(* ===== verification/Logging_Laws.thy ===== *)
theory Logging_Laws
  imports Logging
begin

text \<open>
  What package \<open>log\<close> promises: the level \<open>Init\<close> sets is the one \<open>Level\<close> reports, a panic of
  \<open>Init\<close> leaves the logger in place, a fatal line ends the process, the hook of the integration
  tests fires once and is gone after \<open>RestoreLogger\<close>, and the error output gets warnings and
  errors only.
\<close>

section \<open>Events\<close>

lemma hook_Run_keeps [simp]:
  "logger (hook_Run zl l m h st) = logger st" "sent (hook_Run zl l m h st) = sent st" "exited (hook_Run zl l m h st) = exited st"
  "openFiles (hook_Run zl l m h st) = openFiles st" "length (hook_objs (hook_Run zl l m h st)) = length (hook_objs st)"
  by (simp_all add: hook_Run_def Let_def)

lemma hooks_keep [simp]:
  "logger (fold (hook_Run zl l m) hs st) = logger st" "sent (fold (hook_Run zl l m) hs st) = sent st"
  "exited (fold (hook_Run zl l m) hs st) = exited st" "openFiles (fold (hook_Run zl l m) hs st) = openFiles st"
  by (induction hs arbitrary: st) simp_all

lemma send_keeps [simp]:
  "logger (send zl lg ev st) = logger st" "openFiles (send zl lg ev st) = openFiles st"
  "exited (send zl lg ev st) \<longleftrightarrow> exited st \<or> zl_exits zl (ev_Level ev)"
  by (simp_all add: send_def Let_def)

lemma sent_send: "sent (send zl lg ev st) = sent st @ (if zl_enabled zl lg (ev_Level ev) then [ev] else [])"
  by (simp add: send_def Let_def)

lemma log_Msg_keeps [simp]:
  "logger (log_Msg zl lg l kvs m st) = logger st" "openFiles (log_Msg zl lg l kvs m st) = openFiles st"
  "exited (log_Msg zl lg l kvs m st) \<longleftrightarrow> exited st \<or> zl_exits zl l"
  by (simp_all add: log_Msg_def)

text \<open>The guard of \<open>Debug\<close> only saves the formatting: zerolog drops the same events.\<close>

lemma Debug_guard:
  assumes "loglib_ok zl"
  shows "log_Debug zl args st = log_Msg zl (getLogger st) (DebugLevel zl) [] (Sprint zl args) st"
  using assms by (simp add: log_Debug_def log_Msg_def send_def loglib_ok_def)

lemma Fatal_exits:
  assumes "loglib_ok zl"
  shows "fst (log_Fatal zl args st) = Inr () \<and> exited (snd (log_Fatal zl args st)) \<and> exited (log_Fatalf zl template args st)"
  using assms by (simp add: log_Fatal_def log_Fatalf_def Let_def loglib_ok_def)

section \<open>Init\<close>

lemma log_output_fails: "log_output opn output = Inl p \<longleftrightarrow>
    output \<notin> {''stdout'', ''stderr'', logTestWriterName} \<and> (\<exists>er. opn output = Inl er \<and> p = CannotCreateOutput er)"
  by (auto simp: log_output_def logTestWriterName_def split: sum.splits)

lemma log_levelOf_None: "log_levelOf zl level = None \<longleftrightarrow> level \<notin> {''debug'', ''info'', ''warn'', ''error''}"
  by (simp add: log_levelOf_def log_names)

lemma Init_panics:
  "isl (fst (Init zl opn level output errw st)) \<longleftrightarrow>
     isl (log_output opn output) \<or> level \<notin> {''debug'', ''info'', ''warn'', ''error''}"
  unfolding Init_def Let_def log_levelOf_None[of zl level, symmetric] by (auto split: sum.splits option.splits)

lemma Init_panic_keeps:
  "Init zl opn level output errw st = (Inl p, st') \<Longrightarrow> logger st' = logger st \<and> sent st' = sent st"
  by (auto simp: Init_def Let_def split: sum.splits option.splits if_splits)

lemma level_named:
  assumes "loglib_ok zl" and "log_levelOf zl level = Some l" and "GetLevel zl (logger st) = l"
  shows "current_Level zl st = Inr level"
  using assms by (auto simp: current_Level_def log_levelOf_def getLogger_def loglib_ok_def Let_def split: if_splits)

lemma Init_sets_level:
  assumes "loglib_ok zl" and "Init zl opn level output errw st = (Inr (), st')"
  shows "current_Level zl st' = Inr level" and "zl_hooks zl (logger st') = []"
proof -
  obtain l lg where l: "log_levelOf zl level = Some l" and lg: "logger st' = zl_Level zl (WithCaller zl (WithTimestamp zl (zl_New zl lg))) l"
    using assms(2) by (auto simp: Init_def Let_def setLogger_def split: sum.splits option.splits)
  show "current_Level zl st' = Inr level" using level_named[OF assms(1) l] assms(1) by (simp add: lg loglib_ok_def)
  show "zl_hooks zl (logger st') = []" using assms(1) by (simp add: lg loglib_ok_def)
qed

section \<open>The hook of the tests\<close>

definition fires :: "'lg loglib \<Rightarrow> 'lg \<Rightarrow> event \<Rightarrow> bool" where
  "fires zl lg ev \<longleftrightarrow> zl_enabled zl lg (ev_Level ev) \<and> ErrorLevel zl \<le> ev_Level ev"

definition alarm :: "panicOnErrorHook \<Rightarrow> event \<Rightarrow> timer" where
  "alarm hk ev = AfterFunc (if Delay hk \<le> 0 then second else Delay hk) (Handler hk)
     (''ERROR found in logs during test '' @ TestName hk @ '': '' @ ev_Msg ev)"

lemma send_one_hook:
  assumes "zl_hooks zl lg = [h]" and "h < length (hook_objs st)"
  shows "timers (send zl lg ev st) =
      timers st @ (if fires zl lg ev \<and> \<not> once (hook_objs st ! h) then [alarm (hook_objs st ! h) ev] else [])"
    and "hook_objs (send zl lg ev st) = (if fires zl lg ev then (hook_objs st)[h := (hook_objs st ! h)\<lparr>once := True\<rparr>] else hook_objs st)"
proof -
  have "once (hook_objs st ! h) \<Longrightarrow> (hook_objs st)[h := (hook_objs st ! h)\<lparr>once := True\<rparr>] = hook_objs st"
    by (rule list_update_same_conv[THEN iffD2, OF assms(2)]) (cases "hook_objs st ! h", simp)
  then show "timers (send zl lg ev st) =
      timers st @ (if fires zl lg ev \<and> \<not> once (hook_objs st ! h) then [alarm (hook_objs st ! h) ev] else [])"
    and "hook_objs (send zl lg ev st) = (if fires zl lg ev then (hook_objs st)[h := (hook_objs st ! h)\<lparr>once := True\<rparr>] else hook_objs st)"
    using assms by (auto simp: send_def hook_Run_def fires_def alarm_def Let_def)
qed

lemma hook_spent:
  assumes "zl_hooks zl lg = [h]" and "h < length (hook_objs st)" and "once (hook_objs st ! h)"
  shows "timers (fold (send zl lg) evs st) = timers st"
  using assms(2,3) by (induction evs arbitrary: st) (simp_all add: send_one_hook[OF assms(1)])

text \<open>However many errors are logged, the handler is started for the first of them and never again.\<close>

lemma hook_fires_once:
  assumes "zl_hooks zl lg = [h]" and "h < length (hook_objs st)" and "\<not> once (hook_objs st ! h)"
  shows "timers (fold (send zl lg) evs st) =
    timers st @ (case find (fires zl lg) evs of None \<Rightarrow> [] | Some ev \<Rightarrow> [alarm (hook_objs st ! h) ev])"
  using assms(2,3)
proof (induction evs arbitrary: st)
  case (Cons ev evs)
  note s = send_one_hook[OF assms(1) Cons.prems(1), of ev]
  show ?case
  proof (cases "fires zl lg ev")
    case True
    then show ?thesis using hook_spent[OF assms(1), of "send zl lg ev st" evs] Cons.prems by (simp add: s)
  next
    case False
    then show ?thesis using Cons.IH[of "send zl lg ev st"] Cons.prems by (simp add: s split: option.split)
  qed
qed simp

lemma EnablePanicOnError_once:
  assumes "loglib_ok zl" and "zl_hooks zl (logger st) = []"
    and "EnablePanicOnErrorWithHandler zl test delay handler st = (prev, st1)"
  shows "timers (fold (send zl (logger st1)) evs st1) =
    timers st @ (case find (fires zl (logger st1)) evs of None \<Rightarrow> []
      | Some ev \<Rightarrow> [alarm \<lparr>TestName = test, Delay = delay, Handler = handler, once = False\<rparr> ev])"
proof -
  have st1: "st1 = st\<lparr>hook_objs := hook_objs st @ [\<lparr>TestName = test, Delay = delay, Handler = handler, once = False\<rparr>],
      logger := zl_Hook zl (logger st) (length (hook_objs st))\<rparr>" 
    using assms(3) by (auto simp: EnablePanicOnErrorWithHandler_def setLogger_def getLogger_def Let_def)
  have "zl_hooks zl (logger st1) = [length (hook_objs st)]" using assms(1,2) by (simp add: st1 loglib_ok_def)
  from hook_fires_once[OF this, of st1 evs] show ?thesis by (simp add: st1 split: option.splits)
qed

lemma RestoreLogger_restores:
  assumes "EnablePanicOnErrorWithHandler zl test delay handler st = (prev, st1)"
  shows "logger (RestoreLogger prev (fold (send zl (logger st1)) evs st1)) = logger st"
  using assms by (simp add: EnablePanicOnErrorWithHandler_def RestoreLogger_def setLogger_def getLogger_def Let_def)

section \<open>Writers\<close>

lemma WriteLevel_filters:
  assumes "loglib_ok zl"
  shows "WriteLevel zl wr (InfoLevel zl) p st = (Inr (length p), st)" "WriteLevel zl wr (DebugLevel zl) p st = (Inr (length p), st)"
    "WriteLevel zl wr (WarnLevel zl) p st = wr p st" "WriteLevel zl wr (ErrorLevel zl) p st = wr p st"
  using assms by (simp_all add: WriteLevel_def loglib_ok_def)

lemma runeLen_ascii: "a < 0x80 \<Longrightarrow> runeLen (a # s) = Some 1"
  by (cases "a # s" rule: runeLen.cases) simp_all

lemma ascii_has_no_invalid_char: "\<forall>b \<in> set p. b < 0x80 \<Longrightarrow> \<not> containsRuneError p"
  by (induction p) (simp_all add: runeLen_ascii)

lemma ascii_line_passes: "\<forall>c \<in> set p. (of_char c :: nat) < 0x80 \<Longrightarrow> invalidCharChecker_Write p = Inr (length p)"
  by (simp add: invalidCharChecker_Write_def ascii_has_no_invalid_char)

text \<open>The replacement character, a surrogate and a truncated sequence are caught; an accented letter is not.\<close>

lemma invalid_chars_caught:
  "containsRuneError [0x61, 0xEF, 0xBF, 0xBD]" "containsRuneError [0xED, 0xA0, 0x80]" "containsRuneError [0xE2, 0x82]"
  "\<not> containsRuneError [0xC3, 0xA9, 0x61]"
  by (simp_all add: cont_def second3_def)

end
