(* ===== verification/Keywarden_Cmd.thy ===== *)
theory Keywarden_Cmd
  imports Keywarden Logging_Laws
begin

text \<open>
  The command test-keywarden (src/cmd/test-keywarden/main.go): a keywarden that makes a key pair,
  keeps it in a file and later releases the private key through the client of theory
  \<open>Keywarden\<close>. The record \<open>kwenv\<close> holds what the command calls: key generation and the
  coordinates of a point, JSON, the file system's failures, logging and HTTP. The state \<open>kwproc\<close>
  holds the files, what was printed, and the logger. Requests are numbered from 0: the
  ciphertext, the key, then the polls.
\<close>

section \<open>Data\<close>

record keyFile =
  kf_EncX :: string
  kf_EncY :: string
  kf_Priv :: string

record ('v, 'lg) kwenv =
  GenerateKey :: "gerror + 'v \<times> int"
  Point :: "'v \<Rightarrow> int \<times> int"
  print_keyFile :: "keyFile \<Rightarrow> gerror + bytes"
  read_keyFile :: "bytes \<Rightarrow> gerror + keyFile"
  print_results :: "ResultsResponse \<Rightarrow> gerror + string"
  write_fault :: "string \<Rightarrow> (gerror \<times> bytes option) option"
  read_fault :: "string \<Rightarrow> gerror option"
  kw_log :: "'lg loglib"
  kw_http :: transport

record 'lg kwproc =
  kp_files :: "string \<rightharpoonup> bytes"
  kp_out :: string
  kp_err :: string
  kp_log :: "'lg logging"

definition resultsPollInterval :: duration where
  "resultsPollInterval = 5 * second"

definition trim0x :: "string \<Rightarrow> string" where
  "trim0x s = (if length s \<ge> 2 \<and> (take 2 s = ''0x'' \<or> take 2 s = ''0X'') then drop 2 s else s)"

text \<open>A failed \<open>os.WriteFile\<close> may leave the file as it was, gone or cut short.\<close>

definition WriteFile :: "('v, 'lg) kwenv \<Rightarrow> string \<Rightarrow> bytes \<Rightarrow> 'lg kwproc \<Rightarrow> (gerror + unit) \<times> 'lg kwproc" where
  "WriteFile en path blob p =
     (case write_fault en path of
        Some (er, left) \<Rightarrow> (Inl er, p\<lparr>kp_files := (kp_files p)(path := left)\<rparr>)
      | None \<Rightarrow> (Inr (), p\<lparr>kp_files := (kp_files p)(path \<mapsto> blob)\<rparr>))"

definition ReadFile :: "('v, 'lg) kwenv \<Rightarrow> string \<Rightarrow> 'lg kwproc \<Rightarrow> gerror + bytes" where
  "ReadFile en path p =
     (case read_fault en path of
        Some er \<Rightarrow> Inl er
      | None \<Rightarrow> (case kp_files p path of None \<Rightarrow> Inl [Detail ''no such file or directory''] | Some b \<Rightarrow> Inr b))"

definition newKeyFile :: "int \<times> int \<Rightarrow> int \<Rightarrow> keyFile" where
  "newKeyFile pt priv =
     \<lparr>kf_EncX = ''0x'' @ Text16 (fst pt), kf_EncY = ''0x'' @ Text16 (snd pt), kf_Priv = ''0x'' @ Text16 priv\<rparr>"

section \<open>The two modes\<close>

definition keygen :: "('v, 'lg) kwenv \<Rightarrow> string \<Rightarrow> 'lg kwproc \<Rightarrow> (gerror + unit) \<times> 'lg kwproc" where
  "keygen en keyPath p =
     (case GenerateKey en of
        Inl er \<Rightarrow> (Inl (Detail ''generate key'' # er), p)
      | Inr (pub, priv) \<Rightarrow>
          (let kf = newKeyFile (Point en pub) priv in
           case print_keyFile en kf of
             Inl er \<Rightarrow> (Inl er, p)
           | Inr blob \<Rightarrow>
               (case WriteFile en keyPath blob p of
                  (Inl er, p1) \<Rightarrow> (Inl (Detail ''write keyfile'' # er), p1)
                | (Inr _, p1) \<Rightarrow>
                    (let p2 = p1\<lparr>kp_log := log_Infow (kw_log en) ''generated election keypair''
                           [(''keyfile'', Str keyPath), (''encX'', Str (kf_EncX kf)), (''encY'', Str (kf_EncY kf))] (kp_log p1)\<rparr> in
                     (Inr (), p2\<lparr>kp_out := kp_out p2 @ ''encX='' @ kf_EncX kf @ [CHR 0x0A] @ ''encY='' @ kf_EncY kf @ [CHR 0x0A]\<rparr>)))))"

text \<open>\<open>finalize\<close> up to the released key, and the rest of it.\<close>

definition releasedKey :: "('v, 'lg) kwenv \<Rightarrow> string \<Rightarrow> 'lg kwproc \<Rightarrow> gerror + int" where
  "releasedKey en keyPath p =
     and_then (wrap (Detail ''read keyfile'') (ReadFile en keyPath p)) (\<lambda>blob.
     and_then (wrap (Detail ''decode keyfile'') (read_keyFile en blob)) (\<lambda>kf.
     case SetString16 (trim0x (kf_Priv kf)) of
       None \<Rightarrow> Inl [Detail ''invalid private scalar in keyfile'']
     | Some priv \<Rightarrow> Inr priv))"

definition kw_submit :: "('v, 'lg) kwenv \<Rightarrow> Client \<Rightarrow> string \<Rightarrow> duration \<Rightarrow> int \<Rightarrow> 'lg kwproc \<Rightarrow> (gerror + unit) \<times> 'lg kwproc" where
  "kw_submit en c election timeout priv p =
     (case kw_EncryptedResults (kw_http en) c election 0 of
        Inl er \<Rightarrow> (Inl (Detail ''fetch encrypted results'' # er), p)
      | Inr ct \<Rightarrow>
          (let p1 = p\<lparr>kp_log := log_Infow (kw_log en) ''fetched encrypted results''
                 [(''election'', Str election), (''ciphertext'', Num (int (length (snd ct))))] (kp_log p)\<rparr> in
           case kw_SubmitDecryptionKey (kw_http en) c election priv 1 of
             Inl er \<Rightarrow> (Inl (Detail ''submit decryption key'' # er), p1)
           | Inr _ \<Rightarrow>
               (Inr (), p1\<lparr>kp_log := log_Infow (kw_log en) ''submitted decryption key, waiting for the results''
                  [(''election'', Str election), (''timeout'', Dur timeout)] (kp_log p1)\<rparr>)))"

definition kw_finalize ::
  "('v, 'lg) kwenv \<Rightarrow> string \<Rightarrow> string \<Rightarrow> string \<Rightarrow> string \<Rightarrow> duration \<Rightarrow> 'lg kwproc \<Rightarrow> ((gerror + unit) \<times> 'lg kwproc) option" where
  "kw_finalize en keyPath orchestrator tok election timeout p =
     (if election = [] then Some (Inl [Detail ''--election is required''], p)
      else case releasedKey en keyPath p of
        Inl er \<Rightarrow> Some (Inl er, p)
      | Inr priv \<Rightarrow>
          (let c = NewClient orchestrator tok in
           case kw_submit en c election timeout priv p of
             (Inl er, p1) \<Rightarrow> Some (Inl er, p1)
           | (Inr _, p1) \<Rightarrow>
               (case WaitForResults (kw_http en) c election resultsPollInterval timeout 2 of
                  None \<Rightarrow> None
                | Some r \<Rightarrow>
                    Some (case and_then r (print_results en) of
                      Inl er \<Rightarrow> (Inl er, p1)
                    | Inr out \<Rightarrow> (Inr (), p1\<lparr>kp_out := kp_out p1 @ out @ [CHR 0x0A]\<rparr>)))))"

section \<open>The command\<close>

record kwflags =
  fl_mode :: string
  fl_keyfile :: string
  fl_orchestrator :: string
  fl_token :: string
  fl_election :: string
  fl_timeout :: duration

definition kw_defaults :: kwflags where
  "kw_defaults = \<lparr>fl_mode = [], fl_keyfile = ''keywarden-key.json'', fl_orchestrator = ''http://127.0.0.1:8888'', fl_token = [],
     fl_election = [], fl_timeout = 30 * minute\<rparr>"

datatype ended = Returned | Exited int | Panicked log_panic

definition kw_fatal :: "('v, 'lg) kwenv \<Rightarrow> string \<Rightarrow> (gerror + unit) \<times> 'lg kwproc \<Rightarrow> ended \<times> 'lg kwproc" where
  "kw_fatal en template r =
     (case r of
        (Inr _, p) \<Rightarrow> (Returned, p)
      | (Inl er, p) \<Rightarrow>
          (let lg = log_Fatalf (kw_log en) template [Str (gerror_Error er)] (kp_log p) in
           (if exited lg then Exited 1 else Returned, p\<lparr>kp_log := lg\<rparr>)))"

definition kw_main :: "('v, 'lg) kwenv \<Rightarrow> (string \<Rightarrow> gerror + unit) \<Rightarrow> kwflags \<Rightarrow> 'lg kwproc \<Rightarrow> (ended \<times> 'lg kwproc) option" where
  "kw_main en opn fl p =
     (case Init (kw_log en) opn ''info'' ''stdout'' None (kp_log p) of
        (Inl pn, lg) \<Rightarrow> Some (Panicked pn, p\<lparr>kp_log := lg\<rparr>)
      | (Inr _, lg) \<Rightarrow>
          (let p1 = p\<lparr>kp_log := lg\<rparr> in
           if fl_mode fl = ''keygen'' then Some (kw_fatal en ''keygen failed: %v'' (keygen en (fl_keyfile fl) p1))
           else if fl_mode fl = ''finalize'' then
             map_option (kw_fatal en ''finalize failed: %v'')
               (kw_finalize en (fl_keyfile fl) (fl_orchestrator fl) (fl_token fl) (fl_election fl) (fl_timeout fl) p1)
           else Some (Exited 2, p1\<lparr>kp_err := kp_err p1 @ ''test-keywarden v'' @ Version @ [CHR 0x0A] @
             ''usage: --mode=keygen|finalize'' @ [CHR 0x0A]\<rparr>)))"

end
