(* ===== verification/Keywarden_Key.thy ===== *)
theory Keywarden_Key
  imports Keywarden_Cmd
begin

text \<open>
  The key pair of test-keywarden from its generation to its release: the coordinates it prints
  parse to the point, the key file gives back the private key, and the only thing logged or
  printed of the pair is the public key.
\<close>

section \<open>Hexadecimal text\<close>

lemma trimLeft_stop: "\<forall>p \<in> set ps. p \<noteq> [] \<longrightarrow> hd p \<noteq> c \<Longrightarrow> trimLeft ps (c # s) = c # s"
  by (auto simp: neq_Nil_conv split: option.splits dest!: find_Some_iff[THEN iffD1] nth_mem)

lemma TrimSpace_inner:
  assumes "\<forall>p \<in> set spaces. p \<noteq> [] \<longrightarrow> hd p \<noteq> c" and "\<forall>p \<in> set spaces. p \<noteq> [] \<longrightarrow> last p \<noteq> d"
  shows "TrimSpace (c # s @ [d]) = c # s @ [d]"
  using assms trimLeft_stop[of "map rev spaces" d] trimLeft_stop[of spaces c] by (simp add: TrimSpace_def hd_rev)

lemma hexDigit_not_space: "n < 16 \<Longrightarrow> \<forall>p \<in> set spaces. p \<noteq> [] \<longrightarrow> last p \<noteq> hexDigit n"
  using hexDigit_cases[of n] by (auto simp: spaces_def char_of_def)

lemma hexString_last: "\<exists>s m. hexString n = s @ [hexDigit m] \<and> m < 16"
  by (subst hexString.simps) (auto intro: exI[of _ "[]"] exI[of _ n])

lemma Text16_last: "\<exists>s m. Text16 z = s @ [hexDigit m] \<and> m < 16"
  using hexString_last[of "nat z"] hexString_last[of "nat (- z)"] unfolding Text16_def by (metis append_Cons)

lemma TrimSpace_hex: "TrimSpace (''0x'' @ Text16 z) = ''0x'' @ Text16 z"
proof -
  obtain s m where t: "Text16 z = s @ [hexDigit m]" and m: "m < 16" using Text16_last by blast
  have "\<forall>p \<in> set spaces. p \<noteq> [] \<longrightarrow> hd p \<noteq> CHR ''0''" by (auto simp: spaces_def char_of_def)
  from TrimSpace_inner[OF this hexDigit_not_space[OF m], of "CHR ''x'' # s"] show ?thesis by (simp add: t)
qed

lemma parseHexBig_Text16: "parseHexBig (''0x'' @ Text16 z) = Inr z"
proof -
  have "Text16 z \<noteq> []" using Text16_last[of z] by auto
  then show ?thesis using SetString16_Text16[of z] unfolding parseHexBig_def TrimSpace_hex
    by (simp add: TrimPrefix_def split: if_splits)
qed

lemma trim0x_hex: "trim0x (''0x'' @ Text16 z) = Text16 z"
  by (simp add: trim0x_def)

lemma SetString16_trim0x: "SetString16 (trim0x (''0x'' @ Text16 z)) = Some z"
  using SetString16_Text16[of z] unfolding trim0x_hex by (simp add: TrimPrefix_def)

section \<open>The pair\<close>

lemma encKey_of_pair:
  "encKeyFromRTE k (kf_EncX (newKeyFile pt priv)) (kf_EncY (newKeyFile pt priv)) = Inr (SetPoint k (fst pt) (snd pt))"
  unfolding encKeyFromRTE_def newKeyFile_def keyFile.simps parseHexBig_Text16 by simp

lemma keygen_ok:
  assumes "keygen en path p = (Inr (), p')"
  obtains pub priv blob where "GenerateKey en = Inr (pub, priv)" and "print_keyFile en (newKeyFile (Point en pub) priv) = Inr blob"
    and "kp_files p' = (kp_files p)(path \<mapsto> blob)"
    and "kp_out p' = kp_out p @ ''encX='' @ kf_EncX (newKeyFile (Point en pub) priv) @ [CHR 0x0A] @
      ''encY='' @ kf_EncY (newKeyFile (Point en pub) priv) @ [CHR 0x0A]"
  using assms by (auto simp: keygen_def WriteFile_def Let_def split: sum.splits option.splits prod.splits)

lemma keygen_releases:
  assumes "keygen en path p = (Inr (), p1)" and "\<And>kf b. print_keyFile en kf = Inr b \<Longrightarrow> read_keyFile en b = Inr kf"
    and "kp_files p2 path = kp_files p1 path" and "read_fault en path = None"
  obtains pub priv where "GenerateKey en = Inr (pub, priv)" and "releasedKey en path p2 = Inr priv"
proof -
  obtain pub priv blob where g: "GenerateKey en = Inr (pub, priv)" and b: "print_keyFile en (newKeyFile (Point en pub) priv) = Inr blob"
    and f: "kp_files p1 = (kp_files p)(path \<mapsto> blob)" using keygen_ok[OF assms(1)] by metis
  have "releasedKey en path p2 = Inr priv" using assms(2)[OF b] assms(3,4) f SetString16_trim0x[of priv]
    by (simp add: releasedKey_def ReadFile_def newKeyFile_def)
  with g show thesis using that by blast
qed

lemma kw_finalize_posts:
  assumes "kw_finalize en path url tok i timeout p = Some (Inr (), p')" and "releasedKey en path p = Inr priv"
  obtains req resp where "keyRequest (kw_http en) (NewClient url tok) i priv = Inr req"
    and "Do (kw_http en) 1 req = Inr resp" and "StatusCode resp = 202"
  using assms by (auto simp: kw_finalize_def kw_submit_def kw_SubmitDecryptionKey_def Let_def require_def
      split: if_splits sum.splits option.splits prod.splits)

text \<open>What is logged and printed depends on the public part of the pair only.\<close>

lemma keygen_keeps_secret:
  assumes "GenerateKey en = Inr (pub, priv)" and "keygen en path p = (Inr (), p1)"
    and "keygen (en\<lparr>GenerateKey := Inr (pub, priv')\<rparr>) path p = (Inr (), p2)"
  shows "kp_out p1 = kp_out p2 \<and> kp_log p1 = kp_log p2"
  using assms by (auto simp: keygen_def WriteFile_def newKeyFile_def Let_def split: sum.splits option.splits)

text \<open>The logger \<open>main\<close> starts with never panics.\<close>

lemma kw_fatal_no_panic: "kw_fatal en t x = (r, p) \<Longrightarrow> r \<noteq> Panicked pn"
  by (auto simp: kw_fatal_def Let_def split: prod.splits sum.splits if_splits)

lemma kw_main_no_panic:
  assumes "kw_main en opn fl p = Some (r, p')"
  shows "r \<noteq> Panicked pn"
proof -
  obtain lg where "Init (kw_log en) opn ''info'' ''stdout'' None (kp_log p) = (Inr (), lg)"
    using Init_panics[of "kw_log en" opn "''info''" "''stdout''" None "kp_log p"]
    by (cases "Init (kw_log en) opn ''info'' ''stdout'' None (kp_log p)"; cases "fst (Init (kw_log en) opn ''info'' ''stdout'' None (kp_log p))")
      (auto simp: log_output_def)
  with assms show ?thesis by (auto simp: kw_main_def Let_def split: if_splits dest: kw_fatal_no_panic[where pn = pn])
qed

end
