(* ===== verification/Service.thy ===== *)
theory Service
  imports Keywarden
begin

text \<open>
  The services of the process (src/service): construction of the pool, the engine and the API
  from their configurations, and the stop of the orchestrator. \<open>APIService.Stop\<close> does nothing.
\<close>

section \<open>Services (service/orchestrator.go, service/api.go)\<close>

record OrchestratorConfig =
  oc_BatchSize :: int
  oc_BatchTimeWindow :: duration
  oc_FoldEvery :: int
  oc_JobTimeout :: duration
  oc_WorkerPoll :: duration

definition NewOrchestrator :: "('v, 'st) sdk \<Rightarrow> time \<Rightarrow> 'b storage \<Rightarrow> OrchestratorConfig \<Rightarrow> ('b, 'v, 'st) engine" where
  "NewOrchestrator k now s conf =
     NewEngine k now s
       \<lparr>opt_BatchSize = oc_BatchSize conf, opt_BatchTimeWindow = oc_BatchTimeWindow conf,
        opt_Pool = Some (NewWorkerManager (Some DefaultWorkerBanRules) [oc_WorkerPoll conf]),
        opt_FoldEvery = oc_FoldEvery conf, opt_JobTimeout = oc_JobTimeout conf, opt_JobPoll = 0\<rparr>"

definition OrchestratorService_Stop :: "('b, 'v, 'st) engine \<Rightarrow> ('b, 'v, 'st) engine" where
  "OrchestratorService_Stop e = (let e1 = Stop e in e1\<lparr>pool := map_option WM_Stop (pool e1)\<rparr>)"

definition NewAPI :: "api_Config \<Rightarrow> gerror + API" where
  "NewAPI conf = api_New (Some conf)"

section \<open>What a start gives\<close>

lemma restoreElection_config:
  "eng_batchSize (restoreElection k now el e) = eng_batchSize e" "eng_foldEvery (restoreElection k now el e) = eng_foldEvery e"
  "pool (restoreElection k now el e) = pool e" "bgStopped (restoreElection k now el e) = bgStopped e"
  by (simp_all add: restoreElection_def resetFinalizing_def deleteProofs_def Let_def put_runtime_def split: sum.splits prod.splits)

lemma restore_config:
  "eng_batchSize (restore k now e) = eng_batchSize e" "eng_foldEvery (restore k now e) = eng_foldEvery e"
  "pool (restore k now e) = pool e" "bgStopped (restore k now e) = bgStopped e"
proof -
  have "eng_batchSize (fold (restoreElection k now) els e) = eng_batchSize e \<and> eng_foldEvery (fold (restoreElection k now) els e) = eng_foldEvery e \<and>
      pool (fold (restoreElection k now) els e) = pool e \<and> bgStopped (fold (restoreElection k now) els e) = bgStopped e" for els
    by (induction els arbitrary: e) (simp_all add: restoreElection_config)
  then show "eng_batchSize (restore k now e) = eng_batchSize e" "eng_foldEvery (restore k now e) = eng_foldEvery e"
    "pool (restore k now e) = pool e" "bgStopped (restore k now e) = bgStopped e" by (simp_all add: restore_def)
qed

lemma NewOrchestrator_config:
  assumes "0 < oc_BatchSize conf" and "0 < oc_FoldEvery conf"
  shows "eng_batchSize (NewOrchestrator k now s conf) = oc_BatchSize conf"
    and "eng_foldEvery (NewOrchestrator k now s conf) = oc_FoldEvery conf"
    and "pool (NewOrchestrator k now s conf) \<noteq> None" and "\<not> bgStopped (NewOrchestrator k now s conf)"
  using assms by (simp_all add: NewOrchestrator_def NewEngine_def Let_def restore_config restoreWorkers_def split: prod.splits)

end
