(* ===== verification/Command.thy ===== *)
theory Command
  imports Service Logging_Laws
begin

text \<open>
  The command davinci-fold (src/cmd/davinci-fold): its flags, how the configuration is read from
  them, its checks, and how \<open>main\<close> starts the logger, the storage, the orchestrator and the API
  from it and stops them. The database is what opening it returned; the process waits for a
  signal between \<open>start_process\<close> and \<open>stop_process\<close>.
\<close>

section \<open>Configuration (cmd/davinci-fold/config.go)\<close>

record APIConfig =
  cfg_Host :: string
  cfg_Port :: int
  cfg_JWTSecret :: string

record BatchConfig =
  batch_Size :: int
  batch_Time :: duration

record WorkerConfig =
  worker_PollPeriod :: duration
  worker_JobTimeout :: duration

record LogConfig =
  cfg_Level :: string
  cfg_Output :: string
  cfg_DisableAPI :: bool

record Config =
  cfg_API :: APIConfig
  cfg_Batch :: BatchConfig
  fold_Every :: int
  cfg_Worker :: WorkerConfig
  cfg_Log :: LogConfig
  cfg_Datadir :: string

definition validateConfig :: "('v, 'st) sdk \<Rightarrow> Config \<Rightarrow> gerror + unit" where
  "validateConfig k cfg =
     and_then (require (cfg_JWTSecret (cfg_API cfg) \<noteq> []) [Detail ''JWT secret is required'']) (\<lambda>_.
     and_then (require (\<not> batch_Size (cfg_Batch cfg) < 2) [Detail ''batch size must be at least 2'']) (\<lambda>_.
     and_then (require (\<not> batch_Size (cfg_Batch cfg) > MaxBatchSize k) [Detail ''batch size must not exceed the circuit maximum'']) (\<lambda>_.
     and_then (require (\<not> fold_Every cfg < 1) [Detail ''fold cadence must be at least 1'']) (\<lambda>_.
     require (\<not> worker_JobTimeout (cfg_Worker cfg) \<le> 0) [Detail ''job timeout must be positive'']))))"

section \<open>Reading the configuration (cmd/davinci-fold/config.go)\<close>

definition defaultAPIHost :: string where "defaultAPIHost = ''0.0.0.0''"
definition defaultAPIPort :: int where "defaultAPIPort = 8888"
definition defaultLogLevel :: string where "defaultLogLevel = ''info''"
definition defaultLogOutput :: string where "defaultLogOutput = ''stdout''"
definition defaultDatadir :: string where "defaultDatadir = ''.davinci-fold''"
definition cmd_defaultBatchSize :: int where "cmd_defaultBatchSize = 64"
definition cmd_defaultBatchTimeWindow :: duration where "cmd_defaultBatchTimeWindow = 5 * minute"
definition cmd_defaultFoldEvery :: int where "cmd_defaultFoldEvery = 4"
definition defaultWorkerPollPeriod :: duration where "defaultWorkerPollPeriod = 10 * second"
definition defaultWorkerJobTimeout :: duration where "defaultWorkerJobTimeout = 30 * minute"

datatype flagval = FString string | FInt int | FDuration duration | FBool bool

record flag =
  flag_Name :: string
  flag_Shorthand :: string
  flag_Default :: flagval

definition config_flags :: "string \<Rightarrow> flag list" where
  "config_flags defaultDatadirPath =
     [\<lparr>flag_Name = ''api.host'', flag_Shorthand = ''h'', flag_Default = FString defaultAPIHost\<rparr>,
      \<lparr>flag_Name = ''api.port'', flag_Shorthand = ''p'', flag_Default = FInt defaultAPIPort\<rparr>,
      \<lparr>flag_Name = ''api.jwtSecret'', flag_Shorthand = [], flag_Default = FString []\<rparr>,
      \<lparr>flag_Name = ''batch.size'', flag_Shorthand = [], flag_Default = FInt cmd_defaultBatchSize\<rparr>,
      \<lparr>flag_Name = ''batch.time'', flag_Shorthand = ''b'', flag_Default = FDuration cmd_defaultBatchTimeWindow\<rparr>,
      \<lparr>flag_Name = ''fold.every'', flag_Shorthand = [], flag_Default = FInt cmd_defaultFoldEvery\<rparr>,
      \<lparr>flag_Name = ''worker.pollPeriod'', flag_Shorthand = [], flag_Default = FDuration defaultWorkerPollPeriod\<rparr>,
      \<lparr>flag_Name = ''worker.jobTimeout'', flag_Shorthand = [], flag_Default = FDuration defaultWorkerJobTimeout\<rparr>,
      \<lparr>flag_Name = ''log.level'', flag_Shorthand = ''l'', flag_Default = FString defaultLogLevel\<rparr>,
      \<lparr>flag_Name = ''log.output'', flag_Shorthand = ''o'', flag_Default = FString defaultLogOutput\<rparr>,
      \<lparr>flag_Name = ''log.disableAPI'', flag_Shorthand = [], flag_Default = FBool False\<rparr>,
      \<lparr>flag_Name = ''datadir'', flag_Shorthand = ''d'', flag_Default = FString defaultDatadirPath\<rparr>]"

text \<open>
  What \<open>loadConfig\<close> calls: \<open>flag.Parse\<close>, which ends the process with a code on a flag it does not
  know and on a request for help, and viper, with the prefix and the replacements of environment
  variable names. \<open>Settings\<close> are the values viper holds for the keys of the flags when it fills
  the configuration, or its error.
\<close>

record cmdenv =
  UserHomeDir :: "gerror + string"
  flag_Parse :: "flag list \<Rightarrow> int option"
  BindPFlags :: "flag list \<Rightarrow> gerror + unit"
  Settings :: "string \<Rightarrow> (string \<times> string) list \<Rightarrow> flag list \<Rightarrow> gerror + (string \<Rightarrow> flagval)"
  TypePebble :: string

fun as_string :: "flagval \<Rightarrow> gerror + string" where
  "as_string (FString s) = Inr s" | "as_string _ = Inl [Detail ''expected type string'']"

fun as_int :: "flagval \<Rightarrow> gerror + int" where
  "as_int (FInt i) = Inr i" | "as_int _ = Inl [Detail ''expected type int'']"

fun as_duration :: "flagval \<Rightarrow> gerror + duration" where
  "as_duration (FDuration d) = Inr d" | "as_duration _ = Inl [Detail ''expected type duration'']"

fun as_bool :: "flagval \<Rightarrow> gerror + bool" where
  "as_bool (FBool b) = Inr b" | "as_bool _ = Inl [Detail ''expected type bool'']"

text \<open>The fields of \<open>Config\<close> with the keys their names and tags stand for.\<close>

definition configOf :: "(string \<Rightarrow> flagval) \<Rightarrow> gerror + Config" where
  "configOf v =
     and_then (as_string (v ''api.host'')) (\<lambda>host.
     and_then (as_int (v ''api.port'')) (\<lambda>port.
     and_then (as_string (v ''api.jwtSecret'')) (\<lambda>secret.
     and_then (as_int (v ''batch.size'')) (\<lambda>size.
     and_then (as_duration (v ''batch.time'')) (\<lambda>window.
     and_then (as_int (v ''fold.every'')) (\<lambda>every.
     and_then (as_duration (v ''worker.pollPeriod'')) (\<lambda>poll.
     and_then (as_duration (v ''worker.jobTimeout'')) (\<lambda>job.
     and_then (as_string (v ''log.level'')) (\<lambda>level.
     and_then (as_string (v ''log.output'')) (\<lambda>output.
     and_then (as_bool (v ''log.disableAPI'')) (\<lambda>disable.
     and_then (as_string (v ''datadir'')) (\<lambda>datadir.
     Inr \<lparr>cfg_API = \<lparr>cfg_Host = host, cfg_Port = port, cfg_JWTSecret = secret\<rparr>,
       cfg_Batch = \<lparr>batch_Size = size, batch_Time = window\<rparr>, fold_Every = every,
       cfg_Worker = \<lparr>worker_PollPeriod = poll, worker_JobTimeout = job\<rparr>,
       cfg_Log = \<lparr>cfg_Level = level, cfg_Output = output, cfg_DisableAPI = disable\<rparr>, cfg_Datadir = datadir\<rparr>))))))))))))"

definition defaultDatadirPath :: "cmdenv \<Rightarrow> string" where
  "defaultDatadirPath ce = Join [case UserHomeDir ce of Inl _ \<Rightarrow> ''.'' | Inr d \<Rightarrow> d, defaultDatadir]"

text \<open>\<open>Inl\<close> is the code of a process that ended in \<open>flag.Parse\<close>.\<close>

definition loadConfig :: "cmdenv \<Rightarrow> int + (gerror + Config)" where
  "loadConfig ce =
     (let flags = config_flags (defaultDatadirPath ce) in
      case flag_Parse ce flags of
        Some code \<Rightarrow> Inl code
      | None \<Rightarrow>
          Inr (and_then (wrap (Detail ''error binding flags'') (BindPFlags ce flags)) (\<lambda>_.
               wrap (Detail ''error unmarshaling config'')
                 (and_then (Settings ce ''DAVINCIFOLD'' [(''.'', ''_'')] flags) configOf))))"

section \<open>Starting and stopping (cmd/davinci-fold/main.go)\<close>

text \<open>\<open>Storage.Close\<close>, with what closing the database did: a panic of it is caught.\<close>

datatype closing = Closed | CloseError gerror | ClosePanic string

definition storage_Close :: "'lg loglib \<Rightarrow> closing \<Rightarrow> 'lg logging \<Rightarrow> 'lg logging" where
  "storage_Close zl c lg =
     (case c of
        Closed \<Rightarrow> lg
      | CloseError er \<Rightarrow> log_Warnw zl ''failed to close storage'' [(''error'', Str (gerror_Error er))] lg
      | ClosePanic r \<Rightarrow>
          if sublist ''closed'' r then log_Warn zl [Str ''storage database already closed''] lg
          else log_Errorf zl ''storage close panic: %v'' [Str r] lg)"

text \<open>The services a start has got to: a storage, then an engine on it, then the API.\<close>

record ('b, 'v, 'st) Services =
  sv_Storage :: bool
  sv_Orchestrator :: "('b, 'v, 'st) engine option"
  sv_API :: "API option"

definition shutdownServices ::
  "'lg loglib \<Rightarrow> closing \<Rightarrow> ('b, 'v, 'st) Services option \<Rightarrow> 'lg logging \<Rightarrow> ('b, 'v, 'st) Services option \<times> 'lg logging" where
  "shutdownServices zl c services lg =
     (case services of
        None \<Rightarrow> (None, lg)
      | Some sv \<Rightarrow>
          (Some (sv\<lparr>sv_Orchestrator := map_option OrchestratorService_Stop (sv_Orchestrator sv)\<rparr>),
           if sv_Storage sv then storage_Close zl c lg else lg))"

text \<open>
  The \<open>return nil, err\<close> of a failed step sets the named result \<open>services\<close> to nil before the
  deferred call reads it, so that call gets \<open>None\<close>.
\<close>

definition failSetup ::
  "'lg loglib \<Rightarrow> closing \<Rightarrow> gerror \<Rightarrow> 'lg logging \<Rightarrow> (gerror + ('b, 'v, 'st) Services) \<times> 'lg logging" where
  "failSetup zl c er lg = (Inl er, snd (shutdownServices zl c (None :: ('b, 'v, 'st) Services option) lg))"

definition setupServices ::
  "'lg loglib \<Rightarrow> ('v, 'st) sdk \<Rightarrow> cmdenv \<Rightarrow> time \<Rightarrow> Config \<Rightarrow> gerror + (bytes \<times> 'b) list \<Rightarrow> 'b codec \<Rightarrow> bool list \<Rightarrow> closing
    \<Rightarrow> 'lg logging \<Rightarrow> (gerror + ('b, 'v, 'st) Services) \<times> 'lg logging" where
  "setupServices zl k ce now cfg opened cd fl c lg =
     (let lg1 = log_Infow zl ''initializing storage'' [(''datadir'', Str (cfg_Datadir cfg)), (''type'', Str (TypePebble ce))] lg in
      case opened of
        Inl er \<Rightarrow> failSetup zl c (Detail ''failed to initialize storage'' # er) lg1
      | Inr database \<Rightarrow>
          (let s = New database cd fl;
               lg2 = log_Infow zl ''starting orchestrator'' [(''batchSize'', Num (batch_Size (cfg_Batch cfg))),
                 (''foldEvery'', Num (fold_Every cfg)), (''jobTimeout'', Dur (worker_JobTimeout (cfg_Worker cfg)))] lg1;
               e = NewOrchestrator k now s
                 \<lparr>oc_BatchSize = batch_Size (cfg_Batch cfg), oc_BatchTimeWindow = batch_Time (cfg_Batch cfg), oc_FoldEvery = fold_Every cfg,
                  oc_JobTimeout = worker_JobTimeout (cfg_Worker cfg), oc_WorkerPoll = worker_PollPeriod (cfg_Worker cfg)\<rparr>;
               lg3 = log_Infow zl ''starting API service'' [(''host'', Str (cfg_Host (cfg_API cfg))), (''port'', Num (cfg_Port (cfg_API cfg)))] lg2 in
           case NewAPI \<lparr>ac_JWTSecret = cfg_JWTSecret (cfg_API cfg), ac_Engine = True, ac_BatchSize = batch_Size (cfg_Batch cfg),
                  ac_FoldEvery = fold_Every cfg\<rparr> of
             Inl er \<Rightarrow> failSetup zl c (Detail ''failed to start API service'' # er) lg3
           | Inr a \<Rightarrow>
               (Inr \<lparr>sv_Storage = True, sv_Orchestrator = Some e, sv_API = Some a\<rparr>,
                log_Info zl [Str ''davinci-fold is running, ready to orchestrate folded proving!''] lg3)))"

text \<open>
  \<open>main\<close> up to the wait for a signal. \<open>log.Fatalf\<close> ends the process when zerolog does; the model
  goes on as the code would if it did not.
\<close>

datatype ('b, 'v, 'st) started =
    ProcessExit int
  | ProcessPanic log_panic
  | Waiting (started_services: "('b, 'v, 'st) Services option") (started_DisabledLogging: bool)

definition fatalOn :: "'lg loglib \<Rightarrow> string \<Rightarrow> gerror + 'x \<Rightarrow> 'lg logging \<Rightarrow> 'lg logging" where
  "fatalOn zl template r lg = (case r of Inl er \<Rightarrow> log_Fatalf zl template [Str (gerror_Error er)] lg | Inr _ \<Rightarrow> lg)"

definition start_process ::
  "'lg loglib \<Rightarrow> (string \<Rightarrow> gerror + unit) \<Rightarrow> ('v, 'st) sdk \<Rightarrow> cmdenv \<Rightarrow> time \<Rightarrow> gerror + (bytes \<times> 'b) list \<Rightarrow> 'b codec \<Rightarrow> bool list
    \<Rightarrow> closing \<Rightarrow> 'lg logging \<Rightarrow> ('b, 'v, 'st) started \<times> 'lg logging" where
  "start_process zl opn k ce now opened cd fl c lg =
     (case loadConfig ce of
        Inl code \<Rightarrow> (ProcessExit code, lg)
      | Inr (Inl er) \<Rightarrow> (ProcessExit 1, lg)
      | Inr (Inr cfg) \<Rightarrow>
          (case Init zl opn (cfg_Level (cfg_Log cfg)) (cfg_Output (cfg_Log cfg)) None lg of
             (Inl p, lg1) \<Rightarrow> (ProcessPanic p, lg1)
           | (Inr _, lg1) \<Rightarrow>
               (let lg2 = log_Infow zl ''starting davinci-fold'' [(''version'', Str Version)] lg1;
                    lg3 = fatalOn zl ''Invalid configuration: %v'' (validateConfig k cfg) lg2 in
                if exited lg3 then (ProcessExit 1, lg3)
                else
                  (let (r, lg4) = setupServices zl k ce now cfg opened cd fl c lg3;
                       lg5 = fatalOn zl ''Failed to setup services: %v'' r lg4 in
                   if exited lg5 then (ProcessExit 1, lg5)
                   else (Waiting (case r of Inl _ \<Rightarrow> None | Inr sv \<Rightarrow> Some sv) (cfg_DisableAPI (cfg_Log cfg)), lg5)))))"

text \<open>From the signal to the end of \<open>main\<close>.\<close>

definition stop_process ::
  "'lg loglib \<Rightarrow> closing \<Rightarrow> string \<Rightarrow> ('b, 'v, 'st) Services option \<Rightarrow> 'lg logging \<Rightarrow> ('b, 'v, 'st) Services option \<times> 'lg logging" where
  "stop_process zl c sig services lg =
     shutdownServices zl c services (log_Infow zl ''received signal, shutting down'' [(''signal'', Str sig)] lg)"

end
