(* ===== verification/Command_Laws.thy ===== *)
theory Command_Laws
  imports Command
begin

text \<open>
  What the command davinci-fold does with its configuration: the defaults it starts with, the
  configurations it refuses, the services a valid one gives, and what a shutdown stops.
\<close>

section \<open>Defaults\<close>

lemma datadir_paths:
  "Join [''/home/u'', defaultDatadir] = ''/home/u/.davinci-fold''" "Join [''/'', defaultDatadir] = ''/.davinci-fold''"
  "Join [''.'', defaultDatadir] = ''.davinci-fold''" "Join [[], defaultDatadir] = ''.davinci-fold''"
  by (simp_all add: Join_def Clean_def clean_step_def defaultDatadir_def Let_def)

text \<open>
  \<open>given\<close> are the values of the command line and the environment; a setting that is not given
  has the default of its flag.
\<close>

definition settings_ok :: "cmdenv \<Rightarrow> (string \<rightharpoonup> flagval) \<Rightarrow> bool" where
  "settings_ok ce given \<longleftrightarrow> flag_Parse ce (config_flags (defaultDatadirPath ce)) = None \<and>
     BindPFlags ce (config_flags (defaultDatadirPath ce)) = Inr () \<and>
     (\<exists>v. Settings ce ''DAVINCIFOLD'' [(''.'', ''_'')] (config_flags (defaultDatadirPath ce)) = Inr v \<and>
        (\<forall>f \<in> set (config_flags (defaultDatadirPath ce)).
           v (flag_Name f) = (case given (flag_Name f) of None \<Rightarrow> flag_Default f | Some x \<Rightarrow> x)))"

definition defaultConfig :: "string \<Rightarrow> string \<Rightarrow> Config" where
  "defaultConfig secret datadir =
     \<lparr>cfg_API = \<lparr>cfg_Host = ''0.0.0.0'', cfg_Port = 8888, cfg_JWTSecret = secret\<rparr>,
      cfg_Batch = \<lparr>batch_Size = 64, batch_Time = 5 * minute\<rparr>, fold_Every = 4,
      cfg_Worker = \<lparr>worker_PollPeriod = 10 * second, worker_JobTimeout = 30 * minute\<rparr>,
      cfg_Log = \<lparr>cfg_Level = ''info'', cfg_Output = ''stdout'', cfg_DisableAPI = False\<rparr>, cfg_Datadir = datadir\<rparr>"

lemmas cmd_defaults = defaultAPIHost_def defaultAPIPort_def defaultLogLevel_def defaultLogOutput_def cmd_defaultBatchSize_def
  cmd_defaultBatchTimeWindow_def cmd_defaultFoldEvery_def defaultWorkerPollPeriod_def defaultWorkerJobTimeout_def

lemma loadConfig_defaults:
  assumes "settings_ok ce [''api.jwtSecret'' \<mapsto> FString secret]"
  shows "loadConfig ce = Inr (Inr (defaultConfig secret (defaultDatadirPath ce)))"
proof -
  obtain v where v: "Settings ce ''DAVINCIFOLD'' [(''.'', ''_'')] (config_flags (defaultDatadirPath ce)) = Inr v"
    and val: "\<forall>f \<in> set (config_flags (defaultDatadirPath ce)). v (flag_Name f) =
        (case [''api.jwtSecret'' \<mapsto> FString secret] (flag_Name f) of None \<Rightarrow> flag_Default f | Some x \<Rightarrow> x)"
    using assms by (auto simp: settings_ok_def)
  have "configOf v = Inr (defaultConfig secret (defaultDatadirPath ce))"
    using val by (simp add: config_flags_def configOf_def defaultConfig_def cmd_defaults)
  then show ?thesis using assms v by (simp add: loadConfig_def settings_ok_def Let_def)
qed

lemma defaults_valid:
  assumes "secret \<noteq> []" and "64 \<le> MaxBatchSize k"
  shows "validateConfig k (defaultConfig secret datadir) = Inr ()"
  using assms by (simp add: validateConfig_def defaultConfig_def minute_def second_def)

section \<open>Setup\<close>

lemma lines_keep [simp]:
  "logger (log_Infow zl m kvs lg) = logger lg" "logger (log_Info zl args lg) = logger lg"
  "loglib_ok zl \<Longrightarrow> exited (log_Infow zl m kvs lg) = exited lg" "loglib_ok zl \<Longrightarrow> exited (log_Info zl args lg) = exited lg"
  by (auto simp: log_Infow_def log_Info_def loglib_ok_def)

lemma setup_ok:
  assumes "loglib_ok zl" and "cfg_JWTSecret (cfg_API cfg) \<noteq> []"
  obtains lg' where "setupServices zl k ce now cfg (Inr database) cd fl c lg =
      (Inr \<lparr>sv_Storage = True, sv_Orchestrator = Some (NewOrchestrator k now (New database cd fl)
          \<lparr>oc_BatchSize = batch_Size (cfg_Batch cfg), oc_BatchTimeWindow = batch_Time (cfg_Batch cfg), oc_FoldEvery = fold_Every cfg,
           oc_JobTimeout = worker_JobTimeout (cfg_Worker cfg), oc_WorkerPoll = worker_PollPeriod (cfg_Worker cfg)\<rparr>),
        sv_API = Some \<lparr>jwtSecret = cfg_JWTSecret (cfg_API cfg), api_batchSize = batch_Size (cfg_Batch cfg), api_foldEvery = fold_Every cfg\<rparr>\<rparr>, lg')"
    and "logger lg' = logger lg" and "exited lg' = exited lg"
  using assms by (simp add: setupServices_def NewAPI_def api_New_def Let_def)

text \<open>
  A failed setup stops nothing: no line of a shutdown reaches the log, whatever closing the
  database would have reported.
\<close>

lemma failed_setup_stops_nothing: "failSetup zl c er lg = (Inl er, lg)"
  by (simp add: failSetup_def shutdownServices_def)

section \<open>Start\<close>

lemma Init_keeps_exited:
  assumes "loglib_ok zl" and "Init zl opn level output errw lg = (r, lg')"
  shows "exited lg' = exited lg"
  using assms by (auto simp: Init_def Let_def setLogger_def loglib_ok_def split: sum.splits option.splits if_splits)

lemma Init_ok:
  assumes "level \<in> {''debug'', ''info'', ''warn'', ''error''}" and "\<not> isl (log_output opn output)"
  obtains lg' where "Init zl opn level output errw lg = (Inr (), lg')"
  using Init_panics[of zl opn level "output" errw lg] assms
  by (cases "Init zl opn level output errw lg"; cases "fst (Init zl opn level output errw lg)") auto

lemma bad_level_panics:
  assumes "loadConfig ce = Inr (Inr cfg)" and "cfg_Level (cfg_Log cfg) \<notin> {''debug'', ''info'', ''warn'', ''error''}"
  shows "\<exists>p lg'. start_process zl opn k ce now opened cd fl c lg = (ProcessPanic p, lg')"
  using Init_panics[of zl opn "cfg_Level (cfg_Log cfg)" "cfg_Output (cfg_Log cfg)" None lg] assms
  by (auto simp: start_process_def split: prod.splits sum.splits)

lemma invalid_config_exits:
  assumes "loglib_ok zl" and "loadConfig ce = Inr (Inr cfg)" and "validateConfig k cfg = Inl er"
    and "Init zl opn (cfg_Level (cfg_Log cfg)) (cfg_Output (cfg_Log cfg)) None lg = (Inr (), lg1)"
  shows "fst (start_process zl opn k ce now opened cd fl c lg) = ProcessExit 1"
  using assms Fatal_exits[OF assms(1)] by (simp add: start_process_def fatalOn_def Let_def)

lemma start_ok:
  assumes "loglib_ok zl" and "\<not> exited lg" and "loadConfig ce = Inr (Inr cfg)" and "validateConfig k cfg = Inr ()"
    and "Init zl opn (cfg_Level (cfg_Log cfg)) (cfg_Output (cfg_Log cfg)) None lg = (Inr (), lg1)"
    and "setupServices zl k ce now cfg opened cd fl c (log_Infow zl ''starting davinci-fold'' [(''version'', Str Version)] lg1) = (Inr sv, lg2)"
    and "logger lg2 = logger lg1" and "exited lg2 = exited lg1"
  shows "start_process zl opn k ce now opened cd fl c lg = (Waiting (Some sv) (cfg_DisableAPI (cfg_Log cfg)), lg2)"
  using assms Init_keeps_exited[OF assms(1,5)] by (simp add: start_process_def fatalOn_def Let_def)

section \<open>Stop\<close>

lemma shutdown_stops:
  assumes "stop_process zl c sig (Some sv) lg = (Some sv', lg')" and "sv_Orchestrator sv = Some e"
  shows "sv_Orchestrator sv' = Some (OrchestratorService_Stop e) \<and> bgStopped (OrchestratorService_Stop e) \<and>
    store (OrchestratorService_Stop e) = store e"
  using assms by (auto simp: stop_process_def shutdownServices_def OrchestratorService_Stop_def Stop_def Let_def)

end
