(* ===== verification/Api_Laws.thy ===== *)
theory Api_Laws
  imports Api Scheduler_Steps
begin

text \<open>
  Lemmas on the HTTP layer: what the writing functions leave of a response and of the log,
  what the two middlewares do with a request, and what each handler changes of the engine.
\<close>

section \<open>Writing\<close>

lemma writer_keeps [simp]:
  "w_wrapped (sendStatus c w) = w_wrapped w" "w_log (sendStatus c w) = w_log w" "w_Sent (sendStatus c w) = w_Sent w"
  "w_broken (sendStatus c w) = w_broken w"
  "w_wrapped (setType t w) = w_wrapped w" "w_log (setType t w) = w_log w" "w_Sent (setType t w) = w_Sent w"
  "w_broken (setType t w) = w_broken w" "w_Status (setType t w) = w_Status w"
  "w_Status (noteStatus c w) = w_Status w" "w_log (noteStatus c w) = w_log w" "w_Sent (noteStatus c w) = w_Sent w"
  "w_broken (noteStatus c w) = w_broken w"
  "w_Status (logline l w) = w_Status w" "w_wrapped (logline l w) = w_wrapped w" "w_Sent (logline l w) = w_Sent w"
  "w_broken (logline l w) = w_broken w" "w_log (logline l w) = w_log w @ [l]"
  by (auto simp: sendStatus_def setType_def noteStatus_def logline_def split: option.splits)

lemma status_sent [simp]: "w_Status (sendStatus c w) = (if w_Status w = 0 then c else w_Status w)"
  by (simp add: sendStatus_def)

text \<open>Whether the responses of a writer may be logged does not change while it is written to.\<close>

lemma noteStatus_logged [simp]: "responseLogged (noteStatus c w) = responseLogged w"
  by (auto simp: noteStatus_def responseLogged_def split: option.splits)

lemma logged_keeps [simp]:
  "responseLogged (w\<lparr>w_Sent := b\<rparr>) = responseLogged w"
  "responseLogged (sendStatus c w) = responseLogged w" "responseLogged (setType t w) = responseLogged w"
  "responseLogged (logline l w) = responseLogged w"
  by (simp_all add: responseLogged_def)

lemma WriteHeader_keeps [simp]:
  "w_Status (WriteHeader c w) = (if w_Status w = 0 then c else w_Status w)" "w_log (WriteHeader c w) = w_log w"
  "w_Sent (WriteHeader c w) = w_Sent w" "w_broken (WriteHeader c w) = w_broken w"
  "responseLogged (WriteHeader c w) = responseLogged w"
  by (simp_all add: WriteHeader_def)

lemma Write_keeps [simp]:
  "w_log (snd (Write b w)) = w_log w" "w_broken (snd (Write b w)) = w_broken w"
  "w_Status (snd (Write b w)) = (if w_Status w = 0 then 200 else w_Status w)"
  "w_Sent (snd (Write b w)) = (if w_broken w then w_Sent w else w_Sent w @ b)"
  "responseLogged (snd (Write b w)) = responseLogged w"
  "isl (fst (Write b w)) = w_broken w"
  by (simp_all add: Write_def Let_def)

lemma http_Error_keeps [simp]:
  "w_log (http_Error msg c w) = w_log w"
  "w_Status (http_Error msg c w) = (if w_Status w \<noteq> 0 then w_Status w else if c = 0 then 200 else c)"
  "w_Sent (http_Error msg c w) = (if w_broken w then w_Sent w else w_Sent w @ msg @ [CHR 0x0A])"
  by (simp_all add: http_Error_def)

text \<open>What the writing functions add to the log: a line with a response only where responses are logged.\<close>

definition quietly :: "writer \<Rightarrow> writer \<Rightarrow> bool" where
  "quietly w w' \<longleftrightarrow> (\<exists>ls. w_log w' = w_log w @ ls \<and> (\<forall>l \<in> set ls. \<exists>er. l = LWarn er))"

lemma quietly_refl [simp]: "w_log w' = w_log w \<Longrightarrow> quietly w w'"
  by (simp add: quietly_def)

lemma quietly_warn [simp]: "w_log w' = w_log w \<Longrightarrow> quietly w (logline (LWarn er) w')"
  by (simp add: quietly_def)

lemma Error_Write_quietly: "\<not> responseLogged w \<Longrightarrow> quietly w (Error_Write n er w)"
  by (auto simp: Error_Write_def Let_def quietly_def split: sum.splits)

lemma httpWriteJSON_quietly:
  assumes "\<not> responseLogged w"
  shows "quietly w (httpWriteJSONStatus n st d w)"
proof (cases "marshal n d")
  case (Inl er)
  then show ?thesis using Error_Write_quietly[OF assms] by (simp add: httpWriteJSONStatus_def)
next
  case (Inr jdata)
  obtain r1 w1 where W1: "Write jdata (WriteHeader st (setType ''application/json'' w)) = (r1, w1)" by fastforce
  obtain r2 w2 where W2: "Write [CHR 0x0A] w1 = (r2, w2)" by fastforce
  have w1: "w_log w1 = w_log w" "responseLogged w1 = responseLogged w" using Write_keeps(1,5)[of jdata "WriteHeader st (setType ''application/json'' w)"] W1 by simp_all
  have w2: "w_log w2 = w_log w1" "responseLogged w2 = responseLogged w1" using Write_keeps(1,5)[of "[CHR 0x0A]" w1] W2 by simp_all
  show ?thesis using assms w1 w2 by (simp add: httpWriteJSONStatus_def Inr W1 W2 split: sum.splits)
qed

lemma httpWriteOK_quietly: "quietly w (httpWriteOK w)"
proof -
  obtain r1 w1 where W1: "Write [CHR 0x0A] (WriteHeader 200 w) = (r1, w1)" by fastforce
  then have "w_log w1 = w_log w" using Write_keeps(1)[of "[CHR 0x0A]" "WriteHeader 200 w"] by simp
  then show ?thesis by (simp add: httpWriteOK_def W1 split: sum.splits)
qed

lemma Error_Write_status:
  "w_Status w = 0 \<Longrightarrow> ae_HTTPstatus er \<noteq> 0 \<Longrightarrow> w_Status (Error_Write n er w) \<in> {ae_HTTPstatus er, 500}"
  by (auto simp: Error_Write_def Let_def split: sum.splits)

section \<open>The middlewares\<close>

text \<open>A token that gives its bearer a role at the time a request arrives.\<close>

definition authorized ::
  "(JwtMethod \<Rightarrow> bytes \<Rightarrow> string \<Rightarrow> claims \<Rightarrow> bool) \<Rightarrow> process \<Rightarrow> API \<Rightarrow> request \<Rightarrow> string \<Rightarrow> bool" where
  "authorized issued m a rq role \<longleftrightarrow>
     (\<exists>c ex. issued SigningMethodHMAC (jwtSecret a) (bearerToken rq) c \<and> claimString c ''role'' = role \<and>
        c ''exp'' = Some (CNumber ex) \<and> Unix (arrival m) < ex)"

lemma jwtKey_Inr: "jwtKey secret method = Inr key \<longleftrightarrow> method = SigningMethodHMAC \<and> key = secret"
  by (auto simp: jwtKey_def split: JwtMethod.splits)

lemma jwtAuth_run:
  assumes "jwt_ok n issued" and "jwtAuth n m (jwtSecret a) [role] nxt rq subject (e, w) = Some (e', w')"
  shows "(\<exists>sub. authorized issued m a rq role \<and> nxt rq sub (e, w) = Some (e', w')) \<or>
    (\<exists>er. e' = e \<and> w' = Error_Write n er w \<and> ae_HTTPstatus er \<in> {401, 403})"
proof (cases "ParseWithClaims n (arrival m) (jwtKey (jwtSecret a)) (bearerToken rq)")
  case (Inl er)
  then show ?thesis using assms(2) by (auto simp: jwtAuth_def Let_def With_def api_errors split: if_splits)
next
  case (Inr vc)
  obtain valid c where vc: "vc = (valid, c)" by fastforce
  have "issued SigningMethodHMAC (jwtSecret a) (bearerToken rq) c" if valid
  proof -
    have p: "ParseWithClaims n (arrival m) (jwtKey (jwtSecret a)) (bearerToken rq) = Inr (True, c)" using Inr vc that by simp
    have "\<exists>method key. jwtKey (jwtSecret a) method = Inr key \<and> issued method key (bearerToken rq) c"
      using assms(1) p unfolding jwt_ok_def by blast
    then show ?thesis by (simp add: jwtKey_Inr)
  qed
  moreover have "VerifyExpiresAt n c (Unix (arrival m)) True \<Longrightarrow> \<exists>ex. c ''exp'' = Some (CNumber ex) \<and> Unix (arrival m) < ex"
    using assms(1) by (simp add: jwt_ok_def)
  ultimately show ?thesis using assms(2)
    by (auto simp: jwtAuth_def Let_def Inr vc With_def api_errors authorized_def split: if_splits)
qed

lemma loggedCall_run:
  assumes "loggedCall redact body nxt rq subject (e, w) = Some (e', w')"
  shows "\<exists>w1 w2. nxt rq subject (e, w1) = Some (e', w2) \<and> w_Status w1 = w_Status w \<and> w_Sent w1 = w_Sent w \<and>
    w_broken w1 = w_broken w \<and> responseLogged w1 = (\<not> redact) \<and> w_log w1 = w_log w @ [LRequest (rq_Method rq) (rq_URL rq) body] \<and>
    w_Status w' = w_Status w2 \<and> w_Sent w' = w_Sent w2 \<and> (\<exists>st. w_log w' = w_log w2 @ [LResponse (rq_Method rq) (rq_URL rq) st])"
  using assms by (fastforce simp: loggedCall_def Let_def responseLogged_def)

text \<open>A request passes the logging middleware unless its body cannot be read.\<close>

lemma logging_run:
  assumes "loggingMiddleware m mx redacted nxt rq subject (e, w) = Some (e', w')"
  shows "(\<exists>w1 w2. nxt rq subject (e, w1) = Some (e', w2) \<and> w_Status w1 = w_Status w \<and> w_Sent w1 = w_Sent w \<and>
      w_broken w1 = w_broken w \<and> w_Status w' = w_Status w2 \<and> w_Sent w' = w_Sent w2) \<or>
    e' = e \<and> (w_Status w = 0 \<longrightarrow> w_Status w' = 500)"
proof -
  have call: ?thesis if "loggedCall redact body nxt rq subject (e, w) = Some (e', w')" for redact body
    using loggedCall_run[OF that] by blast
  show ?thesis
  proof (cases "DisabledLogging m \<or> log_Level m \<noteq> ''debug''")
    case True
    then show ?thesis using assms by (auto simp: loggingMiddleware_def)
  next
    case False
    show ?thesis
    proof (cases "LimitReader (rq_Body rq) (mx + 1)")
      case (Pair bytes broken)
      then show ?thesis using assms False call by (cases broken) (auto simp: loggingMiddleware_def split: if_splits)
    qed
  qed
qed

section \<open>What the handlers change\<close>

text \<open>
  \<open>Error.Write\<close> asks for the JSON content type, but \<open>http.Error\<close> replaces it.
\<close>

lemma error_answers_are_plain_text:
  assumes "w_Status w = 0"
  shows "w_Type (Error_Write n er w) = ''text/plain; charset=utf-8''"
proof -
  have t: "w_Type (sendStatus c v) = w_Type v" "w_Type (noteStatus c v) = w_Type v" for c v
    by (auto simp: sendStatus_def noteStatus_def split: option.splits)
  have "w_Type (http_Error msg c v) = ''text/plain; charset=utf-8''" if "w_Status v = 0" for msg c v
    using that by (simp add: http_Error_def Write_def WriteHeader_def Let_def t) (simp add: setType_def)
  then show ?thesis using assms by (auto simp: Error_Write_def Let_def split: sum.splits)
qed

lemma writeElection_engine [simp]: "fst (writeElection n st eid e w) = e"
  by (simp add: writeElection_def split: sum.splits)

lemma reading_handlers:
  assumes "h \<in> {ping, info n m a, listElections n, getElection n, getVote n, encryptedResults k n, api_results n, listWorkers n m}"
    and "h rq subject (e, w) = Some (e', w')"
  shows "e' = e"
  using assms
  by (auto simp: ping_def info_def listElections_def getElection_def getVote_def encryptedResults_def api_results_def
      listWorkers_def split: sum.splits)

text \<open>The routes that need a role, and the routes that change nothing.\<close>

definition protected :: "(string \<times> string \<times> string) set" where
  "protected =
     {(''POST'', ElectionsEndpoint, RoleAdmin), (''POST'', ElectionStatusEndpoint, RoleAdmin),
      (''POST'', WorkerRegisterEndpoint, RoleAdmin), (''DELETE'', WorkerEndpoint, RoleAdmin),
      (''GET'', EncryptedResultsEndpoint, RoleKeywarden), (''POST'', DecryptionKeyEndpoint, RoleKeywarden)}"

lemma endpoints_distinct: "distinct (map fst (registerHandlers k n m a))"
  by (simp add: registerHandlers_def endpoint_defs)

lemma vote_route: "map_of (registerHandlers k n m a) (''POST'', VotesEndpoint) = Some (None, newVote k n m)"
  by (rule map_of_is_SomeI[OF endpoints_distinct]) (simp add: registerHandlers_def)

lemma route_protected:
  assumes "map_of (registerHandlers k n m a) (method, pattern) = Some (Some role, h)"
  shows "(method, pattern, role) \<in> protected"
  using map_of_SomeD[OF assms] by (auto simp: registerHandlers_def protected_def)

lemma protected_route:
  assumes "(method, pattern, role) \<in> protected"
  shows "\<exists>h. map_of (registerHandlers k n m a) (method, pattern) = Some (Some role, h)"
proof -
  have "\<exists>h. ((method, pattern), Some role, h) \<in> set (registerHandlers k n m a)"
    using assms unfolding protected_def registerHandlers_def by (elim insertE emptyE) auto
  then show ?thesis using endpoints_distinct map_of_is_SomeI by metis
qed

lemma route_open:
  assumes "map_of (registerHandlers k n m a) (method, pattern) = Some (None, h)"
  shows "h \<in> {ping, info n m a, listElections n, getElection n, getVote n, encryptedResults k n, api_results n, listWorkers n m} \<or>
    method = ''POST'' \<and> pattern = VotesEndpoint \<and> h = newVote k n m"
  using map_of_SomeD[OF assms] by (auto simp: registerHandlers_def)

section \<open>Requests as steps of the system\<close>

lemma SubmitVote_steps:
  assumes wf: "storage_wf (store (eng y))" and run: "SubmitVote k now (eng y) eid sub = Some (r, e')"
    and room: "counter (store (eng y)) eid + 1 \<noteq> 0"
  shows "\<exists>y'. (sys_step k)\<^sup>*\<^sup>* y y' \<and> eng y' = e'"
proof (cases "submit_begin (eng y) eid sub")
  case (Pair rb e1)
  show ?thesis
  proof (cases rb)
    case (Inl er)
    then have "sys_step k y (y\<lparr>eng := e1\<rparr>)" "e' = e1" using Pair run by (auto intro: sys_step.Refused simp: SubmitVote_def)
    then show ?thesis by (intro exI[of _ "y\<lparr>eng := e1\<rparr>"]) auto
  next
    case (Inr vr)
    define y1 where "y1 = y\<lparr>eng := e1, flights := (eid, sub, vr) # flights y\<rparr>"
    have s1: "sys_step k y y1" using Pair Inr by (auto intro: sys_step.Begin simp: y1_def)
    have fl: "(eid, sub, vr) \<in> set (flights y1)" and e1: "eng y1 = e1" by (simp_all add: y1_def)
    have room1: "counter (store (eng y1)) eid + 1 \<noteq> 0"
      using submit_begin_Inr[OF wf Pair[unfolded Inr]] room by (auto simp: y1_def counter_def)
    show ?thesis
    proof (cases "submit_check k vr sub")
      case (Inl er)
      from sys_step.Invalid[OF fl this] s1 have "(sys_step k)\<^sup>*\<^sup>* y (y1\<lparr>eng := submit_release eid sub e1, flights := remove1 (eid, sub, vr) (flights y1)\<rparr>)"
        by (auto simp: e1 intro: rtranclp.rtrancl_into_rtrancl)
      then show ?thesis using run Pair Inr Inl by (auto simp: SubmitVote_def)
    next
      case (Inr sp)
      obtain slot payload where sp: "sp = (slot, payload)" by fastforce
      obtain e2 where f: "submit_finish k now (eng y1) eid (submitted now sub slot payload) = Some (r, e2)"
        and e': "e' = submit_release eid sub e2" using run Pair \<open>rb = Inr vr\<close> Inr sp by (auto simp: SubmitVote_def e1)
      from sys_step.Finish[OF fl Inr[unfolded sp] room1 f] s1
      have "(sys_step k)\<^sup>*\<^sup>* y (y1\<lparr>eng := submit_release eid sub e2, flights := remove1 (eid, sub, vr) (flights y1)\<rparr>)"
        by (auto intro: rtranclp.rtrancl_into_rtrancl)
      then show ?thesis using e' by auto
    qed
  qed
qed

lemma one_step: "sys_step k y y' \<Longrightarrow> eng y' = e' \<Longrightarrow> \<exists>y'. (sys_step k)\<^sup>*\<^sup>* y y' \<and> eng y' = e'"
  by blast

lemma no_step: "e' = eng y \<Longrightarrow> \<exists>y'. (sys_step k)\<^sup>*\<^sup>* y y' \<and> eng y' = e'"
  by blast

lemma createElection_engine:
  assumes "createElection k n m rq subject (e, w) = Some (e', w')"
  shows "e' = e \<or> (\<exists>el. e' = snd (engine_CreateElection k (now_of m) e subject el))"
  using assms
  by (auto simp: createElection_def writeElection_def split: sum.splits option.splits if_splits prod.splits) (metis snd_conv)+

lemma setElectionStatus_engine:
  assumes "setElectionStatus k n m rq subject (e, w) = Some (e', w')"
  shows "e' = e \<or> (\<exists>r eid st. SetStatus k (now_of m) e subject eid st = Some (r, e'))"
  using assms
  by (auto simp: setElectionStatus_def writeElection_def split: sum.splits option.splits) (metis old.sum.exhaust old.unit.exhaust)+

lemma newVote_engine:
  assumes "newVote k n m rq subject (e, w) = Some (e', w')"
  shows "e' = e \<or> (\<exists>r eid sub. SubmitVote k (now_of m) e eid sub = Some (r, e'))"
  using assms by (auto simp: newVote_def split: sum.splits) (metis old.sum.exhaust)

lemma decryptionKey_engine:
  assumes "decryptionKey k n m rq subject (e, w) = Some (e', w')"
  shows "e' = e \<or> (\<exists>eid key. e' = snd (SubmitDecryptionKey k (now_of m) e subject eid key))"
  using assms
  by (auto simp: decryptionKey_def writeElection_def split: sum.splits option.splits prod.splits) (metis snd_conv)+

lemma registerWorker_engine:
  assumes "registerWorker n m rq subject (e, w) = Some (e', w')"
  shows "e' = e \<or> (\<exists>address name. e' = snd (RegisterWorker (now_of m) e subject address name))"
  using assms
  by (auto simp: registerWorker_def split: sum.splits option.splits prod.splits if_splits) (metis snd_conv)+

lemma removeWorker_engine:
  assumes "removeWorker n m rq subject (e, w) = Some (e', w')"
  shows "e' = e \<or> (\<exists>worker. e' = snd (engine_RemoveWorker (now_of m) (worker_order m) (election_order m) e subject worker))"
  using assms
  by (auto simp: removeWorker_def split: sum.splits prod.splits if_splits) (metis snd_conv)+

lemma handler_steps:
  assumes wf: "storage_wf (store (eng y))" and room: "\<And>eid. counter (store (eng y)) eid + 1 \<noteq> 0"
    and h: "map_of (registerHandlers k n m a) route = Some (role, h)" and run: "h rq subject (eng y, w) = Some (e', w')"
  shows "\<exists>y'. (sys_step k)\<^sup>*\<^sup>* y y' \<and> eng y' = e'"
proof -
  have reads: "h \<in> {ping, info n m a, listElections n, getElection n, getVote n, encryptedResults k n, api_results n, listWorkers n m} \<Longrightarrow> ?thesis"
    using reading_handlers[where h = h and rq = rq and subject = subject and e = "eng y" and w = w] run no_step[of e' y k] by blast
  have create: "h = createElection k n m \<Longrightarrow> ?thesis"
    using createElection_engine[of k n m rq subject "eng y" w e' w'] run no_step[of e' y k]
      one_step[OF sys_step.Create[OF surjective_pairing]] by fastforce
  have status: "h = setElectionStatus k n m \<Longrightarrow> ?thesis"
    using setElectionStatus_engine[of k n m rq subject "eng y" w e' w'] run no_step[of e' y k] one_step[OF sys_step.SetStatus] by fastforce
  have vote: "h = newVote k n m \<Longrightarrow> ?thesis"
    using newVote_engine[of k n m rq subject "eng y" w e' w'] run no_step[of e' y k] SubmitVote_steps[OF wf _ room] by fastforce
  have key: ?thesis if hk: "h = decryptionKey k n m"
  proof (cases "e' = eng y")
    case False
    then obtain eid key where e': "e' = snd (SubmitDecryptionKey k (now_of m) (eng y) subject eid key)"
      using decryptionKey_engine[of k n m rq subject "eng y" w e' w'] run hk by blast
    show ?thesis
    proof (cases "SubmitDecryptionKey k (now_of m) (eng y) subject eid key")
      case (Pair r e1)
      show ?thesis
        by (cases r) (use Pair e' in \<open>auto intro: one_step[OF sys_step.KeyRefused] one_step[OF sys_step.KeyAccepted]\<close>)
    qed
  qed (rule no_step)
  have reg: "h = registerWorker n m \<Longrightarrow> ?thesis"
    using registerWorker_engine[of n m rq subject "eng y" w e' w'] run no_step[of e' y k]
      one_step[OF sys_step.Register[OF surjective_pairing]] by fastforce
  have rem: "h = removeWorker n m \<Longrightarrow> ?thesis"
    using removeWorker_engine[of n m rq subject "eng y" w e' w'] run no_step[of e' y k]
      one_step[OF sys_step.Remove[OF surjective_pairing]] by fastforce
  show ?thesis using map_of_SomeD[OF h] reads create status vote key reg rem unfolding registerHandlers_def
    by (auto simp del: rtranclp.rtrancl_refl)
qed

text \<open>A routed request is answered without the engine or by the handler of its route.\<close>

lemma route_cases:
  fixes e :: "('b, 'v, 'st) engine"
  assumes "routeHTTP k n m a rq subject (e, w) = Some (e', w')"
    and handled: "\<And>role h sub w. map_of (registerHandlers k n m a) (rq_Method rq, Find n (rq_Method rq) (routePath rq)) = Some (role, h) \<Longrightarrow>
      h rq sub (e, w) = Some (e', w') \<Longrightarrow> thesis"
    and "e' = e \<Longrightarrow> thesis"
  shows thesis
proof (cases "map_of (registerHandlers k n m a) (rq_Method rq, Find n (rq_Method rq) (routePath rq)) :: (string option \<times> ('b, 'v, 'st) handler) option")
  case None
  then show ?thesis using assms(1,3) by (auto simp: routeHTTP_def split: prod.splits)
next
  case (Some rh)
  obtain ro h where rh: "rh = (ro, h)" by fastforce
  show ?thesis
  proof (cases ro)
    case None
    then show ?thesis using assms(1) Some rh handled by (auto simp: routeHTTP_def)
  next
    case (Some role)
    then have "jwtAuth n m (jwtSecret a) [role] h rq subject (e, w) = Some (e', w')"
      using assms(1) \<open>_ = Some rh\<close> rh by (simp add: routeHTTP_def)
    then consider "e' = e" | sub where "h rq sub (e, w) = Some (e', w')"
      by (auto simp: jwtAuth_def Let_def split: if_splits sum.splits prod.splits)
    then show ?thesis using assms(3) handled \<open>_ = Some rh\<close> rh by cases auto
  qed
qed

text \<open>What a routed request changes, and what it gets where it lacks the role.\<close>

lemma routed_changes:
  fixes e :: "('b, 'v, 'st) engine"
  assumes jwt: "jwt_ok n issued" and run: "routeHTTP k n m a rq subject (e, w) = Some (e', w')" and w: "w_Status w = 0"
    and pattern: "pattern = Find n (rq_Method rq) (routePath rq)"
  shows "(e' \<noteq> e \<longrightarrow> rq_Method rq = ''POST'' \<and> pattern = VotesEndpoint \<or>
        (\<exists>role. (rq_Method rq, pattern, role) \<in> protected \<and> authorized issued m a rq role)) \<and>
    (\<forall>role. (rq_Method rq, pattern, role) \<in> protected \<and> \<not> authorized issued m a rq role \<longrightarrow>
        e' = e \<and> w_Status w' \<in> {401, 403, 500})"
proof -
  let ?found = "map_of (registerHandlers k n m a) (rq_Method rq, pattern) :: (string option \<times> ('b, 'v, 'st) handler) option"
  have prot: "\<exists>h. ?found = Some (Some role, h)" if "(rq_Method rq, pattern, role) \<in> protected" for role
    using that by (rule protected_route)
  consider (none) "?found = None" | (open_route) h where "?found = Some (None, h)" | (role) role h where "?found = Some (Some role, h)"
  proof (cases ?found)
    case (Some rh)
    then show thesis using open_route role by (cases rh; cases "fst rh") auto
  qed (rule none)
  then show ?thesis
  proof cases
    case none
    then show ?thesis using run prot by (auto simp: routeHTTP_def pattern[symmetric] split: prod.splits)
  next
    case open_route
    have h: "h rq subject (e, w) = Some (e', w')" using run open_route by (simp add: routeHTTP_def pattern[symmetric])
    have "e' = e \<or> rq_Method rq = ''POST'' \<and> pattern = VotesEndpoint"
      using route_open[OF open_route]
        reading_handlers[where h = h and e = e and e' = e' and w = w and w' = w' and rq = rq and subject = subject] h by metis
    then show ?thesis using open_route prot by auto
  next
    case role
    have j: "jwtAuth n m (jwtSecret a) [role] h rq subject (e, w) = Some (e', w')" using run role by (simp add: routeHTTP_def pattern[symmetric])
    have "authorized issued m a rq role \<or> e' = e \<and> w_Status w' \<in> {401, 403, 500}" using jwtAuth_run[OF jwt j]
    proof (elim disjE exE conjE)
      fix er assume er: "e' = e" "w' = Error_Write n er w" "ae_HTTPstatus er \<in> {401, 403}"
      then have "ae_HTTPstatus er \<noteq> 0" by auto
      from Error_Write_status[OF w this, of n] er show ?thesis by auto
    qed simp
    moreover have "role' = role" if "(rq_Method rq, pattern, role') \<in> protected" for role' using prot[OF that] role by simp
    ultimately show ?thesis using route_protected[OF role] by metis
  qed
qed

section \<open>A submitted vote\<close>

lemma submit_finish_failed:
  assumes wf: "storage_wf (store e)" and run: "submit_finish k now e eid v = Some (Inl er, e')"
  shows "artifact_at (store e') = artifact_at (store e)"
proof -
  obtain ra s where av: "AddVote now (store e) eid v = (ra, s)" by fastforce
  have "isl ra \<Longrightarrow> artifact_at s = artifact_at (store e)" using AddVote_at[OF wf av] by (cases ra) auto
  then show ?thesis using run by (auto simp: submit_finish_def av split: sum.splits if_splits option.splits)
qed

lemma SubmitVote_failed:
  assumes wf: "storage_wf (store e)" and run: "SubmitVote k now e eid sub = Some (Inl er, e')"
  shows "artifact_at (store e') = artifact_at (store e)"
proof (cases "submit_begin e eid sub")
  case (Pair rb e1)
  have b: "artifact_at (store e1) = artifact_at (store e) \<and> storage_wf (store e1)"
  proof (cases rb)
    case (Inl er)
    then show ?thesis using submit_begin_Inl[of e eid sub er e1] Pair wf by auto
  next
    case (Inr vr)
    then show ?thesis using submit_begin_Inr[OF wf, of eid sub vr e1] Pair wf by auto
  qed
  show ?thesis using run b Pair submit_finish_failed[of e1 k now eid]
    by (auto simp: SubmitVote_def submit_release_relock split: sum.splits prod.splits)
qed

lemma SubmitVote_accepted:
  assumes inv: "sys_inv k y" and restore: "snapshots_restore k" and room: "counter (store (eng y)) eid + 1 \<noteq> 0"
    and run: "SubmitVote k now (eng y) eid sub = Some (Inr v, e')"
  shows "vote_at (store (eng y)) eid (sub_VoteID sub) = None \<and> vote_at (store e') eid (sub_VoteID sub) = Some v \<and>
    v_ID v = sub_VoteID sub \<and> v_Address v = sub_Address sub \<and> v_Ballot v = sub_Ballot sub"
proof -
  note wf = sys_inv_wf[OF inv]
  obtain vr e1 slot payload e2 where b: "submit_begin (eng y) eid sub = (Inr vr, e1)"
    and f: "submit_finish k now e1 eid (submitted now sub slot payload) = Some (Inr v, e2)" and e': "e' = submit_release eid sub e2"
    using run by (auto simp: SubmitVote_def split: sum.splits prod.splits)
  obtain A V where B: "vote_at (store (eng y)) eid (sub_VoteID sub) = None" "store e1 = relock (store (eng y)) A V"
    using submit_begin_Inr[OF wf b] by auto
  define y1 where "y1 = y\<lparr>eng := e1, flights := []\<rparr>"
  have i1: "sys_inv k y1" using sys_inv_Begin[OF inv b] by (simp add: y1_def sys_inv_def flights_ok_def)
  have at: "artifact_at (store (eng y1)) = artifact_at (store (eng y))" using B(2) by (simp add: y1_def)
  have new: "vote_at (store (eng y1)) eid (v_ID (submitted now sub slot payload)) = None" using B(1) at by (simp add: submitted_def)
  have "counter (store (eng y1)) eid + 1 \<noteq> 0" using room at by (simp add: counter_def)
  from kept_submit_finish[OF i1 restore new _ this] f
  have "(\<exists>sq. v = (submitted now sub slot payload)\<lparr>v_Seq := sq, v_SubmittedAt := now\<rparr>) \<and> vote_at (store e2) eid (sub_VoteID sub) = Some v"
    by (auto simp: y1_def submitted_def)
  then show ?thesis using B(1) e' by (auto simp: submitted_def submit_release_relock)
qed

section \<open>Answers\<close>

lemma JSON_status:
  assumes "w_Status w = 0" and "isOk (marshal n d)"
  shows "w_Status (httpWriteJSON n d w) = 200"
proof -
  obtain jdata where j: "marshal n d = Inr jdata" using assms(2) by (auto simp: isOk_iff)
  obtain r1 w1 where W1: "Write jdata (WriteHeader 200 (setType ''application/json'' w)) = (r1, w1)" by fastforce
  obtain r2 w2 where W2: "Write [CHR 0x0A] w1 = (r2, w2)" by fastforce
  have s1: "w_Status w1 = 200" using Write_keeps(3)[of jdata "WriteHeader 200 (setType ''application/json'' w)"] W1 assms(1) by simp
  have "w_Status w2 = 200" using Write_keeps(3)[of "[CHR 0x0A]" w1] W2 s1 by simp
  then show ?thesis using s1 by (simp add: httpWriteJSON_def httpWriteJSONStatus_def j W1 W2 split: sum.splits)
qed

lemma engineError_status: "ae_HTTPstatus (engineError er) \<in> {400, 404, 409, 500}"
  by (auto simp: engineError_def engineErrors_def WithErr_def api_errors)

lemma client_error_status:
  assumes "w_Status w = 0" and "ae_HTTPstatus er \<in> {400, 404, 409, 500}"
  shows "w_Status (Error_Write n er w) \<in> {400, 404, 409, 500}"
proof -
  have "ae_HTTPstatus er \<noteq> 0" using assms(2) by auto
  from Error_Write_status[OF assms(1) this, of n] assms(2) show ?thesis by auto
qed

lemma newVote_answer:
  assumes inv: "sys_inv k y" and restore: "snapshots_restore k" and room: "\<And>eid. counter (store (eng y)) eid + 1 \<noteq> 0"
    and ok: "\<And>d. isOk (marshal n d)" and w: "w_Status w = 0" and run: "newVote k n m rq subject (eng y, w) = Some (e', w')"
  shows "(\<exists>eid sub v. electionIDFromURL n rq = Inr eid \<and> httpReadJSON rq (decode_vote n) = Inr sub \<and> w_Status w' = 200 \<and>
      vote_at (store (eng y)) eid (sub_VoteID sub) = None \<and> vote_at (store e') eid (sub_VoteID sub) = Some v \<and>
      v_Address v = sub_Address sub \<and> v_Ballot v = sub_Ballot sub) \<or>
    artifact_at (store e') = artifact_at (store (eng y)) \<and> w_Status w' \<in> {400, 404, 409, 500}"
proof -
  note err = client_error_status[OF w]
  show ?thesis
  proof (cases "electionIDFromURL n rq")
    case (Inl er)
    then show ?thesis using run err[of "WithErr api_ErrMalformedParam er" n] by (auto simp: newVote_def WithErr_def api_errors)
  next
    case (Inr eid)
    show ?thesis
    proof (cases "httpReadJSON rq (decode_vote n)")
      case (Inl er)
      then show ?thesis using run Inr err[of "WithErr api_ErrMalformedBody er" n] by (auto simp: newVote_def WithErr_def api_errors)
    next
      case (Inr sub)
      obtain r e1 where r: "SubmitVote k (now_of m) (eng y) eid sub = Some (r, e1)"
        and w': "(case r of Inl er \<Rightarrow> (e1, Error_Write n (engineError er) w)
          | Inr v \<Rightarrow> (e1, httpWriteJSON n (DReceipt (VoteID_String (v_ID v)) ''accepted'') w)) = (e', w')"
        using run Inr \<open>electionIDFromURL n rq = Inr eid\<close> by (auto simp: newVote_def)
      show ?thesis
      proof (cases r)
        case (Inl er)
        then show ?thesis using SubmitVote_failed[OF sys_inv_wf[OF inv]] r w' err[OF engineError_status, of n er] by auto
      next
        case (Inr v)
        then have "e1 = e'" "w_Status w' = 200" using w' JSON_status[OF w ok] by auto
        then show ?thesis
          using SubmitVote_accepted[OF inv restore room] r Inr \<open>httpReadJSON rq (decode_vote n) = Inr sub\<close>
            \<open>electionIDFromURL n rq = Inr eid\<close> by blast
      qed
    qed
  qed
qed

section \<open>Handlers behind the redaction\<close>

text \<open>A handler that logs nothing of a response that may not be logged.\<close>

locale discreet =
  fixes h :: "('b, 'v, 'st) handler"
  assumes discreet: "\<not> responseLogged w \<Longrightarrow> h rq subject (e, w) = Some (e', w') \<Longrightarrow> quietly w w'"
begin

lemma behind_auth:
  assumes "\<not> responseLogged w" and "jwtAuth n m secret roles h rq subject (e, w) = Some (e', w')"
  shows "quietly w w'"
  using assms discreet[OF assms(1)] Error_Write_quietly[OF assms(1)]
  by (auto simp: jwtAuth_def Let_def split: if_splits sum.splits prod.splits)

end

interpretation key: discreet "decryptionKey k n m" for k n m
proof
  fix w rq subject e e' w'
  assume l: "\<not> responseLogged w" and run: "decryptionKey k n m rq subject (e, w) = Some (e', w')"
  have "\<exists>er d st. w' = Error_Write n er w \<or> w' = httpWriteJSONStatus n st d w" using run
    by (auto simp: decryptionKey_def writeElection_def split: sum.splits option.splits prod.splits)
  then show "quietly w w'" using Error_Write_quietly[OF l] httpWriteJSON_quietly[OF l] by blast
qed

lemma redacted_quietly:
  fixes e :: "('b, 'v, 'st) engine"
  assumes run: "routeHTTP k n m a rq subject (e, w) = Some (e', w')" and l: "\<not> responseLogged w"
    and route: "rq_Method rq = ''POST'' \<and> Find n (rq_Method rq) (routePath rq) = DecryptionKeyEndpoint \<or> Find n (rq_Method rq) (routePath rq) = []"
  shows "quietly w w'"
  using route
proof
  assume "rq_Method rq = ''POST'' \<and> Find n (rq_Method rq) (routePath rq) = DecryptionKeyEndpoint"
  then have "rq_Method rq = ''POST''" "Find n ''POST'' (routePath rq) = DecryptionKeyEndpoint" by auto
  moreover have "map_of (registerHandlers k n m a) (''POST'', DecryptionKeyEndpoint) = Some (Some RoleKeywarden, decryptionKey k n m :: ('b, 'v, 'st) handler)"
    by (rule map_of_is_SomeI[OF endpoints_distinct]) (simp add: registerHandlers_def)
  ultimately have "jwtAuth n m (jwtSecret a) [RoleKeywarden] (decryptionKey k n m) rq subject (e, w) = Some (e', w')"
    using run by (simp add: routeHTTP_def)
  then show ?thesis by (rule key.behind_auth[OF l])
next
  assume p: "Find n (rq_Method rq) (routePath rq) = []"
  have "map_of (registerHandlers k n m a) (rq_Method rq, []) = (None :: (string option \<times> ('b, 'v, 'st) handler) option)"
    by (simp add: map_of_eq_None_iff registerHandlers_def endpoint_defs)
  then show ?thesis using run p by (auto simp: routeHTTP_def split: prod.splits)
qed

end
