(* ===== verification/Api_Properties.thy ===== *)
theory Api_Properties
  imports Api_Laws Sample_Pass
begin

text \<open>
  What the HTTP interface promises: who can change what, that a request is steps of the
  system, when a vote gets its receipt, and that secrets are not logged. The witnesses use a
  router that takes the path as the pattern and tokens that are the secret itself.
\<close>

section \<open>A concrete server\<close>

definition demo_claims :: claims where
  "demo_claims = [''role'' \<mapsto> CString RoleAdmin, ''exp'' \<mapsto> CNumber 99]"

definition demo_issued :: "JwtMethod \<Rightarrow> bytes \<Rightarrow> string \<Rightarrow> claims \<Rightarrow> bool" where
  "demo_issued method key raw c \<longleftrightarrow> method = SigningMethodHMAC \<and> raw = key \<and> c = demo_claims"

definition demo_net :: net where
  "demo_net =
     \<lparr>Find = (\<lambda>_ path. path), URLParam = (\<lambda>_ _ name. if name = ''id'' then ''45'' else []), NoRoute = (\<lambda>_ _. (404, [])),
      ParseWithClaims = (\<lambda>t keyFor raw. case keyFor SigningMethodHMAC of
          Inl er \<Rightarrow> Inl er | Inr key \<Rightarrow> if raw = key then Inr (True, demo_claims) else Inl [Detail ''signature is invalid'']),
      VerifyExpiresAt = (\<lambda>c now required. case c ''exp'' of Some (CNumber ex) \<Rightarrow> now < ex | _ \<Rightarrow> \<not> required),
      url_Parse = (\<lambda>_. None), decode_create = (\<lambda>_. Inl []), decode_status = (\<lambda>_. Inl []), decode_vote = (\<lambda>_. Inr demo_sub),
      decode_key = (\<lambda>_. Inr ''0x7''), decode_worker = (\<lambda>_. Inl []), marshal = (\<lambda>_. Inr ''{}'')\<rparr>"

definition demo_process :: process where
  "demo_process = \<lparr>DisabledLogging = False, log_Level = ''debug'', arrival = fromUnixNano 0, now_of = 2, worker_order = [], election_order = []\<rparr>"

definition demo_api :: API where
  "demo_api = \<lparr>jwtSecret = ''s'', api_batchSize = 2, api_foldEvery = 1\<rparr>"

definition demo_request :: "string \<Rightarrow> string \<Rightarrow> request" where
  "demo_request method path = \<lparr>rq_Method = method, rq_URL = path, rq_Path = path, rq_RawPath = [], rq_Authorization = [],
     rq_ContentLength = 2, rq_Body = (''{}'', False)\<rparr>"

definition fresh_writer :: writer where
  "fresh_writer = \<lparr>w_Status = 0, w_Type = [], w_Sent = [], w_wrapped = None, w_broken = False, w_log = []\<rparr>"

lemma demo_jwt_ok: "jwt_ok demo_net demo_issued"
  by (auto simp: jwt_ok_def demo_net_def demo_issued_def split: sum.splits if_splits option.splits claim.splits)

lemma demo_request_route [simp]:
  "rq_Method (demo_request method path) = method" "routePath (demo_request method path) = path" "Find demo_net x p = p"
  "rq_Authorization (demo_request method path) = []"
  by (simp_all add: demo_request_def routePath_def demo_net_def)

lemma fresh_writer_simps [simp]: "w_Status fresh_writer = 0" "w_wrapped fresh_writer = None" "w_log fresh_writer = []"
  "w_broken fresh_writer = False"
  by (simp_all add: fresh_writer_def)

section \<open>The properties\<close>


text \<open>A request with no token to a route that needs one.\<close>

lemma demo_refused:
  assumes p: "(method, path, role) \<in> protected"
  shows "\<exists>w'. serve demo_sdk demo_net demo_process demo_api (demo_request method path) (demo_created, fresh_writer) = Some (demo_created, w')"
    and "\<not> authorized demo_issued demo_process demo_api (demo_request method path) role"
proof -
  let ?rq = "demo_request method path"
  have b: "bearerToken ?rq = []" by (simp add: bearerToken_def Let_def)
  obtain h :: "(artifact, nat, nat) handler" where
    h: "map_of (registerHandlers demo_sdk demo_net demo_process demo_api) (method, path) = Some (Some role, h)"
    using protected_route[OF p] by blast
  have route: "\<exists>w'. routeHTTP demo_sdk demo_net demo_process demo_api ?rq s (e, w) = Some (e, w')" for s w and e :: "(artifact, nat, nat) engine"
    using h by (simp add: routeHTTP_def jwtAuth_def b Let_def)
  then show "\<exists>w'. serve demo_sdk demo_net demo_process demo_api ?rq (demo_created, fresh_writer) = Some (demo_created, w')"
    by (auto simp: serve_def loggingMiddleware_def loggedCall_def demo_process_def demo_request_def LimitReader_def Let_def
        maxRequestBodyLog_def split: prod.splits)
  show "\<not> authorized demo_issued demo_process demo_api ?rq role" by (simp add: authorized_def demo_issued_def b demo_api_def)
qed


text \<open>
  C10. Whatever request arrives in a reachable state, answering it is a sequence of steps of the
  system, so everything that holds in the reachable states holds before and after it; the vote
  counters are assumed not to have reached the end of their range.
\<close>

theorem requests_are_steps:
  assumes "reachable k y" and "snapshots_restore k" and room: "\<And>eid. counter (store (eng y)) eid + 1 \<noteq> 0"
    and run: "serve k n m a rq (eng y, w) = Some (e', w')"
  shows "\<exists>y'. (sys_step k)\<^sup>*\<^sup>* y y' \<and> eng y' = e' \<and> reachable k y'"
proof -
  have wf: "storage_wf (store (eng y))" using sys_inv_wf[OF reachable_inv[OF assms(1,2)]] .
  have reach: "\<exists>y'. (sys_step k)\<^sup>*\<^sup>* y y' \<and> eng y' = e' \<Longrightarrow> ?thesis"
    using rtranclp_induct[where r = "sys_step k" and a = y and P = "reachable k"] assms(1) reachable.step by metis
  have same: "e' = eng y \<Longrightarrow> ?thesis" using reach by blast
  from logging_run[OF run[unfolded serve_def]] show ?thesis
  proof (elim disjE exE conjE)
    fix w1 w2 assume r: "routeHTTP k n m a rq [] (eng y, w1) = Some (e', w2)"
    show ?thesis
    proof (rule route_cases[OF r])
      show "\<And>role h sub w. map_of (registerHandlers k n m a) (rq_Method rq, Find n (rq_Method rq) (routePath rq)) = Some (role, h) \<Longrightarrow>
          h rq sub (eng y, w) = Some (e', w2) \<Longrightarrow> ?thesis"
        using reach handler_steps[OF wf room] by blast
    qed (rule same)
  qed (rule same)
qed

text \<open>A vote submitted to the demo election.\<close>

lemma demo_counter: "counter (store (eng demo_y1)) eid + 1 \<noteq> 0"
  by (simp add: counter_def demo_y1_def demo_created)

lemma demo_vote_request:
  "electionIDFromURL demo_net (demo_request ''POST'' VotesEndpoint) = Inr ''E''"
  "httpReadJSON (demo_request ''POST'' VotesEndpoint) (decode_vote demo_net) = Inr demo_sub"
  by (simp_all add: electionIDFromURL_def idFromURL_def urlParam_def httpReadJSON_def demo_net_def TrimPrefix_def fromHexChar_def char_of_def bit_0)

lemma demo_submitted:
  "\<exists>e' w'. serve demo_sdk demo_net demo_process demo_api (demo_request ''POST'' VotesEndpoint) (eng demo_y1, fresh_writer) = Some (e', w') \<and>
     w_Status w' = 200"
proof -
  let ?rq = "demo_request ''POST'' VotesEndpoint"
  have e1: "eng demo_y1 = demo_created" by (simp add: demo_y1_def)
  have e2: "eng demo_y2 = demo_created\<lparr>store := relock (store demo_created) {addressKey ''E'' (be_val (sub_Address demo_sub))} {sub_VoteID demo_sub}\<rparr>"
    by (simp add: demo_y2_def demo_begin)
  obtain e' where "submit_finish demo_sdk 2 (eng demo_y2) ''E'' (submitted 2 demo_sub 5 ''bundle'') = Some (Inr demo_vote, e')"
    using demo_finish by metis
  then have "SubmitVote demo_sdk 2 demo_created ''E'' demo_sub = Some (Inr demo_vote, submit_release ''E'' demo_sub e')"
    unfolding e2 by (simp add: SubmitVote_def demo_begin demo_check)
  then have vote: "newVote demo_sdk demo_net demo_process ?rq s (eng demo_y1, w) = Some (submit_release ''E'' demo_sub e',
      httpWriteJSON demo_net (DReceipt (VoteID_String (v_ID demo_vote)) ''accepted'') w)" for s w
    by (simp add: newVote_def e1 demo_process_def demo_vote_request)
  have route: "\<exists>w'. routeHTTP demo_sdk demo_net demo_process demo_api ?rq s (eng demo_y1, w) = Some (submit_release ''E'' demo_sub e', w') \<and>
      w_Status w' = 200" if "w_Status w = 0" for s w
  proof -
    have "w_Status (httpWriteJSON demo_net (DReceipt (VoteID_String (v_ID demo_vote)) ''accepted'') w) = 200"
      by (rule JSON_status[OF that]) (simp add: demo_net_def)
    then show ?thesis by (simp add: routeHTTP_def vote_route vote)
  qed
  have "\<exists>e' w'. loggedCall redact body (routeHTTP demo_sdk demo_net demo_process demo_api) ?rq [] (eng demo_y1, fresh_writer) = Some (e', w') \<and>
      w_Status w' = 200" for redact body
    using route[of "logline (LRequest (rq_Method ?rq) (rq_URL ?rq) body) (fresh_writer\<lparr>w_wrapped := Some (0, redact)\<rparr>)" "[]"]
    by (auto simp: loggedCall_def Let_def)
  then show ?thesis by (auto simp: serve_def loggingMiddleware_def demo_process_def LimitReader_def demo_request_def maxRequestBodyLog_def
        split: prod.splits)
qed

theorem requests_are_steps_witness:
  "\<exists>e' w' y'. serve demo_sdk demo_net demo_process demo_api (demo_request ''POST'' VotesEndpoint) (eng demo_y1, fresh_writer) = Some (e', w') \<and>
     eng y' = e' \<and> reachable demo_sdk y'"
proof -
  obtain e' w' where r: "serve demo_sdk demo_net demo_process demo_api (demo_request ''POST'' VotesEndpoint) (eng demo_y1, fresh_writer) = Some (e', w')"
    using demo_submitted by blast
  from requests_are_steps[OF demo_y1_reachable demo_snapshots demo_counter r] r show ?thesis by blast
qed

text \<open>
  C11. A submitted vote gets the answer 200 exactly when it was put in the log by this request,
  with the address and the ballot submitted, where no vote of its ID was before. Every other
  answer is 400, 404, 409 or 500, and then the log and all else that is stored are as before.
\<close>

theorem receipt_means_logged:
  fixes y :: "('b, 'v, 'st) system"
  assumes "reachable k y" and restore: "snapshots_restore k" and room: "\<And>eid. counter (store (eng y)) eid + 1 \<noteq> 0"
    and ok: "\<And>d. isOk (marshal n d)" and w: "w_Status w = 0"
    and route: "rq_Method rq = ''POST''" "Find n ''POST'' (routePath rq) = VotesEndpoint"
    and run: "serve k n m a rq (eng y, w) = Some (e', w')"
  shows "(w_Status w' = 200 \<longrightarrow> (\<exists>eid sub v. electionIDFromURL n rq = Inr eid \<and> httpReadJSON rq (decode_vote n) = Inr sub \<and>
      vote_at (store (eng y)) eid (sub_VoteID sub) = None \<and> vote_at (store e') eid (sub_VoteID sub) = Some v \<and>
      v_Address v = sub_Address sub \<and> v_Ballot v = sub_Ballot sub)) \<and>
    (w_Status w' \<noteq> 200 \<longrightarrow> w_Status w' \<in> {400, 404, 409, 500} \<and> artifact_at (store e') = artifact_at (store (eng y)))"
proof -
  have inv: "sys_inv k y" using reachable_inv[OF assms(1) restore] .
  from logging_run[OF run[unfolded serve_def]] show ?thesis
  proof (elim disjE exE conjE)
    fix w1 w2 assume "routeHTTP k n m a rq [] (eng y, w1) = Some (e', w2)" "w_Status w1 = w_Status w" "w_Status w' = w_Status w2"
    then have "newVote k n m rq [] (eng y, w1) = Some (e', w2)" "w_Status w1 = 0" and w': "w_Status w' = w_Status w2"
      using route w by (simp_all add: routeHTTP_def vote_route)
    from newVote_answer[OF inv restore room ok this(2,1)] show ?thesis by (auto simp: w')
  qed (use w in simp)
qed

theorem receipt_means_logged_witness:
  "\<exists>e' w'. serve demo_sdk demo_net demo_process demo_api (demo_request ''POST'' VotesEndpoint) (eng demo_y1, fresh_writer) = Some (e', w') \<and>
     (\<exists>v. vote_at (store e') ''E'' (sub_VoteID demo_sub) = Some v)"
proof -
  have ok: "isOk (marshal demo_net d)" for d by (simp add: demo_net_def)
  obtain e' w' where r: "serve demo_sdk demo_net demo_process demo_api (demo_request ''POST'' VotesEndpoint) (eng demo_y1, fresh_writer) = Some (e', w')"
    and w': "w_Status w' = 200" using demo_submitted by blast
  show ?thesis
    using receipt_means_logged[OF demo_y1_reachable demo_snapshots demo_counter ok fresh_writer_simps(1) _ _ r] r w' by (auto simp: demo_vote_request)
qed



end
