(* ===== verification/Client_Properties.thy ===== *)
theory Client_Properties
  imports Keywarden_Key Command_Laws Api_Properties
begin

text \<open>
  The exchange between the keywarden and the service, and the start of the process.
\<close>

lemma handler_gets_key:
  assumes req: "keyRequest tr c i key = Inr req"
    and json: "\<And>s body. print_key tr s = Inr body \<Longrightarrow> decode_key n (LimitReader (body, False) maxRequestBody) = Inr s"
    and body: "rq_Body rq = (hr_Body req, False)" and eid: "electionIDFromURL n rq = Inr eid"
  shows "\<exists>w'. decryptionKey k n m rq subject (e, w) = Some (snd (SubmitDecryptionKey k (now_of m) e subject eid key), w')"
proof -
  obtain b where "print_key tr (''0x'' @ Text16 key) = Inr b" "hr_Body req = b"
    using req by (auto simp: keyRequest_def auth_def Let_def)
  then have "httpReadJSON rq (decode_key n) = Inr (''0x'' @ Text16 key)" using json body by (simp add: httpReadJSON_def)
  then show ?thesis using eid SetString16_Text16[of key]
    by (cases "SubmitDecryptionKey k (now_of m) e subject eid key") (auto simp: decryptionKey_def writeElection_def split: sum.splits)
qed


definition demo_transport :: transport where
  "demo_transport = \<lparr>validURL = (\<lambda>_. True), Do = (\<lambda>n _. Inr \<lparr>StatusCode = (if n = 1 then 202 else 200), resp_Body = []\<rparr>),
     read_election = (\<lambda>_. Inr \<lparr>ke_ID = ''45'', ke_Status = ''results'', ke_FinalizeError = []\<rparr>),
     read_encrypted = (\<lambda>_. Inr (''45'', [])),
     read_results = (\<lambda>_. Inr \<lparr>rr_ElectionID = ''45'', rr_Tally = [3], rr_ProgramVK = [], rr_RootCVadcopFinal = [], rr_PublicValues = [], rr_ProofBytes = []\<rparr>),
     print_key = (\<lambda>s. if s = ''0x7'' then Inr ''{}'' else Inl []), kw_clock = (\<lambda>n. int n)\<rparr>"

definition plain_loglib :: "(int \<times> nat list) loglib" where
  "plain_loglib = \<lparr>DebugLevel = 0, InfoLevel = 1, WarnLevel = 2, ErrorLevel = 3, FatalLevel = 4, TimeFormatUnixMs = ''UNIXMS'',
     zl_New = (\<lambda>_. (- 1, [])), WithTimestamp = id, WithCaller = id, zl_Level = (\<lambda>lg l. (l, snd lg)), GetLevel = fst,
     zl_Hook = (\<lambda>lg h. (fst lg, snd lg @ [h])), zl_hooks = snd, zl_enabled = (\<lambda>lg l. fst lg \<le> l), zl_exits = (\<lambda>l. l = 4),
     Sprint = (\<lambda>_. []), Sprintf = (\<lambda>t _. t), Stack = []\<rparr>"

lemma plain_loglib_ok: "loglib_ok plain_loglib"
  by (simp add: loglib_ok_def plain_loglib_def)

definition demo_logging :: "(int \<times> nat list) logging" where
  "demo_logging = \<lparr>logger = (3, []), panicOnInvalidChars = False, openFiles = [], testTime = False, TimeFieldFormat = [],
     CallerSkipFrameCount = 2, CallerMarshalFunc = None, hook_objs = [], timers = [], sent = [], exited = False\<rparr>"

definition demo_kwenv :: "(nat, int \<times> nat list) kwenv" where
  "demo_kwenv = \<lparr>GenerateKey = Inr (7, 7), Point = (\<lambda>v. (int v, 1)),
     print_keyFile = (\<lambda>kf. if kf = newKeyFile (7, 1) 7 then Inr ''k'' else Inl []), read_keyFile = (\<lambda>_. Inr (newKeyFile (7, 1) 7)),
     print_results = (\<lambda>_. Inr ''r''), write_fault = (\<lambda>_. None), read_fault = (\<lambda>_. None),
     kw_log = plain_loglib, kw_http = demo_transport\<rparr>"

definition demo_kwproc :: "(int \<times> nat list) kwproc" where
  "demo_kwproc = \<lparr>kp_files = (\<lambda>_. None), kp_out = [], kp_err = [], kp_log = demo_logging\<rparr>"

lemma demo_key: "''0x'' @ Text16 7 = ''0x7''"
  by (simp add: Text16_def hexString.simps hexDigit_def)

lemma demo_wait: "\<exists>res. WaitForResults demo_transport c i interval timeout 2 = Some (Inr res)"
  by (subst WaitForResults_def, subst waitLoop.simps)
    (simp add: waitRound_def kw_Election_def kw_Results_def get_def demo_transport_def StatusResults_name_def)

lemma demo_keygen: "\<exists>p1. keygen demo_kwenv ''f'' demo_kwproc = (Inr (), p1) \<and> kp_files p1 ''f'' = Some ''k''"
  by (simp add: keygen_def demo_kwenv_def WriteFile_def Let_def)

lemma demo_submit: "\<exists>p2. kw_submit demo_kwenv c i t 7 p = (Inr (), p2)"
  using demo_key by (simp add: kw_submit_def kw_SubmitDecryptionKey_def keyRequest_def kw_EncryptedResults_def get_def demo_kwenv_def demo_transport_def Let_def)

lemma demo_finalize:
  assumes "kp_files p1 ''f'' = Some ''k''"
  shows "\<exists>p3. kw_finalize demo_kwenv ''f'' url tok ''45'' t p1 = Some (Inr (), p3)"
proof -
  have "releasedKey demo_kwenv ''f'' p1 = Inr 7" using assms SetString16_trim0x[of 7]
    by (simp add: releasedKey_def ReadFile_def demo_kwenv_def newKeyFile_def)
  moreover obtain p2 where "kw_submit demo_kwenv (NewClient url tok) ''45'' t 7 p1 = (Inr (), p2)" using demo_submit by blast
  moreover obtain res where "WaitForResults (kw_http demo_kwenv) (NewClient url tok) ''45'' resultsPollInterval t 2 = Some (Inr res)"
    using demo_wait by (fastforce simp: demo_kwenv_def)
  moreover have "print_results demo_kwenv res = Inr ''r''" by (simp add: demo_kwenv_def)
  ultimately show ?thesis by (simp add: kw_finalize_def Let_def)
qed


text \<open>
  C39. A keywarden that waits for results always gets an answer once the clock has passed its
  deadline, and when that answer is results, they are what the server returned right after it
  reported the election as finished.
\<close>

theorem wait_for_results:
  assumes "\<And>t. \<exists>n0. \<forall>n \<ge> n0. t < kw_clock tr n"
  shows "\<exists>r. WaitForResults tr c i interval timeout n = Some r \<and>
    (\<forall>res. r = Inr res \<longrightarrow> (\<exists>j el. n \<le> j \<and> kw_Election tr c i j = Inr el \<and> ke_Status el = ''results'' \<and>
      kw_Results tr c i (j + 1) = Inr res))"
proof -
  let ?d = "kw_clock tr n + timeout"
  obtain n0 where "\<forall>n \<ge> n0. ?d - interval < kw_clock tr n" using assms by blast
  then have "\<exists>n0. \<forall>n \<ge> n0. ?d < kw_clock tr n + interval" by (intro exI[of _ n0]) (auto simp: algebra_simps)
  from waitLoop_returns[OF this, of c i 0 n] obtain r where "waitLoop tr c i interval ?d 0 n = Some r" by blast
  moreover from waitLoop_finished[OF this] have "got_results tr c i n r" .
  ultimately show ?thesis by (auto simp: WaitForResults_def got_results_def StatusResults_name_def)
qed

theorem wait_for_results_witness: "\<exists>r. WaitForResults demo_transport (NewClient [] []) ''45'' 1 10 0 = Some r"
proof -
  have "t < kw_clock demo_transport n" if "nat t + 1 \<le> n" for t n using that by (simp add: demo_transport_def)
  then have "\<exists>n0. \<forall>n \<ge> n0. t < kw_clock demo_transport n" for t by blast
  from wait_for_results[OF this, where c = "NewClient [] []" and i = "''45''" and interval = 1 and timeout = 10 and n = 0] show ?thesis by blast
qed


text \<open>A command line that gives the secret and a batch size; every other setting is the default.\<close>

definition demo_cmdenv :: cmdenv where
  "demo_cmdenv = \<lparr>UserHomeDir = Inr ''/root'', flag_Parse = (\<lambda>_. None), BindPFlags = (\<lambda>_. Inr ()),
     Settings = (\<lambda>_ _ flags. Inr (\<lambda>key. case find (\<lambda>f. flag_Name f = key) flags of
         None \<Rightarrow> FString []
       | Some f \<Rightarrow> if key = ''api.jwtSecret'' then FString ''s'' else if key = ''batch.size'' then FInt 2 else flag_Default f)),
     TypePebble = ''pebble''\<rparr>"

lemma demo_loadConfig:
  "loadConfig demo_cmdenv = Inr (Inr ((defaultConfig ''s'' (defaultDatadirPath demo_cmdenv))\<lparr>cfg_Batch := \<lparr>batch_Size = 2, batch_Time = 5 * minute\<rparr>\<rparr>))"
proof -
  obtain d where d: "defaultDatadirPath demo_cmdenv = d" by simp
  show ?thesis unfolding loadConfig_def d Let_def
    by (simp add: demo_cmdenv_def config_flags_def configOf_def defaultConfig_def cmd_defaults)
qed


end
