(* ===== verification/Spec2Isabelle.thy ===== *)
theory Spec2Isabelle
  imports Storage_Properties Retry Worker_Laws Validation_Laws Engine_Laws System_Properties System_Status
    Engine_Properties Scheduler_Properties Client_Properties
begin

text \<open>
  \<^bold>\<open>A verification of davinci-fold.\<close>

  The program is the orchestrator of folded voting proofs. Voters submit encrypted ballots
  over HTTP; the engine checks each submission, keeps the votes in a log, seals them in batches
  that it applies to a state tree, and hands the batches to remote provers. A scheduler has the
  batches proved, folds the proofs into one chain per election on one of the provers, and at the
  end of an election has the final proof made with the decryption key the keywarden submits,
  checks it and stores the results. Everything that has to survive a crash is in a key-value
  database.

  \<^bold>\<open>Parts, and the theories that model them.\<close> A definition has the name of the function it
  models, with a prefix (\<open>store_\<close>, \<open>engine_\<close>, \<open>api_\<close>, \<open>kw_\<close>, \<open>WM_\<close>) where packages share a
  name; a loop, a locked region or a closure that is a definition of its own is described where
  it is declared.

  \<^item> Prelude, Types, Bytes, Sha256: errors as chains of sentinels, the ordered key-value list, the
    records of src/types, hexadecimal, decimal and big-endian encodings, src/crypto, SHA-256 of
    the standard library (worker IDs).
  \<^item> Artifacts, Storage: package src/storage. Artifacts has the keys, the codec and the database
    with its transactions; Storage has every operation. A database write may be refused: \<open>faults\<close>
    lists which. Storage\_Laws says what each operation writes, Vote\_Log has the operations as a
    datatype \<open>store_op\<close> with their writes as specification, Storage\_Properties the properties.
  \<^item> Retry: src/orchestrator/retry.go.
  \<^item> Workers, Worker\_Laws: src/workers. A worker is a handle into a list, since the source
    compares pointers; \<open>pool_step\<close> interleaves the atomic operations of the pool.
  \<^item> Sdk, Validation, Validation\_Laws: config.go, census.go, snarkjs.go and validate.go of
    src/orchestrator. Sample\_Sdk is a small instance of the parameters for the witnesses.
  \<^item> Engine\_State, Seal, Ingest, Lifecycle, Engine\_Ops: engine.go, seal.go, ingest.go,
    lifecycle.go and dispatch.go. Seal\_Laws, Runtime\_Inv, Engine\_Laws and Recovery have the
    lemmas on sealing, on the runtime of an election, on the operations and on the restore.
  \<^item> System: the engine as a concurrent system, \<open>sys_step\<close>, with one step per locked region or
    storage transaction, the scheduler's writes and a restart after a crash at any point.
    System\_Inv, System\_Steps and System\_Restart prove its invariant by rule induction,
    System\_Status the lifecycle, System\_Batches that batches and votes are never lost;
    System\_Properties and Engine\_Properties hold the properties. Sample\_Run is a run for the
    witnesses.
  \<^item> Acts, Scheduler, Fold\_Chain, Passes: scheduler.go, scatter.go and finalize.go. A pass is an
    action that yields to the other goroutines before each access to shared state. Run\_Logic is
    the locale of the rules for such actions, Run\_Invariant and Scheduler\_Steps interpret it on
    the scheduler, Job\_Laws and Finalize\_Laws have the jobs and the final proof, Drain\_Laws what
    a drain needs of the rest of the system, Scheduler\_Properties the properties and Sample\_Pass a
    run for their witnesses.
  \<^item> Http, Api: src/api. Http has the response writer, the errors, logging and authentication,
    Api the handlers and the routes; Api\_Laws and Api\_Properties the lemmas and properties.
  \<^item> Paths, Logging, Logging\_Laws: src/log, with the paths of log callers and of the data
    directory.
  \<^item> Keywarden: src/keywarden. Keywarden\_Cmd, Keywarden\_Key: src/cmd/test-keywarden, with the way
    of its key from generation to release.
  \<^item> Service: src/service. Command, Command\_Laws: src/cmd/davinci-fold, from the flags to the
    running services and their stop. Client\_Properties: the exchange of the key, the wait for
    results, the start of the process.

  \<^bold>\<open>What the properties show.\<close> Storage: keys do not collide, the database refines a map of
  artifacts, multi-key writes are atomic, votes only move forward. Engine, in every reachable
  state and across crashes: batches partition the batched votes, the memory of an election
  agrees with its log, a restart rebuilds it, statuses follow the documented lifecycle, sealing
  ends, one vote is submitted once. Validation: an accepted vote is bound to its proof,
  signature, census leaf and ballot; refused votes are found by bisection exactly as one by one;
  stored documents are canonical. Scheduler: a pass beside anything else that runs is an
  interleaving of steps of the system, with the fold chain in order; a drain that
  returns without an error has folded every batch sealed before it; results are published only
  after every check of the final digest and proof. Pool and retries: claims are counted and
  exclusive, wakeups are not lost, bans and delays last their time. HTTP: only authorized requests
  change anything but votes, a request is steps of the system, a receipt means a logged vote,
  keys are not logged. Commands: the key a keywarden generates is the one the engine checks and
  it passes that check, a wait for results ends, a valid configuration gives a running process.

  \<^bold>\<open>Parameters.\<close> Code that is not part of the repository is an argument: \<open>codec\<close> (CBOR, assumed
  to decode what it encoded), \<open>sdk\<close> (davinci-zkvm, gnark, curves, JSON of stored documents), \<open>env\<close>
  (the answers of provers, SDK functions on proofs, the clock, the context, Go's map order, and
  what the other goroutines do at each yield), \<open>net\<close> (chi, jwt, URL and JSON of the API),
  \<open>transport\<close> (the HTTP exchanges of the keywarden), \<open>loglib\<close> (zerolog, formatting), \<open>kwenv\<close> (key
  generation, JSON and files of test-keywarden) and \<open>cmdenv\<close> (pflag, viper). What a property needs of them is among its
  hypotheses: \<open>codec_ok\<close>, \<open>json_ok\<close>, \<open>snapshots_restore\<close> (a snapshot restores to the state it was
  taken of), \<open>applies_in_order\<close>, \<open>rely\<close> (the others make steps of the system), \<open>jwt_ok\<close>,
  \<open>loglib_ok\<close>. Times
  are integers of nanoseconds given to each operation.

  \<^bold>\<open>Bounds and loops.\<close> Counters are 64-bit words; the properties on vote numbers assume that the
  vote counter of an election has not reached its last value. Loops with a bound are recursive
  functions with a measure; loops that end for other reasons are \<open>partial_function (option)\<close>,
  where \<open>None\<close> is a loop that does not end, and it is proved that the sealing loops, \<open>Acquire\<close>,
  the wait for a job and the wait for results return. No fuel is used.

  \<^bold>\<open>Simplifications.\<close> The text of a formatted error is its fixed part. The goroutine that proves a
  batch runs when the pass waits for it; its effects on shared state are the same accesses with
  the same yields. Log lines are modelled in the API and the
  two commands only. A handler of the API runs its engine
  call without yields of its own, the parts of a vote submission excepted in \<open>sys_step\<close>.

  \<^bold>\<open>Not modelled.\<close> The delivery of signals, the listening socket of the HTTP server with its
  timeouts, CORS and throttling (library middleware), the HTTP client of the prover workers (its
  calls are the answers in \<open>env\<close>), and src/tests/helpers: a fake prover, a client and containers for the integration
  tests, which run beside the program and are not part of it.
\<close>

end
